(* ===== verification/Py_Values.thy ===== *)
theory Py_Values
  imports Complex_Main "HOL-Library.AList" "HOL-Library.Monad_Syntax"
begin

text \<open>
  The values the modelled Python code computes with, and the operations of the language and its
  standard library it uses: dynamic values, insertion-ordered dictionaries, truth values,
  \<open>int()\<close> and \<open>float()\<close> with their failures, and the string methods.

  A float is an exact rational: rounding, infinities and NaN are outside the model. A character is
  one HOL \<open>char\<close>, so the text of the model is Latin-1; a message of the source that is written in
  Chinese is rendered in English, the same rendering everywhere, and no modelled condition depends
  on which language it is in.
\<close>

named_theorems py_dict \<open>lookups in built and patched dictionaries\<close>
named_theorems py_conv \<open>truth values and numeric conversions\<close>

subsection \<open>Values\<close>

datatype pyval =
    PNone
  | PBool bool
  | PInt int
  | PFloat rat
  | PStr string
  | PList "pyval list"
  | PDict "(string \<times> pyval) list"

type_synonym pydict = "(string \<times> pyval) list"

text \<open>\<open>isinstance(v, dict)\<close> and \<open>isinstance(v, list)\<close>.\<close>

fun is_dict :: "pyval \<Rightarrow> bool" where
  "is_dict (PDict d) = True"
| "is_dict v = False"

fun is_list :: "pyval \<Rightarrow> bool" where
  "is_list (PList xs) = True"
| "is_list v = False"

fun dict_of :: "pyval \<Rightarrow> pydict" where
  "dict_of (PDict d) = d"
| "dict_of v = []"

fun list_of :: "pyval \<Rightarrow> pyval list" where
  "list_of (PList xs) = xs"
| "list_of v = []"

text \<open>Timestamps and counters: a float or \<open>None\<close>, an integer, an integer or \<open>None\<close>.\<close>

fun is_time :: "pyval \<Rightarrow> bool" where
  "is_time PNone = True" | "is_time (PFloat q) = True" | "is_time v = False"

fun is_count :: "pyval \<Rightarrow> bool" where
  "is_count (PInt i) = True" | "is_count v = False"

fun is_count_from :: "int \<Rightarrow> pyval \<Rightarrow> bool" where
  "is_count_from n (PInt i) = (n \<le> i)" | "is_count_from n v = False"

fun is_opt_count :: "pyval \<Rightarrow> bool" where
  "is_opt_count PNone = True" | "is_opt_count (PInt i) = True" | "is_opt_count v = False"

text \<open>\<open>bool(v)\<close>.\<close>

fun truthy :: "pyval \<Rightarrow> bool" where
  "truthy PNone = False"
| "truthy (PBool b) = b"
| "truthy (PInt i) = (i \<noteq> 0)"
| "truthy (PFloat q) = (q \<noteq> 0)"
| "truthy (PStr s) = (s \<noteq> [])"
| "truthy (PList xs) = (xs \<noteq> [])"
| "truthy (PDict d) = (d \<noteq> [])"

text \<open>\<open>a or b\<close>: the first operand when it is true, the second otherwise.\<close>

definition py_or :: "pyval \<Rightarrow> pyval \<Rightarrow> pyval" where
  "py_or a b = (if truthy a then a else b)"

text \<open>An optional argument of a function as a value.\<close>

fun of_opt :: "('a \<Rightarrow> pyval) \<Rightarrow> 'a option \<Rightarrow> pyval" where
  "of_opt f None = PNone"
| "of_opt f (Some x) = f x"

subsection \<open>Dictionaries\<close>

text \<open>\<open>d.get(k)\<close>, \<open>d.get(k, v)\<close>, \<open>k in d\<close>, \<open>d[k] = v\<close>, \<open>d.pop(k, None)\<close>, \<open>d.update(e)\<close>.\<close>

definition dget :: "pydict \<Rightarrow> string \<Rightarrow> pyval" where
  "dget d k = (case map_of d k of None \<Rightarrow> PNone | Some v \<Rightarrow> v)"

definition dget_or :: "pydict \<Rightarrow> string \<Rightarrow> pyval \<Rightarrow> pyval" where
  "dget_or d k v = (case map_of d k of None \<Rightarrow> v | Some w \<Rightarrow> w)"

definition dhas :: "pydict \<Rightarrow> string \<Rightarrow> bool" where
  "dhas d k \<longleftrightarrow> map_of d k \<noteq> None"

definition dset :: "pydict \<Rightarrow> string \<Rightarrow> pyval \<Rightarrow> pydict" where
  "dset d k v = AList.update k v d"

definition dpop :: "pydict \<Rightarrow> string \<Rightarrow> pydict" where
  "dpop d k = AList.delete k d"

fun dupdate :: "pydict \<Rightarrow> pydict \<Rightarrow> pydict" where
  "dupdate d [] = d"
| "dupdate d ((k, v) # e) = dupdate (dset d k v) e"

text \<open>
  The loop every store of the program applies a patch with: a key whose new value is \<open>None\<close> is
  popped, any other is assigned.
\<close>

fun merge_patch :: "pydict \<Rightarrow> pydict \<Rightarrow> pydict" where
  "merge_patch m [] = m"
| "merge_patch m ((k, v) # p) = merge_patch (if v = PNone then dpop m k else dset m k v) p"

lemma map_of_dset [simp]: "map_of (dset d k v) = (map_of d)(k \<mapsto> v)"
  by (simp add: dset_def update_conv')

lemma map_of_dpop [simp]: "map_of (dpop d k) = (map_of d)(k := None)"
  by (simp add: dpop_def delete_conv')

lemma dget_Nil [simp, py_dict]: "dget [] k = PNone"
  by (simp add: dget_def)

lemma dget_Cons [simp, py_dict]: "dget ((k', v) # d) k = (if k = k' then v else dget d k)"
  by (auto simp: dget_def)

lemma dget_dset [simp, py_dict]: "dget (dset d k v) k' = (if k' = k then v else dget d k')"
  by (simp add: dget_def)

lemma dget_dpop [simp, py_dict]: "dget (dpop d k) k' = (if k' = k then PNone else dget d k')"
  by (simp add: dget_def)

lemma dget_or_Nil [simp, py_dict]: "dget_or [] k v = v"
  by (simp add: dget_or_def)

lemma dget_or_Cons [simp, py_dict]:
  "dget_or ((k', w) # d) k v = (if k = k' then w else dget_or d k v)"
  by (auto simp: dget_or_def)

lemma dget_or_dset [simp, py_dict]:
  "dget_or (dset d k v) k' w = (if k' = k then v else dget_or d k' w)"
  by (simp add: dget_or_def)

lemma dget_or_dpop [simp, py_dict]:
  "dget_or (dpop d k) k' w = (if k' = k then w else dget_or d k' w)"
  by (simp add: dget_or_def)

lemma dhas_Nil [simp, py_dict]: "\<not> dhas [] k"
  by (simp add: dhas_def)

lemma dhas_Cons [simp, py_dict]: "dhas ((k', v) # d) k \<longleftrightarrow> k = k' \<or> dhas d k"
  by (auto simp: dhas_def)

lemma dhas_dset [simp, py_dict]: "dhas (dset d k v) k' \<longleftrightarrow> k' = k \<or> dhas d k'"
  by (auto simp: dhas_def)

lemma dhas_dpop [simp, py_dict]: "dhas (dpop d k) k' \<longleftrightarrow> k' \<noteq> k \<and> dhas d k'"
  by (auto simp: dhas_def)

lemma dget_not_dhas: "\<not> dhas d k \<Longrightarrow> dget d k = PNone"
  by (auto simp: dhas_def dget_def)

lemma dget_dupdate:
  "dget (dupdate d e) k = (case map_of (rev e) k of None \<Rightarrow> dget d k | Some v \<Rightarrow> v)"
  by (induction d e rule: dupdate.induct) (auto simp: map_add_def split: option.splits)

text \<open>What a patch does to a key: its last entry wins, a key it does not name is untouched.\<close>

lemma dget_merge_patch:
  "dget (merge_patch m p) k = (case map_of (rev p) k of None \<Rightarrow> dget m k | Some v \<Rightarrow> v)"
  by (induction m p rule: merge_patch.induct) (auto simp: map_add_def split: option.splits)

lemma dget_or_merge_patch:
  "dget_or (merge_patch m p) k w =
     (case map_of (rev p) k of None \<Rightarrow> dget_or m k w
      | Some v \<Rightarrow> (if v = PNone then w else v))"
  by (induction m p rule: merge_patch.induct) (auto simp: map_add_def split: option.splits)

lemma dget_merge_patch_other: "k \<notin> fst ` set p \<Longrightarrow> dget (merge_patch m p) k = dget m k"
  by (simp add: dget_merge_patch map_of_eq_None_iff [THEN iffD2])

lemma dget_or_merge_patch_other:
  "k \<notin> fst ` set p \<Longrightarrow> dget_or (merge_patch m p) k w = dget_or m k w"
  by (simp add: dget_or_merge_patch map_of_eq_None_iff [THEN iffD2])

lemma map_of_rev_distinct: "distinct (map fst xs) \<Longrightarrow> map_of (rev xs) = map_of xs"
proof (induction xs)
  case Nil
  then show ?case by simp
next
  case (Cons x xs)
  then have "map_of xs (fst x) = None" by (auto simp: map_of_eq_None_iff)
  with Cons show ?case by (cases x) (auto simp: fun_eq_iff map_add_def split: option.splits)
qed

lemma distinct_dset [simp]: "distinct (map fst d) \<Longrightarrow> distinct (map fst (dset d k v))"
  by (simp add: dset_def distinct_update)

lemma distinct_dpop [simp]: "distinct (map fst d) \<Longrightarrow> distinct (map fst (dpop d k))"
  by (simp add: dpop_def distinct_delete)

lemma distinct_dupdate: "distinct (map fst d) \<Longrightarrow> distinct (map fst (dupdate d e))"
  by (induction d e rule: dupdate.induct) simp_all

lemma distinct_merge_patch: "distinct (map fst m) \<Longrightarrow> distinct (map fst (merge_patch m p))"
  by (induction m p rule: merge_patch.induct) simp_all

lemma keys_dset [simp]: "fst ` set (dset d k v) = insert k (fst ` set d)"
  using map_of_dset [of d k v] by (metis dom_fun_upd dom_map_of_conv_image_fst option.distinct(1))

lemma keys_dpop [simp]: "fst ` set (dpop d k) = fst ` set d - {k}"
  using map_of_dpop [of d k] by (metis dom_fun_upd dom_map_of_conv_image_fst)

lemma dget_or_dget: "dget d k \<noteq> PNone \<Longrightarrow> dget_or d k v = dget d k"
  by (auto simp: dget_def dget_or_def split: option.splits)

lemma dget_or_absent: "dget d k = PNone \<Longrightarrow> dget_or d k v \<in> {PNone, v}"
  by (auto simp: dget_def dget_or_def split: option.splits)

lemma dget_filter_other:
  "(\<And>v. (k, v) \<in> set d \<Longrightarrow> P (k, v) \<or> v = PNone) \<Longrightarrow> distinct (map fst d) \<Longrightarrow>
     dget (filter P d) k = dget d k"
proof (induction d)
  case Nil
  then show ?case by simp
next
  case (Cons x d)
  obtain j v where x: "x = (j, v)" by (cases x)
  have IH: "dget (filter P d) k = dget d k"
    using Cons by (intro Cons.IH) auto
  show ?case
  proof (cases "j = k")
    case True
    with Cons.prems x have nk: "map_of d k = None" by (auto simp: map_of_eq_None_iff)
    then have "dget d k = PNone" by (simp add: dget_def)
    with True x IH Cons.prems(1) [of v] show ?thesis by auto
  next
    case False
    with x IH show ?thesis by auto
  qed
qed

lemma dget_map_of: "map_of d k = Some v \<Longrightarrow> dget d k = v"
  by (simp add: dget_def)

text \<open>A patch leaves no \<open>None\<close> behind: afterwards \<open>None\<close> is read only where the key is absent.\<close>

lemma merge_patch_no_None:
  "(\<forall>k. map_of m k \<noteq> Some PNone) \<Longrightarrow> map_of (merge_patch m p) k \<noteq> Some PNone"
  by (induction m p rule: merge_patch.induct) auto

lemma merge_patch_idem:
  "dget (merge_patch (merge_patch m p) p) k = dget (merge_patch m p) k"
  by (simp add: dget_merge_patch split: option.splits)

subsection \<open>Strings\<close>

text \<open>The characters \<open>str.strip\<close> removes, \<open>str.lower\<close> on ASCII letters, and the tests used.\<close>

definition is_space :: "char \<Rightarrow> bool" where
  "is_space c \<longleftrightarrow> (let n = (of_char c :: nat) in n = 32 \<or> (9 \<le> n \<and> n \<le> 13) \<or> (28 \<le> n \<and> n \<le> 31) \<or> n = 133 \<or> n = 160)"

definition lstrip :: "string \<Rightarrow> string" where
  "lstrip s = dropWhile is_space s"

definition strip :: "string \<Rightarrow> string" where
  "strip s = rev (dropWhile is_space (rev (lstrip s)))"

definition lower_char :: "char \<Rightarrow> char" where
  "lower_char c = (let n = (of_char c :: nat) in if 65 \<le> n \<and> n \<le> 90 then char_of (n + 32) else c)"

definition lower :: "string \<Rightarrow> string" where
  "lower s = map lower_char s"

fun starts_with :: "string \<Rightarrow> string \<Rightarrow> bool" where
  "starts_with s [] = True"
| "starts_with [] (x # xs) = False"
| "starts_with (c # s) (x # xs) = (c = x \<and> starts_with s xs)"

definition ends_with :: "string \<Rightarrow> string \<Rightarrow> bool" where
  "ends_with s t = starts_with (rev s) (rev t)"

text \<open>\<open>t in s\<close>.\<close>

fun contains :: "string \<Rightarrow> string \<Rightarrow> bool" where
  "contains [] t = (t = [])"
| "contains (c # s) t = (starts_with (c # s) t \<or> contains s t)"

lemma starts_with_append: "starts_with s t \<longleftrightarrow> (\<exists>u. s = t @ u)"
  by (induction s t rule: starts_with.induct) auto

lemma starts_with_self_append [simp]: "starts_with (t @ u) t"
  by (auto simp: starts_with_append)

lemma contains_iff: "contains s t \<longleftrightarrow> (\<exists>u v. s = u @ t @ v)"
proof (induction s t rule: contains.induct)
  case (1 t)
  then show ?case by auto
next
  case (2 c s t)
  have "(\<exists>u v. c # s = u @ t @ v) \<longleftrightarrow> (\<exists>v. c # s = t @ v) \<or> (\<exists>u v. s = u @ t @ v)"
    by (metis append_Cons append_Nil neq_Nil_conv list.inject)
  with 2 show ?case by (simp add: starts_with_append)
qed

lemma strip_no_space_ends:
  "strip s \<noteq> [] \<Longrightarrow> \<not> is_space (hd (strip s)) \<and> \<not> is_space (last (strip s))"
proof -
  assume ne: "strip s \<noteq> []"
  let ?t = "lstrip s"
  have last: "\<not> is_space (last (strip s))"
    using ne hd_dropWhile [of is_space "rev ?t"] by (auto simp: strip_def last_rev)
  obtain u where u: "?t = strip s @ u"
    using takeWhile_dropWhile_id [of is_space "rev ?t"]
    by (metis rev_append rev_rev_ident strip_def)
  then have "hd (strip s) = hd ?t" using ne by simp
  moreover have "?t \<noteq> []" using u ne by auto
  ultimately have "\<not> is_space (hd (strip s))"
    using hd_dropWhile [of is_space s] by (simp add: lstrip_def)
  with last show ?thesis by simp
qed

lemma strip_idem [simp]: "strip (strip s) = strip s"
proof (cases "strip s = []")
  case True
  have "strip [] = []" by (simp add: strip_def lstrip_def)
  with True show ?thesis by simp
next
  case False
  with strip_no_space_ends [OF False] have l: "lstrip (strip s) = strip s"
    by (cases "strip s") (auto simp: lstrip_def)
  have "dropWhile is_space (rev (strip s)) = rev (strip s)"
    using strip_no_space_ends [OF False] False
    by (cases "rev (strip s)") (auto simp: last_rev hd_rev [symmetric])
  with l show ?thesis by (metis rev_rev_ident strip_def)
qed

lemma of_char_lower_char:
  "(of_char (lower_char c) :: nat) =
     (let n = of_char c in if 65 \<le> n \<and> n \<le> 90 then n + 32 else n)"
  by (auto simp: lower_char_def Let_def of_char_of)

lemma lower_char_idem [simp]: "lower_char (lower_char c) = lower_char c"
  by (simp add: lower_char_def Let_def of_char_of)

lemma lower_idem [simp]: "lower (lower s) = lower s"
  by (simp add: lower_def)

subsection \<open>Numbers\<close>

definition digit_val :: "char \<Rightarrow> int option" where
  "digit_val c = (let n = (of_char c :: nat) in if 48 \<le> n \<and> n \<le> 57 then Some (int n - 48) else None)"

text \<open>Decimal digits with single underscores between them, as \<open>int()\<close> and \<open>float()\<close> accept.\<close>

fun digits_from :: "int \<Rightarrow> string \<Rightarrow> int option" where
  "digits_from acc [] = Some acc"
| "digits_from acc (c # s) =
     (case digit_val c of
        Some d \<Rightarrow> digits_from (10 * acc + d) s
      | None \<Rightarrow>
          (if c = CHR ''_'' then
             (case s of [] \<Rightarrow> None
              | c' # _ \<Rightarrow> (if digit_val c' = None then None else digits_from acc s))
           else None))"

definition parse_nat :: "string \<Rightarrow> int option" where
  "parse_nat s = (case s of [] \<Rightarrow> None | c # _ \<Rightarrow> if digit_val c = None then None else digits_from 0 s)"

definition split_sign :: "string \<Rightarrow> int \<times> string" where
  "split_sign s = (case s of
      c # t \<Rightarrow> (if c = CHR ''-'' then (-1, t) else if c = CHR ''+'' then (1, t) else (1, s))
    | [] \<Rightarrow> (1, []))"

definition parse_int :: "string \<Rightarrow> int option" where
  "parse_int s = (let (sg, t) = split_sign (strip s) in map_option (\<lambda>n. sg * n) (parse_nat t))"

definition count_digits :: "string \<Rightarrow> nat" where
  "count_digits s = length (filter (\<lambda>c. c \<noteq> CHR ''_'') s)"

definition break_at :: "(char \<Rightarrow> bool) \<Rightarrow> string \<Rightarrow> string \<times> string option" where
  "break_at p s = (takeWhile (\<lambda>c. \<not> p c) s,
     case dropWhile (\<lambda>c. \<not> p c) s of [] \<Rightarrow> None | _ # t \<Rightarrow> Some t)"

definition parse_mantissa :: "string \<Rightarrow> rat option" where
  "parse_mantissa s = (case break_at (\<lambda>c. c = CHR ''.'') s of
      (a, None) \<Rightarrow> map_option of_int (parse_nat a)
    | (a, Some b) \<Rightarrow>
        (if a = [] \<and> b = [] then None
         else Option.bind (if a = [] then Some 0 else parse_nat a) (\<lambda>i.
           Option.bind (if b = [] then Some 0 else parse_nat b) (\<lambda>f.
             Some (of_int i + of_int f / 10 ^ count_digits b)))))"

definition parse_float :: "string \<Rightarrow> rat option" where
  "parse_float s = (let (sg, t) = split_sign (strip s) in
     (case break_at (\<lambda>c. c = CHR ''e'' \<or> c = CHR ''E'') t of
        (m, None) \<Rightarrow> map_option (\<lambda>q. of_int sg * q) (parse_mantissa m)
      | (m, Some e) \<Rightarrow>
          (let (se, et) = split_sign e in
           Option.bind (parse_mantissa m) (\<lambda>q. Option.bind (parse_nat et) (\<lambda>n.
             Some (of_int sg * (if se = 1 then q * 10 ^ nat n else q / 10 ^ nat n)))))))"

text \<open>
  \<open>int(v)\<close> and \<open>float(v)\<close>: \<open>None\<close> where Python raises \<open>TypeError\<close> or \<open>ValueError\<close>. \<open>int\<close> of a float
  truncates towards zero.
\<close>

definition trunc_rat :: "rat \<Rightarrow> int" where
  "trunc_rat q = (if q < 0 then \<lceil>q\<rceil> else \<lfloor>q\<rfloor>)"

fun py_int :: "pyval \<Rightarrow> int option" where
  "py_int (PInt i) = Some i"
| "py_int (PBool b) = Some (if b then 1 else 0)"
| "py_int (PFloat q) = Some (trunc_rat q)"
| "py_int (PStr s) = parse_int s"
| "py_int v = None"

fun py_float :: "pyval \<Rightarrow> rat option" where
  "py_float (PInt i) = Some (of_int i)"
| "py_float (PBool b) = Some (if b then 1 else 0)"
| "py_float (PFloat q) = Some q"
| "py_float (PStr s) = parse_float s"
| "py_float v = None"

text \<open>The idioms \<open>int(v or 0)\<close> and \<open>float(v or 0)\<close>.\<close>

definition int_or0 :: "pyval \<Rightarrow> int option" where
  "int_or0 v = py_int (py_or v (PInt 0))"

definition float_or0 :: "pyval \<Rightarrow> rat option" where
  "float_or0 v = py_float (py_or v (PInt 0))"

lemma truthy_py_or [simp, py_conv]: "truthy (py_or a b) \<longleftrightarrow> truthy a \<or> truthy b"
  by (simp add: py_or_def)

lemma py_or_true [simp, py_conv]: "truthy a \<Longrightarrow> py_or a b = a"
  by (simp add: py_or_def)

lemma py_or_false [simp, py_conv]: "\<not> truthy a \<Longrightarrow> py_or a b = b"
  by (simp add: py_or_def)

lemma int_or0_simps [simp, py_conv]:
  "int_or0 PNone = Some 0"
  "int_or0 (PInt i) = Some i"
  "int_or0 (PBool b) = Some (if b then 1 else 0)"
  by (simp_all add: int_or0_def py_or_def)

lemma float_or0_simps [simp, py_conv]:
  "float_or0 PNone = Some 0"
  "float_or0 (PInt i) = Some (of_int i)"
  "float_or0 (PFloat q) = Some q"
  by (simp_all add: float_or0_def py_or_def)

lemma trunc_rat_of_int [simp]: "trunc_rat (of_int i) = i"
  by (simp add: trunc_rat_def)

text \<open>\<open>str(n)\<close> for an integer.\<close>

fun str_nat :: "nat \<Rightarrow> string" where
  "str_nat n = (if n < 10 then [char_of (48 + n)] else str_nat (n div 10) @ [char_of (48 + n mod 10)])"

declare str_nat.simps [simp del]

definition str_int :: "int \<Rightarrow> string" where
  "str_int i = (if i < 0 then CHR ''-'' # str_nat (nat (- i)) else str_nat (nat i))"

text \<open>
  \<open>str(v or '')\<close> on the values a text field can hold: absent, false and empty values read as the
  empty text, a text as itself. The \<open>str\<close> of a container or a float is not needed by the code and
  reads as a marker that equals no text it compares with.
\<close>

fun str_or_empty :: "pyval \<Rightarrow> string" where
  "str_or_empty (PStr s) = s"
| "str_or_empty (PBool True) = ''True''"
| "str_or_empty (PInt i) = (if i = 0 then '''' else str_int i)"
| "str_or_empty v = (if truthy v then ''<object>'' else '''')"

definition norm_text :: "pyval \<Rightarrow> string" where
  "norm_text v = lower (strip (str_or_empty v))"

end
