(* ===== verification/Pool_Policy.thy ===== *)
theory Pool_Policy
  imports Py_Values
begin

text \<open>
  The cooldown policy of the account pool (\<open>grok2api/pool/account_pool.py\<close>): its constants, the
  policy knobs with their process-local cache, and the adaptive cooldown of a failed request.
  A random draw is an argument in \<open>[-1, 1]\<close>, the clock reading of a call is the argument \<open>now\<close>.
\<close>

subsection \<open>Constants\<close>

definition DEFAULT_COOLDOWN :: rat where "DEFAULT_COOLDOWN = 20"
definition AUTH_COOLDOWN :: rat where "AUTH_COOLDOWN = 90"
definition RATE_LIMIT_COOLDOWN :: rat where "RATE_LIMIT_COOLDOWN = 45"
definition SERVER_ERROR_COOLDOWN :: rat where "SERVER_ERROR_COOLDOWN = 20"
definition SOFT_MODEL_BLOCK_TTL :: rat where "SOFT_MODEL_BLOCK_TTL = 180"
definition DURABLE_MODEL_BLOCK_TTL :: rat where "DURABLE_MODEL_BLOCK_TTL = 3600"
definition MAX_FAILOVER_ATTEMPTS :: int where "MAX_FAILOVER_ATTEMPTS = 4"
definition COOLDOWN_MAX :: rat where "COOLDOWN_MAX = 600"
definition COOLDOWN_JITTER_RATIO :: rat where "COOLDOWN_JITTER_RATIO = 15 / 100"
definition PROBE_FAIL_KICK_STREAK :: int where "PROBE_FAIL_KICK_STREAK = 2"
definition PROBE_FAIL_DISABLE_STREAK :: int where "PROBE_FAIL_DISABLE_STREAK = 4"
definition PROBE_KICK_COOLDOWN_SEC :: rat where "PROBE_KICK_COOLDOWN_SEC = 600"
definition FREE_USAGE_COOLDOWN_BASE_SEC :: rat where "FREE_USAGE_COOLDOWN_BASE_SEC = 900"
definition FREE_USAGE_COOLDOWN_MAX_SEC :: rat where "FREE_USAGE_COOLDOWN_MAX_SEC = 3600"
definition FREE_USAGE_STACK_MAX :: int where "FREE_USAGE_STACK_MAX = 4"
definition FREE_USAGE_RESTACK_MIN_SEC :: rat where "FREE_USAGE_RESTACK_MIN_SEC = 30"
definition PROBE_ONLY_COOLDOWN_RECOVERY :: bool where "PROBE_ONLY_COOLDOWN_RECOVERY = True"
definition PROBE_HOLD_COOLDOWN_SEC :: rat where "PROBE_HOLD_COOLDOWN_SEC = 365 * 24 * 3600"
definition POLICY_CACHE_TTL :: rat where "POLICY_CACHE_TTL = 5"

lemmas pool_constants =
  DEFAULT_COOLDOWN_def AUTH_COOLDOWN_def RATE_LIMIT_COOLDOWN_def SERVER_ERROR_COOLDOWN_def
  SOFT_MODEL_BLOCK_TTL_def DURABLE_MODEL_BLOCK_TTL_def MAX_FAILOVER_ATTEMPTS_def COOLDOWN_MAX_def
  COOLDOWN_JITTER_RATIO_def PROBE_FAIL_KICK_STREAK_def PROBE_FAIL_DISABLE_STREAK_def
  PROBE_KICK_COOLDOWN_SEC_def FREE_USAGE_COOLDOWN_BASE_SEC_def FREE_USAGE_COOLDOWN_MAX_SEC_def
  FREE_USAGE_STACK_MAX_def FREE_USAGE_RESTACK_MIN_SEC_def PROBE_ONLY_COOLDOWN_RECOVERY_def
  PROBE_HOLD_COOLDOWN_SEC_def POLICY_CACHE_TTL_def

subsection \<open>Policy knobs\<close>

text \<open>
  \<open>_policy_float\<close>: \<open>setting\<close> is the settings store's reader and \<open>env\<close> the process environment, both
  \<open>PNone\<close> for a name they do not hold; the cache maps a name to the time and value of its last read.
\<close>

fun blank :: "pyval \<Rightarrow> bool" where
  "blank PNone = True"
| "blank (PStr s) = (strip s = [])"
| "blank v = False"

definition policy_raw :: "(string \<Rightarrow> pyval) \<Rightarrow> (string \<Rightarrow> pyval) \<Rightarrow> string \<Rightarrow> rat \<Rightarrow> rat" where
  "policy_raw setting env name dflt =
     (let val = (if blank (setting name) then None else py_float (setting name));
          val = (case val of Some v \<Rightarrow> Some v
                 | None \<Rightarrow> (if blank (env name) then None else py_float (env name)))
      in (case val of Some v \<Rightarrow> v | None \<Rightarrow> dflt))"

type_synonym policy_cache = "string \<rightharpoonup> rat \<times> rat"

definition policy_float ::
  "(string \<Rightarrow> pyval) \<Rightarrow> (string \<Rightarrow> pyval) \<Rightarrow> rat \<Rightarrow> policy_cache \<Rightarrow> string \<Rightarrow> rat \<Rightarrow> rat \<Rightarrow> rat
   \<Rightarrow> rat \<times> policy_cache" where
  "policy_float setting env now cache name dflt minimum maximum =
     (case cache name of
        Some (read_at, v) \<Rightarrow>
          (if now - read_at < POLICY_CACHE_TTL then (max minimum (min maximum v), cache)
           else let c = max minimum (min maximum (policy_raw setting env name dflt))
                in (c, cache(name \<mapsto> (now, c))))
      | None \<Rightarrow>
          (let c = max minimum (min maximum (policy_raw setting env name dflt))
           in (c, cache(name \<mapsto> (now, c)))))"

definition policy_int ::
  "(string \<Rightarrow> pyval) \<Rightarrow> (string \<Rightarrow> pyval) \<Rightarrow> rat \<Rightarrow> policy_cache \<Rightarrow> string \<Rightarrow> int \<Rightarrow> int \<Rightarrow> int
   \<Rightarrow> int \<times> policy_cache" where
  "policy_int setting env now cache name dflt minimum maximum =
     (let (v, c) = policy_float setting env now cache name (of_int dflt) (of_int minimum) (of_int maximum)
      in (trunc_rat v, c))"

record cooldown_policy =
  pol_default :: rat
  pol_auth :: rat
  pol_rate_limit :: rat
  pol_server_error :: rat
  pol_soft_block_ttl :: rat
  pol_durable_block_ttl :: rat
  pol_max :: rat
  pol_kick_streak :: rat
  pol_disable_streak :: rat
  pol_kick_cooldown :: rat

definition cooldown_defaults ::
  "(string \<Rightarrow> pyval) \<Rightarrow> (string \<Rightarrow> pyval) \<Rightarrow> rat \<Rightarrow> policy_cache \<Rightarrow> cooldown_policy \<times> policy_cache" where
  "cooldown_defaults setting env now c0 =
     (let rd = policy_float setting env now;
          (v1, c1) = rd c0 ''cooldown_default_sec'' DEFAULT_COOLDOWN 1 COOLDOWN_MAX;
          (v2, c2) = rd c1 ''cooldown_auth_sec'' AUTH_COOLDOWN 5 COOLDOWN_MAX;
          (v3, c3) = rd c2 ''cooldown_rate_limit_sec'' RATE_LIMIT_COOLDOWN 5 COOLDOWN_MAX;
          (v4, c4) = rd c3 ''cooldown_server_error_sec'' SERVER_ERROR_COOLDOWN 1 COOLDOWN_MAX;
          (v5, c5) = rd c4 ''soft_model_block_ttl_sec'' SOFT_MODEL_BLOCK_TTL 30 3600;
          (v6, c6) = rd c5 ''durable_model_block_ttl_sec'' DURABLE_MODEL_BLOCK_TTL 60 86400;
          (v7, c7) = rd c6 ''cooldown_max_sec'' COOLDOWN_MAX 30 3600;
          (v8, c8) = rd c7 ''probe_fail_kick_streak'' (of_int PROBE_FAIL_KICK_STREAK) 1 20;
          (v9, c9) = rd c8 ''probe_fail_disable_streak'' (of_int PROBE_FAIL_DISABLE_STREAK) 2 50;
          (v10, c10) = rd c9 ''probe_kick_cooldown_sec'' PROBE_KICK_COOLDOWN_SEC 30 7200
      in (\<lparr>pol_default = v1, pol_auth = v2, pol_rate_limit = v3, pol_server_error = v4,
           pol_soft_block_ttl = v5, pol_durable_block_ttl = v6, pol_max = v7,
           pol_kick_streak = v8, pol_disable_streak = v9, pol_kick_cooldown = v10\<rparr>, c10))"

definition max_failover_attempts ::
  "(string \<Rightarrow> pyval) \<Rightarrow> (string \<Rightarrow> pyval) \<Rightarrow> rat \<Rightarrow> policy_cache \<Rightarrow> int \<times> policy_cache" where
  "max_failover_attempts setting env now c =
     policy_int setting env now c ''max_failover_attempts'' MAX_FAILOVER_ATTEMPTS 1 64"

text \<open>The ranges \<open>cooldown_defaults\<close> reads the knobs in.\<close>

definition wf_policy :: "cooldown_policy \<Rightarrow> bool" where
  "wf_policy p \<longleftrightarrow>
     1 \<le> pol_default p \<and> pol_default p \<le> 600 \<and> 5 \<le> pol_auth p \<and> pol_auth p \<le> 600 \<and>
     5 \<le> pol_rate_limit p \<and> pol_rate_limit p \<le> 600 \<and>
     1 \<le> pol_server_error p \<and> pol_server_error p \<le> 600 \<and>
     30 \<le> pol_soft_block_ttl p \<and> pol_soft_block_ttl p \<le> 3600 \<and>
     60 \<le> pol_durable_block_ttl p \<and> pol_durable_block_ttl p \<le> 86400 \<and>
     30 \<le> pol_max p \<and> pol_max p \<le> 3600 \<and>
     1 \<le> pol_kick_streak p \<and> pol_kick_streak p \<le> 20 \<and>
     2 \<le> pol_disable_streak p \<and> pol_disable_streak p \<le> 50 \<and>
     30 \<le> pol_kick_cooldown p \<and> pol_kick_cooldown p \<le> 7200"

lemma policy_float_bounds:
  assumes "minimum \<le> maximum"
    and "policy_float setting env now cache name dflt minimum maximum = (v, cache')"
  shows "minimum \<le> v \<and> v \<le> maximum"
  using assms by (auto simp: policy_float_def Let_def split: option.splits prod.splits if_splits)

lemma policy_float_fst:
  assumes "minimum \<le> maximum"
  shows "minimum \<le> fst (policy_float setting env now cache name dflt minimum maximum)"
    and "fst (policy_float setting env now cache name dflt minimum maximum) \<le> maximum"
  using policy_float_bounds [OF assms] by (metis prod.collapse)+

text \<open>A knob read again within the cache window is the same value, whatever the stores hold then.\<close>

lemma policy_float_cached:
  assumes "minimum \<le> maximum"
    and "policy_float setting env now cache name dflt minimum maximum = (v, cache')"
    and "now \<le> later" "later - now < POLICY_CACHE_TTL"
    and "\<And>t w. cache name = Some (t, w) \<Longrightarrow> now - t \<ge> POLICY_CACHE_TTL"
  shows "policy_float setting2 env2 later cache' name dflt2 minimum maximum = (v, cache')"
  using assms(1,2,4,5)
  by (cases "cache name") (auto simp: policy_float_def Let_def split: prod.splits if_splits)

subsection \<open>Retry-After\<close>

text \<open>The decimal number \<open>\d+(\.\d+)?\<close> at the start of a text and the rest after it.\<close>

definition is_digit :: "char \<Rightarrow> bool" where
  "is_digit c \<longleftrightarrow> digit_val c \<noteq> None"

definition take_decimal :: "string \<Rightarrow> (rat \<times> string) option" where
  "take_decimal s =
     (let a = takeWhile is_digit s; r = dropWhile is_digit s in
      if a = [] then None
      else (case r of
              c # t \<Rightarrow>
                (if c = CHR ''.'' \<and> takeWhile is_digit t \<noteq> []
                 then map_option (\<lambda>q. (q, dropWhile is_digit t)) (parse_mantissa (a @ ''.'' @ takeWhile is_digit t))
                 else map_option (\<lambda>q. (q, r)) (parse_mantissa a))
            | [] \<Rightarrow> map_option (\<lambda>q. (q, r)) (parse_mantissa a)))"

text \<open>
  \<open>retry[- ]?(?:after|in)\s*(\d+(?:\.\d+)?)\s*(s|sec|seconds|m|min|minutes)?\<close> at the start of a text:
  the number, times 60 when the unit that follows begins with \<open>m\<close>.
\<close>

definition retry_hint_here :: "string \<Rightarrow> rat option" where
  "retry_hint_here s =
     (if \<not> starts_with s ''retry'' then None
      else let t = drop 5 s;
               t = (case t of c # u \<Rightarrow> if c = CHR ''-'' \<or> c = CHR '' '' then u else t | [] \<Rightarrow> t);
               body = (if starts_with t ''after'' then Some (drop 5 t)
                       else if starts_with t ''in'' then Some (drop 2 t) else None)
           in (case body of None \<Rightarrow> None
               | Some b \<Rightarrow>
                   (case take_decimal (lstrip b) of None \<Rightarrow> None
                    | Some (v, r) \<Rightarrow>
                        (case lstrip r of
                           c # _ \<Rightarrow> Some (if c = CHR ''m'' then v * 60 else v)
                         | [] \<Rightarrow> Some v))))"

text \<open>\<open>"retry_after"\s*:\s*(\d+(?:\.\d+)?)\<close> at the start of a text.\<close>

definition retry_field_here :: "string \<Rightarrow> rat option" where
  "retry_field_here s =
     (let q = CHR 0x22 # ''retry_after'' @ [CHR 0x22] in
      if \<not> starts_with s q then None
      else (case lstrip (drop (length q) s) of
              c # t \<Rightarrow> (if c = CHR '':'' then map_option fst (take_decimal (lstrip t)) else None)
            | [] \<Rightarrow> None))"

fun search :: "(string \<Rightarrow> 'a option) \<Rightarrow> string \<Rightarrow> 'a option" where
  "search f [] = f []"
| "search f (c # s) = (case f (c # s) of Some x \<Rightarrow> Some x | None \<Rightarrow> search f s)"

definition parse_retry_after :: "string \<Rightarrow> pydict \<Rightarrow> rat option" where
  "parse_retry_after error headers =
     (let hit = find (\<lambda>(k, v). lower k = ''retry-after'') headers;
          from_header = (case hit of
              Some (_, v) \<Rightarrow> (if v = PNone then None else py_float v)
            | None \<Rightarrow> None)
      in (case from_header of
            Some v \<Rightarrow> Some (max 1 v)
          | None \<Rightarrow>
              (let text = lower error in
               (case search retry_hint_here text of
                  Some v \<Rightarrow> Some (max 1 v)
                | None \<Rightarrow> map_option (max 1) (search retry_field_here text)))))"

lemma parse_retry_after_ge1: "parse_retry_after error headers = Some v \<Longrightarrow> 1 \<le> v"
  by (auto simp: parse_retry_after_def Let_def split: option.splits if_splits)

subsection \<open>Adaptive cooldown\<close>

definition jitter :: "rat \<Rightarrow> rat \<Rightarrow> rat" where
  "jitter u seconds =
     (if seconds \<le> 0 \<or> COOLDOWN_JITTER_RATIO \<le> 0 then max 0 seconds
      else let span = seconds * COOLDOWN_JITTER_RATIO in max 0 (seconds + u * span))"

definition cooldown_base :: "cooldown_policy \<Rightarrow> int option \<Rightarrow> bool \<Rightarrow> rat" where
  "cooldown_base pol status_code model_soft_blocked =
     (if status_code = Some 401 then pol_auth pol
      else if status_code = Some 429 then
        (if model_soft_blocked then min (pol_rate_limit pol) (max 10 (pol_default pol * (75/100)))
         else pol_rate_limit pol)
      else if status_code \<in> {Some 502, Some 503, Some 504, Some 500} then pol_server_error pol
      else if status_code \<in> {Some 403, Some 404} then max 8 (pol_default pol * (1/2))
      else max 5 (pol_default pol * (35/100)))"

definition streak_mult :: "int \<Rightarrow> rat" where
  "streak_mult consecutive_fails =
     (let streak = max 0 consecutive_fails in
      if 2 \<le> streak then min 4 ((3/2) ^ nat (min (streak - 1) 6)) else 1)"

definition compute_cooldown_seconds ::
  "cooldown_policy \<Rightarrow> rat \<Rightarrow> int option \<Rightarrow> string \<Rightarrow> int \<Rightarrow> pydict \<Rightarrow> bool \<Rightarrow> rat" where
  "compute_cooldown_seconds pol u status_code error consecutive_fails headers model_soft_blocked =
     (let base0 = cooldown_base pol status_code model_soft_blocked;
          base = (case parse_retry_after error headers of
                    None \<Rightarrow> base0
                  | Some r \<Rightarrow> max base0 (min r (pol_max pol)));
          seconds = min (pol_max pol) (base * streak_mult consecutive_fails)
      in jitter u seconds)"

lemma jitter_bounds:
  assumes "0 \<le> s" "-1 \<le> u" "u \<le> 1"
  shows "s * (85/100) \<le> jitter u s \<and> jitter u s \<le> s * (115/100)"
proof (cases "s = 0")
  case True
  then show ?thesis by (simp add: jitter_def)
next
  case False
  with assms have s: "0 < s" by simp
  have "- s \<le> u * s" "u * s \<le> s"
    using mult_right_mono [of "-1" u s] mult_right_mono [of u 1 s] assms by simp_all
  then show ?thesis
    using s by (simp add: jitter_def COOLDOWN_JITTER_RATIO_def Let_def max_def field_simps)
qed

lemma streak_mult_bounds: "1 \<le> streak_mult n \<and> streak_mult n \<le> 4"
proof -
  have "(1::rat) \<le> (3/2) ^ k" for k :: nat by (rule one_le_power) simp
  then show ?thesis by (simp add: streak_mult_def Let_def)
qed

lemma streak_mult_mono: "m \<le> n \<Longrightarrow> streak_mult m \<le> streak_mult n"
proof -
  assume mn: "m \<le> n"
  have pw: "(3/2::rat) ^ a \<le> (3/2) ^ b" if "a \<le> b" for a b :: nat
    using that by (intro power_increasing) simp_all
  show ?thesis
  proof (cases "2 \<le> m")
    case True
    with mn have "nat (min (m - 1) 6) \<le> nat (min (n - 1) 6)" by simp
    from min.mono [OF order_refl pw [OF this], of 4] True mn show ?thesis
      by (simp add: streak_mult_def Let_def max_absorb2)
  next
    case False
    then have "streak_mult m = 1" by (simp add: streak_mult_def Let_def)
    then show ?thesis using streak_mult_bounds [of n] by simp
  qed
qed

lemma cooldown_base_pos: "wf_policy pol \<Longrightarrow> 1 \<le> cooldown_base pol st soft"
  by (auto simp: cooldown_base_def wf_policy_def)

lemma policy_defaults_wf:
  "wf_policy (fst (cooldown_defaults setting env now c))"
  by (simp add: cooldown_defaults_def wf_policy_def COOLDOWN_MAX_def Let_def case_prod_unfold
      policy_float_fst)

end
