(* ===== verification/Pool_Status.thy ===== *)
theory Pool_Status
  imports Pool_Policy
begin

text \<open>
  What an account's pool record says (\<open>grok2api/pool/account_pool.py\<close>, \<open>grok2api/admin/settings_store.py\<close>,
  \<open>grok2api/store/settings_pg.py\<close>): the cooldown and model-block tests, the status derived from a record by
  the file store and by PostgreSQL, the status stack and the normalised view \<open>_pool_meta\<close>.

  A record is the dictionary the code keeps; the pool maps an account id to its record. A \<open>None\<close> result
  of \<open>pool_meta\<close> is the \<open>TypeError\<close> or \<open>ValueError\<close> an ill-typed counter raises there.
\<close>

type_synonym pool = "(string \<times> pydict) list"

definition pool_get :: "pool \<Rightarrow> string \<Rightarrow> pydict" where
  "pool_get p a = (case map_of p a of None \<Rightarrow> [] | Some m \<Rightarrow> m)"

definition pool_put :: "pool \<Rightarrow> string \<Rightarrow> pydict \<Rightarrow> pool" where
  "pool_put p a m = AList.update a m p"

lemma pool_get_put [simp]: "pool_get (pool_put p a m) b = (if b = a then m else pool_get p b)"
  by (simp add: pool_get_def pool_put_def update_conv')

subsection \<open>Cooldown\<close>

definition until_active :: "rat \<Rightarrow> pyval \<Rightarrow> bool" where
  "until_active now until =
     (until \<noteq> PNone \<and> (case py_float until of Some u \<Rightarrow> now < u | None \<Rightarrow> False))"

definition count_positive :: "pydict \<Rightarrow> bool" where
  "count_positive meta =
     (case int_or0 (dget meta ''cooldown_count'') of Some n \<Rightarrow> 0 < n | None \<Rightarrow> False)"

definition stack_nonempty :: "pydict \<Rightarrow> bool" where
  "stack_nonempty meta =
     (is_list (dget meta ''status_stack'') \<and> list_of (dget meta ''status_stack'') \<noteq> [])"

definition is_in_cooldown :: "rat \<Rightarrow> pydict \<Rightarrow> bool" where
  "is_in_cooldown now meta =
     (if count_positive meta then True
      else if stack_nonempty meta then True
      else if norm_text (dget meta ''pool_status'') = ''cooldown'' then True
      else until_active now (dget meta ''cooldown_until''))"

lemma is_in_cooldown_alt:
  "is_in_cooldown now meta \<longleftrightarrow>
     count_positive meta \<or> stack_nonempty meta \<or>
     norm_text (dget meta ''pool_status'') = ''cooldown'' \<or>
     until_active now (dget meta ''cooldown_until'')"
  by (simp add: is_in_cooldown_def)

text \<open>The cooling test reads four keys only.\<close>

lemma is_in_cooldown_cong:
  assumes "\<And>k. k \<in> {''cooldown_count'', ''status_stack'', ''pool_status'', ''cooldown_until''}
             \<Longrightarrow> dget m k = dget m' k"
  shows "is_in_cooldown now m = is_in_cooldown now m'"
  using assms by (simp add: is_in_cooldown_def count_positive_def stack_nonempty_def)

text \<open>
  Time alone: with no count, no stack and no cooldown status, the account recovers at
  \<open>cooldown_until\<close>; with any of them it never does.
\<close>

lemma is_in_cooldown_mono_time:
  "is_in_cooldown later m \<Longrightarrow> now \<le> later \<Longrightarrow> is_in_cooldown now m"
  by (auto simp: is_in_cooldown_alt until_active_def split: option.splits)

definition stack_cooldown_count :: "rat \<Rightarrow> pydict \<Rightarrow> int \<Rightarrow> int" where
  "stack_cooldown_count now meta add =
     (let cur = (case int_or0 (dget meta ''cooldown_count'') of Some n \<Rightarrow> n | None \<Rightarrow> 0);
          cur = (if cur \<le> 0 \<and> is_in_cooldown now meta then 1 else cur)
      in max 0 (cur + max 0 add))"

definition stack_cooldown_until :: "rat \<Rightarrow> pydict \<Rightarrow> rat \<Rightarrow> rat \<times> rat" where
  "stack_cooldown_until t0 meta add_sec =
     (let count = stack_cooldown_count t0 meta (if 0 < add_sec then 1 else 0)
      in (t0 + max 3600 add_sec * of_int (max 1 count), of_int count))"

lemma stack_cooldown_count_pos: "1 \<le> add \<Longrightarrow> 1 \<le> stack_cooldown_count now meta add"
  if "0 \<le> (case int_or0 (dget meta ''cooldown_count'') of Some n \<Rightarrow> n | None \<Rightarrow> 0)"
  using that by (simp add: stack_cooldown_count_def Let_def)

subsection \<open>Status stack\<close>

definition dict_items :: "pyval list \<Rightarrow> pyval list" where
  "dict_items xs = filter is_dict xs"

definition last_n :: "nat \<Rightarrow> 'a list \<Rightarrow> 'a list" where
  "last_n n xs = drop (length xs - n) xs"

definition stack_status_entry :: "pydict \<Rightarrow> pydict \<Rightarrow> nat \<Rightarrow> pyval list" where
  "stack_status_entry meta entry max_entries =
     (let raw = dget meta ''status_stack'';
          stack = (if is_list raw then dict_items (list_of raw) else []);
          stack = stack @ [PDict entry]
      in if length stack > max_entries then last_n max_entries stack else stack)"

lemma length_last_n [simp]: "length (last_n n xs) = min n (length xs)"
  by (simp add: last_n_def)

lemma last_last_n: "0 < n \<Longrightarrow> xs \<noteq> [] \<Longrightarrow> last (last_n n xs) = last xs"
  by (cases "length xs - n < length xs") (auto simp: last_n_def last_drop)

lemma stack_status_entry_last:
  "0 < n \<Longrightarrow> stack_status_entry meta e n \<noteq> [] \<and> last (stack_status_entry meta e n) = PDict e"
proof -
  assume n: "0 < n"
  then have "last_n n (xs @ [PDict e]) \<noteq> []" for xs
    by (metis append_is_Nil_conv length_0_conv length_last_n min_0L not_Cons_self2
        not_gr_zero length_greater_0_conv min_less_iff_conj)
  with n show ?thesis
    by (simp add: stack_status_entry_def Let_def last_last_n)
qed

lemma stack_status_entry_length: "length (stack_status_entry meta e n) \<le> n \<or> n = 0"
  by (auto simp: stack_status_entry_def Let_def)

subsection \<open>Model blocks\<close>

definition temp_sources :: "string list" where
  "temp_sources = [''temp_usage'', ''soft'', ''temporary'']"

definition blocked_of :: "pydict \<Rightarrow> pydict" where
  "blocked_of meta = dict_of (py_or (dget meta ''blocked_models'') (PDict []))"

definition is_model_blocked :: "rat \<Rightarrow> bool \<Rightarrow> string \<Rightarrow> string option \<Rightarrow> pydict \<Rightarrow> bool" where
  "is_model_blocked now durable_only account_id model meta =
     (case model of None \<Rightarrow> False
      | Some mdl \<Rightarrow>
          (if account_id = [] \<or> mdl = [] then False
           else let blocked = py_or (dget meta ''blocked_models'') (PDict []) in
             if \<not> is_dict blocked \<or> \<not> dhas (dict_of blocked) mdl then False
             else (case dget (dict_of blocked) mdl of
                 PDict entry \<Rightarrow>
                   (let until = dget entry ''until'';
                        source = str_or_empty (dget entry ''source'') in
                    if durable_only then \<not> (until \<noteq> PNone \<or> source \<in> set temp_sources)
                    else if until = PNone then True
                    else (case py_float until of Some u \<Rightarrow> now < u | None \<Rightarrow> True))
               | _ \<Rightarrow> True)))"

text \<open>The entry of a block that is over at \<open>now\<close>, which every reader drops.\<close>

definition block_over :: "rat \<Rightarrow> pyval \<Rightarrow> bool" where
  "block_over now entry =
     (is_dict entry \<and> dget (dict_of entry) ''until'' \<noteq> PNone \<and>
      (case py_float (dget (dict_of entry) ''until'') of Some u \<Rightarrow> u \<le> now | None \<Rightarrow> False))"

definition live_blocks :: "rat \<Rightarrow> pydict \<Rightarrow> pydict" where
  "live_blocks now blocked = filter (\<lambda>(m, entry). \<not> block_over now entry) blocked"

lemma is_model_blocked_not_over:
  "is_model_blocked now False a (Some mdl) meta \<Longrightarrow>
     \<not> block_over now (dget (blocked_of meta) mdl)"
  by (auto simp: is_model_blocked_def block_over_def blocked_of_def Let_def
      split: if_splits pyval.splits option.splits)

subsection \<open>Derived status\<close>

text \<open>\<open>settings_store._derive_pool_status\<close>: the file store's label.\<close>

definition derive_pool_status :: "rat \<Rightarrow> pydict \<Rightarrow> string" where
  "derive_pool_status now meta =
     (if truthy (dget meta ''disabled_for_quota'') then ''quota_disabled''
      else if dget meta ''enabled'' = PBool False then ''disabled''
      else if count_positive meta then ''cooldown''
      else if until_active now (dget meta ''cooldown_until'') then ''cooldown''
      else if norm_text (dget meta ''pool_status'') = ''expired'' then ''expired''
      else if is_dict (py_or (dget meta ''blocked_models'') (PDict [])) \<and> blocked_of meta \<noteq> []
        then ''model_blocked''
      else ''normal'')"

definition renew_failed_statuses :: "string list" where
  "renew_failed_statuses = [''failed'', ''expired'', ''sso_failed'', ''no_sso_removed'', ''sso_attempt'']"

definition renew_status_failed :: "pydict \<Rightarrow> bool" where
  "renew_status_failed meta =
     (\<exists>s \<in> set renew_failed_statuses. dget meta ''last_renew_status'' = PStr s)"

text \<open>\<open>settings_pg._derive_pool_status\<close>: the label of a PostgreSQL row.\<close>

definition pg_derive_pool_status :: "rat \<Rightarrow> pydict \<Rightarrow> string" where
  "pg_derive_pool_status now meta =
     (if norm_text (dget meta ''pool_status'') = ''expired'' then ''expired''
      else if dget meta ''token_expired_at'' \<noteq> PNone \<and> \<not> truthy (dget meta ''disabled_for_quota'') \<and>
              (dget meta ''enabled'' \<noteq> PBool False \<or> renew_status_failed meta) \<and>
              (str_or_empty (dget meta ''last_renew_status'') \<in> set renew_failed_statuses \<or>
               truthy (dget meta ''renew_fail_count''))
        then ''expired''
      else if truthy (dget meta ''disabled_for_quota'') then ''quota_disabled''
      else if dget meta ''enabled'' = PBool False then ''disabled''
      else if count_positive meta then ''cooldown''
      else if stack_nonempty meta then ''cooldown''
      else if until_active now (dget meta ''cooldown_until'') then ''cooldown''
      else if is_dict (py_or (dget meta ''blocked_models'') (PDict [])) \<and> blocked_of meta \<noteq> []
        then ''model_blocked''
      else ''normal'')"

definition pool_statuses :: "string set" where
  "pool_statuses = {''normal'', ''cooldown'', ''disabled'', ''quota_disabled'', ''expired'', ''model_blocked''}"

lemma derive_pool_status_range: "derive_pool_status now m \<in> pool_statuses"
  by (simp add: derive_pool_status_def pool_statuses_def)

lemma pg_derive_pool_status_range: "pg_derive_pool_status now m \<in> pool_statuses"
  by (simp add: pg_derive_pool_status_def pool_statuses_def)

text \<open>The label of either store says \<open>normal\<close> only of an account that may serve requests.\<close>

lemma pg_derive_normal:
  assumes "pg_derive_pool_status now m = ''normal''"
  shows "\<not> count_positive m" "\<not> stack_nonempty m" "\<not> until_active now (dget m ''cooldown_until'')"
    "\<not> truthy (dget m ''disabled_for_quota'')" "dget m ''enabled'' \<noteq> PBool False"
  using assms by (auto simp: pg_derive_pool_status_def split: if_splits)

end
