(* ===== verification/Pool_View.thy ===== *)
theory Pool_View
  imports Pool_Status
begin

text \<open>
  \<open>account_pool._pool_meta\<close>: the normalised view of a record that every selection and every state change
  reads. It fills defaults, drops model blocks that are over, optionally overlays the hot fields of
  Redis, and settles the status label.
\<close>

definition copied_keys :: "string list" where
  "copied_keys =
     [''disabled_reason'', ''disabled_source'', ''quota_disabled_at'', ''quota_source'', ''last_quota'',
      ''last_probe'', ''last_probe_status'', ''token_expired_at'', ''token_expired_reason'']"

definition copied_renew_keys :: "string list" where
  "copied_renew_keys =
     [''last_renew_fail_at'', ''last_renew_error'', ''last_renew_status'', ''last_renew_source'',
      ''last_renew_ok_at'', ''sso_reauth_attempted_at'', ''sso_reauth_failed_at'', ''sso_reauth_error'',
      ''sso_reauth_next_at'']"

definition copied_cooldown_keys :: "string list" where
  "copied_cooldown_keys =
     [''cooldown_reason'', ''cooldown_code'', ''cooldown_model'', ''cooldown_tokens_actual'',
      ''cooldown_tokens_limit'']"

definition copy_keys :: "pydict \<Rightarrow> string list \<Rightarrow> pydict" where
  "copy_keys meta ks = map (\<lambda>k. (k, dget meta k)) ks"

definition stack_view :: "pydict \<Rightarrow> pyval" where
  "stack_view meta = PList (list_of (dget meta ''status_stack''))"

text \<open>The view before the overlay.\<close>

definition pool_meta_fields :: "rat \<Rightarrow> pydict \<Rightarrow> pydict option" where
  "pool_meta_fields now meta = do {
     let blocked = live_blocks now (blocked_of meta);
     weight \<leftarrow> py_int (py_or (dget meta ''weight'') (PInt 1));
     request_count \<leftarrow> int_or0 (dget meta ''request_count'');
     success_count \<leftarrow> int_or0 (dget meta ''success_count'');
     fail_count \<leftarrow> int_or0 (dget meta ''fail_count'');
     consecutive_fails \<leftarrow> int_or0 (dget meta ''consecutive_fails'');
     cooldown_count \<leftarrow> int_or0 (dget meta ''cooldown_count'');
     renew_fail_count \<leftarrow> int_or0 (dget meta ''renew_fail_count'');
     probe_fail_streak \<leftarrow> int_or0 (dget meta ''probe_fail_streak'');
     Some (
       [(''enabled'', PBool (truthy (dget_or meta ''enabled'' (PBool True)))),
        (''weight'', PInt (max 1 weight)),
        (''request_count'', PInt request_count),
        (''success_count'', PInt success_count),
        (''fail_count'', PInt fail_count),
        (''consecutive_fails'', PInt consecutive_fails)]
       @ copy_keys meta [''last_used_at'', ''last_error'', ''last_status_code'', ''cooldown_until'', ''cooldown_sec'']
       @ [(''cooldown_count'', PInt cooldown_count)]
       @ copy_keys meta copied_cooldown_keys
       @ [(''status_stack'', stack_view meta),
          (''disabled_for_quota'', PBool (truthy (dget meta ''disabled_for_quota'')))]
       @ copy_keys meta copied_keys
       @ [(''renew_fail_count'', PInt renew_fail_count)]
       @ copy_keys meta copied_renew_keys
       @ [(''blocked_models'', PDict blocked),
          (''blocked_model_ids'', PList (map (\<lambda>(m, _). PStr m) blocked)),
          (''probe_fail_streak'', PInt probe_fail_streak)]
       @ copy_keys meta [''last_probe_ok_at'', ''last_probe_fail_at'', ''pool_status''])
   }"

text \<open>The overlay: \<open>None\<close> is the call with \<open>redis_overlay=False\<close>.\<close>

definition apply_overlay :: "(pydict \<Rightarrow> pydict) option \<Rightarrow> string \<Rightarrow> pydict \<Rightarrow> pydict" where
  "apply_overlay overlay account_id out =
     (case overlay of None \<Rightarrow> out
      | Some f \<Rightarrow>
          (if account_id = [] then out
           else let out' = f out;
                    blocked = py_or (dget out' ''blocked_models'') (dget out ''blocked_models'')
                in if is_dict blocked
                   then dset out' ''blocked_model_ids'' (PList (map (\<lambda>(m, _). PStr m) (dict_of blocked)))
                   else out'))"

definition pool_meta_label :: "rat \<Rightarrow> pydict \<Rightarrow> pydict \<Rightarrow> pydict" where
  "pool_meta_label now meta out0 =
     (let count = (case py_int (py_or (py_or (dget out0 ''cooldown_count'') (dget meta ''cooldown_count'')) (PInt 0))
                   of Some n \<Rightarrow> n | None \<Rightarrow> 0);
          out1 = dset out0 ''cooldown_count'' (PInt count);
          cooling = is_in_cooldown now out1;
          out = dset out1 ''in_cooldown'' (PBool cooling);
          status = norm_text (py_or (dget out ''pool_status'') (dget meta ''pool_status''));
          renew_status = str_or_empty (py_or (dget out ''last_renew_status'') (dget meta ''last_renew_status''))
      in if status = ''expired'' \<or> renew_status \<in> set renew_failed_statuses
           then dset out ''pool_status'' (PStr ''expired'')
         else if \<not> truthy (dget out ''pool_status'') then
           (if truthy (dget out ''disabled_for_quota'') then dset out ''pool_status'' (PStr ''quota_disabled'')
            else if dget out ''enabled'' = PBool False then dset out ''pool_status'' (PStr ''disabled'')
            else if cooling then dset out ''pool_status'' (PStr ''cooldown'')
            else if truthy (dget out ''blocked_model_ids'') then dset out ''pool_status'' (PStr ''model_blocked'')
            else dset out ''pool_status'' (PStr ''normal''))
         else if cooling \<and> dget out ''pool_status'' = PStr ''normal''
           then dset out ''pool_status'' (PStr ''cooldown'')
         else out)"

definition pool_meta :: "rat \<Rightarrow> (pydict \<Rightarrow> pydict) option \<Rightarrow> string \<Rightarrow> pool \<Rightarrow> pydict option" where
  "pool_meta now overlay account_id state =
     (let meta = pool_get state account_id
      in map_option (\<lambda>out. pool_meta_label now meta (apply_overlay overlay account_id out))
           (pool_meta_fields now meta))"

lemmas view_defs = copied_keys_def copied_renew_keys_def copied_cooldown_keys_def copy_keys_def

subsection \<open>Lookups in the view\<close>

lemma pool_meta_fields_SomeE:
  assumes "pool_meta_fields now meta = Some out"
  obtains w rc sc fc cf cc rf ps where
    "py_int (py_or (dget meta ''weight'') (PInt 1)) = Some w"
    "int_or0 (dget meta ''request_count'') = Some rc"
    "int_or0 (dget meta ''success_count'') = Some sc"
    "int_or0 (dget meta ''fail_count'') = Some fc"
    "int_or0 (dget meta ''consecutive_fails'') = Some cf"
    "int_or0 (dget meta ''cooldown_count'') = Some cc"
    "int_or0 (dget meta ''renew_fail_count'') = Some rf"
    "int_or0 (dget meta ''probe_fail_streak'') = Some ps"
    "out = [(''enabled'', PBool (truthy (dget_or meta ''enabled'' (PBool True)))),
        (''weight'', PInt (max 1 w)), (''request_count'', PInt rc), (''success_count'', PInt sc),
        (''fail_count'', PInt fc), (''consecutive_fails'', PInt cf)]
       @ copy_keys meta [''last_used_at'', ''last_error'', ''last_status_code'', ''cooldown_until'', ''cooldown_sec'']
       @ [(''cooldown_count'', PInt cc)]
       @ copy_keys meta copied_cooldown_keys
       @ [(''status_stack'', stack_view meta),
          (''disabled_for_quota'', PBool (truthy (dget meta ''disabled_for_quota'')))]
       @ copy_keys meta copied_keys
       @ [(''renew_fail_count'', PInt rf)]
       @ copy_keys meta copied_renew_keys
       @ [(''blocked_models'', PDict (live_blocks now (blocked_of meta))),
          (''blocked_model_ids'', PList (map (\<lambda>(m, _). PStr m) (live_blocks now (blocked_of meta)))),
          (''probe_fail_streak'', PInt ps)]
       @ copy_keys meta [''last_probe_ok_at'', ''last_probe_fail_at'', ''pool_status'']"
  using assms by (fastforce simp: pool_meta_fields_def bind_eq_Some_conv Let_def)

lemma pool_meta_fields_get:
  assumes "pool_meta_fields now meta = Some out"
  shows "dget out ''enabled'' = PBool (truthy (dget_or meta ''enabled'' (PBool True)))"
    and "\<exists>n. int_or0 (dget meta ''cooldown_count'') = Some n \<and> dget out ''cooldown_count'' = PInt n"
    and "dget out ''status_stack'' = stack_view meta"
    and "dget out ''cooldown_until'' = dget meta ''cooldown_until''"
    and "dget out ''pool_status'' = dget meta ''pool_status''"
    and "dget out ''last_renew_status'' = dget meta ''last_renew_status''"
    and "dget out ''disabled_for_quota'' = PBool (truthy (dget meta ''disabled_for_quota''))"
    and "dget out ''blocked_models'' = PDict (live_blocks now (blocked_of meta))"
    and "\<exists>n. int_or0 (dget meta ''consecutive_fails'') = Some n \<and> dget out ''consecutive_fails'' = PInt n"
    and "\<exists>n. int_or0 (dget meta ''probe_fail_streak'') = Some n \<and> dget out ''probe_fail_streak'' = PInt n"
    and "\<exists>n. int_or0 (dget meta ''request_count'') = Some n \<and> dget out ''request_count'' = PInt n"
    and "truthy (dget out ''blocked_model_ids'') = (live_blocks now (blocked_of meta) \<noteq> [])"
  using assms by (auto elim!: pool_meta_fields_SomeE simp: view_defs)

text \<open>The label pass writes three keys.\<close>

lemma pool_meta_label_other:
  "k \<notin> {''cooldown_count'', ''in_cooldown'', ''pool_status''} \<Longrightarrow>
     dget (pool_meta_label now meta out) k = dget out k"
  by (simp add: pool_meta_label_def Let_def)

lemma pool_meta_get:
  assumes "pool_meta now None a st = Some out" and "meta = pool_get st a"
  shows "dget out ''enabled'' = PBool (truthy (dget_or meta ''enabled'' (PBool True)))"
    and "dget out ''status_stack'' = stack_view meta"
    and "dget out ''cooldown_until'' = dget meta ''cooldown_until''"
    and "dget out ''disabled_for_quota'' = PBool (truthy (dget meta ''disabled_for_quota''))"
    and "dget out ''blocked_models'' = PDict (live_blocks now (blocked_of meta))"
    and "\<exists>n. int_or0 (dget meta ''consecutive_fails'') = Some n \<and> dget out ''consecutive_fails'' = PInt n"
    and "\<exists>n. int_or0 (dget meta ''probe_fail_streak'') = Some n \<and> dget out ''probe_fail_streak'' = PInt n"
    and "\<exists>n. int_or0 (dget meta ''request_count'') = Some n \<and> dget out ''request_count'' = PInt n"
  using assms by (auto simp: pool_meta_def apply_overlay_def pool_meta_label_other Let_def
      dest: pool_meta_fields_get)

lemma stack_nonempty_view:
  "dget out ''status_stack'' = stack_view meta \<Longrightarrow> stack_nonempty out = stack_nonempty meta"
  by (cases "dget meta ''status_stack''") (auto simp: stack_nonempty_def stack_view_def)

text \<open>The count of the view is the count of the record.\<close>

lemma label_count:
  assumes "pool_meta_fields now meta = Some out" and "int_or0 (dget meta ''cooldown_count'') = Some n"
  shows "dget (pool_meta_label now meta out) ''cooldown_count'' = PInt n"
proof -
  have c: "dget out ''cooldown_count'' = PInt n"
    using pool_meta_fields_get(2) [OF assms(1)] assms(2) by auto
  then have "py_int (py_or (py_or (dget out ''cooldown_count'') (dget meta ''cooldown_count'')) (PInt 0)) = Some n"
    using assms(2) by (cases "n = 0") (simp_all add: int_or0_def)
  then show ?thesis by (simp add: pool_meta_label_def Let_def)
qed

lemma label_in_cooldown:
  assumes "pool_meta_fields now meta = Some out"
  shows "dget (pool_meta_label now meta out) ''in_cooldown'' = PBool (is_in_cooldown now meta)"
proof -
  obtain n where n: "int_or0 (dget meta ''cooldown_count'') = Some n"
    and c: "dget out ''cooldown_count'' = PInt n"
    using pool_meta_fields_get(2) [OF assms] by auto
  then have i: "py_int (py_or (py_or (dget out ''cooldown_count'') (dget meta ''cooldown_count'')) (PInt 0)) = Some n"
    by (cases "n = 0") (simp_all add: int_or0_def)
  have "is_in_cooldown now (dset out ''cooldown_count'' (PInt n)) = is_in_cooldown now meta"
    using n stack_nonempty_view [of "dset out ''cooldown_count'' (PInt n)" meta]
      pool_meta_fields_get(3,4,5) [OF assms]
    by (simp add: is_in_cooldown_def count_positive_def)
  with i show ?thesis by (simp add: pool_meta_label_def Let_def)
qed

lemma norm_text_falsy: "\<not> truthy v \<Longrightarrow> norm_text v = []"
  by (cases v) (simp_all add: norm_text_def strip_def lstrip_def lower_def)

lemma norm_text_literal:
  "norm_text (PStr ''expired'') = ''expired''"
  "norm_text (PStr ''normal'') = ''normal''"
  "norm_text (PStr ''cooldown'') = ''cooldown''"
  "norm_text (PStr ''disabled'') = ''disabled''"
  "norm_text (PStr ''quota_disabled'') = ''quota_disabled''"
  "norm_text (PStr ''model_blocked'') = ''model_blocked''"
  by code_simp+


lemma pool_meta_in_cooldown:
  "pool_meta now None a st = Some out \<Longrightarrow>
     dget out ''in_cooldown'' = PBool (is_in_cooldown now (pool_get st a))"
  by (auto simp: pool_meta_def apply_overlay_def Let_def label_in_cooldown)

lemma pool_meta_count:
  assumes "pool_meta now None a st = Some out"
  shows "\<exists>n. int_or0 (dget (pool_get st a) ''cooldown_count'') = Some n \<and> dget out ''cooldown_count'' = PInt n"
  using assms pool_meta_fields_get(2) label_count
  by (fastforce simp: pool_meta_def apply_overlay_def Let_def)

lemma pool_meta_count_positive:
  "pool_meta now None a st = Some out \<Longrightarrow> count_positive out = count_positive (pool_get st a)"
  using pool_meta_count by (fastforce simp: count_positive_def)

lemma pool_meta_stack_nonempty:
  "pool_meta now None a st = Some out \<Longrightarrow> stack_nonempty out = stack_nonempty (pool_get st a)"
  using pool_meta_get(2) by (intro stack_nonempty_view) blast

text \<open>The label the view ends with.\<close>

lemma pool_meta_status:
  assumes "pool_meta now None a st = Some out" and "meta = pool_get st a"
  shows "dget out ''pool_status'' =
    (if norm_text (dget meta ''pool_status'') = ''expired'' \<or>
        str_or_empty (dget meta ''last_renew_status'') \<in> set renew_failed_statuses
       then PStr ''expired''
     else if \<not> truthy (dget meta ''pool_status'') then
       PStr (if truthy (dget meta ''disabled_for_quota'') then ''quota_disabled''
         else if \<not> truthy (dget_or meta ''enabled'' (PBool True)) then ''disabled''
         else if is_in_cooldown now meta then ''cooldown''
         else if live_blocks now (blocked_of meta) \<noteq> [] then ''model_blocked'' else ''normal'')
     else if is_in_cooldown now meta \<and> dget meta ''pool_status'' = PStr ''normal'' then PStr ''cooldown''
     else dget meta ''pool_status'')"
proof -
  from assms obtain f where f: "pool_meta_fields now meta = Some f"
    and out: "out = pool_meta_label now meta f"
    by (auto simp: pool_meta_def apply_overlay_def Let_def)
  have c: "is_in_cooldown now (dset f ''cooldown_count'' (PInt n)) = is_in_cooldown now meta"
    if "py_int (py_or (py_or (dget f ''cooldown_count'') (dget meta ''cooldown_count'')) (PInt 0)) = Some n" for n
    using label_in_cooldown [OF f] that by (simp add: pool_meta_label_def Let_def split: if_splits)
  obtain n where n: "py_int (py_or (py_or (dget f ''cooldown_count'') (dget meta ''cooldown_count'')) (PInt 0)) = Some n"
    using pool_meta_fields_get(2) [OF f] by (fastforce simp: int_or0_def py_or_def)
  have same: "py_or x x = x" for x by (simp add: py_or_def)
  show ?thesis
    using pool_meta_fields_get(1,5,6,7,12) [OF f]
    by (auto simp: out pool_meta_label_def Let_def n c same)
qed

lemma pool_meta_cooling_sound:
  assumes "pool_meta now None a st = Some out" and "is_in_cooldown now out"
  shows "is_in_cooldown now (pool_get st a)"
proof (rule ccontr)
  assume nc: "\<not> is_in_cooldown now (pool_get st a)"
  with assms(2) have "norm_text (dget out ''pool_status'') = ''cooldown''"
    using pool_meta_count_positive [OF assms(1)] pool_meta_stack_nonempty [OF assms(1)]
      pool_meta_get(3) [OF assms(1) refl]
    by (auto simp: is_in_cooldown_alt)
  with nc show False
    by (auto simp: pool_meta_status [OF assms(1) refl] norm_text_literal is_in_cooldown_alt
        split: if_splits)
qed

lemma pool_meta_cooling_complete:
  assumes "pool_meta now None a st = Some out" and "is_in_cooldown now (pool_get st a)"
  shows "is_in_cooldown now out \<or> dget out ''pool_status'' = PStr ''expired''"
proof (cases "norm_text (dget (pool_get st a) ''pool_status'') = ''cooldown''")
  case True
  then have "truthy (dget (pool_get st a) ''pool_status'')"
    "dget (pool_get st a) ''pool_status'' \<noteq> PStr ''normal''"
    using norm_text_falsy by (fastforce simp: norm_text_literal)+
  with True show ?thesis
    by (auto simp: pool_meta_status [OF assms(1) refl] is_in_cooldown_alt)
next
  case False
  with assms(2) show ?thesis
    using pool_meta_count_positive [OF assms(1)] pool_meta_stack_nonempty [OF assms(1)]
      pool_meta_get(3) [OF assms(1) refl]
    by (auto simp: is_in_cooldown_alt)
qed

end
