(* ===== verification/Pool_Store.thy ===== *)
theory Pool_Store
  imports Pool_View
begin

text \<open>
  The stores an account's record lives in, and the contract every state change of the pool rests on.

  A store offers the three calls the pool makes of \<open>grok2api/admin/settings_store.py\<close>: read a record,
  patch it, and count a request. The locale \<open>account_store\<close> states what the pool relies on; the file
  store of this theory and the PostgreSQL store of \<open>Pool_Row\<close> interpret it.
\<close>

subsection \<open>Rotation mode\<close>

definition VALID_ACCOUNT_MODES :: "string list" where
  "VALID_ACCOUNT_MODES = [''round_robin'', ''random'', ''least_used'']"

definition normalize_mode :: "string option \<Rightarrow> string" where
  "normalize_mode mode0 =
     (let mode = lower (strip (case mode0 of None \<Rightarrow> '''' | Some m \<Rightarrow> m));
          mode = (if mode = ''primary'' then ''round_robin'' else mode)
      in if mode \<notin> set VALID_ACCOUNT_MODES then ''round_robin'' else mode)"

definition set_account_mode :: "string \<Rightarrow> string option" where
  "set_account_mode mode0 =
     (let raw = lower (strip mode0);
          raw = (if raw = ''primary'' then ''round_robin'' else raw)
      in if raw \<notin> set VALID_ACCOUNT_MODES then None else Some raw)"

lemma normalize_mode_valid: "normalize_mode m \<in> set VALID_ACCOUNT_MODES"
  by (simp add: normalize_mode_def VALID_ACCOUNT_MODES_def Let_def)

lemma set_account_mode_normalize: "set_account_mode m = Some r \<Longrightarrow> normalize_mode (Some m) = r"
  by (auto simp: set_account_mode_def normalize_mode_def Let_def split: if_splits)

subsection \<open>The store interface\<close>

record touch_args =
  ta_success :: bool
  ta_error :: string
  ta_cooldown_until :: "rat option"
  ta_clear_cooldown :: bool
  ta_consecutive_fails :: "int option"
  ta_last_status_code :: "int option"
  ta_cooldown_sec :: "rat option"
  ta_preserve_cooldown :: bool
  ta_current_meta :: pydict

text \<open>\<open>get_account_pool_meta\<close>, \<open>patch_account_pool_meta\<close> and \<open>touch_account_stats\<close>; \<open>None\<close> is an exception.\<close>

record 's store_ops =
  op_meta :: "'s \<Rightarrow> string \<Rightarrow> pydict"
  op_patch :: "rat \<Rightarrow> 's \<Rightarrow> string \<Rightarrow> pydict \<Rightarrow> pydict \<times> 's"
  op_touch :: "rat \<Rightarrow> touch_args \<Rightarrow> 's \<Rightarrow> string \<Rightarrow> (pydict \<times> 's) option"

text \<open>The patch \<open>touch_account_stats\<close> starts from.\<close>

definition touch_patch :: "rat \<Rightarrow> touch_args \<Rightarrow> pydict" where
  "touch_patch now ta =
     (let clear = (\<not> ta_preserve_cooldown ta \<and> ta_clear_cooldown ta) in
      [(''last_used_at'', PFloat now)]
      @ (case ta_consecutive_fails ta of
           Some n \<Rightarrow> [(''consecutive_fails'', PInt n)]
         | None \<Rightarrow> (if ta_success ta then [(''consecutive_fails'', PInt 0)] else []))
      @ (if ta_success ta then
           (if \<not> ta_preserve_cooldown ta then [(''last_error'', PNone)] else [])
           @ (if clear then [(''cooldown_until'', PNone), (''cooldown_sec'', PNone)] else [])
         else
           (if ta_error ta \<noteq> [] then [(''last_error'', PStr (ta_error ta))] else [])
           @ (case ta_last_status_code ta of Some c \<Rightarrow> [(''last_status_code'', PInt c)] | None \<Rightarrow> [])
           @ (case ta_cooldown_until ta of Some u \<Rightarrow> [(''cooldown_until'', PFloat u)] | None \<Rightarrow> [])
           @ (case ta_cooldown_sec ta of Some c \<Rightarrow> [(''cooldown_sec'', PFloat c)] | None \<Rightarrow> [])))"

definition touch_state_patch :: "rat \<Rightarrow> touch_args \<Rightarrow> pydict" where
  "touch_state_patch now ta = filter (\<lambda>(k, _). k \<noteq> ''last_used_at'') (touch_patch now ta)"

subsection \<open>The file store\<close>

text \<open>The pool of \<open>settings.json\<close>: an id is stripped for a read, as \<open>get_account_pool_meta\<close> does.\<close>

definition file_meta :: "pool \<Rightarrow> string \<Rightarrow> pydict" where
  "file_meta pool account_id =
     (if account_id = [] then [] else if strip account_id = [] then [] else pool_get pool (strip account_id))"

definition file_patch :: "rat \<Rightarrow> pool \<Rightarrow> string \<Rightarrow> pydict \<Rightarrow> pydict \<times> pool" where
  "file_patch now pool account_id patch =
     (if account_id = [] then ([], pool)
      else if patch = [] then ([], pool)
      else let meta = merge_patch (pool_get pool account_id) patch;
               meta = dset meta ''pool_status'' (PStr (derive_pool_status now meta))
           in (meta, pool_put pool account_id meta))"

definition set_default :: "pydict \<Rightarrow> string \<Rightarrow> pyval \<Rightarrow> pydict" where
  "set_default m k v = (if dhas m k then m else dset m k v)"

definition bump :: "pydict \<Rightarrow> string \<Rightarrow> pydict option" where
  "bump m k = map_option (\<lambda>n. dset m k (PInt (n + 1))) (int_or0 (dget m k))"

definition file_touch_success :: "touch_args \<Rightarrow> pydict \<Rightarrow> pydict option" where
  "file_touch_success ta meta = do {
     meta \<leftarrow> bump meta ''success_count'';
     let meta = dset meta ''consecutive_fails'' (PInt 0);
     let meta = (if \<not> ta_preserve_cooldown ta then dpop meta ''last_error'' else meta);
     Some (if ta_clear_cooldown ta \<and> \<not> ta_preserve_cooldown ta
           then dpop (dpop meta ''cooldown_until'') ''cooldown_sec'' else meta)
   }"

definition file_touch_failure :: "touch_args \<Rightarrow> pydict \<Rightarrow> pydict option" where
  "file_touch_failure ta meta = do {
     meta \<leftarrow> bump meta ''fail_count'';
     meta \<leftarrow> (case ta_consecutive_fails ta of
                Some n \<Rightarrow> Some (dset meta ''consecutive_fails'' (PInt n))
              | None \<Rightarrow> bump meta ''consecutive_fails'');
     let meta = (if ta_error ta \<noteq> [] then dset meta ''last_error'' (PStr (ta_error ta)) else meta);
     let meta = (case ta_last_status_code ta of
                   Some c \<Rightarrow> dset meta ''last_status_code'' (PInt c) | None \<Rightarrow> meta);
     let meta = (case ta_cooldown_until ta of
                   Some u \<Rightarrow> dset meta ''cooldown_until'' (PFloat u) | None \<Rightarrow> meta);
     Some (case ta_cooldown_sec ta of
                   Some c \<Rightarrow> dset meta ''cooldown_sec'' (PFloat c) | None \<Rightarrow> meta)
   }"

definition file_touch :: "rat \<Rightarrow> touch_args \<Rightarrow> pool \<Rightarrow> string \<Rightarrow> (pydict \<times> pool) option" where
  "file_touch now ta pool account_id =
     (if account_id = [] then Some ([], pool)
      else do {
        let pool = (if ta_success ta then pool
                    else snd (file_patch now pool account_id (touch_state_patch now ta)));
        let meta = pool_get pool account_id;
        let meta = set_default (set_default meta ''enabled'' (PBool True)) ''weight'' (PInt 1);
        meta \<leftarrow> bump meta ''request_count'';
        let meta = dset meta ''last_used_at'' (PFloat now);
        let cur_cooling = until_active now (dget meta ''cooldown_until'');
        meta \<leftarrow> (if ta_success ta then file_touch_success ta meta else file_touch_failure ta meta);
        let meta = dset meta ''pool_status''
          (PStr (if ta_preserve_cooldown ta \<and> cur_cooling then ''cooldown'' else derive_pool_status now meta));
        Some (meta, pool_put pool account_id meta)
      })"

definition file_ops :: "pool store_ops" where
  "file_ops = \<lparr>op_meta = file_meta, op_patch = file_patch, op_touch = file_touch\<rparr>"

subsection \<open>The contract\<close>

text \<open>An id that a read and a write agree on.\<close>

definition good_id :: "string \<Rightarrow> bool" where
  "good_id a \<longleftrightarrow> a \<noteq> [] \<and> strip a = a"

definition store_owned :: "string set" where
  "store_owned = {''pool_status'', ''state_version''}"

text \<open>
  The type of a record's field: the values the code writes to it, which every store gives back as they
  were written. Any other key is free.
\<close>

definition field_ok :: "string \<Rightarrow> pyval \<Rightarrow> bool" where
  "field_ok k v =
     (if k \<in> {''enabled'', ''disabled_for_quota''} then v \<in> {PBool True, PBool False}
      else if k = ''weight'' then is_count_from 1 v
      else if k \<in> {''quota_disabled_at'', ''last_used_at'', ''cooldown_until''} then is_time v
      else if k \<in> {''last_quota'', ''last_probe''} then v \<notin> range PStr
      else if k = ''blocked_models'' then is_dict v
      else if k \<in> {''request_count'', ''success_count'', ''fail_count''} then is_count v
      else if k = ''cooldown_count'' then is_count_from 0 v
      else if k \<in> {''cooldown_tokens_actual'', ''cooldown_tokens_limit'', ''state_version''} then is_opt_count v
      else if k \<in> {''consecutive_fails'', ''renew_fail_count'', ''probe_fail_streak''} then is_opt_count v
      else True)"

lemma field_ok_simps [simp]:
  "field_ok ''state_version'' v = is_opt_count v"
  "field_ok ''last_quota'' v = (v \<notin> range PStr)" "field_ok ''last_probe'' v = (v \<notin> range PStr)"
  "field_ok ''cooldown_count'' v = is_count_from 0 v" "field_ok ''cooldown_until'' v = is_time v"
  "field_ok ''weight'' v = is_count_from 1 v"
  "field_ok ''request_count'' v = is_count v" "field_ok ''success_count'' v = is_count v"
  "field_ok ''fail_count'' v = is_count v"
  "field_ok ''cooldown_tokens_actual'' v = is_opt_count v"
  "field_ok ''cooldown_tokens_limit'' v = is_opt_count v"
  "field_ok ''consecutive_fails'' v = is_opt_count v"
  "field_ok ''renew_fail_count'' v = is_opt_count v"
  "field_ok ''probe_fail_streak'' v = is_opt_count v"
  "field_ok ''blocked_models'' v = is_dict v"
  "field_ok ''enabled'' v = (v \<in> {PBool True, PBool False})"
  "field_ok ''disabled_for_quota'' v = (v \<in> {PBool True, PBool False})"
  "field_ok ''last_used_at'' v = is_time v" "field_ok ''quota_disabled_at'' v = is_time v"
  by (simp_all add: field_ok_def)

text \<open>The keys kept as they are.\<close>

lemma field_ok_free [simp]:
  "field_ok ''status_stack'' v"
  "field_ok ''pool_status'' v"
  "field_ok ''last_error'' v"
  "field_ok ''last_status_code'' v"
  "field_ok ''cooldown_sec'' v"
  "field_ok ''cooldown_reason'' v"
  "field_ok ''cooldown_code'' v"
  "field_ok ''cooldown_model'' v"
  "field_ok ''cooldown_detail'' v"
  "field_ok ''disabled_reason'' v"
  "field_ok ''disabled_source'' v"
  "field_ok ''quota_source'' v"
  "field_ok ''last_probe_status'' v"
  "field_ok ''last_probe_fail_at'' v"
  "field_ok ''last_probe_ok_at'' v"
  "field_ok ''kicked_from_rotation'' v"
  "field_ok ''kick_reason'' v"
  "field_ok ''kick_at'' v"
  "field_ok ''probe_kick_count'' v"
  "field_ok ''token_expired_at'' v"
  "field_ok ''last_renew_status'' v"
  "field_ok ''last_renew_error'' v"
  "field_ok ''last_renew_fail_at'' v"
  "field_ok ''last_renew_ok_at'' v"
  "field_ok ''last_renew_source'' v"
  "field_ok ''sso_reauth_attempted_at'' v"
  "field_ok ''sso_reauth_error'' v"
  "field_ok ''sso_reauth_failed_at'' v"
  "field_ok ''sso_reauth_next_at'' v"
  "field_ok ''token_expired_reason'' v"
  "field_ok ''token_hint'' v"
  by (simp_all add: field_ok_def)

text \<open>A patch whose every entry has its field's type, or pops the key.\<close>

definition patch_fits :: "pydict \<Rightarrow> bool" where
  "patch_fits p \<longleftrightarrow> (\<forall>(k, v) \<in> set p. field_ok k v \<or> v = PNone)"

lemma patch_fits_simps [simp]:
  "patch_fits []"
  "patch_fits ((k, v) # p) \<longleftrightarrow> (field_ok k v \<or> v = PNone) \<and> patch_fits p"
  "patch_fits (p @ q) \<longleftrightarrow> patch_fits p \<and> patch_fits q"
  by (auto simp: patch_fits_def)

lemma patch_fits_filter: "patch_fits p \<Longrightarrow> patch_fits (filter P p)"
  by (auto simp: patch_fits_def)

lemma patch_fitsD: "patch_fits p \<Longrightarrow> map_of (rev p) k = Some v \<Longrightarrow> field_ok k v \<or> v = PNone"
  by (fastforce simp: patch_fits_def dest: map_of_SomeD)

lemma patch_fits_dset: "patch_fits p \<Longrightarrow> field_ok k v \<or> v = PNone \<Longrightarrow> patch_fits (dset p k v)"
proof (induction p)
  case Nil
  then show ?case by (simp add: dset_def)
next
  case (Cons x p)
  then show ?case by (cases x) (auto simp: dset_def)
qed

lemma patch_fits_dpop: "patch_fits p \<Longrightarrow> patch_fits (dpop p k)"
  by (auto simp: patch_fits_def dpop_def AList.delete_eq)

text \<open>A record whose every field has its type, or is absent.\<close>

definition typed :: "pydict \<Rightarrow> bool" where
  "typed m \<longleftrightarrow> (\<forall>k. field_ok k (dget m k) \<or> dget m k = PNone)"

lemma typedD: "typed m \<Longrightarrow> dget m k \<noteq> PNone \<Longrightarrow> field_ok k (dget m k)"
  by (auto simp: typed_def)

lemma typed_dset: "typed m \<Longrightarrow> field_ok k v \<Longrightarrow> typed (dset m k v)"
  by (simp add: typed_def)

lemma typed_merge:
  "typed m \<Longrightarrow> patch_fits p \<Longrightarrow> typed (merge_patch m p)"
  using patch_fitsD by (fastforce simp: typed_def dget_merge_patch split: option.splits)

lemma typed_no_str:
  assumes "typed m"
  shows "\<forall>s. dget m ''last_quota'' \<noteq> PStr s" "\<forall>s. dget m ''last_probe'' \<noteq> PStr s"
  using typedD [OF assms, of "''last_quota''"] typedD [OF assms, of "''last_probe''"] by auto

lemma typed_dpop: "typed m \<Longrightarrow> typed (dpop m k)"
  by (simp add: typed_def)

lemma typed_Nil [simp]: "typed []"
  by (simp add: typed_def)

lemma typed_counters:
  assumes "typed m"
  shows "\<exists>n. py_int (py_or (dget m ''weight'') (PInt 1)) = Some n"
    and "\<exists>n. int_or0 (dget m ''request_count'') = Some n" "\<exists>n. int_or0 (dget m ''success_count'') = Some n"
    and "\<exists>n. int_or0 (dget m ''fail_count'') = Some n" "\<exists>n. int_or0 (dget m ''consecutive_fails'') = Some n"
    and "\<exists>n. int_or0 (dget m ''cooldown_count'') = Some n" "\<exists>n. int_or0 (dget m ''renew_fail_count'') = Some n"
    and "\<exists>n. int_or0 (dget m ''probe_fail_streak'') = Some n"
proof -
  have w: "is_count_from b v \<Longrightarrow> \<exists>n. int_or0 v = Some n" "is_count v \<Longrightarrow> \<exists>n. int_or0 v = Some n"
    "is_opt_count v \<Longrightarrow> \<exists>n. int_or0 v = Some n" for b v
    by (cases v; simp)+
  have k: "(\<And>v. field_ok k v \<Longrightarrow> \<exists>n. int_or0 v = Some n) \<Longrightarrow> \<exists>n. int_or0 (dget m k) = Some n" for k
    using typedD [OF assms, of k] by (cases "dget m k = PNone") simp_all
  show "\<exists>n. py_int (py_or (dget m ''weight'') (PInt 1)) = Some n"
    using typedD [OF assms, of "''weight''"] by (cases "dget m ''weight''") (auto simp: py_or_def)
  show "\<exists>n. int_or0 (dget m ''request_count'') = Some n" "\<exists>n. int_or0 (dget m ''success_count'') = Some n"
    "\<exists>n. int_or0 (dget m ''fail_count'') = Some n" "\<exists>n. int_or0 (dget m ''consecutive_fails'') = Some n"
    "\<exists>n. int_or0 (dget m ''cooldown_count'') = Some n" "\<exists>n. int_or0 (dget m ''renew_fail_count'') = Some n"
    "\<exists>n. int_or0 (dget m ''probe_fail_streak'') = Some n"
    by (rule k; use w in simp)+
qed

text \<open>The view of a typed record is defined.\<close>

lemma typed_view: "typed (pool_get st a) \<Longrightarrow> pool_meta now None a st \<noteq> None"
proof -
  assume t: "typed (pool_get st a)"
  from typed_counters [OF t] show ?thesis
    by (elim exE) (simp add: pool_meta_def pool_meta_fields_def Let_def)
qed

text \<open>
  \<open>ok s\<close> is the store's own invariant, and
  \<open>label\<close> is the status derived on every write, from a record that agrees with what is read back
  on every kept key.
\<close>

locale account_store =
  fixes ops :: "'s store_ops"
    and ok :: "'s \<Rightarrow> bool"
  assumes ok_typed: "ok s \<Longrightarrow> good_id a \<Longrightarrow> typed (op_meta ops s a)"
    and patch_ok: "ok s \<Longrightarrow> good_id a \<Longrightarrow> patch_fits p \<Longrightarrow>
           ok (snd (op_patch ops now s a p))"
    and patch_frame: "ok s \<Longrightarrow> good_id a \<Longrightarrow> good_id b \<Longrightarrow> b \<noteq> a \<Longrightarrow>
           op_meta ops (snd (op_patch ops now s a p)) b = op_meta ops s b"
    and patch_assigned: "ok s \<Longrightarrow> good_id a \<Longrightarrow> patch_fits p \<Longrightarrow>
           map_of (rev p) k = Some v \<Longrightarrow> field_ok k v \<Longrightarrow> k \<notin> store_owned \<Longrightarrow>
           dget (op_meta ops (snd (op_patch ops now s a p)) a) k = v"
    and patch_pops: "ok s \<Longrightarrow> good_id a \<Longrightarrow> patch_fits p \<Longrightarrow>
           map_of (rev p) k = Some PNone \<Longrightarrow> k \<notin> {''enabled'', ''weight''} \<union> store_owned \<Longrightarrow>
           \<not> truthy (dget (op_meta ops (snd (op_patch ops now s a p)) a) k)"
    and patch_untouched: "ok s \<Longrightarrow> good_id a \<Longrightarrow> patch_fits p \<Longrightarrow>
           op_meta ops s a \<noteq> [] \<Longrightarrow> k \<notin> fst ` set p \<Longrightarrow> k \<notin> store_owned \<Longrightarrow>
           dget (op_meta ops (snd (op_patch ops now s a p)) a) k = dget (op_meta ops s a) k"
    and patch_label_cooldown: "ok s \<Longrightarrow> good_id a \<Longrightarrow> p \<noteq> [] \<Longrightarrow> patch_fits p \<Longrightarrow>
           norm_text (dget (op_meta ops (snd (op_patch ops now s a p)) a) ''pool_status'') = ''cooldown'' \<Longrightarrow>
           count_positive (op_meta ops (snd (op_patch ops now s a p)) a) \<or>
           stack_nonempty (op_meta ops (snd (op_patch ops now s a p)) a) \<or>
           until_active now (dget (op_meta ops (snd (op_patch ops now s a p)) a) ''cooldown_until'')"
begin

text \<open>A patch that assigns a positive count sidelines the account, whatever time it is read at.\<close>

lemma patch_cools:
  assumes "ok s" "good_id a" "patch_fits p"
    and "map_of (rev p) ''cooldown_count'' = Some (PInt n)" "0 < n"
  shows "is_in_cooldown later (op_meta ops (snd (op_patch ops now s a p)) a)"
proof -
  have "dget (op_meta ops (snd (op_patch ops now s a p)) a) ''cooldown_count'' = PInt n"
    using assms by (intro patch_assigned) (auto simp: store_owned_def)
  with \<open>0 < n\<close> show ?thesis by (simp add: is_in_cooldown_def count_positive_def)
qed

text \<open>A patch that clears count, stack and marker brings the account back.\<close>

lemma patch_recovers:
  assumes "ok s" "good_id a" "patch_fits p"
    and "map_of (rev p) ''cooldown_count'' = Some (PInt 0)"
    and "map_of (rev p) ''status_stack'' = Some (PList [])"
    and "map_of (rev p) ''cooldown_until'' = Some PNone"
  shows "\<not> is_in_cooldown now (op_meta ops (snd (op_patch ops now s a p)) a)"
proof -
  let ?m = "op_meta ops (snd (op_patch ops now s a p)) a"
  have "dget ?m ''cooldown_count'' = PInt 0" "dget ?m ''status_stack'' = PList []"
    "dget ?m ''cooldown_until'' = PNone"
    using assms by (auto intro!: patch_assigned simp: store_owned_def)
  then have n: "\<not> count_positive ?m" "\<not> stack_nonempty ?m" "\<not> until_active now (dget ?m ''cooldown_until'')"
    by (simp_all add: count_positive_def stack_nonempty_def until_active_def)
  moreover have "p \<noteq> []" using assms(4) by auto
  ultimately have "norm_text (dget ?m ''pool_status'') \<noteq> ''cooldown''"
    using patch_label_cooldown [OF assms(1,2) _ assms(3)] by blast
  with n show ?thesis by (simp add: is_in_cooldown_def)
qed

end

subsection \<open>The file store keeps the contract\<close>

lemma file_meta_good [simp]: "good_id a \<Longrightarrow> file_meta p a = pool_get p a"
  by (auto simp: file_meta_def good_id_def)

lemma file_patch_meta:
  assumes "good_id a" "p \<noteq> []"
  shows "file_meta (snd (file_patch now s a p)) a =
     dset (merge_patch (pool_get s a) p) ''pool_status''
       (PStr (derive_pool_status now (merge_patch (pool_get s a) p)))"
  using assms by (simp add: file_patch_def Let_def) (simp add: good_id_def)

lemma derive_cooldown:
  "derive_pool_status now m = ''cooldown'' \<Longrightarrow>
     count_positive m \<or> until_active now (dget m ''cooldown_until'')"
  by (auto simp: derive_pool_status_def split: if_splits)

lemma pool_statuses_norm: "s \<in> pool_statuses \<Longrightarrow> norm_text (PStr s) = s"
  by (auto simp: pool_statuses_def norm_text_literal)

lemma count_positive_dset [simp]:
  "k \<noteq> ''cooldown_count'' \<Longrightarrow> count_positive (dset m k v) = count_positive m"
  by (simp add: count_positive_def)

lemma stack_nonempty_dset [simp]:
  "k \<noteq> ''status_stack'' \<Longrightarrow> stack_nonempty (dset m k v) = stack_nonempty m"
  by (simp add: stack_nonempty_def)

definition wf_file :: "pool \<Rightarrow> bool" where
  "wf_file p \<longleftrightarrow> (\<forall>a. typed (pool_get p a))"

lemma wf_file_put: "wf_file p \<Longrightarrow> typed m \<Longrightarrow> wf_file (pool_put p a m)"
  by (simp add: wf_file_def)

lemma wf_file_patch: "wf_file s \<Longrightarrow> patch_fits p \<Longrightarrow> wf_file (snd (file_patch now s a p))"
  by (simp add: file_patch_def Let_def wf_file_put typed_dset typed_merge wf_file_def)

interpretation fs: account_store file_ops wf_file
proof (unfold_locales, goal_cases)
  case (1 s a)
  then show ?case by (simp add: file_ops_def wf_file_def)
next
  case (2 s a p now)
  then show ?case by (simp add: file_ops_def wf_file_patch)
next
  case (3 s a b now p)
  then show ?case by (simp add: file_ops_def file_patch_def Let_def)
next
  case (4 s a p k v now)
  then have "p \<noteq> []" by auto
  with 4 show ?case
    by (simp add: file_ops_def file_patch_meta store_owned_def dget_merge_patch del: file_meta_good)
next
  case (5 s a p k now)
  then have "p \<noteq> []" by auto
  with 5 show ?case
    by (simp add: file_ops_def file_patch_meta store_owned_def dget_merge_patch del: file_meta_good)
next
  case (6 s a p k now)
  show ?case
  proof (cases "p = []")
    case True
    with 6 show ?thesis by (simp add: file_ops_def file_patch_def)
  next
    case False
    with 6 show ?thesis
      by (simp add: file_ops_def file_patch_meta store_owned_def dget_merge_patch_other
          del: file_meta_good) simp
  qed
next
  case (7 s a p now)
  let ?m = "merge_patch (pool_get s a) p"
  from 7 have "norm_text (PStr (derive_pool_status now ?m)) = ''cooldown''"
    by (simp add: file_ops_def file_patch_meta del: file_meta_good)
  then have "derive_pool_status now ?m = ''cooldown''"
    by (simp add: pool_statuses_norm derive_pool_status_range)
  with derive_cooldown 7 show ?case
    by (fastforce simp: file_ops_def file_patch_meta simp del: file_meta_good)
qed

subsection \<open>Counting a request\<close>

text \<open>The keys a count of a request may write.\<close>

definition touch_keys :: "string set" where
  "touch_keys =
     {''enabled'', ''weight'', ''request_count'', ''success_count'', ''fail_count'', ''last_used_at'',
      ''consecutive_fails'', ''last_error'', ''last_status_code'', ''cooldown_until'', ''cooldown_sec'',
      ''pool_status'', ''state_version''}"

definition counted :: "pydict \<Rightarrow> bool" where
  "counted m \<longleftrightarrow>
     (\<forall>k \<in> {''request_count'', ''success_count'', ''fail_count''}. int_or0 (dget m k) \<noteq> None)"

lemma typed_counted: "typed m \<Longrightarrow> counted m"
  using typed_counters(2-4) [of m] by (auto simp: counted_def)

locale pool_store = account_store +
  assumes touch_total: "ok s \<Longrightarrow> good_id a \<Longrightarrow> counted (ta_current_meta ta) \<Longrightarrow>
           op_touch ops now ta s a \<noteq> None"
    and touch_ok: "ok s \<Longrightarrow> good_id a \<Longrightarrow>
           op_touch ops now ta s a = Some (m, s') \<Longrightarrow> ok s'"
    and touch_typed: "ok s \<Longrightarrow> good_id a \<Longrightarrow> op_touch ops now ta s a = Some (m, s') \<Longrightarrow> typed m"
    and touch_frame: "ok s \<Longrightarrow> good_id a \<Longrightarrow> good_id b \<Longrightarrow> b \<noteq> a \<Longrightarrow>
           op_touch ops now ta s a = Some (m, s') \<Longrightarrow> op_meta ops s' b = op_meta ops s b"
    and touch_other: "ok s \<Longrightarrow> good_id a \<Longrightarrow> op_touch ops now ta s a = Some (m, s') \<Longrightarrow>
           op_meta ops s a \<noteq> [] \<Longrightarrow> k \<notin> touch_keys \<Longrightarrow>
           dget (op_meta ops s' a) k = dget (op_meta ops s a) k"
    and touch_until: "ok s \<Longrightarrow> good_id a \<Longrightarrow> op_touch ops now ta s a = Some (m, s') \<Longrightarrow>
           op_meta ops s a \<noteq> [] \<Longrightarrow> ta_success ta \<Longrightarrow> ta_preserve_cooldown ta \<Longrightarrow>
           dget (op_meta ops s' a) ''cooldown_until'' = dget (op_meta ops s a) ''cooldown_until''"
begin

text \<open>Counting a request neither clears a count nor a stack of hits.\<close>

lemma touch_keeps_marks:
  assumes "ok s" "good_id a" "op_touch ops now ta s a = Some (m, s')" "op_meta ops s a \<noteq> []"
  shows "count_positive (op_meta ops s' a) = count_positive (op_meta ops s a)"
    and "stack_nonempty (op_meta ops s' a) = stack_nonempty (op_meta ops s a)"
  using touch_other [OF assms, of "''cooldown_count''"] touch_other [OF assms, of "''status_stack''"]
  by (simp_all add: count_positive_def stack_nonempty_def touch_keys_def)

end

lemma touch_patch_keys: "k \<in> fst ` set (touch_patch now ta) \<Longrightarrow> k \<in> touch_keys"
  by (auto simp: touch_patch_def touch_keys_def Let_def split: option.splits if_splits)

lemma touch_state_patch_keys: "k \<in> fst ` set (touch_state_patch now ta) \<Longrightarrow> k \<in> touch_keys"
  using touch_patch_keys by (fastforce simp: touch_state_patch_def)

lemma touch_patch_fits: "patch_fits (touch_patch now ta)"
  by (simp add: touch_patch_def Let_def split: option.splits)

lemma touch_state_patch_fits: "patch_fits (touch_state_patch now ta)"
  by (simp add: touch_state_patch_def patch_fits_filter touch_patch_fits)

lemma bump_other: "bump m k = Some m' \<Longrightarrow> j \<noteq> k \<Longrightarrow> dget m' j = dget m j"
  by (auto simp: bump_def)

lemma set_default_other [simp]: "j \<noteq> k \<Longrightarrow> dget (set_default m k v) j = dget m j"
  by (simp add: set_default_def)

lemma file_touch_success_other:
  "file_touch_success ta m = Some m' \<Longrightarrow>
     k \<notin> {''success_count'', ''consecutive_fails'', ''last_error'', ''cooldown_until'', ''cooldown_sec''} \<Longrightarrow>
     dget m' k = dget m k"
  by (cases "bump m ''success_count''")
    (auto simp: file_touch_success_def Let_def dest: bump_other [of _ _ _ k])

lemma file_touch_failure_other:
  assumes "file_touch_failure ta m = Some m'"
    and "k \<notin> {''fail_count'', ''consecutive_fails'', ''last_error'', ''last_status_code'', ''cooldown_until'', ''cooldown_sec''}"
  shows "dget m' k = dget m k"
proof -
  obtain m1 where m1: "bump m ''fail_count'' = Some m1"
    using assms(1) by (cases "bump m ''fail_count''") (simp_all add: file_touch_failure_def)
  obtain m2 where m2: "(case ta_consecutive_fails ta of
      Some n \<Rightarrow> Some (dset m1 ''consecutive_fails'' (PInt n)) | None \<Rightarrow> bump m1 ''consecutive_fails'') = Some m2"
    using assms(1) m1 by (cases "case ta_consecutive_fails ta of
      Some n \<Rightarrow> Some (dset m1 ''consecutive_fails'' (PInt n)) | None \<Rightarrow> bump m1 ''consecutive_fails''")
      (simp_all add: file_touch_failure_def)
  have "dget m' k = dget m2 k"
    using assms m1 m2 by (auto simp: file_touch_failure_def Let_def split: option.splits)
  also have "\<dots> = dget m1 k"
    using m2 assms(2) by (cases "ta_consecutive_fails ta") (auto dest: bump_other [of _ _ _ k])
  also have "\<dots> = dget m k" using bump_other [OF m1] assms(2) by simp
  finally show ?thesis .
qed

lemma file_touch_meta:
  assumes "good_id a" "file_touch now ta s a = Some (m, s')" "k \<notin> touch_keys"
  shows "dget (pool_get s' a) k = dget (pool_get s a) k"
proof -
  let ?s0 = "if ta_success ta then s else snd (file_patch now s a (touch_state_patch now ta))"
  have ks: "k \<noteq> ''enabled''" "k \<noteq> ''weight''" "k \<noteq> ''request_count''" "k \<noteq> ''success_count''"
    "k \<noteq> ''fail_count''" "k \<noteq> ''last_used_at''" "k \<noteq> ''consecutive_fails''" "k \<noteq> ''last_error''"
    "k \<noteq> ''last_status_code''" "k \<noteq> ''cooldown_until''" "k \<noteq> ''cooldown_sec''" "k \<noteq> ''pool_status''"
    using assms(3) by (simp_all add: touch_keys_def)
  have a: "a \<noteq> []" using assms(1) by (simp add: good_id_def)
  have "dget (pool_get ?s0 a) k = dget (pool_get s a) k"
  proof (cases "ta_success ta \<or> touch_state_patch now ta = []")
    case True
    then show ?thesis by (auto simp: file_patch_def)
  next
    case False
    moreover have "k \<notin> fst ` set (touch_state_patch now ta)"
      using touch_state_patch_keys assms(3) by blast
    ultimately show ?thesis
      using a ks by (simp add: file_patch_def Let_def dget_merge_patch_other)
  qed
  moreover have "dget (pool_get s' a) k = dget (pool_get ?s0 a) k"
  proof -
    let ?m0 = "set_default (set_default (pool_get ?s0 a) ''enabled'' (PBool True)) ''weight'' (PInt 1)"
    obtain m1 where m1: "bump ?m0 ''request_count'' = Some m1"
      using assms(2) a by (cases "bump ?m0 ''request_count''") (simp_all add: file_touch_def Let_def)
    let ?m2 = "dset m1 ''last_used_at'' (PFloat now)"
    let ?t = "if ta_success ta then file_touch_success ta ?m2 else file_touch_failure ta ?m2"
    obtain m3 where m3: "?t = Some m3"
      using assms(2) a m1 by (cases ?t) (simp_all add: file_touch_def Let_def)
    have "pool_get s' a = m" "dget m k = dget m3 k"
      using assms(2) a m1 m3 ks by (auto simp: file_touch_def Let_def)
    moreover have "dget m3 k = dget ?m2 k"
      using m3 ks file_touch_success_other [of ta ?m2 m3 k] file_touch_failure_other [of ta ?m2 m3 k]
      by (simp split: if_splits)
    moreover have "dget ?m2 k = dget (pool_get ?s0 a) k"
      using bump_other [OF m1, of k] ks by simp
    ultimately show ?thesis by simp
  qed
  ultimately show ?thesis by simp
qed

lemma file_touch_success_until:
  "file_touch_success ta m = Some m' \<Longrightarrow> ta_preserve_cooldown ta \<Longrightarrow>
     dget m' ''cooldown_until'' = dget m ''cooldown_until''"
  by (cases "bump m ''success_count''")
    (auto simp: file_touch_success_def Let_def dest: bump_other [of _ _ _ "''cooldown_until''"])

lemma file_touch_until:
  assumes "good_id a" "file_touch now ta s a = Some (m, s')" "ta_success ta" "ta_preserve_cooldown ta"
  shows "dget (pool_get s' a) ''cooldown_until'' = dget (pool_get s a) ''cooldown_until''"
proof -
  have a: "a \<noteq> []" using assms(1) by (simp add: good_id_def)
  let ?m0 = "set_default (set_default (pool_get s a) ''enabled'' (PBool True)) ''weight'' (PInt 1)"
  obtain m1 where m1: "bump ?m0 ''request_count'' = Some m1"
    using assms(2,3) a by (cases "bump ?m0 ''request_count''") (simp_all add: file_touch_def Let_def)
  obtain m3 where m3: "file_touch_success ta (dset m1 ''last_used_at'' (PFloat now)) = Some m3"
    using assms(2,3) a m1 by (cases "file_touch_success ta (dset m1 ''last_used_at'' (PFloat now))")
      (simp_all add: file_touch_def Let_def)
  have "dget (pool_get s' a) ''cooldown_until'' = dget m3 ''cooldown_until''"
    using assms(2,3) a m1 m3 by (auto simp: file_touch_def Let_def)
  also have "\<dots> = dget m1 ''cooldown_until''"
    using file_touch_success_until [OF m3 assms(4)] by simp
  also have "\<dots> = dget (pool_get s a) ''cooldown_until''"
    using bump_other [OF m1, of "''cooldown_until''"] by simp
  finally show ?thesis .
qed

lemma file_touch_frame:
  "good_id a \<Longrightarrow> b \<noteq> a \<Longrightarrow> file_touch now ta s a = Some (m, s') \<Longrightarrow> pool_get s' b = pool_get s b"
  by (auto simp: file_touch_def file_patch_def Let_def bind_eq_Some_conv split: if_splits)

text \<open>Counting a request in a typed record succeeds and keeps it typed.\<close>

lemma typed_bump:
  assumes "typed m" "k \<in> {''request_count'', ''success_count'', ''fail_count'', ''consecutive_fails''}"
  shows "\<exists>m'. bump m k = Some m' \<and> typed m'"
proof -
  have "\<exists>n. int_or0 (dget m k) = Some n" using assms(2) typed_counters(2-5) [OF assms(1)] by auto
  moreover have "field_ok k (PInt n)" for n using assms(2) by auto
  ultimately show ?thesis using assms(1) by (auto simp: bump_def intro!: typed_dset)
qed

lemma typed_set_default: "typed m \<Longrightarrow> field_ok k v \<Longrightarrow> typed (set_default m k v)"
  by (simp add: set_default_def typed_dset)

lemma typed_touch_success: "typed m \<Longrightarrow> \<exists>m'. file_touch_success ta m = Some m' \<and> typed m'"
  using typed_bump [of m "''success_count''"]
  by (auto simp: file_touch_success_def Let_def intro!: typed_dset typed_dpop)

lemma typed_touch_failure: "typed m \<Longrightarrow> \<exists>m'. file_touch_failure ta m = Some m' \<and> typed m'"
proof -
  assume "typed m"
  then obtain m1 where m1: "bump m ''fail_count'' = Some m1" "typed m1"
    using typed_bump [of m "''fail_count''"] by auto
  have "\<exists>m2. (case ta_consecutive_fails ta of Some n \<Rightarrow> Some (dset m1 ''consecutive_fails'' (PInt n))
      | None \<Rightarrow> bump m1 ''consecutive_fails'') = Some m2 \<and> typed m2"
    using typed_bump [OF m1(2), of "''consecutive_fails''"] m1(2)
    by (cases "ta_consecutive_fails ta") (auto intro!: typed_dset)
  then obtain m2 where m2: "(case ta_consecutive_fails ta of Some n \<Rightarrow> Some (dset m1 ''consecutive_fails'' (PInt n))
      | None \<Rightarrow> bump m1 ''consecutive_fails'') = Some m2" "typed m2" by blast
  show ?thesis
    using m1 m2 by (auto simp: file_touch_failure_def Let_def split: option.split intro!: typed_dset)
qed

lemma file_touch_typed:
  assumes "wf_file s" "good_id a"
  shows "\<exists>m s'. file_touch now ta s a = Some (m, s') \<and> wf_file s' \<and> typed m"
proof -
  let ?s0 = "if ta_success ta then s else snd (file_patch now s a (touch_state_patch now ta))"
  let ?m0 = "set_default (set_default (pool_get ?s0 a) ''enabled'' (PBool True)) ''weight'' (PInt 1)"
  have a: "a \<noteq> []" using assms(2) by (simp add: good_id_def)
  have s0: "wf_file ?s0" using assms(1) by (simp add: wf_file_patch touch_state_patch_fits)
  then have "typed ?m0" by (simp add: wf_file_def typed_set_default)
  then obtain m1 where m1: "bump ?m0 ''request_count'' = Some m1" "typed m1"
    using typed_bump [of ?m0 "''request_count''"] by auto
  let ?m2 = "dset m1 ''last_used_at'' (PFloat now)"
  have "typed ?m2" using m1(2) by (simp add: typed_dset)
  then obtain m3 where m3:
    "(if ta_success ta then file_touch_success ta ?m2 else file_touch_failure ta ?m2) = Some m3" "typed m3"
    using typed_touch_success [of ?m2 ta] typed_touch_failure [of ?m2 ta] by (cases "ta_success ta") auto
  show ?thesis
    using a m1 m3 s0 by (auto simp: file_touch_def Let_def wf_file_put typed_dset)
qed

interpretation fps: pool_store file_ops wf_file
proof (unfold_locales, goal_cases)
  case (1 s a ta now)
  then show ?case using file_touch_typed [of s a now ta] by (auto simp: file_ops_def)
next
  case (2 s a now ta m s')
  then show ?case using file_touch_typed [of s a now ta] by (auto simp: file_ops_def)
next
  case (3 s a now ta m s')
  then show ?case using file_touch_typed [of s a now ta] by (auto simp: file_ops_def)
qed (simp_all add: file_ops_def file_touch_frame file_touch_meta file_touch_until)

end
