(* ===== verification/Pool_Row.thy ===== *)
theory Pool_Row
  imports Pool_Store
begin

text \<open>
  The PostgreSQL store of the pool (\<open>grok2api/store/settings_pg.py\<close>): the row of table \<open>account_pool\<close>,
  its two conversions, the upsert with its guards, the locked patch of one row and the queued patch of
  the writer, and the PostgreSQL branch of \<open>settings_store.patch_account_pool_meta\<close> and
  \<open>touch_account_stats\<close> with its fall-back to the in-process settings when a write raises.

  A nullable timestamp is an optional number of seconds; a JSONB column is the value it decodes to.
  The date parser of the standard library and \<open>json.loads\<close> are the fields of \<open>pg_env\<close>. The Redis
  version counters are part of the state; without Redis they are not read.
\<close>

record pg_env =
  pe_iso :: "string \<Rightarrow> rat option"
  pe_loads :: "string \<Rightarrow> pyval option"

record pool_row =
  r_enabled :: bool
  r_weight :: int
  r_disabled_for_quota :: bool
  r_disabled_reason :: pyval
  r_quota_disabled_at :: "rat option"
  r_quota_source :: pyval
  r_last_quota :: pyval
  r_last_probe :: pyval
  r_blocked_models :: pydict
  r_request_count :: int
  r_success_count :: int
  r_fail_count :: int
  r_last_used_at :: "rat option"
  r_last_error :: pyval
  r_cooldown_until :: "rat option"
  r_extra :: pydict
  r_pool_status :: string
  r_cooldown_count :: int
  r_cooldown_reason :: pyval
  r_cooldown_code :: pyval
  r_cooldown_model :: pyval
  r_tokens_actual :: "int option"
  r_tokens_limit :: "int option"
  r_last_probe_status :: pyval
  r_state_version :: int

definition POOL_CORE_KEYS :: "string list" where
  "POOL_CORE_KEYS =
     [''enabled'', ''weight'', ''disabled_for_quota'', ''disabled_reason'', ''quota_disabled_at'',
      ''quota_source'', ''last_quota'', ''last_probe'', ''blocked_models'', ''request_count'',
      ''success_count'', ''fail_count'', ''last_used_at'', ''last_error'', ''cooldown_until'',
      ''pool_status'', ''cooldown_count'', ''cooldown_reason'', ''cooldown_code'', ''cooldown_model'',
      ''cooldown_tokens_actual'', ''cooldown_tokens_limit'', ''last_probe_status'', ''state_version'']"

subsection \<open>Reading a row\<close>

definition decode_jsonish :: "pg_env \<Rightarrow> pyval \<Rightarrow> pyval" where
  "decode_jsonish env v =
     (case v of PStr s \<Rightarrow> (case pe_loads env s of Some w \<Rightarrow> w | None \<Rightarrow> v) | _ \<Rightarrow> v)"

definition set_present :: "pydict \<Rightarrow> string \<Rightarrow> pyval \<Rightarrow> pydict" where
  "set_present m k v = (if v = PNone then m else dset m k v)"

definition not_core :: "pydict \<Rightarrow> pydict" where
  "not_core d = filter (\<lambda>(k, _). k \<notin> set POOL_CORE_KEYS) d"

text \<open>
  The columns \<open>pool_status\<close>, \<open>cooldown_count\<close> and \<open>state_version\<close> are \<open>NOT NULL\<close>, so the label is
  never empty and the derivation at the end of \<open>_row_to_meta\<close> is not reached.
\<close>

definition row_to_meta :: "pg_env \<Rightarrow> pool_row \<Rightarrow> pydict" where
  "row_to_meta env r =
     (let meta =
        [(''enabled'', PBool (r_enabled r)),
         (''weight'', PInt (if r_weight r = 0 then 1 else r_weight r)),
         (''disabled_for_quota'', PBool (r_disabled_for_quota r)),
         (''disabled_reason'', r_disabled_reason r),
         (''quota_disabled_at'', of_opt PFloat (r_quota_disabled_at r)),
         (''quota_source'', r_quota_source r),
         (''last_quota'', decode_jsonish env (r_last_quota r)),
         (''last_probe'', decode_jsonish env (r_last_probe r)),
         (''blocked_models'', PDict (r_blocked_models r)),
         (''request_count'', PInt (r_request_count r)),
         (''success_count'', PInt (r_success_count r)),
         (''fail_count'', PInt (r_fail_count r)),
         (''last_used_at'', of_opt PFloat (r_last_used_at r)),
         (''last_error'', r_last_error r),
         (''cooldown_until'', of_opt PFloat (r_cooldown_until r))];
          meta = dupdate meta (not_core (r_extra r));
          meta = dset meta ''pool_status'' (PStr (if r_pool_status r = [] then ''normal'' else r_pool_status r));
          meta = dset meta ''cooldown_count'' (PInt (r_cooldown_count r));
          meta = set_present meta ''cooldown_reason'' (r_cooldown_reason r);
          meta = set_present meta ''cooldown_code'' (r_cooldown_code r);
          meta = set_present meta ''cooldown_model'' (r_cooldown_model r);
          meta = set_present meta ''cooldown_tokens_actual'' (of_opt PInt (r_tokens_actual r));
          meta = set_present meta ''cooldown_tokens_limit'' (of_opt PInt (r_tokens_limit r));
          meta = set_present meta ''last_probe_status'' (r_last_probe_status r)
      in dset meta ''state_version'' (PInt (r_state_version r)))"

subsection \<open>Writing a row\<close>

text \<open>\<open>pg._ts\<close>: the timestamp column of a value.\<close>

fun ts_col :: "pg_env \<Rightarrow> pyval \<Rightarrow> rat option" where
  "ts_col env PNone = None"
| "ts_col env (PInt i) = Some (of_int i)"
| "ts_col env (PBool b) = Some (if b then 1 else 0)"
| "ts_col env (PFloat q) = Some q"
| "ts_col env (PStr s) =
     (let t = strip s in
      if t = [] then None
      else pe_iso env (if ends_with t ''Z'' then butlast t @ ''+00:00'' else t))"
| "ts_col env v = None"

text \<open>A \<open>BIGINT\<close> column: an integer or \<open>NULL\<close>, anything else is an error of the driver.\<close>

fun int_col :: "pyval \<Rightarrow> int option option" where
  "int_col PNone = Some None"
| "int_col (PInt i) = Some (Some i)"
| "int_col v = None"

text \<open>The row \<open>_upsert_pool\<close> inserts for a record, its derived label and count stamped.\<close>

definition row_of_meta :: "pg_env \<Rightarrow> rat \<Rightarrow> pydict \<Rightarrow> pool_row option" where
  "row_of_meta env now meta0 = do {
     let blocked = py_or (dget meta0 ''blocked_models'') (PDict []);
     let status = pg_derive_pool_status now meta0;
     let meta = dset meta0 ''pool_status'' (PStr status);
     let count = max 0 (case int_or0 (dget meta ''cooldown_count'') of Some n \<Rightarrow> n | None \<Rightarrow> 0);
     let meta = dset meta ''cooldown_count'' (PInt count);
     let extra = filter (\<lambda>(k, v). k \<notin> set POOL_CORE_KEYS \<and> v \<noteq> PNone) meta;
     let extra = dset (dset extra ''pool_status'' (PStr status)) ''cooldown_count'' (PInt count);
     weight \<leftarrow> py_int (py_or (dget meta ''weight'') (PInt 1));
     request_count \<leftarrow> int_or0 (dget meta ''request_count'');
     success_count \<leftarrow> int_or0 (dget meta ''success_count'');
     fail_count \<leftarrow> int_or0 (dget meta ''fail_count'');
     tokens_actual \<leftarrow> int_col (dget meta ''cooldown_tokens_actual'');
     tokens_limit \<leftarrow> int_col (dget meta ''cooldown_tokens_limit'');
     version \<leftarrow> int_or0 (dget meta ''state_version'');
     Some \<lparr>r_enabled = truthy (dget_or meta ''enabled'' (PBool True)),
       r_weight = max 1 weight,
       r_disabled_for_quota = truthy (dget meta ''disabled_for_quota''),
       r_disabled_reason = dget meta ''disabled_reason'',
       r_quota_disabled_at = ts_col env (dget meta ''quota_disabled_at''),
       r_quota_source = dget meta ''quota_source'',
       r_last_quota = dget meta ''last_quota'',
       r_last_probe = dget meta ''last_probe'',
       r_blocked_models = dict_of blocked,
       r_request_count = request_count,
       r_success_count = success_count,
       r_fail_count = fail_count,
       r_last_used_at = ts_col env (dget meta ''last_used_at''),
       r_last_error = dget meta ''last_error'',
       r_cooldown_until = ts_col env (dget meta ''cooldown_until''),
       r_extra = extra,
       r_pool_status = status,
       r_cooldown_count = count,
       r_cooldown_reason = dget meta ''cooldown_reason'',
       r_cooldown_code = dget meta ''cooldown_code'',
       r_cooldown_model = dget meta ''cooldown_model'',
       r_tokens_actual = tokens_actual,
       r_tokens_limit = tokens_limit,
       r_last_probe_status = dget meta ''last_probe_status'',
       r_state_version = version\<rparr>
   }"

text \<open>
  What \<open>preserve_active_cooldown\<close> restores from the stored row into the record before it is written:
  an active marker, and the count, label and cooldown columns the record lacks.
\<close>

definition fill_missing :: "pydict \<Rightarrow> string \<Rightarrow> pyval \<Rightarrow> pydict" where
  "fill_missing m k v = (if dget m k = PNone \<and> v \<noteq> PNone then dset m k v else m)"

definition preserve_cooldown :: "rat \<Rightarrow> pool_row option \<Rightarrow> pydict \<Rightarrow> pydict" where
  "preserve_cooldown now old meta0 =
     (case old of None \<Rightarrow> meta0
      | Some r \<Rightarrow>
          (let meta = (if dget meta0 ''cooldown_until'' = PNone
                       then (case r_cooldown_until r of
                               Some u \<Rightarrow> (if now < u then dset meta0 ''cooldown_until'' (PFloat u) else meta0)
                             | None \<Rightarrow> meta0)
                       else meta0);
               meta = (if \<not> truthy (dget meta ''cooldown_count'') \<and> r_cooldown_count r \<noteq> 0
                       then dset meta ''cooldown_count'' (PInt (r_cooldown_count r)) else meta);
               meta = (if \<not> truthy (dget meta ''pool_status'') \<and> r_pool_status r \<noteq> []
                       then dset meta ''pool_status'' (PStr (r_pool_status r)) else meta);
               meta = fill_missing meta ''cooldown_reason'' (r_cooldown_reason r);
               meta = fill_missing meta ''cooldown_code'' (r_cooldown_code r);
               meta = fill_missing meta ''cooldown_model'' (r_cooldown_model r);
               meta = fill_missing meta ''cooldown_tokens_actual'' (of_opt PInt (r_tokens_actual r))
           in fill_missing meta ''cooldown_tokens_limit'' (of_opt PInt (r_tokens_limit r))))"

definition greatest :: "rat option \<Rightarrow> rat option \<Rightarrow> rat option" where
  "greatest a b = (case (a, b) of (None, _) \<Rightarrow> b | (_, None) \<Rightarrow> a | (Some x, Some y) \<Rightarrow> Some (max x y))"

definition on_conflict :: "rat \<Rightarrow> bool \<Rightarrow> bool \<Rightarrow> bool \<Rightarrow> pool_row \<Rightarrow> pool_row \<Rightarrow> pool_row" where
  "on_conflict now preserve_active only_if_newer preserve_counters old new =
     (if \<not> only_if_newer \<or> r_state_version old < r_state_version new
      then new\<lparr>
        r_request_count := (if preserve_counters then r_request_count old else r_request_count new),
        r_success_count := (if preserve_counters then r_success_count old else r_success_count new),
        r_fail_count := (if preserve_counters then r_fail_count old else r_fail_count new),
        r_last_used_at := (if preserve_counters then greatest (r_last_used_at old) (r_last_used_at new)
                           else r_last_used_at new),
        r_cooldown_until := (case r_cooldown_until new of
            Some u \<Rightarrow> Some u
          | None \<Rightarrow> (case r_cooldown_until old of
                Some u \<Rightarrow> (if preserve_active \<and> now < u then Some u else None)
              | None \<Rightarrow> None)),
        r_state_version := max (r_state_version old) (r_state_version new)\<rparr>
      else old)"

type_synonym pg_rows = "(string \<times> pool_row) list"

definition upsert_pool ::
  "pg_env \<Rightarrow> rat \<Rightarrow> bool \<Rightarrow> bool \<Rightarrow> bool \<Rightarrow> pg_rows \<Rightarrow> string \<Rightarrow> pydict \<Rightarrow> pg_rows option" where
  "upsert_pool env now preserve_active only_if_newer preserve_counters rows account_id meta =
     (let old = map_of rows account_id;
          meta = (if preserve_active then preserve_cooldown now old meta else meta)
      in map_option (\<lambda>new. AList.update account_id
             (case old of None \<Rightarrow> new
              | Some r \<Rightarrow> on_conflict now preserve_active only_if_newer preserve_counters r new) rows)
           (row_of_meta env now meta))"

subsection \<open>Patching a row\<close>

definition default_meta :: pydict where
  "default_meta =
     [(''enabled'', PBool True), (''weight'', PInt 1), (''blocked_models'', PDict []),
      (''pool_status'', PStr ''normal''), (''cooldown_count'', PInt 0)]"

definition row_meta_or_default :: "pg_env \<Rightarrow> pg_rows \<Rightarrow> string \<Rightarrow> pydict" where
  "row_meta_or_default env rows a =
     (case map_of rows a of Some r \<Rightarrow> row_to_meta env r | None \<Rightarrow> default_meta)"

text \<open>\<open>patch_pool_meta\<close>: \<open>redis_version\<close> is what \<open>next_state_sequence\<close> returned, 0 without Redis.\<close>

definition pg_patch_pool_meta ::
  "pg_env \<Rightarrow> rat \<Rightarrow> int \<Rightarrow> pg_rows \<Rightarrow> string \<Rightarrow> pydict \<Rightarrow> (pydict \<times> pg_rows) option" where
  "pg_patch_pool_meta env now redis_version rows account_id patch =
     (if account_id = [] then Some ([], rows)
      else do {
        let meta = merge_patch (row_meta_or_default env rows account_id) patch;
        current_version \<leftarrow> int_or0 (dget meta ''state_version'');
        let meta = dset meta ''state_version'' (PInt (max (current_version + 1) redis_version));
        let meta = dset meta ''pool_status'' (PStr (pg_derive_pool_status now meta));
        rows' \<leftarrow> upsert_pool env now False False False rows account_id meta;
        Some (meta, rows')
      })"

text \<open>\<open>apply_pool_state_event\<close>: one queued patch, refused unless it is newer than the row.\<close>

definition apply_pool_state_event ::
  "pg_env \<Rightarrow> rat \<Rightarrow> pg_rows \<Rightarrow> string \<Rightarrow> pydict \<Rightarrow> int \<Rightarrow> (bool \<times> pg_rows) option" where
  "apply_pool_state_event env now rows account_id patch state_version =
     (if account_id = [] then Some (False, rows)
      else do {
        let meta = (case map_of rows account_id of
                      Some r \<Rightarrow> row_to_meta env r
                    | None \<Rightarrow> default_meta @ [(''state_version'', PInt 0)]);
        current_version \<leftarrow> int_or0 (dget meta ''state_version'');
        let version = max 0 state_version;
        if version \<le> current_version then Some (False, rows)
        else do {
          let meta = merge_patch meta patch;
          let meta = dset meta ''state_version'' (PInt version);
          let meta = dset meta ''pool_status'' (PStr (pg_derive_pool_status now meta));
          rows' \<leftarrow> upsert_pool env now False True True rows account_id meta;
          Some (True, rows')
        }
      })"

subsection \<open>Round trip of a record through its row\<close>

definition wf_row :: "pool_row \<Rightarrow> bool" where
  "wf_row r \<longleftrightarrow> distinct (map fst (r_extra r)) \<and> 1 \<le> r_weight r \<and> 0 \<le> r_cooldown_count r \<and>
     r_pool_status r \<noteq> [] \<and>
     (\<forall>s. r_last_quota r \<noteq> PStr s) \<and> (\<forall>s. r_last_probe r \<noteq> PStr s) \<and>
     (\<forall>k \<in> {''consecutive_fails'', ''renew_fail_count'', ''probe_fail_streak''}. is_opt_count (dget (r_extra r) k))"

lemma map_of_rev_not_core_core: "k \<in> set POOL_CORE_KEYS \<Longrightarrow> map_of (rev (not_core d)) k = None"
  by (auto simp: map_of_eq_None_iff not_core_def)

lemma distinct_not_core: "distinct (map fst d) \<Longrightarrow> distinct (map fst (not_core d))"
  by (simp add: not_core_def distinct_map_filter)

lemma map_of_not_core: "k \<notin> set POOL_CORE_KEYS \<Longrightarrow> map_of (not_core d) k = map_of d k"
  by (induction d) (auto simp: not_core_def)

lemma map_of_rev_not_core:
  "distinct (map fst d) \<Longrightarrow> k \<notin> set POOL_CORE_KEYS \<Longrightarrow> map_of (rev (not_core d)) k = map_of d k"
  by (metis distinct_not_core map_of_not_core map_of_rev_distinct)


lemma core_keys_mem [simp]:
  "''enabled'' \<in> set POOL_CORE_KEYS" "''weight'' \<in> set POOL_CORE_KEYS"
  "''disabled_for_quota'' \<in> set POOL_CORE_KEYS" "''disabled_reason'' \<in> set POOL_CORE_KEYS"
  "''quota_disabled_at'' \<in> set POOL_CORE_KEYS" "''quota_source'' \<in> set POOL_CORE_KEYS"
  "''last_quota'' \<in> set POOL_CORE_KEYS" "''last_probe'' \<in> set POOL_CORE_KEYS"
  "''blocked_models'' \<in> set POOL_CORE_KEYS" "''request_count'' \<in> set POOL_CORE_KEYS"
  "''success_count'' \<in> set POOL_CORE_KEYS" "''fail_count'' \<in> set POOL_CORE_KEYS"
  "''last_used_at'' \<in> set POOL_CORE_KEYS" "''last_error'' \<in> set POOL_CORE_KEYS"
  "''cooldown_until'' \<in> set POOL_CORE_KEYS" "''pool_status'' \<in> set POOL_CORE_KEYS"
  "''cooldown_count'' \<in> set POOL_CORE_KEYS" "''cooldown_reason'' \<in> set POOL_CORE_KEYS"
  "''cooldown_code'' \<in> set POOL_CORE_KEYS" "''cooldown_model'' \<in> set POOL_CORE_KEYS"
  "''cooldown_tokens_actual'' \<in> set POOL_CORE_KEYS" "''cooldown_tokens_limit'' \<in> set POOL_CORE_KEYS"
  "''last_probe_status'' \<in> set POOL_CORE_KEYS" "''state_version'' \<in> set POOL_CORE_KEYS"
  "''status_stack'' \<notin> set POOL_CORE_KEYS"
  by (simp_all add: POOL_CORE_KEYS_def)

lemma dget_set_present [simp]:
  "dget (set_present m k v) k' = (if k' = k \<and> v \<noteq> PNone then v else dget m k')"
  by (simp add: set_present_def)

lemma distinct_set_present [simp]:
  "distinct (map fst d) \<Longrightarrow> distinct (map fst (set_present d k v))"
  by (simp add: set_present_def)

lemma dget_dupdate_core:
  "k \<in> set POOL_CORE_KEYS \<Longrightarrow> dget (dupdate m (not_core d)) k = dget m k"
  by (simp add: dget_dupdate map_of_rev_not_core_core)

text \<open>The keys of a row's record.\<close>

lemma row_to_meta_get:
  assumes "wf_row r"
  shows "dget (row_to_meta env r) ''enabled'' = PBool (r_enabled r)"
    and "dget (row_to_meta env r) ''weight'' = PInt (r_weight r)"
    and "dget (row_to_meta env r) ''disabled_for_quota'' = PBool (r_disabled_for_quota r)"
    and "dget (row_to_meta env r) ''disabled_reason'' = r_disabled_reason r"
    and "dget (row_to_meta env r) ''quota_disabled_at'' = of_opt PFloat (r_quota_disabled_at r)"
    and "dget (row_to_meta env r) ''quota_source'' = r_quota_source r"
    and "dget (row_to_meta env r) ''last_quota'' = r_last_quota r"
    and "dget (row_to_meta env r) ''last_probe'' = r_last_probe r"
    and "dget (row_to_meta env r) ''blocked_models'' = PDict (r_blocked_models r)"
    and "dget (row_to_meta env r) ''request_count'' = PInt (r_request_count r)"
    and "dget (row_to_meta env r) ''success_count'' = PInt (r_success_count r)"
    and "dget (row_to_meta env r) ''fail_count'' = PInt (r_fail_count r)"
    and "dget (row_to_meta env r) ''last_used_at'' = of_opt PFloat (r_last_used_at r)"
    and "dget (row_to_meta env r) ''last_error'' = r_last_error r"
    and "dget (row_to_meta env r) ''cooldown_until'' = of_opt PFloat (r_cooldown_until r)"
    and "dget (row_to_meta env r) ''pool_status'' = PStr (r_pool_status r)"
    and "dget (row_to_meta env r) ''cooldown_count'' = PInt (r_cooldown_count r)"
    and "dget (row_to_meta env r) ''cooldown_reason'' = r_cooldown_reason r"
    and "dget (row_to_meta env r) ''cooldown_code'' = r_cooldown_code r"
    and "dget (row_to_meta env r) ''cooldown_model'' = r_cooldown_model r"
    and "dget (row_to_meta env r) ''cooldown_tokens_actual'' = of_opt PInt (r_tokens_actual r)"
    and "dget (row_to_meta env r) ''cooldown_tokens_limit'' = of_opt PInt (r_tokens_limit r)"
    and "dget (row_to_meta env r) ''last_probe_status'' = r_last_probe_status r"
    and "dget (row_to_meta env r) ''state_version'' = PInt (r_state_version r)"
    and "k \<notin> set POOL_CORE_KEYS \<Longrightarrow> dget (row_to_meta env r) k = dget (r_extra r) k"
proof -
  have d: "decode_jsonish env (r_last_quota r) = r_last_quota r"
    "decode_jsonish env (r_last_probe r) = r_last_probe r"
    using assms by (auto simp: wf_row_def decode_jsonish_def split: pyval.splits)
  note s = assms [unfolded wf_row_def] d
  show "dget (row_to_meta env r) ''enabled'' = PBool (r_enabled r)"
    "dget (row_to_meta env r) ''weight'' = PInt (r_weight r)"
    "dget (row_to_meta env r) ''disabled_for_quota'' = PBool (r_disabled_for_quota r)"
    "dget (row_to_meta env r) ''disabled_reason'' = r_disabled_reason r"
    "dget (row_to_meta env r) ''quota_disabled_at'' = of_opt PFloat (r_quota_disabled_at r)"
    "dget (row_to_meta env r) ''quota_source'' = r_quota_source r"
    "dget (row_to_meta env r) ''last_quota'' = r_last_quota r"
    "dget (row_to_meta env r) ''last_probe'' = r_last_probe r"
    "dget (row_to_meta env r) ''blocked_models'' = PDict (r_blocked_models r)"
    "dget (row_to_meta env r) ''request_count'' = PInt (r_request_count r)"
    "dget (row_to_meta env r) ''success_count'' = PInt (r_success_count r)"
    "dget (row_to_meta env r) ''fail_count'' = PInt (r_fail_count r)"
    "dget (row_to_meta env r) ''last_used_at'' = of_opt PFloat (r_last_used_at r)"
    "dget (row_to_meta env r) ''last_error'' = r_last_error r"
    "dget (row_to_meta env r) ''cooldown_until'' = of_opt PFloat (r_cooldown_until r)"
    "dget (row_to_meta env r) ''pool_status'' = PStr (r_pool_status r)"
    "dget (row_to_meta env r) ''cooldown_count'' = PInt (r_cooldown_count r)"
    "dget (row_to_meta env r) ''cooldown_reason'' = r_cooldown_reason r"
    "dget (row_to_meta env r) ''cooldown_code'' = r_cooldown_code r"
    "dget (row_to_meta env r) ''cooldown_model'' = r_cooldown_model r"
    "dget (row_to_meta env r) ''cooldown_tokens_actual'' = of_opt PInt (r_tokens_actual r)"
    "dget (row_to_meta env r) ''cooldown_tokens_limit'' = of_opt PInt (r_tokens_limit r)"
    "dget (row_to_meta env r) ''last_probe_status'' = r_last_probe_status r"
    "dget (row_to_meta env r) ''state_version'' = PInt (r_state_version r)"
    using s by (simp_all add: row_to_meta_def Let_def dget_dupdate_core)
  show "dget (row_to_meta env r) k = dget (r_extra r) k" if k: "k \<notin> set POOL_CORE_KEYS"
  proof -
    have "map_of (rev (not_core (r_extra r))) k = map_of (r_extra r) k"
      using s k by (simp add: map_of_rev_not_core)
    moreover have "\<And>m v. dget (dset m ''pool_status'' v) k = dget m k"
      "\<And>m v. dget (dset m ''cooldown_count'' v) k = dget m k"
      "\<And>m v. dget (dset m ''state_version'' v) k = dget m k"
      "\<And>m v j. j \<in> set POOL_CORE_KEYS \<Longrightarrow> dget (set_present m j v) k = dget m k"
      "\<And>m v j. j \<in> set POOL_CORE_KEYS \<Longrightarrow> dget ((j, v) # m) k = dget m k"
      using k by auto
    moreover have "dget (r_extra r) k = (case map_of (r_extra r) k of None \<Rightarrow> PNone | Some v \<Rightarrow> v)"
      by (simp add: dget_def)
    ultimately show ?thesis
      by (cases "map_of (r_extra r) k")
        (simp_all add: row_to_meta_def Let_def dget_dupdate del: dget_dset dget_set_present dget_Cons)
  qed
qed


text \<open>Writing a record and reading it back: the round trip of a record through its row.\<close>

lemma row_of_meta_fields:
  assumes "row_of_meta env now m = Some r"
  shows "r_enabled r = truthy (dget_or m ''enabled'' (PBool True))"
    and "\<exists>w. py_int (py_or (dget m ''weight'') (PInt 1)) = Some w \<and> r_weight r = max 1 w"
    and "r_disabled_for_quota r = truthy (dget m ''disabled_for_quota'')"
    and "r_disabled_reason r = dget m ''disabled_reason''"
    and "r_quota_disabled_at r = ts_col env (dget m ''quota_disabled_at'')"
    and "r_quota_source r = dget m ''quota_source''"
    and "r_last_quota r = dget m ''last_quota''"
    and "r_last_probe r = dget m ''last_probe''"
    and "r_blocked_models r = dict_of (py_or (dget m ''blocked_models'') (PDict []))"
    and "int_or0 (dget m ''request_count'') = Some (r_request_count r)"
    and "int_or0 (dget m ''success_count'') = Some (r_success_count r)"
    and "int_or0 (dget m ''fail_count'') = Some (r_fail_count r)"
    and "r_last_used_at r = ts_col env (dget m ''last_used_at'')"
    and "r_last_error r = dget m ''last_error''"
    and "r_cooldown_until r = ts_col env (dget m ''cooldown_until'')"
    and "r_pool_status r = pg_derive_pool_status now m"
    and "r_cooldown_count r = max 0 (case int_or0 (dget m ''cooldown_count'') of Some n \<Rightarrow> n | None \<Rightarrow> 0)"
    and "r_cooldown_reason r = dget m ''cooldown_reason''"
    and "r_cooldown_code r = dget m ''cooldown_code''"
    and "r_cooldown_model r = dget m ''cooldown_model''"
    and "int_col (dget m ''cooldown_tokens_actual'') = Some (r_tokens_actual r)"
    and "int_col (dget m ''cooldown_tokens_limit'') = Some (r_tokens_limit r)"
    and "r_last_probe_status r = dget m ''last_probe_status''"
    and "int_or0 (dget m ''state_version'') = Some (r_state_version r)"
proof -
  note e = assms [unfolded row_of_meta_def Let_def bind_eq_Some_conv]
  from e show "r_enabled r = truthy (dget_or m ''enabled'' (PBool True))"
    "\<exists>w. py_int (py_or (dget m ''weight'') (PInt 1)) = Some w \<and> r_weight r = max 1 w"
    "r_disabled_for_quota r = truthy (dget m ''disabled_for_quota'')"
    "r_disabled_reason r = dget m ''disabled_reason''"
    "r_quota_disabled_at r = ts_col env (dget m ''quota_disabled_at'')"
    "r_quota_source r = dget m ''quota_source''"
    "r_last_quota r = dget m ''last_quota''"
    "r_last_probe r = dget m ''last_probe''"
    "r_blocked_models r = dict_of (py_or (dget m ''blocked_models'') (PDict []))"
    "int_or0 (dget m ''request_count'') = Some (r_request_count r)"
    "int_or0 (dget m ''success_count'') = Some (r_success_count r)"
    "int_or0 (dget m ''fail_count'') = Some (r_fail_count r)"
    "r_last_used_at r = ts_col env (dget m ''last_used_at'')"
    "r_last_error r = dget m ''last_error''"
    "r_cooldown_until r = ts_col env (dget m ''cooldown_until'')"
    "r_pool_status r = pg_derive_pool_status now m"
    "r_cooldown_count r = max 0 (case int_or0 (dget m ''cooldown_count'') of Some n \<Rightarrow> n | None \<Rightarrow> 0)"
    "r_cooldown_reason r = dget m ''cooldown_reason''"
    "r_cooldown_code r = dget m ''cooldown_code''"
    "r_cooldown_model r = dget m ''cooldown_model''"
    "int_col (dget m ''cooldown_tokens_actual'') = Some (r_tokens_actual r)"
    "int_col (dget m ''cooldown_tokens_limit'') = Some (r_tokens_limit r)"
    "r_last_probe_status r = dget m ''last_probe_status''"
    "int_or0 (dget m ''state_version'') = Some (r_state_version r)"
    by clarsimp+
qed


lemma row_of_meta_extra:
  assumes "row_of_meta env now m = Some r" and "distinct (map fst m)"
  shows "distinct (map fst (r_extra r))"
    and "k \<notin> set POOL_CORE_KEYS \<Longrightarrow> dget (r_extra r) k = dget m k"
proof -
  obtain s c where e: "r_extra r =
      dset (dset (filter (\<lambda>(k, v). k \<notin> set POOL_CORE_KEYS \<and> v \<noteq> PNone)
        (dset (dset m ''pool_status'' s) ''cooldown_count'' c)) ''pool_status'' s) ''cooldown_count'' c"
    using assms(1) by (auto simp: row_of_meta_def Let_def bind_eq_Some_conv)
  show "distinct (map fst (r_extra r))"
    using assms(2) by (simp add: e distinct_map_filter)
  assume k: "k \<notin> set POOL_CORE_KEYS"
  then have n: "k \<noteq> ''pool_status''" "k \<noteq> ''cooldown_count''" by auto
  have "dget (filter (\<lambda>(k, v). k \<notin> set POOL_CORE_KEYS \<and> v \<noteq> PNone)
      (dset (dset m ''pool_status'' s) ''cooldown_count'' c)) k =
    dget (dset (dset m ''pool_status'' s) ''cooldown_count'' c) k"
    by (rule dget_filter_other) (use k assms(2) in auto)
  with n show "dget (r_extra r) k = dget m k" by (simp add: e)
qed

lemma row_of_meta_wf:
  assumes "row_of_meta env now m = Some r" and "distinct (map fst m)"
    and "typed m"
  shows "wf_row r"
proof -
  have "pg_derive_pool_status now m \<noteq> []"
    using pg_derive_pool_status_range [of now m] by (fastforce simp only: pool_statuses_def insert_iff empty_iff list.distinct)
  moreover have "is_opt_count (dget (r_extra r) k)"
    if k: "k \<in> {''consecutive_fails'', ''renew_fail_count'', ''probe_fail_streak''}" for k
  proof -
    have "k \<notin> set POOL_CORE_KEYS" using k by (auto simp: POOL_CORE_KEYS_def)
    then have "dget (r_extra r) k = dget m k" by (rule row_of_meta_extra(2) [OF assms(1,2)])
    moreover have "field_ok k v = is_opt_count v" for v using k by auto
    ultimately show ?thesis using typedD [OF assms(3), of k] by (cases "dget m k = PNone") simp_all
  qed
  ultimately show ?thesis
    using row_of_meta_fields(2,7,8,16,17) [OF assms(1)] row_of_meta_extra(1) [OF assms(1,2)]
      typed_no_str [OF assms(3)]
    by (auto simp only: wf_row_def max.cobounded1)
qed

lemma is_time_ts_col: "is_time v \<Longrightarrow> of_opt PFloat (ts_col env v) = v"
  by (cases v) auto

lemma is_opt_count_int_col: "is_opt_count v \<Longrightarrow> int_col v = Some c \<Longrightarrow> of_opt PInt c = v"
  by (cases v) auto

lemma row_round_trip:
  assumes "row_of_meta env now m = Some r" and "distinct (map fst m)"
    and "typed m"
    and "field_ok k (dget m k)" and "k \<notin> store_owned"
  shows "dget (row_to_meta env r) k = dget m k"
proof (cases "k \<in> set POOL_CORE_KEYS")
  case False
  then show ?thesis
    using row_to_meta_get(25) row_of_meta_wf [OF assms(1-3)] row_of_meta_extra(2) [OF assms(1,2)] by metis
next
  case True
  note w = row_of_meta_wf [OF assms(1-3)]
  note g = row_to_meta_get(1-24) [OF w, of env] row_of_meta_fields [OF assms(1)]
  define Q where "Q k \<longleftrightarrow> k \<in> store_owned \<or> \<not> field_ok k (dget m k) \<or>
      dget (row_to_meta env r) k = dget m k" for k
  have "Q ''enabled''" using g(1,25) by (auto simp: Q_def field_ok_def dget_or_dget)
  moreover have "Q ''weight''"
    using g(2,26) by (cases "dget m ''weight''") (auto simp: Q_def field_ok_def py_or_def split: if_splits)
  moreover have "Q ''disabled_for_quota''" using g(3,27) by (auto simp: Q_def field_ok_def)
  moreover have "Q ''quota_disabled_at''" using g(5,29) by (auto simp: Q_def field_ok_def is_time_ts_col)
  moreover have "Q ''last_used_at''" using g(13,37) by (auto simp: Q_def field_ok_def is_time_ts_col)
  moreover have "Q ''cooldown_until''" using g(15,39) by (auto simp: Q_def field_ok_def is_time_ts_col)
  moreover have "Q ''blocked_models''"
    using g(9,33) by (cases "dget m ''blocked_models''") (auto simp: Q_def field_ok_def py_or_def)
  moreover have "Q ''request_count''"
    using g(10,34) by (cases "dget m ''request_count''") (auto simp: Q_def field_ok_def)
  moreover have "Q ''success_count''"
    using g(11,35) by (cases "dget m ''success_count''") (auto simp: Q_def field_ok_def)
  moreover have "Q ''fail_count''"
    using g(12,36) by (cases "dget m ''fail_count''") (auto simp: Q_def field_ok_def)
  moreover have "Q ''cooldown_count''"
    using g(17,41) by (cases "dget m ''cooldown_count''") (auto simp: Q_def field_ok_def)
  moreover have "Q ''cooldown_tokens_actual''" using g(21,45)
    by (auto simp: Q_def field_ok_def is_opt_count_int_col)
  moreover have "Q ''cooldown_tokens_limit''" using g(22,46)
    by (auto simp: Q_def field_ok_def is_opt_count_int_col)
  moreover have "Q ''disabled_reason''" using g(4,28) by (simp add: Q_def)
  moreover have "Q ''quota_source''" using g(6,30) by (simp add: Q_def)
  moreover have "Q ''last_quota''" using g(7,31) by (simp add: Q_def)
  moreover have "Q ''last_probe''" using g(8,32) by (simp add: Q_def)
  moreover have "Q ''last_error''" using g(14,38) by (simp add: Q_def)
  moreover have "Q ''cooldown_reason''" using g(18,42) by (simp add: Q_def)
  moreover have "Q ''cooldown_code''" using g(19,43) by (simp add: Q_def)
  moreover have "Q ''cooldown_model''" using g(20,44) by (simp add: Q_def)
  moreover have "Q ''last_probe_status''" using g(23,47) by (simp add: Q_def)
  moreover have "Q ''pool_status''" "Q ''state_version''" by (simp_all add: Q_def store_owned_def)
  ultimately have "list_all Q POOL_CORE_KEYS"
    by (simp only: POOL_CORE_KEYS_def list.pred_inject simp_thms)
  then have "Q k" using True by (simp add: list_all_iff)
  with assms(4,5) show ?thesis by (simp add: Q_def)
qed

end
