(* ===== verification/Pool_Pg.thy ===== *)
theory Pool_Pg
  imports Pool_Row
begin

text \<open>
  The PostgreSQL branch of \<open>patch_account_pool_meta\<close>, \<open>get_account_pool_meta\<close> and \<open>touch_account_stats\<close>
  (\<open>grok2api/admin/settings_store.py\<close>) over the rows of \<open>Pool_Row\<close>, as a store that keeps the contract
  \<open>account_store\<close>.

  The state holds the rows, the in-process copy of the pool that a failing write falls back to, and
  the Redis version counters with the switch that says whether Redis is on.
\<close>

record pg_store =
  ps_rows :: pg_rows
  ps_mem :: pool
  ps_seq :: "string \<Rightarrow> int"
  ps_redis :: bool

definition pg_meta :: "pg_env \<Rightarrow> pg_store \<Rightarrow> string \<Rightarrow> pydict" where
  "pg_meta env s account_id =
     (if account_id = [] then []
      else let aid = strip account_id in
        if aid = [] then []
        else (case map_of (ps_rows s) aid of Some r \<Rightarrow> row_to_meta env r | None \<Rightarrow> []))"

definition next_state_sequence :: "pg_store \<Rightarrow> string \<Rightarrow> int option \<times> pg_store" where
  "next_state_sequence s a =
     (if \<not> ps_redis s \<or> a = [] then (None, s)
      else (Some (ps_seq s a + 1), s\<lparr>ps_seq := (ps_seq s)(a := ps_seq s a + 1)\<rparr>))"

definition pg_patch :: "pg_env \<Rightarrow> rat \<Rightarrow> pg_store \<Rightarrow> string \<Rightarrow> pydict \<Rightarrow> pydict \<times> pg_store" where
  "pg_patch env now s account_id patch =
     (if account_id = [] then ([], s)
      else if patch = [] then ([], s)
      else let (seq, s') = next_state_sequence s account_id;
               version = (case seq of Some n \<Rightarrow> n | None \<Rightarrow> 0)
           in (case pg_patch_pool_meta env now version (ps_rows s') account_id patch of
                 Some (meta, rows) \<Rightarrow>
                   (meta, s'\<lparr>ps_rows := rows, ps_mem := pool_put (ps_mem s') account_id meta\<rparr>)
               | None \<Rightarrow>
                   (let (meta, mem) = file_patch now (ps_mem s') account_id patch
                    in (meta, s'\<lparr>ps_mem := mem\<rparr>))))"

definition pg_touch_patch :: "rat \<Rightarrow> touch_args \<Rightarrow> pydict \<Rightarrow> pydict option" where
  "pg_touch_patch now ta cur = do {
     let cur_cooling = until_active now (dget cur ''cooldown_until'');
     requests \<leftarrow> int_or0 (dget cur ''request_count'');
     let patch = dset (touch_patch now ta) ''request_count'' (PInt (requests + 1));
     patch \<leftarrow> (if ta_success ta
       then map_option (\<lambda>n. dset patch ''success_count'' (PInt (n + 1))) (int_or0 (dget cur ''success_count''))
       else map_option (\<lambda>n. dset patch ''fail_count'' (PInt (n + 1))) (int_or0 (dget cur ''fail_count'')));
     Some (if ta_preserve_cooldown ta \<and> cur_cooling
       then dset (dpop patch ''last_error'') ''pool_status'' (PStr ''cooldown'')
       else dset patch ''pool_status'' (PStr (derive_pool_status now (merge_patch cur patch))))
   }"

definition pg_touch :: "pg_env \<Rightarrow> rat \<Rightarrow> touch_args \<Rightarrow> pg_store \<Rightarrow> string \<Rightarrow> (pydict \<times> pg_store) option" where
  "pg_touch env now ta s account_id =
     (if account_id = [] then Some ([], s)
      else do {
        let s = (if ta_success ta then s
                 else let p = touch_state_patch now ta
                      in if p = [] then s else snd (pg_patch env now s account_id p));
        let cur = (if ta_current_meta ta \<noteq> [] then ta_current_meta ta
                   else (case map_of (ps_rows s) account_id of Some r \<Rightarrow> row_to_meta env r | None \<Rightarrow> []));
        patch \<leftarrow> pg_touch_patch now ta cur;
        Some (pg_patch env now s account_id patch)
      })"

definition pg_ops :: "pg_env \<Rightarrow> pg_store store_ops" where
  "pg_ops env = \<lparr>op_meta = pg_meta env, op_patch = pg_patch env, op_touch = pg_touch env\<rparr>"

definition wf_pg :: "pg_store \<Rightarrow> bool" where
  "wf_pg s \<longleftrightarrow> (\<forall>(a, r) \<in> set (ps_rows s). wf_row r)"

subsection \<open>What a patch writes\<close>

lemma is_time_of_opt [simp]: "is_time (of_opt PFloat t)"
  by (cases t) simp_all

lemma is_opt_count_of_opt [simp]: "is_opt_count (of_opt PInt t)"
  by (cases t) simp_all

text \<open>Every value a row reads back as is one the row keeps.\<close>

lemma row_keeps:
  assumes "wf_row r"
  shows "field_ok k (dget (row_to_meta env r) k)"
proof (cases "k \<in> set POOL_CORE_KEYS")
  case False
  then have "k \<notin> {''enabled'', ''disabled_for_quota''}" "k \<noteq> ''weight''"
    "k \<notin> {''quota_disabled_at'', ''last_used_at'', ''cooldown_until''}" "k \<notin> {''last_quota'', ''last_probe''}"
    "k \<noteq> ''blocked_models''" "k \<notin> {''request_count'', ''success_count'', ''fail_count''}"
    "k \<noteq> ''cooldown_count''" "k \<notin> {''cooldown_tokens_actual'', ''cooldown_tokens_limit'', ''state_version''}"
    by (auto simp only: insert_iff empty_iff core_keys_mem)
  then have f: "field_ok k v = (if k \<in> {''consecutive_fails'', ''renew_fail_count'', ''probe_fail_streak''}
      then is_opt_count v else True)" for v
    by (simp only: field_ok_def if_False)
  show ?thesis
    using assms row_to_meta_get(25) [OF assms False, of env]
    by (simp only: f wf_row_def split: if_split) simp
next
  case True
  note g = row_to_meta_get(1-24) [OF assms, of env]
  note w = assms [unfolded wf_row_def]
  define Q where "Q k \<longleftrightarrow> field_ok k (dget (row_to_meta env r) k)" for k
  have "Q ''enabled''" using g(1) by (simp add: Q_def field_ok_def)
  moreover have "Q ''weight''" using g(2) w by (simp add: Q_def field_ok_def)
  moreover have "Q ''disabled_for_quota''" using g(3) by (simp add: Q_def field_ok_def)
  moreover have "Q ''quota_disabled_at''" using g(5) by (simp add: Q_def field_ok_def)
  moreover have "Q ''last_used_at''" using g(13) by (simp add: Q_def field_ok_def)
  moreover have "Q ''cooldown_until''" using g(15) by (simp add: Q_def field_ok_def)
  moreover have "Q ''last_quota''" using g(7) w by (auto simp: Q_def field_ok_def)
  moreover have "Q ''last_probe''" using g(8) w by (auto simp: Q_def field_ok_def)
  moreover have "Q ''blocked_models''" using g(9) by (simp add: Q_def field_ok_def)
  moreover have "Q ''request_count''" "Q ''success_count''" "Q ''fail_count''"
    using g(10-12) by (simp_all add: Q_def field_ok_def)
  moreover have "Q ''cooldown_count''" using g(17) w by (simp add: Q_def field_ok_def)
  moreover have "Q ''cooldown_tokens_actual''" "Q ''cooldown_tokens_limit''" "Q ''state_version''"
    using g(21,22,24) by (simp_all add: Q_def field_ok_def)
  moreover have "Q ''disabled_reason''" "Q ''quota_source''" "Q ''last_error''" "Q ''cooldown_reason''"
    "Q ''cooldown_code''" "Q ''cooldown_model''" "Q ''last_probe_status''" "Q ''pool_status''"
    by (simp_all add: Q_def field_ok_def)
  ultimately have "list_all Q POOL_CORE_KEYS"
    by (simp only: POOL_CORE_KEYS_def list.pred_inject simp_thms)
  with True show ?thesis by (simp add: list_all_iff Q_def)
qed

lemma typed_default: "typed default_meta"
  by (auto simp: typed_def default_meta_def field_ok_def)

lemma typed_base: "wf_pg s \<Longrightarrow> typed (row_meta_or_default env (ps_rows s) a)"
proof (cases "map_of (ps_rows s) a")
  case None
  then show ?thesis by (simp add: row_meta_or_default_def typed_default)
next
  case (Some r)
  assume "wf_pg s"
  with Some have "wf_row r" by (auto simp: wf_pg_def dest: map_of_SomeD)
  with Some show ?thesis by (simp add: row_meta_or_default_def typed_def row_keeps)
qed

lemma distinct_base: "distinct (map fst (row_meta_or_default env rows a))"
proof -
  have "distinct (map fst (row_to_meta env r))" for r
    by (simp add: row_to_meta_def Let_def distinct_dupdate)
  then show ?thesis by (simp add: row_meta_or_default_def default_meta_def split: option.splits)
qed

lemma int_or0_opt_count: "is_opt_count v \<Longrightarrow> \<exists>n. int_or0 v = Some n"
  by (cases v) simp_all

lemma is_count_opt: "is_count v \<Longrightarrow> is_opt_count v"
  by (cases v) simp_all

lemma row_of_meta_typed:
  assumes "typed m" shows "\<exists>r. row_of_meta env now m = Some r"
proof -
  have c: "\<exists>n. int_or0 (dget m k) = Some n" if "is_opt_count (dget m k)" for k
    using that by (rule int_or0_opt_count)
  have o1: "is_opt_count (dget m ''request_count'')"
    using typedD [OF assms, of "''request_count''"]
    by (cases "dget m ''request_count'' = PNone") (simp_all add: is_count_opt)
  have o2: "is_opt_count (dget m ''success_count'')"
    using typedD [OF assms, of "''success_count''"]
    by (cases "dget m ''success_count'' = PNone") (simp_all add: is_count_opt)
  have o3: "is_opt_count (dget m ''fail_count'')"
    using typedD [OF assms, of "''fail_count''"]
    by (cases "dget m ''fail_count'' = PNone") (simp_all add: is_count_opt)
  have o4: "is_opt_count (dget m ''state_version'')"
    using typedD [OF assms, of "''state_version''"]
    by (cases "dget m ''state_version'' = PNone") (simp_all add: is_count_opt)
  have o5: "is_opt_count (dget m ''cooldown_tokens_actual'')"
    using typedD [OF assms, of "''cooldown_tokens_actual''"]
    by (cases "dget m ''cooldown_tokens_actual'' = PNone") (simp_all add: is_count_opt)
  have o6: "is_opt_count (dget m ''cooldown_tokens_limit'')"
    using typedD [OF assms, of "''cooldown_tokens_limit''"]
    by (cases "dget m ''cooldown_tokens_limit'' = PNone") (simp_all add: is_count_opt)
  have w: "\<exists>n. py_int (py_or (dget m ''weight'') (PInt 1)) = Some n"
    using typedD [OF assms, of "''weight''"] by (cases "dget m ''weight''") (auto simp: py_or_def)
  have t: "\<exists>n. int_col v = Some n" if "is_opt_count v" for v
    using that by (cases v) auto
  show ?thesis
    using w c [OF o1] c [OF o2] c [OF o3] c [OF o4] t [OF o5] t [OF o6]
    by (simp add: row_of_meta_def Let_def) (elim exE, simp)
qed

text \<open>The record and the rows after a patch the store keeps: no write falls back.\<close>

definition patched :: "pg_env \<Rightarrow> pg_store \<Rightarrow> string \<Rightarrow> pydict \<Rightarrow> pydict" where
  "patched env s a p = merge_patch (row_meta_or_default env (ps_rows s) a) p"

lemma next_state_sequence_rows [simp]:
  "ps_rows (snd (next_state_sequence s a)) = ps_rows s"
  by (simp add: next_state_sequence_def)

lemma pg_patch_rows:
  assumes "wf_pg s" "good_id a" "p \<noteq> []" "patch_fits p"
  shows "\<exists>m r v.
    ps_rows (snd (pg_patch env now s a p)) = AList.update a (r\<lparr>r_state_version := v\<rparr>) (ps_rows s) \<and>
    row_of_meta env now m = Some r \<and> typed m \<and> distinct (map fst m) \<and>
    (\<forall>k. k \<notin> store_owned \<longrightarrow> dget m k = dget (patched env s a p) k) \<and>
    fst (pg_patch env now s a p) = m"
proof -
  let ?m0 = "patched env s a p"
  have w0: "typed ?m0" using assms by (simp add: patched_def typed_base typed_merge)
  have sv: "\<exists>n. int_or0 (dget ?m0 ''state_version'') = Some n"
    using typedD [OF w0, of "''state_version''"] int_or0_opt_count
    by (cases "dget ?m0 ''state_version'' = PNone") auto
  then obtain n where n: "int_or0 (dget ?m0 ''state_version'') = Some n" ..
  obtain seq s' where seq: "next_state_sequence s a = (seq, s')" by fastforce
  then have rows: "ps_rows s' = ps_rows s" using next_state_sequence_rows [of s a] by simp
  define ver where "ver = max (n + 1) (case seq of Some n \<Rightarrow> n | None \<Rightarrow> 0)"
  define m1 where "m1 = dset ?m0 ''state_version'' (PInt ver)"
  define m where "m = dset m1 ''pool_status'' (PStr (pg_derive_pool_status now m1))"
  have w: "typed m"
    using w0 by (simp add: m_def m1_def typed_dset)
  have d: "distinct (map fst m)"
    by (simp add: m_def m1_def patched_def distinct_merge_patch distinct_base)
  from row_of_meta_typed [OF w] obtain r where r: "row_of_meta env now m = Some r" ..
  define r' where "r' = (case map_of (ps_rows s) a of None \<Rightarrow> r | Some old \<Rightarrow> on_conflict now False False False old r)"
  have "a \<noteq> []" using assms(2) by (simp add: good_id_def)
  then have pm: "pg_patch_pool_meta env now (case seq of Some n \<Rightarrow> n | None \<Rightarrow> 0) (ps_rows s') a p =
      Some (m, AList.update a r' (ps_rows s))"
    using r n by (simp add: pg_patch_pool_meta_def upsert_pool_def Let_def rows r'_def m_def m1_def ver_def patched_def)
  have "\<exists>v. r' = r\<lparr>r_state_version := v\<rparr>"
  proof (cases "map_of (ps_rows s) a")
    case None
    then show ?thesis by (intro exI [of _ "r_state_version r"]) (simp add: r'_def)
  next
    case (Some old)
    then have "r' = r\<lparr>r_state_version := max (r_state_version old) (r_state_version r)\<rparr>"
      by (simp add: r'_def on_conflict_def split: option.splits)
    then show ?thesis ..
  qed
  then obtain v where v: "r' = r\<lparr>r_state_version := v\<rparr>" ..
  have q1: "ps_rows (snd (pg_patch env now s a p)) = AList.update a (r\<lparr>r_state_version := v\<rparr>) (ps_rows s)"
    using pm seq \<open>a \<noteq> []\<close> assms(3) by (simp add: pg_patch_def v)
  have q3: "fst (pg_patch env now s a p) = m"
    using pm seq \<open>a \<noteq> []\<close> assms(3) by (simp add: pg_patch_def)
  have q2: "dget m k = dget ?m0 k" if "k \<notin> store_owned" for k
    using that by (simp add: m_def m1_def store_owned_def)
  with q1 q3 r w d show ?thesis by blast
qed

lemma wf_row_version [simp]: "wf_row (r\<lparr>r_state_version := v\<rparr>) = wf_row r"
  by (simp add: wf_row_def)

lemma row_to_meta_version:
  "k \<noteq> ''state_version'' \<Longrightarrow> dget (row_to_meta env (r\<lparr>r_state_version := v\<rparr>)) k = dget (row_to_meta env r) k"
  by (simp add: row_to_meta_def Let_def)

lemma pg_patch_meta:
  assumes "wf_pg s" "good_id a" "p \<noteq> []" "patch_fits p"
    and "field_ok k (dget (patched env s a p) k)" "k \<notin> store_owned"
  shows "dget (pg_meta env (snd (pg_patch env now s a p)) a) k = dget (patched env s a p) k"
proof -
  obtain m r v where q:
    "ps_rows (snd (pg_patch env now s a p)) = AList.update a (r\<lparr>r_state_version := v\<rparr>) (ps_rows s)"
    "row_of_meta env now m = Some r" "typed m" "distinct (map fst m)"
    "\<forall>k. k \<notin> store_owned \<longrightarrow> dget m k = dget (patched env s a p) k"
    using pg_patch_rows [OF assms(1-4)] by blast
  have "dget (row_to_meta env r) k = dget m k"
    using q(2,3,4) assms(5,6) q(5) by (intro row_round_trip) auto
  with q(1,5) assms(2,6) show ?thesis
    by (simp add: pg_meta_def good_id_def update_conv' row_to_meta_version store_owned_def)
qed

text \<open>A popped key reads back as a false value: \<open>None\<close>, or the column's default.\<close>

lemma row_pops:
  assumes "row_of_meta env now m = Some r" "distinct (map fst m)" "typed m"
    and "dget m k = PNone" "k \<notin> {''enabled'', ''weight''} \<union> store_owned"
  shows "\<not> truthy (dget (row_to_meta env r) k)"
proof (cases "field_ok k PNone")
  case True
  then have "dget (row_to_meta env r) k = dget m k"
    using assms by (intro row_round_trip) auto
  with assms(4) show ?thesis by simp
next
  case False
  note w = row_of_meta_wf [OF assms(1-3)]
  from False assms(5) have "k \<in> {''disabled_for_quota'', ''blocked_models'', ''request_count'',
      ''success_count'', ''fail_count'', ''cooldown_count''}"
    by (auto simp: field_ok_def split: if_splits)
  then show ?thesis
    using assms(4) row_to_meta_get(3,9,10,11,12,17) [OF w, of env]
      row_of_meta_fields(3,9,10,11,12,17) [OF assms(1)]
    by auto
qed

lemma pg_patch_pops:
  assumes "wf_pg s" "good_id a" "p \<noteq> []" "patch_fits p"
    and "dget (patched env s a p) k = PNone" "k \<notin> {''enabled'', ''weight''} \<union> store_owned"
  shows "\<not> truthy (dget (pg_meta env (snd (pg_patch env now s a p)) a) k)"
proof -
  obtain m r v where q:
    "ps_rows (snd (pg_patch env now s a p)) = AList.update a (r\<lparr>r_state_version := v\<rparr>) (ps_rows s)"
    "row_of_meta env now m = Some r" "typed m" "distinct (map fst m)"
    "\<forall>k. k \<notin> store_owned \<longrightarrow> dget m k = dget (patched env s a p) k"
    using pg_patch_rows [OF assms(1-4)] by blast
  have "\<not> truthy (dget (row_to_meta env r) k)"
    using assms(5,6) q(5) by (intro row_pops [OF q(2,4,3)]) auto
  with q(1) assms(2,6) show ?thesis
    by (simp add: pg_meta_def good_id_def update_conv' row_to_meta_version store_owned_def)
qed

lemma pg_patch_wf:
  assumes "wf_pg s" "good_id a" "patch_fits p"
  shows "wf_pg (snd (pg_patch env now s a p))"
proof (cases "p = []")
  case True
  with assms show ?thesis by (simp add: pg_patch_def)
next
  case False
  obtain m r v where q:
    "ps_rows (snd (pg_patch env now s a p)) = AList.update a (r\<lparr>r_state_version := v\<rparr>) (ps_rows s)"
    "row_of_meta env now m = Some r" "typed m" "distinct (map fst m)"
    "\<forall>k. k \<notin> store_owned \<longrightarrow> dget m k = dget (patched env s a p) k"
    using pg_patch_rows [OF assms(1,2) False assms(3)] by blast
  have "wf_row r" using row_of_meta_wf [OF q(2,4,3)] by blast
  moreover have "set (AList.update a r' l) \<subseteq> insert (a, r') (set l)" for r' :: pool_row and l
    by (induction l) auto
  ultimately show ?thesis
    using assms(1) q(1) unfolding wf_pg_def by fastforce
qed

lemma pg_patch_typed: "wf_pg s \<Longrightarrow> good_id a \<Longrightarrow> patch_fits p \<Longrightarrow> typed (fst (pg_patch env now s a p))"
  using pg_patch_rows [of s a p env now] by (cases "p = []") (auto simp: pg_patch_def good_id_def)

lemma pg_patch_status:
  assumes "wf_pg s" "good_id a" "p \<noteq> []" "patch_fits p"
  shows "\<exists>m. dget (pg_meta env (snd (pg_patch env now s a p)) a) ''pool_status'' = PStr (pg_derive_pool_status now m)
    \<and> typed m \<and> (\<forall>k. k \<notin> store_owned \<longrightarrow> dget m k = dget (patched env s a p) k)"
proof -
  obtain m r v where q:
    "ps_rows (snd (pg_patch env now s a p)) = AList.update a (r\<lparr>r_state_version := v\<rparr>) (ps_rows s)"
    "row_of_meta env now m = Some r" "typed m" "distinct (map fst m)"
    "\<forall>k. k \<notin> store_owned \<longrightarrow> dget m k = dget (patched env s a p) k"
    using pg_patch_rows [OF assms(1-4)] by blast
  have "wf_row r" using row_of_meta_wf [OF q(2,4,3)] by blast
  then have "dget (row_to_meta env r) ''pool_status'' = PStr (pg_derive_pool_status now m)"
    using row_to_meta_get(16) row_of_meta_fields(16) [OF q(2)] by metis
  with q(1) assms(2) have "dget (pg_meta env (snd (pg_patch env now s a p)) a) ''pool_status'' =
      PStr (pg_derive_pool_status now m)"
    by (simp add: pg_meta_def good_id_def update_conv' row_to_meta_version)
  with q(3,5) show ?thesis by blast
qed

lemma pg_derive_cooldown:
  "pg_derive_pool_status now m = ''cooldown'' \<Longrightarrow>
     count_positive m \<or> stack_nonempty m \<or> until_active now (dget m ''cooldown_until'')"
  by (auto simp: pg_derive_pool_status_def split: if_splits)

lemma pg_frame:
  "good_id a \<Longrightarrow> good_id b \<Longrightarrow> b \<noteq> a \<Longrightarrow> pg_meta env (snd (pg_patch env now s a p)) b = pg_meta env s b"
proof -
  assume h: "good_id a" "good_id b" "b \<noteq> a"
  obtain seq s' where seq: "next_state_sequence s a = (seq, s')" by fastforce
  then have "ps_rows s' = ps_rows s" using next_state_sequence_rows [of s a] by simp
  moreover have "map_of rows b = map_of (ps_rows s') b"
    if "pg_patch_pool_meta env now v (ps_rows s') a p = Some (m, rows)" for v m rows
    using that h(3)
    by (auto simp: pg_patch_pool_meta_def upsert_pool_def Let_def update_conv' bind_eq_Some_conv split: if_splits)
  ultimately have "map_of (ps_rows (snd (pg_patch env now s a p))) b = map_of (ps_rows s) b"
    using seq by (auto simp: pg_patch_def Let_def split: option.splits prod.splits)
  with h show ?thesis by (simp add: pg_meta_def good_id_def)
qed

lemma typed_pg_meta: "wf_pg s \<Longrightarrow> typed (pg_meta env s a)"
  using typed_base [of s env "strip a"]
  by (auto simp: pg_meta_def row_meta_or_default_def Let_def split: option.splits)

interpretation pg: account_store "pg_ops env" wf_pg for env
proof (unfold_locales, goal_cases)
  case (1 s a)
  then show ?case by (simp add: pg_ops_def typed_pg_meta)
next
  case (2 s a p now)
  then show ?case by (simp add: pg_ops_def pg_patch_wf)
next
  case (3 s a b now p)
  then show ?case by (simp add: pg_ops_def pg_frame)
next
  case (4 s a p k v now)
  have pd: "dget (patched env s a p) k = v" using 4(4) by (simp add: patched_def dget_merge_patch)
  from 4(4) have "p \<noteq> []" by auto
  with 4 pd show ?case by (simp add: pg_ops_def pg_patch_meta)
next
  case (5 s a p k now)
  have pd: "dget (patched env s a p) k = PNone" using 5(4) by (simp add: patched_def dget_merge_patch)
  from 5(4) have "p \<noteq> []" by auto
  with 5 pd show ?case by (simp add: pg_ops_def pg_patch_pops)
next
  case (6 s a p k now)
  from 6(2,4) obtain r where r: "map_of (ps_rows s) a = Some r"
    and m: "pg_meta env s a = row_to_meta env r"
    by (auto simp: pg_ops_def pg_meta_def good_id_def split: option.splits)
  have w: "wf_row r" using 6(1) r by (auto simp: wf_pg_def dest: map_of_SomeD)
  have pd: "dget (patched env s a p) k = dget (row_to_meta env r) k"
    using 6(5) r by (simp add: patched_def dget_merge_patch_other row_meta_or_default_def)
  show ?case
  proof (cases "p = []")
    case True
    then show ?thesis by (simp add: pg_ops_def pg_patch_def)
  next
    case False
    with 6 pd m row_keeps [OF w, of k env] show ?thesis by (simp add: pg_ops_def pg_patch_meta)
  qed
next
  case (7 s a p now)
  let ?n = "pg_meta env (snd (pg_patch env now s a p)) a"
  obtain m where m: "dget ?n ''pool_status'' = PStr (pg_derive_pool_status now m)" "typed m"
    "\<And>k. k \<notin> store_owned \<Longrightarrow> dget m k = dget (patched env s a p) k"
    using pg_patch_status [OF 7(1-4)] by blast
  have "pg_derive_pool_status now m = ''cooldown''"
    using 7(5) m(1) by (simp add: pg_ops_def pool_statuses_norm pg_derive_pool_status_range)
  then have c: "count_positive m \<or> stack_nonempty m \<or> until_active now (dget m ''cooldown_until'')"
    by (rule pg_derive_cooldown)
  have rd: "dget ?n k = dget m k" if "k \<notin> store_owned" "dget m k \<noteq> PNone" for k
    using that m(3) pg_patch_meta [OF 7(1-4)] typedD [OF m(2)] by metis
  have "count_positive m \<Longrightarrow> count_positive ?n"
    using rd [of "''cooldown_count''"]
    by (cases "dget m ''cooldown_count''") (auto simp: count_positive_def store_owned_def)
  moreover have "stack_nonempty m \<Longrightarrow> stack_nonempty ?n"
    using rd [of "''status_stack''"]
    by (cases "dget m ''status_stack''") (auto simp: stack_nonempty_def store_owned_def)
  moreover have "until_active now (dget m ''cooldown_until'') \<Longrightarrow> until_active now (dget ?n ''cooldown_until'')"
    using rd [of "''cooldown_until''"] by (auto simp: until_active_def store_owned_def)
  ultimately show ?case using c by (auto simp: pg_ops_def)
qed

subsection \<open>Counting a request\<close>

lemma dhas_keys: "dhas d k \<longleftrightarrow> k \<in> fst ` set d"
  by (auto simp: dhas_def map_of_eq_None_iff simp flip: not_None_eq)

definition keys_in :: "string set \<Rightarrow> pydict \<Rightarrow> bool" where
  "keys_in K d \<longleftrightarrow> fst ` set d \<subseteq> K"

lemma keys_in_dset: "keys_in K d \<Longrightarrow> k \<in> K \<Longrightarrow> keys_in K (dset d k v)"
  by (simp add: keys_in_def)

lemma keys_in_dpop: "keys_in K d \<Longrightarrow> keys_in K (dpop d k)"
  by (auto simp only: keys_in_def keys_dpop)

lemma touch_keys_mem:
  "''request_count'' \<in> touch_keys" "''success_count'' \<in> touch_keys" "''fail_count'' \<in> touch_keys"
  "''pool_status'' \<in> touch_keys"
  by (simp_all add: touch_keys_def)

lemma keys_in_touch_patch: "keys_in touch_keys (touch_patch now ta)"
  unfolding keys_in_def by (rule subsetI) (rule touch_patch_keys)

lemma pg_touch_patch_keys: "pg_touch_patch now ta cur = Some p \<Longrightarrow> k \<in> fst ` set p \<Longrightarrow> k \<in> touch_keys"
proof -
  assume p: "pg_touch_patch now ta cur = Some p" "k \<in> fst ` set p"
  have "keys_in touch_keys p"
    using p(1) unfolding pg_touch_patch_def bind_eq_Some_conv Let_def
    by (auto intro!: keys_in_dset keys_in_dpop keys_in_touch_patch touch_keys_mem split: if_splits)
  with p(2) show ?thesis by (auto simp only: keys_in_def)
qed

lemma pg_touch_patch_fits: "pg_touch_patch now ta cur = Some p \<Longrightarrow> patch_fits p"
  by (auto simp: pg_touch_patch_def bind_eq_Some_conv Let_def patch_fits_dset patch_fits_dpop touch_patch_fits
      split: if_splits)

text \<open>The state \<open>pg_touch\<close> counts the request in, and the patch it ends with.\<close>

lemma pg_touch_steps:
  assumes "good_id a" "pg_touch env now ta s a = Some (m, s')" "wf_pg s"
  shows "\<exists>s1 cur p. wf_pg s1 \<and> pg_touch_patch now ta cur = Some p \<and> (m, s') = pg_patch env now s1 a p \<and>
    s1 = (if ta_success ta then s else snd (pg_patch env now s a (touch_state_patch now ta)))"
proof -
  let ?s1 = "if ta_success ta then s else snd (pg_patch env now s a (touch_state_patch now ta))"
  have a: "a \<noteq> []" using assms(1) by (simp add: good_id_def)
  have e: "(if touch_state_patch now ta = [] then s
      else snd (pg_patch env now s a (touch_state_patch now ta))) = snd (pg_patch env now s a (touch_state_patch now ta))"
    using a by (simp add: pg_patch_def)
  have "\<exists>cur p. pg_touch_patch now ta cur = Some p \<and> (m, s') = pg_patch env now ?s1 a p"
  proof -
    let ?cur = "if ta_current_meta ta \<noteq> [] then ta_current_meta ta
      else (case map_of (ps_rows ?s1) a of Some r \<Rightarrow> row_to_meta env r | None \<Rightarrow> [])"
    from assms(2) a obtain p where "pg_touch_patch now ta ?cur = Some p"
      unfolding pg_touch_def Let_def e by (cases "pg_touch_patch now ta ?cur") simp_all
    moreover from this have "(m, s') = pg_patch env now ?s1 a p"
      using assms(2) a unfolding pg_touch_def Let_def e by simp
    ultimately show ?thesis by blast
  qed
  moreover have "wf_pg ?s1" using assms by (simp add: pg_patch_wf touch_state_patch_fits)
  ultimately show ?thesis by blast
qed

lemma pg_patch_other:
  assumes "wf_pg s" "good_id a" "patch_fits p" "pg_meta env s a \<noteq> []" "k \<notin> fst ` set p" "k \<notin> store_owned"
  shows "dget (pg_meta env (snd (pg_patch env now s a p)) a) k = dget (pg_meta env s a) k"
  using pg.patch_untouched [of s a p env k now] assms by (simp add: pg_ops_def)

lemma pg_patch_nonempty:
  "wf_pg s \<Longrightarrow> good_id a \<Longrightarrow> patch_fits p \<Longrightarrow> pg_meta env s a \<noteq> [] \<Longrightarrow>
     pg_meta env (snd (pg_patch env now s a p)) a \<noteq> []"
proof (cases "p = []")
  case False
  assume h: "wf_pg s" "good_id a" "patch_fits p" "pg_meta env s a \<noteq> []"
  show ?thesis using pg_patch_status [OF h(1,2) False h(3), of env now] by force
next
  case True
  then show "good_id a \<Longrightarrow> pg_meta env s a \<noteq> [] \<Longrightarrow> ?thesis" by (simp add: pg_patch_def good_id_def)
qed

lemma pg_touch_other:
  assumes "wf_pg s" "good_id a" "pg_touch env now ta s a = Some (m, s')" "pg_meta env s a \<noteq> []" "k \<notin> touch_keys"
  shows "dget (pg_meta env s' a) k = dget (pg_meta env s a) k"
proof -
  obtain s1 cur p where s1: "wf_pg s1" "pg_touch_patch now ta cur = Some p" "s' = snd (pg_patch env now s1 a p)"
    "s1 = (if ta_success ta then s else snd (pg_patch env now s a (touch_state_patch now ta)))"
    using pg_touch_steps [OF assms(2,3,1)] by (metis snd_conv)
  have k: "k \<notin> fst ` set p" "k \<notin> fst ` set (touch_state_patch now ta)" "k \<notin> store_owned"
    subgoal by (rule contrapos_nn [OF assms(5)]) (rule pg_touch_patch_keys [OF s1(2)])
    subgoal by (rule contrapos_nn [OF assms(5)]) (rule touch_state_patch_keys)
    subgoal using assms(5) by (simp add: touch_keys_def store_owned_def)
    done
  have "pg_meta env s1 a \<noteq> []" "dget (pg_meta env s1 a) k = dget (pg_meta env s a) k"
    using s1(4) assms(1,2,4) k by (simp_all add: pg_patch_nonempty pg_patch_other touch_state_patch_fits)
  with s1 assms(2) k show ?thesis by (simp add: pg_patch_other pg_touch_patch_fits)
qed

lemma pg_touch_until:
  assumes "wf_pg s" "good_id a" "pg_touch env now ta s a = Some (m, s')" "pg_meta env s a \<noteq> []"
    and "ta_success ta" "ta_preserve_cooldown ta"
  shows "dget (pg_meta env s' a) ''cooldown_until'' = dget (pg_meta env s a) ''cooldown_until''"
proof -
  obtain cur p where p: "pg_touch_patch now ta cur = Some p" "s' = snd (pg_patch env now s a p)"
    using pg_touch_steps [OF assms(2,3,1)] assms(5) by (metis snd_conv)
  have t: "\<not> dhas (touch_patch now ta) ''cooldown_until''"
    using assms(5,6) by (simp add: touch_patch_def dhas_def split: option.splits)
  have "\<not> dhas p ''cooldown_until''"
    using p(1) t unfolding pg_touch_patch_def bind_eq_Some_conv Let_def by (auto split: if_splits)
  with p assms show ?thesis
    by (simp add: pg_patch_other pg_touch_patch_fits dhas_keys store_owned_def)
qed

lemma counted_Nil [simp]: "counted []"
  by (simp add: counted_def)

lemma pg_touch_patch_total: "counted cur \<Longrightarrow> \<exists>p. pg_touch_patch now ta cur = Some p"
  by (auto simp: counted_def pg_touch_patch_def Let_def)

lemma pg_touch_total:
  assumes "wf_pg s" "good_id a" "counted (ta_current_meta ta)"
  shows "pg_touch env now ta s a \<noteq> None"
proof -
  let ?s1 = "if ta_success ta then s else snd (pg_patch env now s a (touch_state_patch now ta))"
  have a: "a \<noteq> []" using assms(2) by (simp add: good_id_def)
  have "wf_pg ?s1" using assms by (simp add: pg_patch_wf touch_state_patch_fits)
  then have "counted (case map_of (ps_rows ?s1) a of Some r \<Rightarrow> row_to_meta env r | None \<Rightarrow> [])"
    using typed_base [of ?s1 env a]
    by (auto simp: row_meta_or_default_def split: option.splits dest: typed_counted)
  with assms(3) have "\<exists>p. pg_touch_patch now ta (if ta_current_meta ta \<noteq> [] then ta_current_meta ta
      else (case map_of (ps_rows ?s1) a of Some r \<Rightarrow> row_to_meta env r | None \<Rightarrow> [])) = Some p"
    by (intro pg_touch_patch_total) simp
  then show ?thesis using a
    by (auto simp: pg_touch_def Let_def pg_patch_def split: if_splits)
qed

interpretation pgs: pool_store "pg_ops env" wf_pg for env
proof (unfold_locales, goal_cases)
  case (1 s a ta now)
  then show ?case by (simp add: pg_ops_def pg_touch_total)
next
  case (2 s a now ta m s')
  then obtain s1 cur p where "wf_pg s1" "pg_touch_patch now ta cur = Some p" "(m, s') = pg_patch env now s1 a p"
    using pg_touch_steps [of a env now ta s m s'] unfolding pg_ops_def store_ops.simps by blast
  then have "\<exists>s1 cur p. wf_pg s1 \<and> pg_touch_patch now ta cur = Some p \<and> s' = snd (pg_patch env now s1 a p)"
    by (metis snd_conv)
  with 2(2) show ?case by (auto simp: pg_patch_wf pg_touch_patch_fits)
next
  case (3 s a now ta m s')
  then obtain s1 cur p where "wf_pg s1" "pg_touch_patch now ta cur = Some p" "(m, s') = pg_patch env now s1 a p"
    using pg_touch_steps [of a env now ta s m s'] unfolding pg_ops_def store_ops.simps by blast
  then have "\<exists>s1 cur p. wf_pg s1 \<and> pg_touch_patch now ta cur = Some p \<and> m = fst (pg_patch env now s1 a p)"
    by (metis fst_conv)
  with 3(2) show ?case by (auto simp: pg_patch_typed pg_touch_patch_fits)
next
  case (4 s a b now ta m s')
  then obtain s1 p where "(m, s') = pg_patch env now s1 a p"
    "s1 = (if ta_success ta then s else snd (pg_patch env now s a (touch_state_patch now ta)))"
    using pg_touch_steps [of a env now ta s m s'] unfolding pg_ops_def store_ops.simps by blast
  then have "\<exists>s1 p. s' = snd (pg_patch env now s1 a p) \<and>
    s1 = (if ta_success ta then s else snd (pg_patch env now s a (touch_state_patch now ta)))"
    by (metis snd_conv)
  with 4(2-4) show ?case by (auto simp: pg_ops_def pg_frame)
next
  case (5 s a now ta m s' k)
  then show ?case using pg_touch_other by (simp add: pg_ops_def)
next
  case (6 s a now ta m s')
  then show ?case using pg_touch_until by (simp add: pg_ops_def)
qed

end
