(* ===== verification/Pool_World.thy ===== *)
theory Pool_World
  imports Pool_Pg
begin

text \<open>
  The process state around the store, and the small operations the pool's transitions are made of: the
  in-flight marks of picks, the conversation bindings, and the per-model blocks
  (\<open>grok2api/pool/account_pool.py\<close>, \<open>grok2api/pool/conversation_affinity.py\<close>).

  The deployment is one process with Redis off and \<open>READY_INDEX_MODE\<close> not \<open>on\<close>, over either store. The
  hot mirrors the code also writes to Redis are not read by any decision modelled here, since the
  request path reads \<open>_pool_meta\<close> with \<open>redis_overlay=False\<close>.
\<close>

record 's world =
  w_store :: 's
  w_inflight :: "string \<rightharpoonup> int \<times> rat"
  w_soft_used :: "string \<rightharpoonup> rat"
  w_rr_index :: nat
  w_affinity :: "(string \<times> pydict) list"

text \<open>A call that may raise: the state it leaves is kept in either case.\<close>

datatype 'a result = Raises | Returns 'a

definition w_meta :: "'s store_ops \<Rightarrow> 's world \<Rightarrow> string \<Rightarrow> pydict" where
  "w_meta ops w a = op_meta ops (w_store w) a"

definition w_patch :: "'s store_ops \<Rightarrow> rat \<Rightarrow> 's world \<Rightarrow> string \<Rightarrow> pydict \<Rightarrow> pydict \<times> 's world" where
  "w_patch ops now w a p = (let (m, s) = op_patch ops now (w_store w) a p in (m, w\<lparr>w_store := s\<rparr>))"

definition w_touch ::
  "'s store_ops \<Rightarrow> rat \<Rightarrow> touch_args \<Rightarrow> 's world \<Rightarrow> string \<Rightarrow> (pydict \<times> 's world) option" where
  "w_touch ops now ta w a = map_option (\<lambda>(m, s). (m, w\<lparr>w_store := s\<rparr>)) (op_touch ops now ta (w_store w) a)"

text \<open>The view of one account: \<open>_pool_meta(id, {id: meta}, redis_overlay=False)\<close>.\<close>

definition w_view :: "'s store_ops \<Rightarrow> rat \<Rightarrow> 's world \<Rightarrow> string \<Rightarrow> pydict option" where
  "w_view ops now w a = pool_meta now None a [(a, w_meta ops w a)]"

definition cooling :: "'s store_ops \<Rightarrow> rat \<Rightarrow> 's world \<Rightarrow> string \<Rightarrow> bool" where
  "cooling ops now w a = is_in_cooldown now (w_meta ops w a)"

subsection \<open>Pick marks\<close>

definition LOCAL_INFLIGHT_TTL :: rat where "LOCAL_INFLIGHT_TTL = 90"
definition LOCAL_SOFT_USED_TTL :: rat where "LOCAL_SOFT_USED_TTL = 45"

definition local_spread_purge :: "rat \<Rightarrow> (string \<rightharpoonup> int \<times> rat) \<Rightarrow> (string \<rightharpoonup> int \<times> rat)" where
  "local_spread_purge t m =
     (\<lambda>k. case m k of Some (n, expiry) \<Rightarrow> (if expiry \<le> t then None else Some (n, expiry)) | None \<Rightarrow> None)"

definition note_account_pick :: "rat \<Rightarrow> 's world \<Rightarrow> string \<Rightarrow> bool \<times> 's world" where
  "note_account_pick now w a =
     (if a = [] then (False, w)
      else let (n, expiry) = (case w_inflight w a of Some x \<Rightarrow> x | None \<Rightarrow> (0, 0));
               n = (if expiry \<le> now then 0 else n)
           in (True, w\<lparr>w_inflight := (w_inflight w)(a \<mapsto> (n + 1, now + LOCAL_INFLIGHT_TTL)),
                       w_soft_used := (w_soft_used w)(a \<mapsto> now)\<rparr>))"

definition release_account_pick :: "rat \<Rightarrow> 's world \<Rightarrow> string \<Rightarrow> 's world" where
  "release_account_pick now w a =
     (if a = [] then w
      else let (n, expiry) = (case w_inflight w a of Some x \<Rightarrow> x | None \<Rightarrow> (0, 0))
           in (if expiry \<le> now \<or> n \<le> 1 then w\<lparr>w_inflight := (w_inflight w)(a := None)\<rparr>
               else w\<lparr>w_inflight := (w_inflight w)(a \<mapsto> (n - 1, now + LOCAL_INFLIGHT_TTL))\<rparr>))"

text \<open>The in-flight count a reader sees at \<open>now\<close>.\<close>

definition inflight_of :: "rat \<Rightarrow> 's world \<Rightarrow> string \<Rightarrow> int" where
  "inflight_of now w a =
     (case w_inflight w a of Some (n, expiry) \<Rightarrow> (if expiry \<le> now then 0 else n) | None \<Rightarrow> 0)"

lemma inflight_note:
  "a \<noteq> [] \<Longrightarrow> inflight_of now (snd (note_account_pick now w a)) b =
     (if b = a then inflight_of now w a + 1 else inflight_of now w b)"
  by (auto simp: note_account_pick_def inflight_of_def LOCAL_INFLIGHT_TTL_def Let_def split: option.splits)

lemma inflight_release:
  "inflight_of now (release_account_pick now w a) b =
     (if b = a \<and> a \<noteq> [] then (if inflight_of now w a \<le> 1 then 0 else inflight_of now w a - 1)
      else inflight_of now w b)"
  by (auto simp: release_account_pick_def inflight_of_def LOCAL_INFLIGHT_TTL_def Let_def split: option.splits)

text \<open>A pick and its release leave every reader's count where it was.\<close>

lemma note_release_balanced:
  "a \<noteq> [] \<Longrightarrow> 0 \<le> inflight_of now w a \<Longrightarrow>
     inflight_of now (release_account_pick now (snd (note_account_pick now w a)) a) b = inflight_of now w b"
  by (simp add: inflight_release inflight_note)

lemma pick_marks_store [simp]:
  "w_store (release_account_pick now w a) = w_store w"
  "w_store (snd (note_account_pick now w a)) = w_store w"
  "w_affinity (release_account_pick now w a) = w_affinity w"
  by (simp_all add: release_account_pick_def note_account_pick_def Let_def split: prod.splits)

subsection \<open>Conversation bindings\<close>

definition clear_affinity_for_account :: "'s world \<Rightarrow> string \<Rightarrow> nat \<times> 's world" where
  "clear_affinity_for_account w a =
     (if a = [] then (0, w)
      else let dead = filter (\<lambda>(_, v). str_or_empty (dget v ''account_id'') = a) (w_affinity w)
           in (length dead,
               w\<lparr>w_affinity := filter (\<lambda>(_, v). str_or_empty (dget v ''account_id'') \<noteq> a) (w_affinity w)\<rparr>))"

lemma clear_affinity_store [simp]: "w_store (snd (clear_affinity_for_account w a)) = w_store w"
  by (simp add: clear_affinity_for_account_def Let_def)

lemma clear_affinity_none_left:
  "a \<noteq> [] \<Longrightarrow> (fp, v) \<in> set (w_affinity (snd (clear_affinity_for_account w a))) \<Longrightarrow>
     str_or_empty (dget v ''account_id'') \<noteq> a"
  by (auto simp: clear_affinity_for_account_def Let_def)

lemma clear_affinity_others:
  "(fp, v) \<in> set (w_affinity w) \<Longrightarrow> str_or_empty (dget v ''account_id'') \<noteq> a \<Longrightarrow>
     (fp, v) \<in> set (w_affinity (snd (clear_affinity_for_account w a)))"
  by (auto simp: clear_affinity_for_account_def Let_def)

subsection \<open>Model blocks\<close>

definition default_block_reason :: string where
  "default_block_reason = ''model unavailable''"

text \<open>The time a still running block of the model has left.\<close>

definition block_remaining :: "rat \<Rightarrow> pyval \<Rightarrow> rat" where
  "block_remaining now prev =
     (if is_dict prev \<and> truthy prev \<and> dget (dict_of prev) ''until'' \<noteq> PNone
      then (case py_float (dget (dict_of prev) ''until'') of Some u \<Rightarrow> max 0 (u - now) | None \<Rightarrow> 0)
      else 0)"

definition block_entry :: "rat \<Rightarrow> pydict \<Rightarrow> string \<Rightarrow> string \<Rightarrow> string \<Rightarrow> rat option \<Rightarrow> pydict" where
  "block_entry now blocked model reason source ttl_sec =
     [(''reason'', PStr (take 300 (if reason = [] then default_block_reason else reason))),
      (''blocked_at'', PFloat now), (''source'', PStr source)]
     @ (case ttl_sec of None \<Rightarrow> []
        | Some ttl \<Rightarrow>
            (if 0 < ttl
             then let total = block_remaining now (dget blocked model) + ttl
                  in [(''ttl_sec'', PFloat total), (''until'', PFloat (now + total)),
                      (''stacked_add_sec'', PFloat ttl)]
             else []))"

definition meta_blocked :: "pydict \<Rightarrow> pydict" where
  "meta_blocked meta = dict_of (dget meta ''blocked_models'')"

definition block_model ::
  "'s store_ops \<Rightarrow> rat \<Rightarrow> 's world \<Rightarrow> string \<Rightarrow> string \<Rightarrow> string \<Rightarrow> string \<Rightarrow> rat option
   \<Rightarrow> pydict option \<times> 's world" where
  "block_model ops now w account_id model reason source ttl_sec =
     (if account_id = [] \<or> model = [] then (None, w)
      else let blocked = meta_blocked (w_meta ops w account_id);
               entry = block_entry now blocked model reason source ttl_sec;
               blocked = dset blocked model (PDict entry);
               last_error = CHR ''['' # model @ ''] '' @ str_or_empty (dget entry ''reason'');
               (saved, w) = w_patch ops now w account_id
                 [(''blocked_models'', PDict blocked), (''last_error'', PStr last_error)]
           in (Some (dupdate saved
                 [(''id'', PStr account_id), (''blocked_models'', PDict blocked), (''model'', PStr model),
                  (''reason'', dget entry ''reason'')]), w))"

definition unblock_model ::
  "'s store_ops \<Rightarrow> rat \<Rightarrow> 's world \<Rightarrow> string \<Rightarrow> string option \<Rightarrow> pydict option \<times> 's world" where
  "unblock_model ops now w account_id model =
     (if account_id = [] then (None, w)
      else let blocked = meta_blocked (w_meta ops w account_id);
               finish = (\<lambda>b p. let (saved, w') = w_patch ops now w account_id p
                 in (Some (dupdate saved [(''id'', PStr account_id), (''blocked_models'', PDict b)]), w'))
           in (case model of
                 None \<Rightarrow> finish [] [(''blocked_models'', PNone)]
               | Some m \<Rightarrow>
                   (if dhas blocked m
                    then let b = dpop blocked m
                         in finish b [(''blocked_models'', if b = [] then PNone else PDict b)]
                    else (Some [(''id'', PStr account_id), (''blocked_models'', PDict blocked)], w))))"

lemma w_meta_patch [simp]:
  "w_meta ops (snd (w_patch ops now w a p)) b = op_meta ops (snd (op_patch ops now (w_store w) a p)) b"
  by (simp add: w_meta_def w_patch_def Let_def split: prod.splits)

lemma w_store_patch [simp]: "w_store (snd (w_patch ops now w a p)) = snd (op_patch ops now (w_store w) a p)"
  by (simp add: w_patch_def Let_def split: prod.splits)

text \<open>How long a block lasts: what was left of the old one plus the new window.\<close>

lemma block_entry_until:
  "0 < ttl \<Longrightarrow> dget (block_entry now blocked m reason source (Some ttl)) ''until'' =
     PFloat (now + block_remaining now (dget blocked m) + ttl)"
  by (simp add: block_entry_def Let_def add.assoc)

lemma block_entry_durable: "dget (block_entry now blocked m reason source None) ''until'' = PNone"
  by (simp add: block_entry_def)

lemma block_entry_source [simp]: "dget (block_entry now blocked m reason source ttl) ''source'' = PStr source"
  by (simp add: block_entry_def)

lemma block_remaining_nonneg: "0 \<le> block_remaining now v"
  by (auto simp: block_remaining_def split: option.splits)

lemma block_model_patch:
  assumes "a \<noteq> []" "m \<noteq> []"
  shows "w_store (snd (block_model ops now w a m reason source ttl)) =
     snd (op_patch ops now (w_store w) a
       [(''blocked_models'', PDict (dset (meta_blocked (w_meta ops w a)) m
           (PDict (block_entry now (meta_blocked (w_meta ops w a)) m reason source ttl)))),
        (''last_error'', PStr (CHR ''['' # m @ ''] '' @
           str_or_empty (dget (block_entry now (meta_blocked (w_meta ops w a)) m reason source ttl) ''reason'')))])"
  using assms by (simp add: block_model_def Let_def w_patch_def split: prod.splits)

end
