(* ===== verification/Pool_Steps.thy ===== *)
theory Pool_Steps
  imports Pool_World
begin

text \<open>
  What a transition of the pool is made of: patches of one account's record and counts of its requests.
  \<open>reach ops now a s s'\<close> is the step relation's closure; every operation of the pool is shown to stay
  within it, and the store's invariant and the other accounts' records are preserved along it.
\<close>

inductive reach :: "'s store_ops \<Rightarrow> rat \<Rightarrow> string \<Rightarrow> 's \<Rightarrow> 's \<Rightarrow> bool" for ops now a where
  reach_refl [intro]: "reach ops now a s s"
| reach_patch: "reach ops now a s s' \<Longrightarrow> patch_fits p \<Longrightarrow> reach ops now a s (snd (op_patch ops now s' a p))"
| reach_touch: "reach ops now a s s' \<Longrightarrow> op_touch ops now ta s' a = Some (m, s'') \<Longrightarrow> reach ops now a s s''"

lemma reach_trans: "reach ops now a s s' \<Longrightarrow> reach ops now a s' s'' \<Longrightarrow> reach ops now a s s''"
  by (rotate_tac 1, induction rule: reach.induct) (auto intro: reach.intros)

lemma reach_patch1: "patch_fits p \<Longrightarrow> reach ops now a s (snd (op_patch ops now s a p))"
  by (rule reach_patch [OF reach_refl])

text \<open>The relation on worlds: their stores are related, the rest is free.\<close>

definition evolves :: "'s store_ops \<Rightarrow> rat \<Rightarrow> string \<Rightarrow> 's world \<Rightarrow> 's world \<Rightarrow> bool" where
  "evolves ops now a w w' \<longleftrightarrow> reach ops now a (w_store w) (w_store w')"

named_theorems evo \<open>operations that stay within the step relation\<close>

lemma evolves_refl [evo]: "evolves ops now a w w"
  by (auto simp: evolves_def)

lemma evolves_trans: "evolves ops now a w w' \<Longrightarrow> evolves ops now a w' w'' \<Longrightarrow> evolves ops now a w w''"
  by (auto simp: evolves_def intro: reach_trans)

lemma evolves_patch [evo]: "patch_fits p \<Longrightarrow> evolves ops now a w (snd (w_patch ops now w a p))"
  by (simp add: evolves_def reach_patch1)

lemma evolves_touch [evo]: "w_touch ops now ta w a = Some (m, w') \<Longrightarrow> evolves ops now a w w'"
  by (auto simp: evolves_def w_touch_def intro: reach_touch)

lemma evolves_marks [simp]:
  "evolves ops now a w (release_account_pick now w' b) = evolves ops now a w w'"
  "evolves ops now a w (snd (note_account_pick now w' b)) = evolves ops now a w w'"
  "evolves ops now a w (snd (clear_affinity_for_account w' b)) = evolves ops now a w w'"
  "evolves ops now a (release_account_pick now w b) w' = evolves ops now a w w'"
  "evolves ops now a (snd (clear_affinity_for_account w b)) w' = evolves ops now a w w'"
  by (simp_all add: evolves_def)

lemma evolves_block [evo]: "evolves ops now a w (snd (block_model ops now w a m r src ttl))"
proof (cases "a = [] \<or> m = []")
  case True
  then show ?thesis by (auto simp: block_model_def evolves_refl)
next
  case False
  then show ?thesis by (simp add: evolves_def block_model_patch reach_patch1)
qed

lemma evolves_unblock [evo]: "evolves ops now a w (snd (unblock_model ops now w a m))"
  by (auto simp: unblock_model_def Let_def case_prod_unfold evolves_refl split: option.split intro!: evolves_patch)

context pool_store
begin

lemma reach_ok: "reach ops now a s s' \<Longrightarrow> ok s \<Longrightarrow> good_id a \<Longrightarrow> ok s'"
  by (induction rule: reach.induct) (auto intro: patch_ok touch_ok)

lemma reach_frame:
  "reach ops now a s s' \<Longrightarrow> ok s \<Longrightarrow> good_id a \<Longrightarrow> good_id b \<Longrightarrow> b \<noteq> a \<Longrightarrow> op_meta ops s' b = op_meta ops s b"
proof (induction rule: reach.induct)
  case (reach_refl s)
  then show ?case by simp
next
  case (reach_patch s s' p)
  then show ?case using reach_ok [OF reach_patch(1)] by (simp add: patch_frame)
next
  case (reach_touch s s' ta m s'')
  then show ?case using reach_ok [OF reach_touch(1)] touch_frame [of s' a b now ta m s''] by simp
qed

lemma evolves_ok: "evolves ops now a w w' \<Longrightarrow> ok (w_store w) \<Longrightarrow> good_id a \<Longrightarrow> ok (w_store w')"
  by (auto simp: evolves_def intro: reach_ok)

text \<open>A transition of one account leaves every other account's record alone.\<close>

lemma evolves_frame:
  "evolves ops now a w w' \<Longrightarrow> ok (w_store w) \<Longrightarrow> good_id a \<Longrightarrow> good_id b \<Longrightarrow> b \<noteq> a \<Longrightarrow>
     w_meta ops w' b = w_meta ops w b"
  by (auto simp: evolves_def w_meta_def intro: reach_frame)

end

end
