(* ===== verification/Pool_Classify.thy ===== *)
theory Pool_Classify
  imports Pool_Policy
begin

text \<open>
  How an upstream error is classified: free-usage exhaustion (\<open>account_pool.parse_free_usage_error\<close>),
  temporary usage, model and account errors (\<open>grok2api/pool/model_health.py\<close>) and hard quota errors
  (\<open>grok2api/pool/quota.py\<close>).

  The searches of the compiled regular expressions, \<open>json.loads\<close> and the \<open>repr\<close> of containers are
  the fields of \<open>patterns\<close>; everything decided from them is defined here.
\<close>

record patterns =
  re_free_code :: "string \<Rightarrow> bool"
  re_free_text :: "string \<Rightarrow> bool"
  re_code_field :: "string \<Rightarrow> string option"
  re_model_in_error :: "string \<Rightarrow> string option"
  re_tokens :: "string \<Rightarrow> (int \<times> int) option"
  re_temp_usage :: "string \<Rightarrow> bool"
  re_model_unavailable :: "string \<Rightarrow> bool"
  re_model_word :: "string \<Rightarrow> bool"
  re_account_block :: "string \<Rightarrow> bool"
  re_quota :: "string \<Rightarrow> bool"
  py_loads :: "string \<Rightarrow> pyval option"
  py_repr :: "pyval \<Rightarrow> string"

fun py_str :: "patterns \<Rightarrow> pyval \<Rightarrow> string" where
  "py_str pt (PStr s) = s"
| "py_str pt (PInt i) = str_int i"
| "py_str pt (PBool b) = (if b then ''True'' else ''False'')"
| "py_str pt PNone = ''None''"
| "py_str pt v = py_repr pt v"

subsection \<open>Free usage\<close>

definition free_usage_detail :: "patterns \<Rightarrow> string \<Rightarrow> pyval option" where
  "free_usage_detail pt text =
     (if starts_with text ''{'' \<or> contains text (CHR 0x22 # ''code'' @ [CHR 0x22])
      then py_loads pt text else None)"

definition free_usage_reason :: "patterns \<Rightarrow> pyval \<Rightarrow> (int \<times> int) option \<Rightarrow> string" where
  "free_usage_reason pt model tokens =
     take 300 (''temporary quota exhausted, kicked from rotation until the next successful probe''
       @ (if truthy model then '' - '' @ py_str pt model else [])
       @ (case tokens of Some (a, l) \<Rightarrow> '' - tokens '' @ str_int a @ ''/'' @ str_int l | None \<Rightarrow> []))"

definition parse_free_usage_error :: "patterns \<Rightarrow> rat \<Rightarrow> string \<Rightarrow> int option \<Rightarrow> pydict option" where
  "parse_free_usage_error pt now error status_code =
     (let text = strip error in
      if text = [] then None
      else let detail = (case free_usage_detail pt text of Some (PDict d) \<Rightarrow> Some d | _ \<Rightarrow> None);
        (code, err_msg) = (case detail of
            Some d \<Rightarrow>
              (let c = py_str pt (py_or (py_or (dget d ''code'') (dget d ''error_code'')) (PStr ''''))
               in (if c = [] then None else Some c,
                   py_str pt (py_or (py_or (dget d ''error'') (dget d ''message'')) (PStr text))))
          | None \<Rightarrow> (re_code_field pt text, text));
        is_free = ((case code of Some c \<Rightarrow> re_free_code pt c | None \<Rightarrow> False)
                   \<or> re_free_code pt err_msg \<or> re_free_text pt err_msg)
      in if \<not> is_free then None
         else let model0 = (case detail of Some d \<Rightarrow> py_or (dget d ''model'') (dget d ''model_id'') | None \<Rightarrow> PNone);
                  model = (if truthy model0 then model0
                           else (case re_model_in_error pt err_msg of Some m \<Rightarrow> PStr m | None \<Rightarrow> model0));
                  tokens = re_tokens pt err_msg
              in Some
                [(''code'', PStr (case code of Some c \<Rightarrow> c | None \<Rightarrow> ''subscription:free-usage-exhausted'')),
                 (''reason'', PStr (free_usage_reason pt model tokens)),
                 (''model'', model),
                 (''tokens_actual'', of_opt (\<lambda>t. PInt (fst t)) tokens),
                 (''tokens_limit'', of_opt (\<lambda>t. PInt (snd t)) tokens),
                 (''detail'', case detail of Some d \<Rightarrow> PDict d
                              | None \<Rightarrow> PDict [(''error'', PStr (take 500 err_msg))]),
                 (''status_code'', of_opt PInt status_code),
                 (''raw_error'', PStr (take 500 err_msg)),
                 (''at'', PFloat now)])"

subsection \<open>Temporary, model, account and quota errors\<close>

definition is_temporary_usage_error :: "patterns \<Rightarrow> string \<Rightarrow> int option \<Rightarrow> bool" where
  "is_temporary_usage_error pt error status_code =
     (let text = strip error in
      if text = [] then False
      else if re_temp_usage pt text then True
      else if status_code = Some 429 \<and> \<not> re_model_unavailable pt text then True
      else False)"

definition is_model_unavailable_error :: "patterns \<Rightarrow> string \<Rightarrow> int option \<Rightarrow> bool" where
  "is_model_unavailable_error pt error status_code =
     (let text = strip error in
      if text = [] then False
      else if is_temporary_usage_error pt text status_code then False
      else if status_code = Some 429 then False
      else if re_model_unavailable pt text then True
      else if status_code \<in> {Some 403, Some 404} \<and> re_model_word pt text then True
      else False)"

definition is_account_block_error :: "patterns \<Rightarrow> string \<Rightarrow> int option \<Rightarrow> bool" where
  "is_account_block_error pt error status_code =
     (let text = strip error in
      if text = [] then False
      else if is_temporary_usage_error pt text status_code then False
      else if status_code = Some 429 then False
      else re_account_block pt text)"

definition is_quota_error_message :: "patterns \<Rightarrow> string \<Rightarrow> int option \<Rightarrow> bool" where
  "is_quota_error_message pt error status_code =
     (let text = strip error; low = lower text in
      if text = [] then False
      else if contains low ''free-usage-exhausted'' \<or> contains low ''free usage'' \<or>
              contains low ''usage resets over a rolling'' \<or> status_code = Some 429 then False
      else if re_quota pt text then True
      else if status_code = Some 403 \<and>
              (\<exists>k \<in> set [''credit'', ''subscription'', ''billing'', ''spending'', ''limit'', ''quota'']. contains low k)
        then \<not> (contains low ''free-usage'' \<or> contains low ''rate limit'')
      else False)"

text \<open>A temporary error is neither a model nor an account error; a bare 429 is never a permanent one.\<close>

lemma temporary_excludes:
  "is_temporary_usage_error pt e st \<Longrightarrow>
     \<not> is_model_unavailable_error pt e st \<and> \<not> is_account_block_error pt e st"
  by (auto simp: is_model_unavailable_error_def is_account_block_error_def is_temporary_usage_error_def Let_def
      split: if_splits)

lemma never_permanent_429:
  "\<not> is_quota_error_message pt e (Some 429)" "\<not> is_model_unavailable_error pt e (Some 429)"
  "\<not> is_account_block_error pt e (Some 429)"
  by (simp_all add: is_quota_error_message_def is_model_unavailable_error_def is_account_block_error_def Let_def)

lemma parse_free_usage_fields:
  assumes "parse_free_usage_error pt now e st = Some d"
  shows "is_opt_count (dget d ''tokens_actual'')" "is_opt_count (dget d ''tokens_limit'')"
    "truthy (dget d ''reason'')"
proof -
  have o: "is_opt_count (of_opt (\<lambda>t. PInt (f t)) x)" for f :: "int \<times> int \<Rightarrow> int" and x
    by (cases x) simp_all
  from assms show "is_opt_count (dget d ''tokens_actual'')" "is_opt_count (dget d ''tokens_limit'')"
    "truthy (dget d ''reason'')"
    by (auto simp: parse_free_usage_error_def Let_def free_usage_reason_def o split: if_splits prod.splits)
qed

end
