(* ===== verification/Pool_Failure.thy ===== *)
theory Pool_Failure
  imports Pool_Steps Pool_Classify
begin

text \<open>
  What a failed request does to an account: \<open>apply_free_usage_cooldown\<close>, \<open>kick_from_pool\<close>,
  \<open>disable_for_quota\<close> and \<open>_report_failure_impl\<close> of \<open>grok2api/pool/account_pool.py\<close>,
  \<open>handle_upstream_error_for_quota\<close> of \<open>quota.py\<close> and \<open>handle_upstream_error_for_model\<close> of
  \<open>model_health.py\<close>.

  The clock is read once per operation. An operation whose read of the account's view raises returns
  \<open>Raises\<close> with the state it had reached; a caller that catches the exception goes on from that state.
\<close>

subsection \<open>Free usage\<close>

definition free_usage_cooldown_ttl :: "int \<Rightarrow> rat" where
  "free_usage_cooldown_ttl stack_count =
     (let n = max 1 (if stack_count = 0 then 1 else stack_count)
      in max 60 (min FREE_USAGE_COOLDOWN_MAX_SEC (FREE_USAGE_COOLDOWN_BASE_SEC * (3/2) ^ nat (max 0 (n - 1)))))"

definition free_usage_parsed ::
  "patterns \<Rightarrow> rat \<Rightarrow> string \<Rightarrow> int option \<Rightarrow> string option \<Rightarrow> pydict option" where
  "free_usage_parsed pt now error status_code model =
     (let parsed = (case parse_free_usage_error pt now error status_code of
            Some p \<Rightarrow> Some p
          | None \<Rightarrow>
              (if is_temporary_usage_error pt error status_code
               then Some
                 [(''code'', PStr ''temporary_usage''), (''model'', of_opt PStr model),
                  (''reason'', PStr ''temporary quota or rate limit, kicked from rotation''),
                  (''detail'', PStr (take 400 error)), (''tokens_actual'', PNone), (''tokens_limit'', PNone)]
               else None))
      in (case parsed of
            None \<Rightarrow> None
          | Some p \<Rightarrow>
              (if truthy (of_opt PStr model) \<and> \<not> truthy (dget p ''model'')
               then Some (dset p ''model'' (of_opt PStr model)) else Some p)))"

text \<open>The hits already on the record, the count they amount to, and whether a window still runs.\<close>

definition prev_stack :: "pydict \<Rightarrow> pyval list" where
  "prev_stack meta = dict_items (list_of (dget meta ''status_stack''))"

definition prev_count :: "pydict \<Rightarrow> int" where
  "prev_count meta =
     (let n = (case int_or0 (dget meta ''cooldown_count'') of Some n \<Rightarrow> n | None \<Rightarrow> 0)
      in if prev_stack meta \<noteq> [] then max n (int (length (prev_stack meta))) else n)"

definition until_existing :: "pydict \<Rightarrow> rat option" where
  "until_existing meta =
     (if dget meta ''cooldown_until'' = PNone then None else py_float (dget meta ''cooldown_until''))"

definition still_active :: "rat \<Rightarrow> pydict \<Rightarrow> bool" where
  "still_active now meta =
     ((case until_existing meta of Some u \<Rightarrow> now < u | None \<Rightarrow> False) \<or>
      lower (str_or_empty (dget meta ''pool_status'')) = ''cooldown'')"

definition last_hit_at :: "pydict \<Rightarrow> rat" where
  "last_hit_at meta =
     (let hit = (if prev_stack meta = [] then 0
                 else (case float_or0 (dget (dict_of (last (prev_stack meta))) ''at'') of Some t \<Rightarrow> t | None \<Rightarrow> 0))
      in if hit \<le> 0 then (case float_or0 (dget meta ''last_probe_fail_at'') of Some t \<Rightarrow> t | None \<Rightarrow> 0) else hit)"

definition restack :: "rat \<Rightarrow> pydict \<Rightarrow> bool" where
  "restack now meta =
     (\<not> (still_active now meta \<and> now - last_hit_at meta < FREE_USAGE_RESTACK_MIN_SEC) \<and>
      \<not> (FREE_USAGE_STACK_MAX \<le> prev_count meta \<and> still_active now meta))"

definition free_model :: "pydict \<Rightarrow> string option \<Rightarrow> pyval" where
  "free_model parsed model = py_or (dget parsed ''model'') (of_opt PStr model)"

definition free_entry :: "rat \<Rightarrow> pydict \<Rightarrow> int option \<Rightarrow> string option \<Rightarrow> string \<Rightarrow> pydict" where
  "free_entry now parsed status_code model source =
     [(''kind'', PStr ''free_usage_exhausted''), (''code'', dget parsed ''code''),
      (''model'', free_model parsed model), (''tokens_actual'', dget parsed ''tokens_actual''),
      (''tokens_limit'', dget parsed ''tokens_limit''), (''source'', PStr source),
      (''status_code'', of_opt PInt status_code), (''at'', PFloat now), (''reason'', dget parsed ''reason'')]"

definition STACK_ENTRIES :: nat where "STACK_ENTRIES = 50"

definition free_stack :: "rat \<Rightarrow> pydict \<Rightarrow> pydict \<Rightarrow> pyval list \<times> int" where
  "free_stack now meta entry =
     (if restack now meta
      then let stack = stack_status_entry meta entry STACK_ENTRIES;
               stack = (if FREE_USAGE_STACK_MAX < int (length stack)
                        then last_n (nat FREE_USAGE_STACK_MAX) stack else stack)
           in (stack, min FREE_USAGE_STACK_MAX (max 1 (int (length stack))))
      else (if prev_stack meta = [] then [PDict entry] else prev_stack meta,
            max 1 (min FREE_USAGE_STACK_MAX (if prev_count meta = 0 then 1 else prev_count meta))))"

definition free_until :: "rat \<Rightarrow> pydict \<Rightarrow> rat \<Rightarrow> rat" where
  "free_until now meta display_ttl =
     (if PROBE_ONLY_COOLDOWN_RECOVERY
      then let until = now + PROBE_HOLD_COOLDOWN_SEC
           in (case until_existing meta of
                 Some u \<Rightarrow> (if still_active now meta then max u until else until)
               | None \<Rightarrow> until)
      else let until = now + display_ttl
           in (case until_existing meta of
                 Some u \<Rightarrow> (if still_active now meta
                            then max u (min (now + FREE_USAGE_COOLDOWN_MAX_SEC) until) else until)
               | None \<Rightarrow> until))"

definition free_reason :: "patterns \<Rightarrow> pydict \<Rightarrow> string" where
  "free_reason pt parsed =
     take 300 (py_str pt (py_or (dget parsed ''reason'')
       (PStr (if PROBE_ONLY_COOLDOWN_RECOVERY
              then ''temporary quota exhausted, kicked from rotation until the next successful probe''
              else ''temporary quota exhausted, kicked from rotation until recovery or a successful probe''))))"

definition free_patch ::
  "patterns \<Rightarrow> rat \<Rightarrow> pydict \<Rightarrow> int option \<Rightarrow> string option \<Rightarrow> pyval list \<Rightarrow> int \<Rightarrow> rat \<Rightarrow> pydict" where
  "free_patch pt now parsed status_code model stack new_count until =
     [(''pool_status'', PStr ''cooldown''),
      (''cooldown_count'', PInt new_count),
      (''status_stack'', PList stack),
      (''cooldown_reason'', PStr (free_reason pt parsed)),
      (''cooldown_code'', dget parsed ''code''),
      (''cooldown_model'', free_model parsed model),
      (''cooldown_tokens_actual'', dget parsed ''tokens_actual''),
      (''cooldown_tokens_limit'', dget parsed ''tokens_limit''),
      (''cooldown_detail'', dget parsed ''detail''),
      (''cooldown_until'', PFloat until),
      (''cooldown_sec'', PFloat (free_usage_cooldown_ttl new_count)),
      (''last_error'', PStr (free_reason pt parsed)),
      (''last_status_code'', of_opt PInt status_code),
      (''enabled'', PBool True),
      (''disabled_reason'', PNone),
      (''disabled_source'', PNone),
      (''disabled_for_quota'', PBool False),
      (''last_probe_status'', PStr ''cooldown''),
      (''last_probe_fail_at'', PFloat now),
      (''kicked_from_rotation'', PBool True),
      (''kick_reason'', PStr ''free_usage''),
      (''kick_at'', PFloat now)]"

definition soft_block_ttl :: "int \<Rightarrow> rat" where
  "soft_block_ttl new_count =
     max 60 (min FREE_USAGE_COOLDOWN_MAX_SEC
       (min (free_usage_cooldown_ttl new_count) (SOFT_MODEL_BLOCK_TTL * of_int (max 1 new_count))))"

text \<open>The soft block, the dropped bindings and the released pick that come before the patch.\<close>

definition free_side_effects ::
  "'s store_ops \<Rightarrow> patterns \<Rightarrow> rat \<Rightarrow> 's world \<Rightarrow> string \<Rightarrow> pydict \<Rightarrow> string option \<Rightarrow> int \<Rightarrow> 's world" where
  "free_side_effects ops pt now w account_id parsed model new_count =
     (let mid = free_model parsed model;
          w1 = (if truthy mid
                then snd (block_model ops now w account_id (py_str pt mid) (free_reason pt parsed) ''temp_usage''
                       (Some (soft_block_ttl new_count)))
                else w)
      in release_account_pick now (snd (clear_affinity_for_account w1 account_id)) account_id)"

definition free_hit ::
  "'s store_ops \<Rightarrow> patterns \<Rightarrow> rat \<Rightarrow> 's world \<Rightarrow> string \<Rightarrow> pydict \<Rightarrow> pydict \<Rightarrow> int option \<Rightarrow> string option \<Rightarrow> string
   \<Rightarrow> pydict \<times> 's world" where
  "free_hit ops pt now w account_id parsed meta status_code model source =
     (let entry = free_entry now parsed status_code model source;
          (stack, new_count) = free_stack now meta entry;
          display_ttl = free_usage_cooldown_ttl new_count;
          until = free_until now meta display_ttl;
          patch = free_patch pt now parsed status_code model stack new_count until;
          w3 = free_side_effects ops pt now w account_id parsed model new_count;
          (saved, w4) = w_patch ops now w3 account_id patch;
          action = (if restack now meta \<or> \<not> still_active now meta then ''cooldown_kick'' else ''cooldown_refresh'')
      in ([(''id'', PStr account_id), (''action'', PStr action), (''pool_status'', PStr ''cooldown''),
           (''cooldown_count'', PInt new_count), (''status_stack_len'', PInt (int (length stack))),
           (''cooldown_code'', dget parsed ''code''), (''cooldown_model'', free_model parsed model),
           (''cooldown_reason'', PStr (free_reason pt parsed)), (''cooldown_until'', PFloat until),
           (''cooldown_ttl_sec'', PFloat display_ttl), (''enabled'', PBool True),
           (''kicked_from_rotation'', PBool True), (''meta'', PDict saved)], w4))"

definition apply_free_usage_cooldown ::
  "'s store_ops \<Rightarrow> patterns \<Rightarrow> rat \<Rightarrow> 's world \<Rightarrow> string \<Rightarrow> string \<Rightarrow> int option \<Rightarrow> string option \<Rightarrow> string
   \<Rightarrow> pydict option result \<times> 's world" where
  "apply_free_usage_cooldown ops pt now w account_id error status_code model source =
     (if account_id = [] then (Returns None, w)
      else (case free_usage_parsed pt now error status_code model of
        None \<Rightarrow> (Returns None, w)
      | Some parsed \<Rightarrow>
          (case w_view ops now w account_id of
             None \<Rightarrow> (Raises, w)
           | Some meta \<Rightarrow>
               (let (out, w') = free_hit ops pt now w account_id parsed meta status_code model source
                in (Returns (Some out), w')))))"

subsection \<open>Kicks and quota removal\<close>

definition default_kick_reason :: string where
  "default_kick_reason = ''removed from rotation by hand''"

definition touch_fail :: "string \<Rightarrow> rat \<Rightarrow> int \<Rightarrow> int option \<Rightarrow> rat \<Rightarrow> bool \<Rightarrow> touch_args" where
  "touch_fail error until fails status_code sec preserve =
     \<lparr>ta_success = False, ta_error = error, ta_cooldown_until = Some until, ta_clear_cooldown = False,
      ta_consecutive_fails = Some fails, ta_last_status_code = status_code, ta_cooldown_sec = Some sec,
      ta_preserve_cooldown = preserve, ta_current_meta = []\<rparr>"

definition soft_kick ::
  "'s store_ops \<Rightarrow> rat \<Rightarrow> 's world \<Rightarrow> string \<Rightarrow> string \<Rightarrow> rat \<Rightarrow> pydict option result \<times> 's world" where
  "soft_kick ops now w account_id reason_s cooldown_sec =
     (case w_view ops now w account_id of
        None \<Rightarrow> (Raises, w)
      | Some meta0 \<Rightarrow>
          (let new_count = stack_cooldown_count now meta0 1;
               until = (if PROBE_ONLY_COOLDOWN_RECOVERY then now + PROBE_HOLD_COOLDOWN_SEC
                        else now + max cooldown_sec 60 * of_int (max 1 new_count));
               w1 = snd (w_patch ops now w account_id
                 [(''cooldown_count'', PInt new_count), (''pool_status'', PStr ''cooldown''),
                  (''cooldown_until'', PFloat until), (''cooldown_sec'', PFloat (of_int new_count)),
                  (''last_error'', PStr reason_s)])
           in (case int_or0 (dget meta0 ''consecutive_fails'') of
                 None \<Rightarrow> (Raises, w1)
               | Some fails \<Rightarrow>
                   (case w_touch ops now
                      (touch_fail reason_s until (max 1 fails) None (of_int new_count) False) w1 account_id of
                      None \<Rightarrow> (Raises, w1)
                    | Some (_, w2) \<Rightarrow>
                        (Returns (Some
                          [(''id'', PStr account_id), (''in_cooldown'', PBool True),
                           (''cooldown_until'', PFloat until),
                           (''cooldown_remaining_sec'', PFloat (max 0 (until - now))),
                           (''cooldown_sec'', PFloat (of_int new_count)), (''cooldown_count'', PInt new_count),
                           (''pool_status'', PStr ''cooldown''), (''last_error'', PStr reason_s)]), w2)))))"

definition hard_kick ::
  "'s store_ops \<Rightarrow> rat \<Rightarrow> 's world \<Rightarrow> string \<Rightarrow> string \<Rightarrow> pydict option result \<times> 's world" where
  "hard_kick ops now w account_id reason_s =
     (let w1 = snd (w_patch ops now w account_id
            [(''enabled'', PBool False), (''disabled_reason'', PStr reason_s), (''last_error'', PStr reason_s),
             (''pool_status'', PStr ''disabled'')]);
          w2 = snd (clear_affinity_for_account w1 account_id)
      in (Returns (Some [(''id'', PStr account_id), (''enabled'', PBool False),
            (''disabled_reason'', PStr reason_s), (''pool_status'', PStr ''disabled'')]), w2))"

definition kick_from_pool ::
  "'s store_ops \<Rightarrow> rat \<Rightarrow> 's world \<Rightarrow> string \<Rightarrow> string \<Rightarrow> rat option \<Rightarrow> pydict option result \<times> 's world" where
  "kick_from_pool ops now w account_id reason cooldown_sec =
     (if account_id = [] then (Returns None, w)
      else let reason_s = take 300 (if reason = [] then default_kick_reason else reason) in
        (case cooldown_sec of
           Some sec \<Rightarrow>
             (if 0 < sec then soft_kick ops now w account_id reason_s sec
              else hard_kick ops now w account_id reason_s)
         | None \<Rightarrow> hard_kick ops now w account_id reason_s))"

definition default_quota_reason :: string where
  "default_quota_reason = ''quota exhausted''"

definition quota_patch :: "rat \<Rightarrow> string \<Rightarrow> string \<Rightarrow> string \<Rightarrow> pydict" where
  "quota_patch now account_id reason_s source =
     (let summary = PStr (''quota exhausted, removed from rotation ('' @ reason_s @ '')'')
      in [(''enabled'', PBool False), (''disabled_for_quota'', PBool True), (''disabled_reason'', PStr reason_s),
          (''disabled_source'', PStr source), (''quota_disabled_at'', PFloat now), (''quota_source'', PStr source),
          (''last_error'', PStr reason_s),
          (''last_quota'', PDict
            [(''ok'', PBool True), (''fetched_at'', PFloat now), (''account_id'', PStr account_id),
             (''exhausted'', PBool True), (''auto_disabled'', PBool True), (''summary'', summary),
             (''display'', PDict [(''summary'', summary)]),
             (''source'', PStr (if source = [] then ''billing'' else source))])])"

definition disable_for_quota ::
  "'s store_ops \<Rightarrow> rat \<Rightarrow> 's world \<Rightarrow> string \<Rightarrow> string \<Rightarrow> string \<Rightarrow> pydict \<times> 's world" where
  "disable_for_quota ops now w account_id reason source =
     (let meta = w_meta ops w account_id;
          already = (dget meta ''enabled'' = PBool False \<and> truthy (dget meta ''disabled_for_quota''));
          reason_s = take 300 (if reason = [] then default_quota_reason else reason);
          (saved, w1) = w_patch ops now w account_id (quota_patch now account_id reason_s source);
          w2 = (if already then w1 else snd (clear_affinity_for_account w1 account_id))
      in (dupdate saved
            [(''id'', PStr account_id), (''enabled'', PBool False), (''disabled_for_quota'', PBool True),
             (''disabled_reason'', PStr reason_s)], w2))"

subsection \<open>Upstream errors\<close>

definition http_reason :: "string \<Rightarrow> patterns \<Rightarrow> int option \<Rightarrow> string \<Rightarrow> nat \<Rightarrow> string" where
  "http_reason what pt status_code error n =
     what @ '' (HTTP '' @ py_str pt (of_opt PInt status_code) @ ''): '' @ take n error"

definition handle_upstream_error_for_quota ::
  "'s store_ops \<Rightarrow> patterns \<Rightarrow> rat \<Rightarrow> 's world \<Rightarrow> string \<Rightarrow> string \<Rightarrow> int option \<Rightarrow> pydict option \<times> 's world" where
  "handle_upstream_error_for_quota ops pt now w account_id error status_code =
     (if account_id = [] \<or> \<not> is_quota_error_message pt error status_code then (None, w)
      else let (out, w') = disable_for_quota ops now w account_id
                 (http_reason ''upstream quota error'' pt status_code error 120) ''upstream_error''
           in (Some out, w'))"

definition temporary_block ::
  "'s store_ops \<Rightarrow> rat \<Rightarrow> 's world \<Rightarrow> string \<Rightarrow> string option \<Rightarrow> pydict option result \<times> 's world" where
  "temporary_block ops now w account_id model =
     (let reason = take 300 (''temporary quota exhausted, cooling until the next successful probe''
            @ (case model of Some m \<Rightarrow> (if m = [] then [] else '' - '' @ m) | None \<Rightarrow> []));
          w1 = (case model of
                  Some m \<Rightarrow> (if m = [] then w else snd (block_model ops now w account_id m reason ''temp_usage''
                              (Some PROBE_KICK_COOLDOWN_SEC)))
                | None \<Rightarrow> w)
      in (Returns (Some [(''id'', PStr account_id), (''in_cooldown'', PBool True), (''reason'', PStr reason),
            (''pool_status'', PStr ''cooldown'')]), w1))"

definition account_block ::
  "'s store_ops \<Rightarrow> cooldown_policy \<Rightarrow> rat \<Rightarrow> 's world \<Rightarrow> string \<Rightarrow> string \<Rightarrow> pydict option result \<times> 's world" where
  "account_block ops pol now w account_id reason =
     (let kick_cd = (if pol_kick_cooldown pol = 0 then 600 else pol_kick_cooldown pol)
      in (case kick_from_pool ops now w account_id reason (Some kick_cd) of
            (Raises, w1) \<Rightarrow> (Raises, w1)
          | (Returns kicked, w1) \<Rightarrow>
              (let (_, w2) = disable_for_quota ops now w1 account_id reason ''model_health''
               in (case kicked of
                     Some k \<Rightarrow> (Returns (Some k), w2)
                   | None \<Rightarrow>
                       (let (out, w3) = disable_for_quota ops now w2 account_id reason ''model_health''
                        in (Returns (Some out), w3))))))"

definition durable_block ::
  "'s store_ops \<Rightarrow> cooldown_policy \<Rightarrow> rat \<Rightarrow> rat \<Rightarrow> 's world \<Rightarrow> string \<Rightarrow> string \<Rightarrow> string \<Rightarrow> string \<Rightarrow> int option
   \<Rightarrow> pydict option result \<times> 's world" where
  "durable_block ops pol u now w account_id m reason error status_code =
     (let durable_ttl = (if pol_durable_block_ttl pol = 0 then 3600 else pol_durable_block_ttl pol);
          (blocked, w1) = block_model ops now w account_id m reason ''upstream_error'' (Some durable_ttl);
          cd = compute_cooldown_seconds pol u status_code (if error = [] then reason else error) 2 [] False;
          w2 = snd (kick_from_pool ops now w1 account_id reason (Some (max 30 (min cd durable_ttl))))
      in (Returns blocked, w2))"

text \<open>
  \<open>auto_disable\<close> is the switch \<open>_live_auto_disable()\<close> reads, \<open>pol\<close> the policy and \<open>u\<close> the random draw
  of the jitter.
\<close>

definition handle_upstream_error_for_model ::
  "'s store_ops \<Rightarrow> patterns \<Rightarrow> bool \<Rightarrow> cooldown_policy \<Rightarrow> rat \<Rightarrow> rat \<Rightarrow> 's world \<Rightarrow> string \<Rightarrow> string option \<Rightarrow> string
   \<Rightarrow> int option \<Rightarrow> pydict option result \<times> 's world" where
  "handle_upstream_error_for_model ops pt auto_disable pol u now w account_id model error status_code =
     (if account_id = [] \<or> \<not> auto_disable then (Returns None, w)
      else if is_temporary_usage_error pt error status_code then
        (case apply_free_usage_cooldown ops pt now w account_id error status_code model ''upstream'' of
           (Returns (Some stacked), w1) \<Rightarrow> (Returns (Some stacked), w1)
         | (_, w1) \<Rightarrow> temporary_block ops now w1 account_id model)
      else if is_account_block_error pt error status_code then
        account_block ops pol now w account_id (http_reason ''account unusable'' pt status_code error 120)
      else (case model of
              Some m \<Rightarrow>
                (if m \<noteq> [] \<and> is_model_unavailable_error pt error status_code
                 then durable_block ops pol u now w account_id m
                        (http_reason ''model unavailable'' pt status_code error 160) error status_code
                 else (Returns None, w))
            | None \<Rightarrow> (Returns None, w)))"

subsection \<open>Reporting a failed request\<close>

definition empty_upstream :: "string \<Rightarrow> bool" where
  "empty_upstream error =
     (let err_l = lower error in
      contains err_l ''empty model output'' \<or> contains err_l ''no content/tool_calls'' \<or>
      contains err_l ''no client-visible content'')"

definition fail_code :: "string \<Rightarrow> int option \<Rightarrow> string" where
  "fail_code error status_code =
     (if empty_upstream error then ''empty_upstream''
      else (case status_code of
              Some c \<Rightarrow> (if c = 0 then ''request_fail'' else ''http_'' @ str_int c)
            | None \<Rightarrow> ''request_fail''))"

definition fail_kind :: "string \<Rightarrow> string" where
  "fail_kind error = (if empty_upstream error then ''empty_upstream'' else ''request_fail'')"

definition fail_entry :: "rat \<Rightarrow> string \<Rightarrow> int option \<Rightarrow> string option \<Rightarrow> pydict" where
  "fail_entry now error status_code model =
     [(''kind'', PStr (fail_kind error)), (''code'', PStr (fail_code error status_code)),
      (''model'', of_opt PStr model), (''source'', PStr ''live''), (''status_code'', of_opt PInt status_code),
      (''at'', PFloat now), (''reason'', PStr (take 200 error))]"

definition fail_until :: "rat \<Rightarrow> string \<Rightarrow> rat \<Rightarrow> nat \<Rightarrow> rat" where
  "fail_until now error cooldown new_count =
     (if PROBE_ONLY_COOLDOWN_RECOVERY then now + PROBE_HOLD_COOLDOWN_SEC
      else if empty_upstream error
        then now + max 8 (min (if cooldown = 0 then 12 else cooldown) 20)
      else now + max (if cooldown = 0 then 60 else cooldown) 60 * of_int (max 1 (int new_count)))"

definition err_store :: "string \<Rightarrow> string" where
  "err_store error =
     (let e = take 300 error
      in if starts_with e ''{'' \<and> 160 < length e then take 160 e @ ''...'' else e)"

definition fail_patch :: "rat \<Rightarrow> string \<Rightarrow> int option \<Rightarrow> string option \<Rightarrow> pyval list \<Rightarrow> rat \<Rightarrow> pydict" where
  "fail_patch now error status_code model stack until =
     [(''status_stack'', PList stack), (''cooldown_count'', PInt (int (length stack))),
      (''pool_status'', PStr ''cooldown''), (''cooldown_until'', PFloat until),
      (''cooldown_sec'', PFloat (of_nat (length stack))), (''cooldown_reason'', PStr (err_store error)),
      (''cooldown_code'', PStr (fail_code error status_code)), (''cooldown_model'', of_opt PStr model)]"

text \<open>The free-usage branch: the request is counted on top of what the hit has already written.\<close>

definition report_free ::
  "'s store_ops \<Rightarrow> patterns \<Rightarrow> rat \<Rightarrow> 's world \<Rightarrow> string \<Rightarrow> string \<Rightarrow> int option \<Rightarrow> int \<Rightarrow> bool \<Rightarrow> pydict
   \<Rightarrow> pydict option result \<times> 's world" where
  "report_free ops pt now w account_id error status_code streak soft_blocked free =
     (let until_f = (if dget free ''cooldown_until'' = PNone then now + 600
                     else (case py_float (dget free ''cooldown_until'') of Some u \<Rightarrow> u | None \<Rightarrow> now + 600));
          sec = (case float_or0 (dget free ''cooldown_count'') of Some n \<Rightarrow> (if n = 0 then 1 else n) | None \<Rightarrow> 1);
          err = take 300 (py_str pt (py_or (dget free ''cooldown_reason'') (PStr error)))
      in (case w_touch ops now (touch_fail err until_f streak status_code sec True) w account_id of
            None \<Rightarrow> (Raises, w)
          | Some (_, w1) \<Rightarrow>
              (Returns (Some
                [(''action'', PStr ''cooldown_kick''), (''kind'', PStr ''free_usage''),
                 (''account_id'', PStr account_id), (''cooldown_code'', dget free ''cooldown_code''),
                 (''cooldown_count'', dget free ''cooldown_count''), (''cooldown_until'', PFloat until_f),
                 (''kicked'', PBool True), (''kicked_from_rotation'', PBool True),
                 (''soft_blocked'', PBool soft_blocked)]), w1)))"

text \<open>The other branch: one entry on the stack, the hold, and the count of the request.\<close>

definition report_plain ::
  "'s store_ops \<Rightarrow> cooldown_policy \<Rightarrow> rat \<Rightarrow> rat \<Rightarrow> 's world \<Rightarrow> string \<Rightarrow> pydict \<Rightarrow> string \<Rightarrow> int option \<Rightarrow> rat option
   \<Rightarrow> string option \<Rightarrow> pydict \<Rightarrow> int \<Rightarrow> bool \<Rightarrow> bool \<Rightarrow> pydict option result \<times> 's world" where
  "report_plain ops pol u now w account_id meta error status_code cooldown model headers streak kicked soft_blocked =
     (let cd = (case cooldown of
            Some c \<Rightarrow> c
          | None \<Rightarrow> (if kicked then 5
                     else compute_cooldown_seconds pol u status_code error streak headers soft_blocked));
          stack = stack_status_entry meta (fail_entry now error status_code model) STACK_ENTRIES;
          new_count = length stack;
          until = fail_until now error cd new_count;
          w1 = snd (w_patch ops now w account_id (fail_patch now error status_code model stack until))
      in (case w_touch ops now
             (touch_fail (err_store error) until streak status_code (of_nat new_count) False) w1 account_id of
            None \<Rightarrow> (Raises, w1)
          | Some (_, w2) \<Rightarrow>
              (Returns (Some
                [(''action'', PStr ''cooldown''), (''kind'', PStr (fail_kind error)),
                 (''account_id'', PStr account_id), (''cooldown_code'', PStr (fail_code error status_code)),
                 (''cooldown_count'', PInt (int new_count)), (''cooldown_until'', PFloat until),
                 (''status_code'', of_opt PInt status_code), (''kicked'', PBool kicked),
                 (''soft_blocked'', PBool soft_blocked)]), w2)))"

definition report_failure ::
  "'s store_ops \<Rightarrow> patterns \<Rightarrow> bool \<Rightarrow> cooldown_policy \<Rightarrow> rat \<Rightarrow> rat \<Rightarrow> 's world \<Rightarrow> string \<Rightarrow> string \<Rightarrow> int option
   \<Rightarrow> rat option \<Rightarrow> string option \<Rightarrow> pydict \<Rightarrow> pydict option result \<times> 's world" where
  "report_failure ops pt auto_disable pol u now w account_id error status_code cooldown model headers =
     (if account_id = [] then (Returns None, w)
      else let w0 = release_account_pick now w account_id in
        (case w_view ops now w0 account_id of
           None \<Rightarrow> (Raises, w0)
         | Some meta \<Rightarrow>
             (case int_or0 (dget meta ''consecutive_fails'') of
                None \<Rightarrow> (Raises, w0)
              | Some prev_streak \<Rightarrow>
                  (let streak = prev_streak + 1;
                       (quota, w1) = handle_upstream_error_for_quota ops pt now w0 account_id error status_code;
                       kicked = (case quota of Some d \<Rightarrow> d \<noteq> [] | None \<Rightarrow> False);
                       (action, w2) =
                         (if truthy (of_opt PStr model)
                          then handle_upstream_error_for_model ops pt auto_disable pol u now w1 account_id model
                                 error status_code
                          else (Returns None, w1));
                       soft_blocked = (case action of Returns (Some d) \<Rightarrow> d \<noteq> [] | _ \<Rightarrow> False)
                   in (case apply_free_usage_cooldown ops pt now w2 account_id error status_code model ''live'' of
                         (Raises, w3) \<Rightarrow> (Raises, w3)
                       | (Returns (Some free), w3) \<Rightarrow>
                           report_free ops pt now w3 account_id error status_code streak soft_blocked free
                       | (Returns None, w3) \<Rightarrow>
                           report_plain ops pol u now w3 account_id meta error status_code cooldown model headers
                             streak kicked soft_blocked)))))"

subsection \<open>What each transition keeps\<close>

lemma stack_cooldown_count_nonneg: "0 \<le> stack_cooldown_count now m n"
  by (simp add: stack_cooldown_count_def Let_def)

lemma truthy_take: "0 < n \<Longrightarrow> truthy (PStr (take n s)) = (s \<noteq> [])"
  by (cases n; cases s) simp_all

lemma free_usage_parsed_fields:
  assumes "free_usage_parsed pt now e st model = Some d"
  shows "is_opt_count (dget d ''tokens_actual'')" "is_opt_count (dget d ''tokens_limit'')"
  using assms parse_free_usage_fields(1,2)
  by (auto simp: free_usage_parsed_def Let_def split: option.splits if_splits)

lemma free_stack_count: "1 \<le> snd (free_stack now meta entry) \<and> snd (free_stack now meta entry) \<le> FREE_USAGE_STACK_MAX"
  by (simp add: free_stack_def Let_def FREE_USAGE_STACK_MAX_def)

lemma free_patch_fits:
  "free_usage_parsed pt now e st model = Some d \<Longrightarrow> 1 \<le> n \<Longrightarrow>
     patch_fits (free_patch pt now d st model stack n until)"
  using free_usage_parsed_fields by (simp add: free_patch_def)

lemma free_patch_count:
  "map_of (rev (free_patch pt now d st model stack n until)) ''cooldown_count'' = Some (PInt n)"
  by (simp add: free_patch_def)

lemma quota_patch_fits: "patch_fits (quota_patch now a r src)"
  by (auto simp: quota_patch_def Let_def)

lemma fail_patch_fits: "patch_fits (fail_patch now e st model stack until)"
  by (simp add: fail_patch_def)

text \<open>The world a hit leaves, and the one its patch is applied to.\<close>

lemma free_hit_world:
  "snd (free_hit ops pt now w a parsed meta st model source) =
     (let x = free_stack now meta (free_entry now parsed st model source) in
      snd (w_patch ops now (free_side_effects ops pt now w a parsed model (snd x)) a
        (free_patch pt now parsed st model (fst x) (snd x)
           (free_until now meta (free_usage_cooldown_ttl (snd x))))))"
  by (simp add: free_hit_def Let_def case_prod_unfold)

lemma free_side_effects_store:
  "w_store (free_side_effects ops pt now w a parsed model n) =
     (if truthy (free_model parsed model)
      then w_store (snd (block_model ops now w a (py_str pt (free_model parsed model)) (free_reason pt parsed)
             ''temp_usage'' (Some (soft_block_ttl n))))
      else w_store w)"
  by (simp add: free_side_effects_def Let_def)

text \<open>A hit that stacks: the entry ends the stack, and the count is the stack's length.\<close>

lemma free_stack_restack:
  assumes "restack now meta"
  shows "dict_items (fst (free_stack now meta entry)) = fst (free_stack now meta entry)"
    and "fst (free_stack now meta entry) \<noteq> []" and "last (fst (free_stack now meta entry)) = PDict entry"
    and "snd (free_stack now meta entry) = int (length (fst (free_stack now meta entry)))"
proof -
  let ?s = "stack_status_entry meta entry STACK_ENTRIES"
  have d: "x \<in> set ?s \<Longrightarrow> is_dict x" for x
    by (auto simp: stack_status_entry_def Let_def dict_items_def last_n_def split: if_splits dest: in_set_dropD)
  have l: "?s \<noteq> []" "last ?s = PDict entry"
    using stack_status_entry_last [of STACK_ENTRIES meta entry] by (simp_all add: STACK_ENTRIES_def)
  have f: "fst (free_stack now meta entry) = (if 4 < length ?s then last_n 4 ?s else ?s)"
    "snd (free_stack now meta entry) = min 4 (max 1 (int (length (if 4 < length ?s then last_n 4 ?s else ?s))))"
    using assms by (simp_all add: free_stack_def Let_def FREE_USAGE_STACK_MAX_def)
  have ne: "last_n 4 ?s \<noteq> []"
    by (metis l(1) length_0_conv length_last_n min_0R min_def zero_neq_numeral)
  show "dict_items (fst (free_stack now meta entry)) = fst (free_stack now meta entry)"
    using d by (auto simp: f dict_items_def filter_id_conv last_n_def dest: in_set_dropD)
  show ne': "fst (free_stack now meta entry) \<noteq> []" using ne l by (simp add: f)
  show "last (fst (free_stack now meta entry)) = PDict entry" using l by (simp add: f last_last_n)
  show "snd (free_stack now meta entry) = int (length (fst (free_stack now meta entry)))"
    using ne' by (cases ?s) (simp_all add: f)
qed

lemma is_space_lower_char [simp]: "is_space (lower_char c) = is_space c"
  by (auto simp: is_space_def of_char_lower_char Let_def)

lemma lower_no_space: "(\<forall>c \<in> set (lower s). \<not> is_space c) \<Longrightarrow> strip s = s"
proof -
  assume "\<forall>c \<in> set (lower s). \<not> is_space c"
  then have "\<forall>c \<in> set s. \<not> is_space c" by (simp add: lower_def)
  then have "dropWhile is_space s = s" "dropWhile is_space (rev s) = rev s"
    by (auto simp: dropWhile_eq_self_iff hd_rev)
  then show ?thesis by (simp add: strip_def lstrip_def)
qed

lemma still_active_cooling: "still_active now meta \<Longrightarrow> is_in_cooldown now meta"
proof -
  assume a: "still_active now meta"
  have "norm_text (dget meta ''pool_status'') = ''cooldown''"
    if "lower (str_or_empty (dget meta ''pool_status'')) = ''cooldown''"
    using that lower_no_space [of "str_or_empty (dget meta ''pool_status'')"]
    by (simp add: norm_text_def) (simp add: is_space_def)
  with a show ?thesis
    by (auto simp: still_active_def until_existing_def is_in_cooldown_alt until_active_def split: if_splits option.splits)
qed

lemma not_cooling_restack: "\<not> is_in_cooldown now meta \<Longrightarrow> restack now meta"
  using still_active_cooling by (auto simp: restack_def)

subsection \<open>Every transition is made of steps\<close>

lemma evolves_side_effects [evo]: "evolves ops now a w (free_side_effects ops pt now w a parsed model n)"
  by (simp add: free_side_effects_def Let_def evolves_block evolves_refl)

lemma evolves_free_hit:
  "free_usage_parsed pt now e st model = Some parsed \<Longrightarrow>
     evolves ops now a w (snd (free_hit ops pt now w a parsed meta st model source))"
  unfolding free_hit_world Let_def
  by (rule evolves_trans [OF evolves_side_effects evolves_patch]) (simp add: free_patch_fits free_stack_count)

lemma evolves_apply_free [evo]:
  "evolves ops now a w (snd (apply_free_usage_cooldown ops pt now w a e st model source))"
  by (auto simp: apply_free_usage_cooldown_def Let_def case_prod_unfold evolves_free_hit evolves_refl
      split: option.splits)

lemma evolves_patch_touch:
  "patch_fits p \<Longrightarrow> w_touch ops now ta (snd (w_patch ops now w a p)) a = Some (m, w') \<Longrightarrow> evolves ops now a w w'"
  by (rule evolves_trans [OF evolves_patch evolves_touch])

lemma evolves_soft_kick [evo]: "evolves ops now a w (snd (soft_kick ops now w a r sec))"
proof -
  have "patch_fits [(''cooldown_count'', PInt (stack_cooldown_count now meta 1)), (''pool_status'', PStr ''cooldown''),
      (''cooldown_until'', PFloat t), (''cooldown_sec'', PFloat c), (''last_error'', PStr r)]" for meta t c
    by (simp add: stack_cooldown_count_nonneg)
  note p = evolves_patch [OF this] and t = evolves_patch_touch [OF this]
  show ?thesis
    by (auto simp: soft_kick_def Let_def evolves_refl p split: option.split dest: t)
qed

lemma evolves_hard_kick [evo]: "evolves ops now a w (snd (hard_kick ops now w a r))"
  by (simp add: hard_kick_def Let_def evolves_patch)

lemma evolves_kick [evo]: "evolves ops now a w (snd (kick_from_pool ops now w a r sec))"
  by (simp add: kick_from_pool_def Let_def evolves_refl evolves_soft_kick evolves_hard_kick split: option.split)

lemma evolves_disable [evo]: "evolves ops now a w (snd (disable_for_quota ops now w a r src))"
  by (simp add: disable_for_quota_def Let_def case_prod_unfold evolves_patch quota_patch_fits)

lemma evolves_handle_quota [evo]: "evolves ops now a w (snd (handle_upstream_error_for_quota ops pt now w a e st))"
  by (simp add: handle_upstream_error_for_quota_def Let_def case_prod_unfold evolves_refl evolves_disable)

lemma evolves_temporary_block [evo]: "evolves ops now a w (snd (temporary_block ops now w a m))"
  by (simp add: temporary_block_def Let_def evolves_refl evolves_block split: option.split)

lemma evolves_account_block [evo]: "evolves ops now a w (snd (account_block ops pol now w a r))"
proof -
  define cd where "cd = (if pol_kick_cooldown pol = 0 then 600 else pol_kick_cooldown pol)"
  obtain x w1 where k: "kick_from_pool ops now w a r (Some cd) = (x, w1)" by fastforce
  then have e: "evolves ops now a w w1" using evolves_kick [of ops now a w r "Some cd"] by simp
  let ?d = "\<lambda>w. snd (disable_for_quota ops now w a r ''model_health'')"
  have d1: "evolves ops now a w (?d w1)" by (rule evolves_trans [OF e evolves_disable])
  have d2: "evolves ops now a w (?d (?d w1))" by (rule evolves_trans [OF d1 evolves_disable])
  show ?thesis
    unfolding account_block_def Let_def cd_def [symmetric] k
    using e d1 d2 by (cases x) (simp_all add: case_prod_unfold split: option.split)
qed

lemma evolves_durable_block [evo]: "evolves ops now a w (snd (durable_block ops pol u now w a m r e st))"
  by (simp add: durable_block_def Let_def case_prod_unfold evolves_trans [OF evolves_block evolves_kick])

lemma evolves_handle_model [evo]:
  "evolves ops now a w (snd (handle_upstream_error_for_model ops pt auto pol u now w a model e st))"
proof -
  obtain x w1 where f: "apply_free_usage_cooldown ops pt now w a e st model ''upstream'' = (x, w1)" by fastforce
  then have e: "evolves ops now a w w1" using evolves_apply_free [of ops now a w pt e st model "''upstream''"] by simp
  have t: "evolves ops now a w (snd (temporary_block ops now w1 a model))"
    by (rule evolves_trans [OF e evolves_temporary_block])
  show ?thesis
    unfolding handle_upstream_error_for_model_def f
    using e t by (auto simp: evolves_refl evolves_account_block evolves_durable_block split: result.split option.split)
qed

lemma evolves_report_plain [evo]:
  "evolves ops now a w (snd (report_plain ops pol u now w a meta e st cd model hs streak kicked soft))"
  by (auto simp: report_plain_def Let_def evolves_patch fail_patch_fits split: option.split
      dest: evolves_patch_touch [OF fail_patch_fits])

lemma evolves_report_free [evo]: "evolves ops now a w (snd (report_free ops pt now w a e st streak soft free))"
  by (auto simp: report_free_def Let_def evolves_refl split: option.split dest: evolves_touch)

lemma evolves_report_failure:
  "evolves ops now a w (snd (report_failure ops pt auto pol u now w a e st cd model hs))"
proof -
  let ?w0 = "release_account_pick now w a"
  obtain q w1 where q: "handle_upstream_error_for_quota ops pt now ?w0 a e st = (q, w1)" by fastforce
  then have w1: "evolves ops now a w w1" using evolves_handle_quota [of ops now a ?w0 pt e st] by simp
  obtain act w2 where m: "(if truthy (of_opt PStr model)
      then handle_upstream_error_for_model ops pt auto pol u now w1 a model e st else (Returns None, w1)) = (act, w2)"
    by fastforce
  then have w2: "evolves ops now a w w2"
    using w1 evolves_trans [OF w1 evolves_handle_model, of pt auto pol u model e st] by (auto split: if_splits)
  obtain x w3 where f: "apply_free_usage_cooldown ops pt now w2 a e st model ''live'' = (x, w3)" by fastforce
  then have w3: "evolves ops now a w w3"
    using evolves_trans [OF w2 evolves_apply_free, of pt e st model "''live''"] by simp
  have rf: "evolves ops now a w (snd (report_free ops pt now w3 a e st n soft d))" for n soft d
    by (rule evolves_trans [OF w3 evolves_report_free])
  have rp: "evolves ops now a w (snd (report_plain ops pol u now w3 a meta e st cd model hs n kicked soft))"
    for meta n kicked soft
    by (rule evolves_trans [OF w3 evolves_report_plain])
  show ?thesis
    using w3 rf rp
    by (cases x) (auto simp: report_failure_def Let_def q m f evolves_refl split: option.split)
qed

context pool_store
begin

lemma view_total: "ok (w_store w) \<Longrightarrow> good_id a \<Longrightarrow> \<exists>meta. w_view ops now w a = Some meta"
  using ok_typed typed_view [of "[(a, w_meta ops w a)]" a now]
  by (auto simp: w_view_def w_meta_def pool_get_def)

lemma view_fails: "w_view ops now w a = Some meta \<Longrightarrow> \<exists>n. dget meta ''consecutive_fails'' = PInt n"
  using pool_meta_get(6) [of now a _ meta] unfolding w_view_def by blast

lemma touch_total_w:
  assumes "ok (w_store w)" "good_id a" "counted (ta_current_meta ta)"
  shows "\<exists>m w'. w_touch ops now ta w a = Some (m, w') \<and> ok (w_store w')"
  using touch_total [OF assms, of now] touch_ok [OF assms(1,2)] by (fastforce simp: w_touch_def)

lemma touch_ok_w:
  "ok (w_store w) \<Longrightarrow> good_id a \<Longrightarrow> w_touch ops now ta w a = Some (m, w') \<Longrightarrow> ok (w_store w')"
  using touch_ok by (auto simp: w_touch_def)

lemma touch_marks_w:
  assumes "ok (w_store w)" "good_id a" "w_touch ops now ta w a = Some (m, w')" "w_meta ops w a \<noteq> []"
  shows "count_positive (w_meta ops w' a) = count_positive (w_meta ops w a)"
    and "stack_nonempty (w_meta ops w' a) = stack_nonempty (w_meta ops w a)"
  using assms touch_keeps_marks [of "w_store w" a now ta] by (auto simp: w_touch_def w_meta_def)

lemma side_effects_ok:
  "ok (w_store w) \<Longrightarrow> good_id a \<Longrightarrow> ok (w_store (free_side_effects ops pt now w a parsed model n))"
  by (rule evolves_ok [OF evolves_side_effects])

lemma free_hit_ok:
  "ok (w_store w) \<Longrightarrow> good_id a \<Longrightarrow> free_usage_parsed pt now e st model = Some parsed \<Longrightarrow>
     ok (w_store (snd (free_hit ops pt now w a parsed meta st model source)))"
  by (rule evolves_ok [OF evolves_free_hit])

lemma free_hit_counts:
  assumes "ok (w_store w)" "good_id a" "free_usage_parsed pt now e st model = Some parsed"
  shows "dget (w_meta ops (snd (free_hit ops pt now w a parsed meta st model source)) a) ''cooldown_count'' =
     PInt (snd (free_stack now meta (free_entry now parsed st model source)))"
  using assms free_stack_count
  by (simp add: free_hit_world Let_def side_effects_ok free_patch_fits store_owned_def free_patch_count
      order.trans [OF zero_le_one] patch_assigned)

lemma free_hit_record:
  fixes meta :: pydict and source :: string
  assumes "ok (w_store w)" "good_id a" "free_usage_parsed pt now e st model = Some parsed"
  defines "x \<equiv> free_stack now meta (free_entry now parsed st model source)"
  shows "dget (w_meta ops (snd (free_hit ops pt now w a parsed meta st model source)) a) ''status_stack'' = PList (fst x)"
    and "dget (w_meta ops (snd (free_hit ops pt now w a parsed meta st model source)) a) ''cooldown_until'' =
      PFloat (free_until now meta (free_usage_cooldown_ttl (snd x)))"
proof -
  have n: "1 \<le> snd x" using free_stack_count by (simp add: x_def)
  show "dget (w_meta ops (snd (free_hit ops pt now w a parsed meta st model source)) a) ''status_stack'' = PList (fst x)"
    "dget (w_meta ops (snd (free_hit ops pt now w a parsed meta st model source)) a) ''cooldown_until'' =
      PFloat (free_until now meta (free_usage_cooldown_ttl (snd x)))"
    unfolding free_hit_world Let_def x_def [symmetric] w_meta_patch
    using assms(2) free_patch_fits [OF assms(3) n] side_effects_ok [OF assms(1,2)]
    by (auto intro!: patch_assigned simp: store_owned_def, simp_all add: free_patch_def)
qed

text \<open>
  A second hit within \<open>FREE_USAGE_RESTACK_MIN_SEC\<close> of one that stacked leaves stack and count alone:
  the two calls a reported failure makes count the failure once.
\<close>

lemma second_hit_same:
  fixes source source2 :: string
  assumes ok: "ok (w_store w)" and a: "good_id a"
    and p1: "free_usage_parsed pt now e st model = Some parsed"
    and p2: "free_usage_parsed pt2 later e2 st2 model2 = Some parsed2"
    and r: "restack now meta" and t: "0 < now" "now \<le> later" "later < now + FREE_USAGE_RESTACK_MIN_SEC"
  defines "w1 \<equiv> snd (free_hit ops pt now w a parsed meta st model source)"
  assumes v: "w_view ops later w1 a = Some meta2"
  defines "w2 \<equiv> snd (free_hit ops pt2 later w1 a parsed2 meta2 st2 model2 source2)"
  shows "dget (w_meta ops w2 a) ''status_stack'' = dget (w_meta ops w1 a) ''status_stack''"
    and "dget (w_meta ops w2 a) ''cooldown_count'' = dget (w_meta ops w1 a) ''cooldown_count''"
proof -
  define x where "x = free_stack now meta (free_entry now parsed st model source)"
  note fs = free_stack_restack [OF r, of "free_entry now parsed st model source", folded x_def]
  have ok1: "ok (w_store w1)" using free_hit_ok [OF ok a p1] by (simp add: w1_def)
  have m1: "dget (w_meta ops w1 a) ''status_stack'' = PList (fst x)"
    "dget (w_meta ops w1 a) ''cooldown_count'' = PInt (snd x)"
    "dget (w_meta ops w1 a) ''cooldown_until'' = PFloat (free_until now meta (free_usage_cooldown_ttl (snd x)))"
    using free_hit_record [OF ok a p1] free_hit_counts [OF ok a p1] by (simp_all add: w1_def x_def)
  have v': "pool_meta later None a [(a, w_meta ops w1 a)] = Some meta2" using v by (simp add: w_view_def)
  have m2: "dget meta2 ''status_stack'' = PList (fst x)" "dget meta2 ''cooldown_count'' = PInt (snd x)"
    "dget meta2 ''cooldown_until'' = PFloat (free_until now meta (free_usage_cooldown_ttl (snd x)))"
    using pool_meta_get(2,3) [OF v' refl] pool_meta_count [OF v'] m1 by (auto simp: stack_view_def pool_get_def)
  have ps: "prev_stack meta2 = fst x" using m2(1) fs(1) by (simp add: prev_stack_def)
  have pc: "prev_count meta2 = snd x" using m2(2) fs(2,4) by (simp add: prev_count_def ps)
  have "now + PROBE_HOLD_COOLDOWN_SEC \<le> free_until now meta (free_usage_cooldown_ttl (snd x))"
    by (auto simp: free_until_def PROBE_ONLY_COOLDOWN_RECOVERY_def Let_def split: option.splits)
  then have act: "still_active later meta2"
    using t m2(3) by (simp add: still_active_def until_existing_def PROBE_HOLD_COOLDOWN_SEC_def FREE_USAGE_RESTACK_MIN_SEC_def)
  have "last_hit_at meta2 = now"
    using t(1) fs(2,3) by (simp add: last_hit_at_def ps free_entry_def)
  with act t(3) have "\<not> restack later meta2" by (simp add: restack_def)
  moreover have "1 \<le> snd x \<and> snd x \<le> FREE_USAGE_STACK_MAX" using free_stack_count by (simp add: x_def)
  ultimately have "free_stack later meta2 entry = (fst x, snd x)" for entry
    using fs(2) by (simp add: free_stack_def ps pc)
  then show "dget (w_meta ops w2 a) ''status_stack'' = dget (w_meta ops w1 a) ''status_stack''"
    "dget (w_meta ops w2 a) ''cooldown_count'' = dget (w_meta ops w1 a) ''cooldown_count''"
    using free_hit_record(1) [OF ok1 a p2] free_hit_counts [OF ok1 a p2] m1 by (simp_all add: w2_def)
qed

lemma apply_free_ok:
  "ok (w_store w) \<Longrightarrow> good_id a \<Longrightarrow>
     ok (w_store (snd (apply_free_usage_cooldown ops pt now w a e st model source)))"
  by (rule evolves_ok [OF evolves_apply_free])

text \<open>A free-usage hit puts a positive count on the record.\<close>

lemma apply_free_counts:
  assumes "ok (w_store w)" "good_id a"
    and "apply_free_usage_cooldown ops pt now w a e st model source = (Returns (Some d), w')"
  shows "count_positive (w_meta ops w' a)"
proof -
  obtain parsed meta where p: "free_usage_parsed pt now e st model = Some parsed"
    and w': "w' = snd (free_hit ops pt now w a parsed meta st model source)"
    using assms(3) by (auto simp: apply_free_usage_cooldown_def Let_def case_prod_unfold split: option.splits if_splits)
  show ?thesis
    using free_hit_counts [OF assms(1,2) p, of meta source]
      free_stack_count [of now meta "free_entry now parsed st model source"]
    by (simp add: w' count_positive_def)
qed

lemma view_count:
  assumes "ok (w_store w)" "good_id a" "w_view ops now w a = Some meta"
  shows "\<exists>n. int_or0 (dget meta ''cooldown_count'') = Some n \<and> 0 \<le> n"
proof -
  have t: "typed (w_meta ops w a)" using ok_typed assms by (simp add: w_meta_def)
  obtain n where n: "int_or0 (dget (w_meta ops w a) ''cooldown_count'') = Some n" "dget meta ''cooldown_count'' = PInt n"
    using pool_meta_count assms(3) by (fastforce simp: w_view_def pool_get_def)
  have "0 \<le> n"
    using typedD [OF t, of "''cooldown_count''"] n(1) by (cases "dget (w_meta ops w a) ''cooldown_count''") auto
  with n(2) show ?thesis by simp
qed

lemma patch_count:
  assumes "ok (w_store w)" "good_id a" "patch_fits p" "map_of (rev p) ''cooldown_count'' = Some (PInt n)" "1 \<le> n"
  shows "count_positive (w_meta ops (snd (w_patch ops now w a p)) a)"
  using assms by (simp add: count_positive_def patch_assigned store_owned_def)

text \<open>A patch with a positive count, then the count of the request: the account is sidelined for good.\<close>

lemma patch_touch_counts:
  assumes "ok (w_store w)" "good_id a" "patch_fits p" "map_of (rev p) ''cooldown_count'' = Some (PInt n)" "1 \<le> n"
    and "ta_current_meta ta = []"
  shows "\<exists>m w'. w_touch ops now ta (snd (w_patch ops now w a p)) a = Some (m, w') \<and> ok (w_store w') \<and>
    count_positive (w_meta ops w' a)"
proof -
  let ?w1 = "snd (w_patch ops now w a p)"
  have ok1: "ok (w_store ?w1)" using assms by (simp add: patch_ok)
  obtain m w' where t: "w_touch ops now ta ?w1 a = Some (m, w')" "ok (w_store w')"
    using touch_total_w [OF ok1 assms(2), of ta now] assms(6) by (auto simp: counted_def)
  have c: "count_positive (w_meta ops ?w1 a)" using assms by (intro patch_count)
  then have "w_meta ops ?w1 a \<noteq> []" by (auto simp: count_positive_def)
  then have "count_positive (w_meta ops w' a)" using touch_marks_w(1) [OF ok1 assms(2) t(1)] c by simp
  with t show ?thesis by blast
qed

lemma soft_kick_total:
  assumes "ok (w_store w)" "good_id a"
  shows "\<exists>d w'. soft_kick ops now w a r sec = (Returns (Some d), w') \<and> ok (w_store w') \<and>
    count_positive (w_meta ops w' a)"
proof -
  obtain meta where v: "w_view ops now w a = Some meta" using view_total [OF assms] by blast
  obtain f where f: "dget meta ''consecutive_fails'' = PInt f" using view_fails [OF v] by blast
  let ?n = "stack_cooldown_count now meta 1"
  define until where "until = (if PROBE_ONLY_COOLDOWN_RECOVERY then now + PROBE_HOLD_COOLDOWN_SEC
    else now + max sec 60 * of_int (max 1 ?n))"
  define p where "p = [(''cooldown_count'', PInt ?n), (''pool_status'', PStr ''cooldown''),
    (''cooldown_until'', PFloat until), (''cooldown_sec'', PFloat (of_int ?n)), (''last_error'', PStr r)]"
  define ta where "ta = touch_fail r until (max 1 f) None (of_int ?n) False"
  have n: "1 \<le> ?n" using view_count [OF assms v] by (intro stack_cooldown_count_pos) auto
  have "\<exists>m w'. w_touch ops now ta (snd (w_patch ops now w a p)) a = Some (m, w') \<and> ok (w_store w') \<and>
    count_positive (w_meta ops w' a)"
    using n by (intro patch_touch_counts [OF assms, of p ?n]) (simp_all add: p_def ta_def touch_fail_def)
  then show ?thesis
    using v f by (auto simp: soft_kick_def Let_def until_def [symmetric] p_def [symmetric] ta_def [symmetric])
qed

subsection \<open>A reported failure\<close>

lemma report_plain_total:
  assumes "ok (w_store w)" "good_id a"
  shows "\<exists>d w'. report_plain ops pol u now w a meta e st cd model hs streak kicked soft = (Returns (Some d), w') \<and>
    ok (w_store w') \<and> count_positive (w_meta ops w' a)"
proof -
  define stack where "stack = stack_status_entry meta (fail_entry now e st model) STACK_ENTRIES"
  define until where "until = fail_until now e (case cd of Some c \<Rightarrow> c
    | None \<Rightarrow> (if kicked then 5 else compute_cooldown_seconds pol u st e streak hs soft)) (length stack)"
  define p where "p = fail_patch now e st model stack until"
  define ta where "ta = touch_fail (err_store e) until streak st (of_nat (length stack)) False"
  have "stack \<noteq> []" using stack_status_entry_last by (simp add: stack_def STACK_ENTRIES_def)
  then have "1 \<le> int (length stack)" by (cases stack) simp_all
  then have "\<exists>m w'. w_touch ops now ta (snd (w_patch ops now w a p)) a = Some (m, w') \<and> ok (w_store w') \<and>
    count_positive (w_meta ops w' a)"
    by (intro patch_touch_counts [OF assms, of p "int (length stack)"])
      (simp_all add: p_def ta_def touch_fail_def fail_patch_fits, simp_all add: fail_patch_def)
  then show ?thesis
    by (auto simp: report_plain_def Let_def stack_def [symmetric] until_def [symmetric] p_def [symmetric]
        ta_def [symmetric])
qed

lemma report_free_total:
  assumes "ok (w_store w)" "good_id a" "count_positive (w_meta ops w a)"
  shows "\<exists>d w'. report_free ops pt now w a e st streak soft free = (Returns (Some d), w') \<and>
    ok (w_store w') \<and> count_positive (w_meta ops w' a)"
proof -
  define ta where "ta = touch_fail (take 300 (py_str pt (py_or (dget free ''cooldown_reason'') (PStr e))))
    (if dget free ''cooldown_until'' = PNone then now + 600
     else (case py_float (dget free ''cooldown_until'') of Some u \<Rightarrow> u | None \<Rightarrow> now + 600))
    streak st (case float_or0 (dget free ''cooldown_count'') of Some n \<Rightarrow> (if n = 0 then 1 else n) | None \<Rightarrow> 1) True"
  obtain m w' where t: "w_touch ops now ta w a = Some (m, w')" "ok (w_store w')"
    using touch_total_w [OF assms(1,2), of ta now] by (auto simp: ta_def touch_fail_def counted_def)
  have "w_meta ops w a \<noteq> []" using assms(3) by (auto simp: count_positive_def)
  then have "count_positive (w_meta ops w' a)" using touch_marks_w(1) [OF assms(1,2) t(1)] assms(3) by simp
  with t show ?thesis by (auto simp: report_free_def Let_def ta_def [symmetric])
qed

lemma apply_free_returns:
  assumes "ok (w_store w)" "good_id a"
  shows "\<exists>r w'. apply_free_usage_cooldown ops pt now w a e st model source = (Returns r, w') \<and> ok (w_store w')"
  using view_total [OF assms, of now] apply_free_ok [OF assms, of pt now e st model source]
  by (auto simp: apply_free_usage_cooldown_def Let_def case_prod_unfold split: option.splits)

text \<open>
  Whatever the error, a reported failure of a known account returns, keeps the invariant and leaves a
  positive count on the record.
\<close>

lemma report_failure_total:
  assumes "ok (w_store w)" "good_id a"
  shows "\<exists>d w'. report_failure ops pt auto pol u now w a e st cd model hs = (Returns (Some d), w') \<and>
    ok (w_store w') \<and> count_positive (w_meta ops w' a)"
proof -
  let ?w0 = "release_account_pick now w a"
  have ok0: "ok (w_store ?w0)" using assms by simp
  obtain meta where v: "w_view ops now ?w0 a = Some meta" using view_total [OF ok0 assms(2)] by blast
  obtain f where f: "dget meta ''consecutive_fails'' = PInt f" using view_fails [OF v] by blast
  obtain q w1 where q: "handle_upstream_error_for_quota ops pt now ?w0 a e st = (q, w1)" by fastforce
  have ok1: "ok (w_store w1)" using evolves_ok [OF evolves_handle_quota ok0 assms(2)] q by (metis snd_conv)
  obtain act w2 where m: "(if truthy (of_opt PStr model)
      then handle_upstream_error_for_model ops pt auto pol u now w1 a model e st else (Returns None, w1)) = (act, w2)"
    by fastforce
  have ok2: "ok (w_store w2)"
    using evolves_ok [OF evolves_handle_model ok1 assms(2)] ok1 m by (metis snd_conv)
  obtain r w3 where fr: "apply_free_usage_cooldown ops pt now w2 a e st model ''live'' = (Returns r, w3)" "ok (w_store w3)"
    using apply_free_returns [OF ok2 assms(2)] by blast
  have a: "a \<noteq> []" using assms(2) by (simp add: good_id_def)
  show ?thesis
  proof (cases r)
    case None
    show ?thesis
      using a v f q m fr report_plain_total [OF fr(2) assms(2)]
      by (simp add: report_failure_def Let_def None)
  next
    case (Some d)
    have "count_positive (w_meta ops w3 a)" using apply_free_counts [OF ok2 assms(2)] fr(1) Some by blast
    from report_free_total [OF fr(2) assms(2) this] show ?thesis
      using a v f q m fr by (simp add: report_failure_def Let_def Some)
  qed
qed

end

end
