(* ===== verification/Pool_Recovery.thy ===== *)
theory Pool_Recovery
  imports Pool_Failure
begin

text \<open>
  How an account comes back, or is put aside by hand, by billing or by token renewal: the remaining
  transitions of \<open>grok2api/pool/account_pool.py\<close> over the store contract.

  The return value of \<open>set_account_enabled\<close> is a row of the admin listing and is not modelled; a pool
  snapshot \<open>get_account_pool_state()\<close> is the argument \<open>state\<close>.
\<close>

subsection \<open>Clearing a cooldown\<close>

definition cleared_fields :: pydict where
  "cleared_fields =
     [(''cooldown_count'', PInt 0), (''status_stack'', PList []), (''cooldown_until'', PNone),
      (''cooldown_sec'', PNone), (''cooldown_reason'', PNone), (''cooldown_code'', PNone),
      (''cooldown_model'', PNone), (''cooldown_tokens_actual'', PNone), (''cooldown_tokens_limit'', PNone),
      (''cooldown_detail'', PNone), (''consecutive_fails'', PInt 0)]"

definition clear_account_cooldown :: "'s store_ops \<Rightarrow> rat \<Rightarrow> 's world \<Rightarrow> string \<Rightarrow> pydict option \<times> 's world" where
  "clear_account_cooldown ops now w account_id =
     (if account_id = [] then (None, w)
      else let (saved, w') = w_patch ops now w account_id
                 (cleared_fields @ [(''probe_fail_streak'', PInt 0), (''last_error'', PNone),
                    (''last_probe_status'', PStr ''normal''), (''pool_status'', PStr ''normal'')])
           in (Some (dupdate saved
                 [(''id'', PStr account_id), (''in_cooldown'', PBool False),
                  (''cooldown_remaining_sec'', PFloat 0), (''cooldown_count'', PInt 0),
                  (''pool_status'', py_or (dget saved ''pool_status'') (PStr ''normal'')),
                  (''consecutive_fails'', PInt 0)]), w'))"

text \<open>The wall-clock recoveries, switched off by \<open>PROBE_ONLY_COOLDOWN_RECOVERY\<close>.\<close>

definition maybe_expire_cooldown ::
  "'s store_ops \<Rightarrow> rat \<Rightarrow> 's world \<Rightarrow> string \<Rightarrow> pydict option \<Rightarrow> pydict option \<times> 's world" where
  "maybe_expire_cooldown ops now w account_id meta0 =
     (if PROBE_ONLY_COOLDOWN_RECOVERY \<or> account_id = [] then (None, w)
      else let meta = (case meta0 of None \<Rightarrow> w_meta ops w account_id | Some m \<Rightarrow> m) in
        (if dget meta ''cooldown_until'' = PNone then (None, w)
         else (case py_float (dget meta ''cooldown_until'') of
             None \<Rightarrow> (None, w)
           | Some until \<Rightarrow>
               (if now < until then (None, w)
                else let (saved, w') = w_patch ops now w account_id
                           (cleared_fields @ [(''pool_status'', PStr ''normal''), (''last_probe_status'', PStr ''normal'')])
                     in (Some (dupdate saved
                           [(''id'', PStr account_id), (''in_cooldown'', PBool False),
                            (''pool_status'', PStr ''normal''), (''cooldown_count'', PInt 0),
                            (''expired_cooldown'', PBool True)]), w')))))"

definition prune_one_cooldown ::
  "'s store_ops \<Rightarrow> rat \<Rightarrow> pool \<Rightarrow> string \<Rightarrow> nat \<times> 's world \<Rightarrow> nat \<times> 's world" where
  "prune_one_cooldown ops now state aid acc =
     (let (cleared, w) = acc; until = dget (pool_get state aid) ''cooldown_until'' in
      if aid = [] \<or> until = PNone then acc
      else (case py_float until of
          None \<Rightarrow> acc
        | Some u \<Rightarrow>
            (if now < u then acc
             else (cleared + 1, snd (w_patch ops now w aid
               [(''cooldown_until'', PNone), (''cooldown_sec'', PNone), (''pool_status'', PStr ''normal'')])))))"

definition prune_expired_cooldowns ::
  "'s store_ops \<Rightarrow> rat \<Rightarrow> pool \<Rightarrow> 's world \<Rightarrow> string option \<Rightarrow> nat \<times> 's world" where
  "prune_expired_cooldowns ops now state w account_id =
     (if PROBE_ONLY_COOLDOWN_RECOVERY then (0, w)
      else let targets = (case account_id of Some a \<Rightarrow> (if a = [] then map fst state else [a]) | None \<Rightarrow> map fst state)
           in fold (prune_one_cooldown ops now state) targets (0, w))"

text \<open>\<open>due\<close> is what the query of accounts with an elapsed marker returned.\<close>

definition expire_due_cooldowns ::
  "'s store_ops \<Rightarrow> rat \<Rightarrow> 's world \<Rightarrow> string list \<Rightarrow> nat \<times> 's world" where
  "expire_due_cooldowns ops now w due =
     (if PROBE_ONLY_COOLDOWN_RECOVERY then (0, w)
      else fold (\<lambda>aid (cleared, w).
             (case maybe_expire_cooldown ops now w aid None of
                (Some _, w') \<Rightarrow> (cleared + 1, w') | (None, w') \<Rightarrow> (cleared, w'))) due (0, w))"

subsection \<open>Model blocks that ran out\<close>

definition prune_one_block ::
  "'s store_ops \<Rightarrow> rat \<Rightarrow> pool \<Rightarrow> string \<Rightarrow> nat \<times> 's world \<Rightarrow> nat \<times> 's world" where
  "prune_one_block ops now state aid acc =
     (let (removed, w) = acc; blocked = meta_blocked (pool_get state aid); rest = live_blocks now blocked in
      if aid = [] \<or> blocked = [] then acc
      else if length rest < length blocked
      then (removed + (length blocked - length rest),
            snd (w_patch ops now w aid [(''blocked_models'', if rest = [] then PNone else PDict rest)]))
      else acc)"

definition prune_expired_model_blocks ::
  "'s store_ops \<Rightarrow> rat \<Rightarrow> pool \<Rightarrow> 's world \<Rightarrow> string option \<Rightarrow> nat \<times> 's world" where
  "prune_expired_model_blocks ops now state w account_id =
     (let targets = (case account_id of Some a \<Rightarrow> (if a = [] then map fst state else [a]) | None \<Rightarrow> map fst state)
      in fold (prune_one_block ops now state) targets (0, w))"

subsection \<open>Enabling, disabling and billing\<close>

definition enable_patch :: pydict where
  "enable_patch =
     [(''enabled'', PBool True), (''disabled_for_quota'', PNone), (''disabled_reason'', PNone),
      (''disabled_source'', PNone), (''quota_disabled_at'', PNone), (''quota_source'', PNone),
      (''blocked_models'', PNone), (''cooldown_until'', PNone), (''cooldown_sec'', PNone),
      (''consecutive_fails'', PNone), (''last_error'', PNone), (''last_status_code'', PNone),
      (''pool_status'', PStr ''normal'')]"

definition set_account_enabled :: "'s store_ops \<Rightarrow> rat \<Rightarrow> 's world \<Rightarrow> string \<Rightarrow> bool \<Rightarrow> 's world" where
  "set_account_enabled ops now w account_id enabled =
     (if enabled then snd (w_patch ops now w account_id enable_patch)
      else snd (w_patch ops now (snd (clear_affinity_for_account w account_id)) account_id
             [(''enabled'', PBool False), (''pool_status'', PStr ''disabled'')]))"

definition default_reenable_reason :: string where
  "default_reenable_reason = ''quota recovered''"

definition reenable_patch :: pydict where
  "reenable_patch =
     [(''enabled'', PBool True), (''disabled_for_quota'', PBool False), (''disabled_reason'', PNone),
      (''disabled_source'', PNone), (''quota_disabled_at'', PNone), (''quota_source'', PNone),
      (''pool_status'', PStr ''normal'')]"

definition reenable_for_quota ::
  "'s store_ops \<Rightarrow> rat \<Rightarrow> 's world \<Rightarrow> string \<Rightarrow> string \<Rightarrow> string \<Rightarrow> pydict option \<times> 's world" where
  "reenable_for_quota ops now w account_id reason source =
     (if account_id = [] then (None, w)
      else let reason_s = take 300 (if reason = [] then default_reenable_reason else reason);
               (saved, w') = w_patch ops now w account_id (reenable_patch @ [(''last_error'', PStr reason_s)])
           in (Some (dupdate saved
                 [(''id'', PStr account_id), (''enabled'', PBool True), (''disabled_for_quota'', PBool False),
                  (''pool_status'', PStr ''normal''), (''reenabled'', PBool True), (''reason'', PStr reason_s),
                  (''source'', PStr source)]), w'))"

definition quota_sources :: "string list" where
  "quota_sources = [''billing'', ''upstream_error'', ''model_health'', ''quota'']"

definition quota_snapshot :: "rat \<Rightarrow> string \<Rightarrow> pydict \<Rightarrow> pydict" where
  "quota_snapshot now account_id q =
     (let display = dict_of (dget q ''display'');
          summary = py_or (dget display ''summary'') (dget q ''summary'')
      in filter (\<lambda>(k, v). v \<noteq> PNone)
        [(''ok'', PBool (truthy (dget_or q ''ok'' (PBool True)))),
         (''fetched_at'', py_or (dget q ''fetched_at'') (PFloat now)),
         (''account_id'', PStr account_id),
         (''email'', dget q ''email''), (''user_id'', dget q ''user_id''),
         (''monthly_limit'', dget q ''monthly_limit''), (''used'', dget q ''used''),
         (''remaining'', dget q ''remaining''), (''usage_percent'', dget q ''usage_percent''),
         (''unlimited_or_free'', dget q ''unlimited_or_free''),
         (''exhausted'', PBool (truthy (dget q ''exhausted''))),
         (''exhaust_reason'', dget q ''exhaust_reason''),
         (''auto_disabled'', PBool (truthy (dget q ''auto_disabled''))),
         (''summary'', summary),
         (''billing_period_end'', dget q ''billing_period_end''),
         (''error'', dget q ''error''), (''status_code'', dget q ''status_code''),
         (''display'', if display \<noteq> [] \<or> truthy (dget q ''summary'')
                       then PDict [(''summary'', summary)] else PNone),
         (''source'', PStr ''cached'')])"

text \<open>\<open>v[:300]\<close> on the values a slice is defined for.\<close>

fun slice300 :: "pyval \<Rightarrow> pyval option" where
  "slice300 (PStr s) = Some (PStr (take 300 s))"
| "slice300 (PList xs) = Some (PList (take 300 xs))"
| "slice300 v = None"

definition quota_recovers :: "pydict \<Rightarrow> bool" where
  "quota_recovers cur =
     (let src = str_or_empty (py_or (dget cur ''quota_source'') (dget cur ''disabled_source''));
          was_quota = (truthy (dget cur ''disabled_for_quota'') \<or> src \<in> set quota_sources)
      in was_quota \<or>
         (dget cur ''enabled'' = PBool False \<and> contains (str_or_empty (dget cur ''disabled_reason'')) ''quota''))"

definition save_quota_snapshot ::
  "'s store_ops \<Rightarrow> rat \<Rightarrow> 's world \<Rightarrow> string \<Rightarrow> pydict \<Rightarrow> unit result \<times> 's world" where
  "save_quota_snapshot ops now w account_id q =
     (if account_id = [] then (Returns (), w)
      else let snap = quota_snapshot now account_id q; base = [(''last_quota'', PDict snap)] in
        (if truthy (dget snap ''exhausted'') \<or> truthy (dget snap ''auto_disabled'') then
           (case slice300 (py_or (py_or (dget snap ''exhaust_reason'') (dget snap ''summary''))
                     (PStr default_quota_reason)) of
              None \<Rightarrow> (Raises, w)
            | Some reason \<Rightarrow>
                (Returns (), snd (w_patch ops now w account_id
                  (base @ [(''disabled_for_quota'', PBool True), (''enabled'', PBool False),
                     (''disabled_reason'', reason),
                     (''quota_disabled_at'', py_or (dget snap ''fetched_at'') (PFloat now)),
                     (''quota_source'', PStr ''billing''), (''pool_status'', PStr ''quota_disabled'')]))))
         else if truthy (dget snap ''ok'') \<and> quota_recovers (w_meta ops w account_id) then
           (Returns (), snd (w_patch ops now w account_id
             (base @ [(''disabled_for_quota'', PBool False), (''enabled'', PBool True),
                (''disabled_reason'', PNone), (''disabled_source'', PNone), (''quota_disabled_at'', PNone),
                (''quota_source'', PNone), (''pool_status'', PStr ''normal'')])))
         else (Returns (), snd (w_patch ops now w account_id base))))"

subsection \<open>Token renewal\<close>

definition mark_account_expired ::
  "'s store_ops \<Rightarrow> rat \<Rightarrow> 's world \<Rightarrow> string \<Rightarrow> string \<Rightarrow> pydict option \<times> 's world" where
  "mark_account_expired ops now w account_id reason =
     (if account_id = [] then (None, w)
      else let cur = w_meta ops w account_id;
               (saved, w') = w_patch ops now w account_id
                 [(''pool_status'', PStr ''expired''),
                  (''token_expired_at'', py_or (dget cur ''token_expired_at'') (PFloat now)),
                  (''token_expired_reason'', PStr reason),
                  (''last_renew_status'', py_or (dget cur ''last_renew_status'') (PStr ''expired'')),
                  (''last_error'', PStr reason)]
           in (Some saved, w'))"

definition renewed_fields :: "rat \<Rightarrow> string \<Rightarrow> pydict" where
  "renewed_fields now source =
     [(''pool_status'', PStr ''normal''), (''token_expired_at'', PNone), (''token_expired_reason'', PNone),
      (''renew_fail_count'', PInt 0), (''last_renew_fail_at'', PNone), (''last_renew_error'', PNone),
      (''last_renew_status'', PStr ''ok''), (''last_renew_source'', PStr source),
      (''last_renew_ok_at'', PFloat now), (''sso_reauth_attempted_at'', PNone),
      (''sso_reauth_failed_at'', PNone), (''sso_reauth_error'', PNone), (''sso_reauth_next_at'', PNone),
      (''last_error'', PNone)]"

definition clear_account_expired ::
  "'s store_ops \<Rightarrow> rat \<Rightarrow> 's world \<Rightarrow> string \<Rightarrow> string \<Rightarrow> pydict option \<times> 's world" where
  "clear_account_expired ops now w account_id source =
     (if account_id = [] then (None, w)
      else let cur = w_meta ops w account_id;
               hard_removed = (str_or_empty (dget cur ''disabled_source'') \<in> {''renew_fail_no_sso'', ''kick''} \<or>
                 str_or_empty (dget cur ''last_renew_status'') = ''no_sso_removed'');
               extra = (if truthy (dget cur ''disabled_for_quota'') then []
                 else (''enabled'', PBool True) #
                   (if hard_removed then [(''disabled_reason'', PNone), (''disabled_source'', PNone)] else []));
               (saved, w') = w_patch ops now w account_id (renewed_fields now source @ extra)
           in (Some saved, w'))"

definition record_renew_success :: "'s store_ops \<Rightarrow> rat \<Rightarrow> 's world \<Rightarrow> string \<Rightarrow> string \<Rightarrow> 's world" where
  "record_renew_success ops now w account_id source =
     snd (clear_account_expired ops now w account_id source)"

definition renew_failure_patch :: "rat \<Rightarrow> pydict \<Rightarrow> int \<Rightarrow> string \<Rightarrow> string \<Rightarrow> pydict" where
  "renew_failure_patch now cur n msg source =
     [(''pool_status'', PStr ''expired''),
      (''token_expired_at'', py_or (dget cur ''token_expired_at'') (PFloat now)),
      (''token_expired_reason'', py_or (dget cur ''token_expired_reason'') (PStr ''renew_failed'')),
      (''renew_fail_count'', PInt n), (''last_renew_fail_at'', PFloat now), (''last_renew_error'', PStr msg),
      (''last_renew_status'', PStr ''failed''), (''last_renew_source'', PStr source), (''last_error'', PStr msg)]"

definition record_renew_failure ::
  "'s store_ops \<Rightarrow> rat \<Rightarrow> 's world \<Rightarrow> string \<Rightarrow> string \<Rightarrow> string \<Rightarrow> int \<times> 's world" where
  "record_renew_failure ops now w account_id error source =
     (if account_id = [] then (0, w)
      else let cur = w_meta ops w account_id;
               n = (case int_or0 (dget cur ''renew_fail_count'') of Some n \<Rightarrow> n + 1 | None \<Rightarrow> 1);
               msg = take 300 (if error = [] then ''renew_failed'' else error)
           in (n, snd (w_patch ops now w account_id (renew_failure_patch now cur n msg source))))"

definition mark_sso_reauth_attempt :: "'s store_ops \<Rightarrow> rat \<Rightarrow> 's world \<Rightarrow> string \<Rightarrow> 's world" where
  "mark_sso_reauth_attempt ops now w account_id =
     (if account_id = [] then w
      else snd (w_patch ops now w account_id
        [(''sso_reauth_attempted_at'', PFloat now), (''last_renew_status'', PStr ''sso_attempt''),
         (''last_renew_source'', PStr ''sso'')]))"

definition mark_sso_reauth_failure ::
  "'s store_ops \<Rightarrow> rat \<Rightarrow> 's world \<Rightarrow> string \<Rightarrow> string \<Rightarrow> rat \<Rightarrow> 's world" where
  "mark_sso_reauth_failure ops now w account_id error cooldown_sec =
     (if account_id = [] then w
      else let msg = take 300 (if error = [] then ''sso_reauth_failed'' else error) in
        snd (w_patch ops now w account_id
          [(''pool_status'', PStr ''expired''), (''sso_reauth_failed_at'', PFloat now),
           (''sso_reauth_error'', PStr msg),
           (''sso_reauth_next_at'', PFloat (now + max 60 (if cooldown_sec = 0 then 3600 else cooldown_sec))),
           (''last_renew_status'', PStr ''sso_failed''), (''last_renew_source'', PStr ''sso''),
           (''last_error'', PStr msg)]))"

text \<open>\<open>remove_from_pool_after_renew_failure\<close> with \<open>hard_delete=False\<close>: the credentials stay.\<close>

definition soft_remove_after_renew_failure ::
  "'s store_ops \<Rightarrow> rat \<Rightarrow> 's world \<Rightarrow> string \<Rightarrow> string \<Rightarrow> pydict option \<times> 's world" where
  "soft_remove_after_renew_failure ops now w account_id reason =
     (if account_id = [] then (None, w)
      else let msg = take 300 (if reason = [] then ''renewal failed twice without SSO, account deleted'' else reason);
               (saved, w') = w_patch ops now w account_id
                 [(''enabled'', PBool False), (''disabled_for_quota'', PBool False),
                  (''pool_status'', PStr ''expired''), (''token_expired_at'', PFloat now),
                  (''token_expired_reason'', PStr msg), (''last_renew_status'', PStr ''no_sso_removed''),
                  (''last_renew_error'', PStr msg), (''last_error'', PStr msg), (''disabled_reason'', PStr msg),
                  (''disabled_source'', PStr ''renew_fail_no_sso''), (''cooldown_until'', PNone),
                  (''cooldown_count'', PInt 0)]
           in (Some saved, w'))"

subsection \<open>Probe outcomes\<close>

text \<open>The soft block of the probed model that a successful probe drops.\<close>

definition probe_unblocks :: "pydict \<Rightarrow> string option \<Rightarrow> pydict" where
  "probe_unblocks meta model =
     (case model of
        None \<Rightarrow> []
      | Some m \<Rightarrow>
          (if m = [] then []
           else let blocked = meta_blocked meta in
             (case dget blocked m of
                PDict entry \<Rightarrow>
                  (if dget entry ''until'' \<noteq> PNone \<or>
                      str_or_empty (dget entry ''source'') \<in> {''temp_usage'', ''soft'', ''temporary'', ''probe'', []}
                   then [(''blocked_models'', if dpop blocked m = [] then PNone else PDict (dpop blocked m))]
                   else [])
              | _ \<Rightarrow> [])))"

definition probe_reason_prefixes :: "string list" where
  "probe_reason_prefixes =
     [''model probe failed'', ''model unavailable'', ''probe failed in a row'', ''temporary quota exhausted'']"

definition probe_reenables :: "pydict \<Rightarrow> bool" where
  "probe_reenables meta =
     (dget meta ''enabled'' = PBool False \<and> \<not> truthy (dget meta ''disabled_for_quota'') \<and>
      str_or_empty (py_or (dget meta ''quota_source'') (dget meta ''disabled_source''))
        \<in> {[], ''model_health'', ''probe'', ''probe_kick'', ''None''} \<and>
      (str_or_empty (py_or (dget meta ''disabled_source'') (dget meta ''quota_source''))
         \<in> {''model_health'', ''probe'', ''probe_kick''} \<or>
       (\<exists>p \<in> set probe_reason_prefixes. starts_with (str_or_empty (dget meta ''disabled_reason'')) p)))"

definition probe_ok_patch :: "rat \<Rightarrow> pydict \<Rightarrow> string option \<Rightarrow> pydict" where
  "probe_ok_patch now meta model =
     [(''probe_fail_streak'', PInt 0), (''last_probe_ok_at'', PFloat now),
      (''last_probe_status'', PStr ''normal'')]
     @ cleared_fields @ [(''last_error'', PNone), (''pool_status'', PStr ''normal'')]
     @ probe_unblocks meta model
     @ (if probe_reenables meta
        then [(''enabled'', PBool True), (''disabled_reason'', PNone), (''disabled_source'', PNone)] else [])"

definition probe_success ::
  "'s store_ops \<Rightarrow> rat \<Rightarrow> 's world \<Rightarrow> string \<Rightarrow> pydict \<Rightarrow> string option \<Rightarrow> pydict \<times> 's world" where
  "probe_success ops now w account_id meta model =
     (let enabled = (probe_reenables meta \<or> dget_or meta ''enabled'' (PBool True) \<noteq> PBool False);
          w' = snd (w_patch ops now w account_id (probe_ok_patch now meta model))
      in ([(''id'', PStr account_id), (''probe_fail_streak'', PInt 0), (''action'', PStr ''recovered''),
           (''enabled'', PBool enabled), (''cleared_cooldown'', PBool True),
           (''was_cooling'', PBool (is_in_cooldown now meta)),
           (''cleared_cooldown_count'', PInt (prev_count meta)),
           (''cooldown_count'', PInt 0), (''pool_status'', PStr ''normal'')], w'))"

definition probe_fail_reason :: "int \<Rightarrow> string option \<Rightarrow> int option \<Rightarrow> string \<Rightarrow> string" where
  "probe_fail_reason streak model status_code error =
     take 300 (''probe failed in a row x'' @ str_int streak
       @ (case model of Some m \<Rightarrow> (if m = [] then [] else '' model='' @ m) | None \<Rightarrow> [])
       @ (case status_code of Some c \<Rightarrow> (if c = 0 then [] else '' HTTP '' @ str_int c) | None \<Rightarrow> [])
       @ (if error = [] then [] else '': '' @ take 120 error))"

definition probe_entry :: "rat \<Rightarrow> string option \<Rightarrow> string \<Rightarrow> int option \<Rightarrow> string \<Rightarrow> pydict" where
  "probe_entry now model source status_code reason =
     [(''kind'', PStr ''probe_fail''), (''code'', PStr ''probe_fail''), (''model'', of_opt PStr model),
      (''source'', PStr (if source = [] then ''probe'' else source)), (''status_code'', of_opt PInt status_code),
      (''at'', PFloat now), (''reason'', PStr reason)]"

definition probe_fail_fields :: "rat \<Rightarrow> int \<Rightarrow> string \<Rightarrow> int option \<Rightarrow> pydict" where
  "probe_fail_fields now streak reason status_code =
     [(''probe_fail_streak'', PInt streak), (''last_error'', PStr reason),
      (''last_status_code'', of_opt PInt status_code), (''last_probe_fail_at'', PFloat now),
      (''last_probe_status'', PStr ''error'')]"

definition probe_kick_fields :: "string \<Rightarrow> string option \<Rightarrow> pyval list \<Rightarrow> rat \<Rightarrow> pydict" where
  "probe_kick_fields reason model stack until =
     [(''status_stack'', PList stack), (''cooldown_count'', PInt (int (length stack))),
      (''pool_status'', PStr ''cooldown''), (''cooldown_until'', PFloat until),
      (''cooldown_sec'', PFloat (of_nat (length stack))), (''cooldown_reason'', PStr reason),
      (''cooldown_code'', PStr ''probe_fail''), (''cooldown_model'', of_opt PStr model),
      (''last_probe_status'', PStr ''cooldown'')]"

definition kick_streak :: "cooldown_policy \<Rightarrow> int" where
  "kick_streak pol =
     (if pol_kick_streak pol = 0 then PROBE_FAIL_KICK_STREAK else trunc_rat (pol_kick_streak pol))"

definition probe_failure ::
  "'s store_ops \<Rightarrow> patterns \<Rightarrow> cooldown_policy \<Rightarrow> rat \<Rightarrow> 's world \<Rightarrow> string \<Rightarrow> pydict \<Rightarrow> int \<Rightarrow> string option \<Rightarrow> string
   \<Rightarrow> int option \<Rightarrow> string \<Rightarrow> bool \<Rightarrow> pydict option result \<times> 's world" where
  "probe_failure ops pt pol now w account_id meta streak model error status_code source auto_kick =
     (case apply_free_usage_cooldown ops pt now w account_id error status_code model
             (if source = [] then ''probe'' else source) of
        (Raises, w1) \<Rightarrow> (Raises, w1)
      | (Returns (Some free), w1) \<Rightarrow>
          (Returns (Some (dset free ''probe_fail_streak'' (PInt streak))),
           snd (w_patch ops now w1 account_id
             [(''probe_fail_streak'', PInt streak), (''last_probe_fail_at'', PFloat now),
              (''last_probe_status'', PStr ''cooldown'')]))
      | (Returns None, w1) \<Rightarrow>
          (let reason = probe_fail_reason streak model status_code error;
               fields = probe_fail_fields now streak reason status_code;
               base = [(''id'', PStr account_id), (''probe_fail_streak'', PInt streak)]
           in (if auto_kick \<and> kick_streak pol \<le> streak then
                 (let stack = stack_status_entry meta (probe_entry now model source status_code reason) STACK_ENTRIES;
                      n = length stack;
                      kick_cd = (if pol_kick_cooldown pol = 0 then PROBE_KICK_COOLDOWN_SEC else pol_kick_cooldown pol);
                      until = (if PROBE_ONLY_COOLDOWN_RECOVERY then now + PROBE_HOLD_COOLDOWN_SEC
                               else now + kick_cd * of_int (max 1 (int n)))
                  in (Returns (Some (base @ [(''action'', PStr ''cooldown''), (''cooldown_count'', PInt (int n)),
                        (''status_stack_len'', PInt (int n)), (''cooldown_until'', PFloat until),
                        (''pool_status'', PStr ''cooldown'')])),
                      snd (w_patch ops now w1 account_id
                        (dupdate fields (probe_kick_fields reason model stack until)))))
               else (Returns (Some (base @ [(''action'', PStr ''recorded'')])),
                     snd (w_patch ops now w1 account_id fields)))))"

definition record_model_probe_outcome ::
  "'s store_ops \<Rightarrow> patterns \<Rightarrow> cooldown_policy \<Rightarrow> rat \<Rightarrow> 's world \<Rightarrow> string \<Rightarrow> string option \<Rightarrow> bool \<Rightarrow> string
   \<Rightarrow> int option \<Rightarrow> string \<Rightarrow> bool \<Rightarrow> pydict option result \<times> 's world" where
  "record_model_probe_outcome ops pt pol now w account_id model available error status_code source auto_kick =
     (if account_id = [] then (Returns None, w)
      else (case w_view ops now w account_id of
          None \<Rightarrow> (Raises, w)
        | Some meta \<Rightarrow>
            (if available
             then (let (out, w') = probe_success ops now w account_id meta model in (Returns (Some out), w'))
             else (case int_or0 (dget meta ''probe_fail_streak'') of
                 None \<Rightarrow> (Raises, w)
               | Some n \<Rightarrow>
                   probe_failure ops pt pol now w account_id meta (n + 1) model error status_code source auto_kick))))"

definition probe_kicked :: "pydict \<Rightarrow> bool" where
  "probe_kicked meta =
     (dget meta ''enabled'' = PBool False \<and> \<not> truthy (dget meta ''disabled_for_quota'') \<and>
      (str_or_empty (py_or (dget meta ''disabled_source'') (dget meta ''quota_source''))
         \<in> {''probe_kick'', ''model_health'', ''probe''} \<or>
       (\<exists>p \<in> {''probe failed in a row'', ''model probe failed'', ''model unavailable''}.
          starts_with (str_or_empty (dget meta ''disabled_reason'')) p)))"

definition reenable_probe_kick_accounts :: "'s store_ops \<Rightarrow> rat \<Rightarrow> pool \<Rightarrow> 's world \<Rightarrow> nat \<times> 's world" where
  "reenable_probe_kick_accounts ops now state w =
     fold (\<lambda>(aid, meta) (n, w).
       (if probe_kicked meta
        then (n + 1, snd (w_patch ops now w aid
               [(''enabled'', PBool True), (''disabled_reason'', PNone), (''disabled_source'', PNone)]))
        else (n, w))) state (0, w)"

subsection \<open>A successful request\<close>

definition touch_success :: "pydict \<Rightarrow> touch_args" where
  "touch_success meta =
     \<lparr>ta_success = True, ta_error = [], ta_cooldown_until = None, ta_clear_cooldown = False,
      ta_consecutive_fails = Some 0, ta_last_status_code = None, ta_cooldown_sec = None,
      ta_preserve_cooldown = True, ta_current_meta = meta\<rparr>"

text \<open>A block a live success lifts: one that runs out, or has a temporary source.\<close>

definition success_unblocks :: "pydict \<Rightarrow> string \<Rightarrow> bool" where
  "success_unblocks meta m =
     (is_dict (dget meta ''blocked_models'') \<and> dhas (meta_blocked meta) m \<and>
      (let entry = dict_of (dget (meta_blocked meta) m)
       in dget entry ''until'' \<noteq> PNone \<or> str_or_empty (dget entry ''source'') \<in> set temp_sources))"

definition report_success ::
  "'s store_ops \<Rightarrow> rat \<Rightarrow> 's world \<Rightarrow> string \<Rightarrow> string option \<Rightarrow> unit result \<times> 's world" where
  "report_success ops now w account_id model =
     (if account_id = [] then (Returns (), w)
      else let w0 = release_account_pick now w account_id in
        (case w_view ops now w0 account_id of
           None \<Rightarrow> (Raises, w0)
         | Some meta \<Rightarrow>
             (case w_touch ops now (touch_success meta) w0 account_id of
                None \<Rightarrow> (Raises, w0)
              | Some (saved, w1) \<Rightarrow>
                  (case pool_meta now None account_id [(account_id, saved)] of
                     None \<Rightarrow> (Raises, w1)
                   | Some meta2 \<Rightarrow>
                       (if is_in_cooldown now meta then (Returns (), w1)
                        else let w2 = (if int_or0 (dget meta2 ''probe_fail_streak'') \<notin> {None, Some 0}
                               then snd (w_patch ops now w1 account_id [(''probe_fail_streak'', PInt 0)]) else w1)
                        in (case model of
                              Some m \<Rightarrow>
                                (if m \<noteq> [] \<and> success_unblocks meta2 m
                                 then (Returns (), snd (unblock_model ops now w2 account_id (Some m)))
                                 else (Returns (), w2))
                            | None \<Rightarrow> (Returns (), w2)))))))"

subsection \<open>What each transition does to the record\<close>

lemma cleared_fields_fits [simp]: "patch_fits cleared_fields"
  by (simp add: cleared_fields_def)

lemma enable_patch_fits [simp]: "patch_fits enable_patch"
  by (simp add: enable_patch_def)

lemma probe_unblocks_fits: "patch_fits (probe_unblocks meta model)"
  by (auto simp: probe_unblocks_def Let_def split: option.splits pyval.splits)

lemma probe_ok_patch_fits [simp]: "patch_fits (probe_ok_patch now meta model)"
  by (simp add: probe_ok_patch_def probe_unblocks_fits)

lemma probe_unblocks_key: "map_of (rev (probe_unblocks meta model)) k = None" if "k \<noteq> ''blocked_models''"
  using that by (auto simp: probe_unblocks_def Let_def split: option.splits pyval.splits)

lemma probe_ok_patch_get:
  "map_of (rev (probe_ok_patch now meta model)) ''cooldown_count'' = Some (PInt 0)"
  "map_of (rev (probe_ok_patch now meta model)) ''status_stack'' = Some (PList [])"
  "map_of (rev (probe_ok_patch now meta model)) ''cooldown_until'' = Some PNone"
  by (simp_all add: probe_ok_patch_def cleared_fields_def probe_unblocks_key map_add_def)

lemma probe_fields_fits:
  "patch_fits (probe_fail_fields now n r st)" "patch_fits (probe_kick_fields r model stack until)"
  by (simp_all add: probe_fail_fields_def probe_kick_fields_def)

lemma patch_fits_dupdate: "patch_fits p \<Longrightarrow> patch_fits q \<Longrightarrow> patch_fits (dupdate p q)"
  by (induction p q rule: dupdate.induct) (auto simp: patch_fits_dset)

lemma probe_kick_count:
  "map_of (dupdate (probe_fail_fields now n r st) (probe_kick_fields r model stack until)) ''cooldown_count'' =
     Some (PInt (int (length stack)))"
  by (simp add: probe_kick_fields_def)

lemma distinct_map_of_rev: "distinct (map fst p) \<Longrightarrow> map_of p k = Some v \<Longrightarrow> map_of (rev p) k = Some v"
  by (simp add: map_of_rev_distinct)

lemma renew_failure_fits: "patch_fits (renew_failure_patch now cur n msg src)"
  by (simp add: renew_failure_patch_def)

text \<open>These transitions, too, are made of patches and counts of the one account.\<close>

lemma evolves_clear_cooldown [evo]: "evolves ops now a w (snd (clear_account_cooldown ops now w a))"
  by (simp add: clear_account_cooldown_def Let_def case_prod_unfold evolves_refl evolves_patch)

lemma evolves_probe_success [evo]: "evolves ops now a w (snd (probe_success ops now w a meta model))"
  by (simp add: probe_success_def Let_def evolves_patch)

lemma evolves_probe_failure [evo]:
  "evolves ops now a w (snd (probe_failure ops pt pol now w a meta n model e st src kick))"
proof -
  let ?src = "if src = [] then ''probe'' else src"
  obtain x w1 where f: "apply_free_usage_cooldown ops pt now w a e st model ?src = (x, w1)" by fastforce
  then have e: "evolves ops now a w w1" using evolves_apply_free [of ops now a w pt e st model ?src] by simp
  have p: "evolves ops now a w (snd (w_patch ops now w1 a p))" if "patch_fits p" for p
    using that by (rule evolves_trans [OF e evolves_patch])
  show ?thesis
    unfolding probe_failure_def f
    by (cases x) (auto simp: Let_def e patch_fits_dupdate probe_fields_fits split: option.split intro!: p)
qed

lemma evolves_probe_outcome:
  "evolves ops now a w (snd (record_model_probe_outcome ops pt pol now w a model ok e st src kick))"
  by (simp add: record_model_probe_outcome_def Let_def case_prod_unfold evolves_refl evolves_probe_success
      evolves_probe_failure split: option.split)

lemma evolves_report_success: "evolves ops now a w (snd (report_success ops now w a model))"
proof -
  have t: "evolves ops now a w w1" if "w_touch ops now ta (release_account_pick now w a) a = Some (m, w1)" for ta m w1
    using evolves_touch [OF that] by simp
  have s: "evolves ops now a w1 (snd (w_patch ops now w1 a [(''probe_fail_streak'', PInt 0)]))" for w1
    by (rule evolves_patch) simp
  have p: "evolves ops now a w (snd (w_patch ops now w1 a [(''probe_fail_streak'', PInt 0)]))"
    "evolves ops now a w (snd (unblock_model ops now w1 a m))"
    "evolves ops now a w (snd (unblock_model ops now (snd (w_patch ops now w1 a [(''probe_fail_streak'', PInt 0)])) a m))"
    if "evolves ops now a w w1" for w1 m
    using that evolves_trans [OF that s] by (auto intro: evolves_trans evolves_unblock)
  show ?thesis
    by (auto simp: report_success_def Let_def evolves_refl split: option.split dest!: t intro: p)
qed

text \<open>A mark of cooling that is not only the label.\<close>

definition cooling_marks :: "rat \<Rightarrow> pydict \<Rightarrow> bool" where
  "cooling_marks now m \<longleftrightarrow> count_positive m \<or> stack_nonempty m \<or> until_active now (dget m ''cooldown_until'')"

lemma cooling_marks_cooling: "cooling_marks now m \<Longrightarrow> is_in_cooldown now m"
  by (auto simp: cooling_marks_def is_in_cooldown_alt)

lemma cooling_marks_nonempty: "cooling_marks now m \<Longrightarrow> m \<noteq> []"
  by (auto simp: cooling_marks_def count_positive_def stack_nonempty_def until_active_def)

lemma cooling_marks_earlier: "cooling_marks later m \<Longrightarrow> now \<le> later \<Longrightarrow> cooling_marks now m"
  by (auto simp: cooling_marks_def until_active_def split: option.splits)

lemma view_counted: "pool_meta now None a st = Some out \<Longrightarrow> counted out"
proof -
  assume v: "pool_meta now None a st = Some out"
  then obtain f where f: "pool_meta_fields now (pool_get st a) = Some f"
    and out: "out = pool_meta_label now (pool_get st a) f"
    by (auto simp: pool_meta_def apply_overlay_def Let_def)
  have "\<exists>n. dget f ''request_count'' = PInt n" "\<exists>n. dget f ''success_count'' = PInt n"
    "\<exists>n. dget f ''fail_count'' = PInt n"
    using f by (auto elim!: pool_meta_fields_SomeE)
  then show ?thesis by (auto simp: counted_def out pool_meta_label_other)
qed

lemma view_marks:
  "pool_meta now None a st = Some out \<Longrightarrow> cooling_marks t out = cooling_marks t (pool_get st a)"
  using pool_meta_count_positive pool_meta_stack_nonempty pool_meta_get(3)
  by (fastforce simp: cooling_marks_def)

context pool_store
begin

lemma clear_cooldown_recovers:
  assumes "ok (w_store w)" "good_id a"
  shows "ok (w_store (snd (clear_account_cooldown ops now w a))) \<and>
    \<not> is_in_cooldown now (w_meta ops (snd (clear_account_cooldown ops now w a)) a)"
proof -
  let ?p = "cleared_fields @ [(''probe_fail_streak'', PInt 0), (''last_error'', PNone),
     (''last_probe_status'', PStr ''normal''), (''pool_status'', PStr ''normal'')]"
  have a: "a \<noteq> []" using assms(2) by (simp add: good_id_def)
  have "\<not> is_in_cooldown now (op_meta ops (snd (op_patch ops now (w_store w) a ?p)) a)"
    using assms by (intro patch_recovers) (simp_all add: cleared_fields_def)
  moreover have "snd (clear_account_cooldown ops now w a) = snd (w_patch ops now w a ?p)"
    using a by (simp add: clear_account_cooldown_def Let_def case_prod_unfold)
  ultimately show ?thesis using assms by (simp add: patch_ok)
qed

text \<open>One successful probe brings any account back, whatever it had accumulated.\<close>

lemma probe_success_recovers:
  assumes "ok (w_store w)" "good_id a"
  shows "\<exists>d w'. record_model_probe_outcome ops pt pol now w a model True e st src kick = (Returns (Some d), w') \<and>
    ok (w_store w') \<and> \<not> is_in_cooldown now (w_meta ops w' a)"
proof -
  obtain meta where v: "w_view ops now w a = Some meta" using view_total [OF assms] by blast
  have a: "a \<noteq> []" using assms(2) by (simp add: good_id_def)
  have "\<not> is_in_cooldown now (op_meta ops (snd (op_patch ops now (w_store w) a (probe_ok_patch now meta model))) a)"
    using assms probe_ok_patch_get by (intro patch_recovers) simp_all
  then show ?thesis
    using assms v a
    by (simp add: record_model_probe_outcome_def probe_success_def Let_def case_prod_unfold patch_ok)
qed

lemma view_streak: "w_view ops now w a = Some meta \<Longrightarrow> \<exists>n. dget meta ''probe_fail_streak'' = PInt n"
  using pool_meta_get(7) [of now a _ meta] unfolding w_view_def by blast

text \<open>A failed probe returns; from the kick streak on, it sidelines the account.\<close>

lemma probe_failure_total:
  assumes "ok (w_store w)" "good_id a"
  shows "\<exists>d w'. probe_failure ops pt pol now w a meta n model e st src kick = (Returns (Some d), w') \<and>
    ok (w_store w') \<and> (kick \<and> kick_streak pol \<le> n \<longrightarrow> count_positive (w_meta ops w' a))"
proof -
  let ?src = "if src = [] then ''probe'' else src"
  obtain r w1 where fr: "apply_free_usage_cooldown ops pt now w a e st model ?src = (Returns r, w1)" "ok (w_store w1)"
    using apply_free_returns [OF assms] by blast
  show ?thesis
  proof (cases r)
    case (Some d)
    have c: "count_positive (w_meta ops w1 a)" using apply_free_counts [OF assms] fr(1) Some by blast
    let ?p = "[(''probe_fail_streak'', PInt n), (''last_probe_fail_at'', PFloat now),
      (''last_probe_status'', PStr ''cooldown'')]"
    have ne: "op_meta ops (w_store w1) a \<noteq> []" using c by (auto simp: count_positive_def w_meta_def)
    have "dget (op_meta ops (snd (op_patch ops now (w_store w1) a ?p)) a) ''cooldown_count'' =
      dget (op_meta ops (w_store w1) a) ''cooldown_count''"
      using fr(2) assms(2) ne by (intro patch_untouched) (simp_all add: store_owned_def)
    with c have "count_positive (w_meta ops (snd (w_patch ops now w1 a ?p)) a)"
      by (simp add: count_positive_def w_meta_def)
    with fr assms(2) show ?thesis by (simp add: probe_failure_def Some patch_ok)
  next
    case None
    let ?reason = "probe_fail_reason n model st e"
    let ?stack = "stack_status_entry meta (probe_entry now model src st ?reason) STACK_ENTRIES"
    have "?stack \<noteq> []" using stack_status_entry_last by (simp add: STACK_ENTRIES_def)
    then have len: "1 \<le> int (length ?stack)" by (cases ?stack) simp_all
    have cp: "count_positive (w_meta ops (snd (w_patch ops now w1 a (dupdate (probe_fail_fields now n ?reason st)
        (probe_kick_fields ?reason model ?stack until)))) a)" for until
    proof (rule patch_count [OF fr(2) assms(2) _ _ len])
      show "patch_fits (dupdate (probe_fail_fields now n ?reason st) (probe_kick_fields ?reason model ?stack until))"
        by (simp add: patch_fits_dupdate probe_fields_fits)
      show "map_of (rev (dupdate (probe_fail_fields now n ?reason st) (probe_kick_fields ?reason model ?stack until)))
          ''cooldown_count'' = Some (PInt (int (length ?stack)))"
        by (rule distinct_map_of_rev [OF distinct_dupdate probe_kick_count]) (simp add: probe_fail_fields_def)
    qed
    show ?thesis
      using fr cp assms(2)
      by (auto simp: probe_failure_def None Let_def patch_ok patch_fits_dupdate probe_fields_fits)
  qed
qed

lemma probe_failure_kicks:
  assumes "ok (w_store w)" "good_id a" "w_view ops now w a = Some meta"
    and "dget meta ''probe_fail_streak'' = PInt n" "kick_streak pol \<le> n + 1"
  shows "\<exists>d w'. record_model_probe_outcome ops pt pol now w a model False e st src True = (Returns (Some d), w') \<and>
    ok (w_store w') \<and> count_positive (w_meta ops w' a)"
  using assms probe_failure_total [OF assms(1,2), of pt pol now meta "n + 1" model e st src True]
  by (auto simp: record_model_probe_outcome_def good_id_def)

text \<open>A live success recovers no account that carries a mark.\<close>

lemma report_success_total:
  assumes "ok (w_store w)" "good_id a"
  shows "\<exists>w'. report_success ops now w a model = (Returns (), w') \<and> ok (w_store w') \<and>
    (\<forall>later \<ge> now. cooling_marks later (w_meta ops w a) \<longrightarrow> cooling_marks later (w_meta ops w' a))"
proof -
  let ?w0 = "release_account_pick now w a"
  have ok0: "ok (w_store ?w0)" using assms by simp
  have a: "a \<noteq> []" using assms(2) by (simp add: good_id_def)
  obtain meta where v: "w_view ops now ?w0 a = Some meta" using view_total [OF ok0 assms(2)] by blast
  have v': "pool_meta now None a [(a, w_meta ops w a)] = Some meta"
    using v by (simp add: w_view_def w_meta_def)
  obtain saved w1 where t: "w_touch ops now (touch_success meta) ?w0 a = Some (saved, w1)" "ok (w_store w1)"
    using touch_total_w [OF ok0 assms(2), of "touch_success meta" now] view_counted [OF v']
    by (auto simp: touch_success_def)
  have "typed saved" using touch_typed [OF ok0 assms(2)] t(1) by (auto simp: w_touch_def)
  then obtain meta2 where v2: "pool_meta now None a [(a, saved)] = Some meta2"
    using typed_view [of "[(a, saved)]" a now] by (auto simp: pool_get_def)
  show ?thesis
  proof (cases "is_in_cooldown now meta")
    case True
    have "cooling_marks later (w_meta ops w1 a)" if c: "cooling_marks later (w_meta ops w a)" for later
    proof -
      have ne: "w_meta ops ?w0 a \<noteq> []" using cooling_marks_nonempty [OF c] by (simp add: w_meta_def)
      have "op_touch ops now (touch_success meta) (w_store ?w0) a = Some (saved, w_store w1)"
        using t(1) by (auto simp: w_touch_def)
      then have "dget (w_meta ops w1 a) ''cooldown_until'' = dget (w_meta ops w a) ''cooldown_until''"
        using touch_until [OF ok0 assms(2), of now "touch_success meta" saved "w_store w1"] ne
        by (simp add: w_meta_def touch_success_def)
      with c touch_marks_w [OF ok0 assms(2) t(1) ne] show ?thesis
        by (simp add: cooling_marks_def w_meta_def)
    qed
    with t v v2 a True show ?thesis by (simp add: report_success_def Let_def)
  next
    case False
    then have "\<not> cooling_marks later (w_meta ops w a)" if "now \<le> later" for later
      using view_marks [OF v', of now] cooling_marks_cooling cooling_marks_earlier [OF _ that]
      by (auto simp: pool_get_def)
    then show ?thesis
      using t v v2 a False assms(2)
      by (auto simp: report_success_def Let_def patch_ok split: option.splits intro!: evolves_ok [OF evolves_unblock])
  qed
qed

text \<open>Enabling an account by hand clears its marker but not the count of its hits.\<close>

lemma enable_keeps_count:
  assumes "ok (w_store w)" "good_id a" "count_positive (w_meta ops w a)"
  shows "is_in_cooldown later (w_meta ops (set_account_enabled ops now w a True) a)"
proof -
  have "op_meta ops (w_store w) a \<noteq> []" using assms(3) by (auto simp: count_positive_def w_meta_def)
  then have "dget (op_meta ops (snd (op_patch ops now (w_store w) a enable_patch)) a) ''cooldown_count'' =
      dget (op_meta ops (w_store w) a) ''cooldown_count''"
    using assms by (intro patch_untouched) (simp_all, simp_all add: enable_patch_def store_owned_def)
  with assms(3) show ?thesis
    by (simp add: set_account_enabled_def is_in_cooldown_alt count_positive_def w_meta_def)
qed

text \<open>A failed renewal takes the account out of rotation in every view.\<close>

lemma renew_failure_expires:
  assumes "ok (w_store w)" "good_id a" "w_view ops t (snd (record_renew_failure ops now w a e src)) a = Some out"
  shows "dget out ''pool_status'' = PStr ''expired''"
proof -
  let ?w = "snd (record_renew_failure ops now w a e src)"
  obtain cur n msg where w': "?w = snd (w_patch ops now w a (renew_failure_patch now cur n msg src))"
    using assms(2) by (auto simp: record_renew_failure_def Let_def good_id_def)
  have "dget (w_meta ops ?w a) ''last_renew_status'' = PStr ''failed''"
    unfolding w' w_meta_patch using assms(1,2)
    by (intro patch_assigned) (simp_all add: renew_failure_fits, simp_all add: renew_failure_patch_def store_owned_def)
  then show ?thesis
    using assms(3) unfolding w_view_def
    by (auto dest!: pool_meta_status [OF _ refl] simp: pool_get_def renew_failed_statuses_def)
qed

end

end
