(* ===== verification/Pool_Theorems.thy ===== *)
theory Pool_Theorems
  imports Pool_Pg Pool_Recovery
begin

text \<open>
  The properties of the account pool's transitions over its two stores. Each is an instance of a lemma of
  \<open>pool_store\<close> at the interpretations \<open>fps\<close> (the settings file) and \<open>pgs\<close> (PostgreSQL), and each has a
  witness on the sample state below.
\<close>

subsection \<open>A sample state\<close>

definition sample_patterns :: patterns where
  "sample_patterns =
     \<lparr>re_free_code = (\<lambda>c. contains c ''free-usage-exhausted''),
      re_free_text = (\<lambda>t. contains (lower t) ''free usage''),
      re_code_field = (\<lambda>_. None), re_model_in_error = (\<lambda>_. None), re_tokens = (\<lambda>_. None),
      re_temp_usage = (\<lambda>t. contains (lower t) ''rate limit''),
      re_model_unavailable = (\<lambda>t. contains (lower t) ''model not found''),
      re_model_word = (\<lambda>t. contains (lower t) ''model''),
      re_account_block = (\<lambda>t. contains (lower t) ''account suspended''),
      re_quota = (\<lambda>t. contains (lower t) ''out of credits''),
      py_loads = (\<lambda>_. None), py_repr = (\<lambda>_. ''object'')\<rparr>"

definition sample_policy :: cooldown_policy where
  "sample_policy =
     \<lparr>pol_default = 20, pol_auth = 90, pol_rate_limit = 45, pol_server_error = 20, pol_soft_block_ttl = 180,
      pol_durable_block_ttl = 3600, pol_max = 600, pol_kick_streak = 2, pol_disable_streak = 4,
      pol_kick_cooldown = 600\<rparr>"

definition sample_env :: pg_env where
  "sample_env = \<lparr>pe_iso = (\<lambda>_. None), pe_loads = (\<lambda>_. None)\<rparr>"

definition sample_row :: pool_row where
  "sample_row =
     \<lparr>r_enabled = True, r_weight = 1, r_disabled_for_quota = False, r_disabled_reason = PNone,
      r_quota_disabled_at = None, r_quota_source = PNone, r_last_quota = PNone, r_last_probe = PNone,
      r_blocked_models = [], r_request_count = 3, r_success_count = 2, r_fail_count = 1,
      r_last_used_at = Some 900, r_last_error = PNone, r_cooldown_until = None, r_extra = [],
      r_pool_status = ''normal'', r_cooldown_count = 0, r_cooldown_reason = PNone, r_cooldown_code = PNone,
      r_cooldown_model = PNone, r_tokens_actual = None, r_tokens_limit = None, r_last_probe_status = PNone,
      r_state_version = 5\<rparr>"

definition sample_world :: "'s \<Rightarrow> 's world" where
  "sample_world s =
     \<lparr>w_store = s, w_inflight = Map.empty, w_soft_used = Map.empty, w_rr_index = 0, w_affinity = []\<rparr>"

definition sample_pg :: "pg_store world" where
  "sample_pg = sample_world \<lparr>ps_rows = [(''a'', sample_row)], ps_mem = [], ps_seq = (\<lambda>_. 0), ps_redis = False\<rparr>"

definition sample_file :: "pool world" where
  "sample_file = sample_world [(''a'', [(''enabled'', PBool True), (''request_count'', PInt 3)])]"

lemma sample_pg_ok: "wf_pg (w_store sample_pg)"
  by (simp add: sample_pg_def sample_world_def wf_pg_def wf_row_def sample_row_def)

lemma sample_file_ok: "wf_file (w_store sample_file)"
  by (simp add: sample_file_def sample_world_def wf_file_def pool_get_def typed_def)

lemma sample_id: "good_id ''a''"
  by code_simp

text \<open>The record of the sample row after a quick look: no mark of cooling.\<close>

lemma sample_pg_meta: "w_meta (pg_ops sample_env) sample_pg ''a'' = row_to_meta sample_env sample_row"
proof -
  have "strip ''a'' = ''a''" by code_simp
  then show ?thesis by (simp add: w_meta_def pg_ops_def pg_meta_def sample_pg_def sample_world_def)
qed

lemma sample_pg_not_cooling: "\<not> cooling (pg_ops sample_env) now sample_pg ''a''"
proof -
  have "wf_row sample_row" by (simp add: wf_row_def sample_row_def)
  note g = row_to_meta_get [OF this, where env = sample_env]
  have "''status_stack'' \<notin> set POOL_CORE_KEYS" by simp
  then show ?thesis
    by (simp add: cooling_def sample_pg_meta is_in_cooldown_alt count_positive_def stack_nonempty_def
        until_active_def g norm_text_literal) (simp add: sample_row_def norm_text_literal)
qed

subsection \<open>A reported failure\<close>

text \<open>
  C1: whatever the error, its status code, the model and the policy, \<open>report_failure\<close> on a PostgreSQL pool
  in its invariant returns (it raises nothing), keeps the invariant, and leaves the account out of rotation
  at every later time: no clock brings it back.
\<close>

theorem report_failure_sidelines_pg:
  assumes "wf_pg (w_store w)" "good_id a"
  shows "\<exists>d w'. report_failure (pg_ops env) pt auto pol u now w a e st cd model hs = (Returns (Some d), w') \<and>
    wf_pg (w_store w') \<and> (\<forall>later. cooling (pg_ops env) later w' a)"
  using pgs.report_failure_total [OF assms] by (fastforce simp: cooling_def is_in_cooldown_alt)

theorem report_failure_sidelines_pg_witness:
  "\<not> cooling (pg_ops sample_env) 1000 sample_pg ''a'' \<and>
   (\<exists>d w'. report_failure (pg_ops sample_env) sample_patterns True sample_policy 0 1000 sample_pg ''a''
      ''rate limit'' (Some 429) None None [] = (Returns (Some d), w') \<and> wf_pg (w_store w') \<and>
      (\<forall>later. cooling (pg_ops sample_env) later w' ''a''))"
  using report_failure_sidelines_pg [OF sample_pg_ok sample_id] sample_pg_not_cooling by blast

text \<open>The same holds of the pool in the settings file.\<close>

lemma report_failure_sidelines_file:
  assumes "wf_file (w_store w)" "good_id a"
  shows "\<exists>d w'. report_failure file_ops pt auto pol u now w a e st cd model hs = (Returns (Some d), w') \<and>
    wf_file (w_store w') \<and> (\<forall>later. cooling file_ops later w' a)"
  using fps.report_failure_total [OF assms] by (fastforce simp: cooling_def is_in_cooldown_alt)

lemma report_failure_sidelines_file_witness:
  "\<exists>d w'. report_failure file_ops sample_patterns True sample_policy 0 1000 sample_file ''a''
      ''connection reset'' None None (Some ''m'') [] = (Returns (Some d), w') \<and> wf_file (w_store w') \<and>
      (\<forall>later. cooling file_ops later w' ''a'')"
  by (rule report_failure_sidelines_file [OF sample_file_ok sample_id])

subsection \<open>Isolation\<close>

lemma sample_id_b: "good_id ''b''"
  by code_simp

text \<open>
  C10: a failure reported for one account changes the record of no other account of a PostgreSQL pool, whatever
  happens inside: classification, quota removal, model blocks, kicks, free-usage stacking.
\<close>

theorem report_failure_isolated:
  assumes "wf_pg (w_store w)" "good_id a" "good_id b" "b \<noteq> a"
  shows "w_meta (pg_ops env) (snd (report_failure (pg_ops env) pt auto pol u now w a e st cd model hs)) b =
    w_meta (pg_ops env) w b"
  by (rule pgs.evolves_frame [OF evolves_report_failure assms])

theorem report_failure_isolated_witness:
  "w_meta (pg_ops sample_env) (snd (report_failure (pg_ops sample_env) sample_patterns True sample_policy 0 1000
      sample_pg ''b'' ''out of credits'' (Some 402) None None [])) ''a'' = row_to_meta sample_env sample_row"
  using report_failure_isolated [OF sample_pg_ok sample_id_b sample_id] sample_pg_meta by simp

subsection \<open>From failure to recovery\<close>

text \<open>A run of successful live requests, each with its time and model.\<close>

definition live_successes ::
  "'s store_ops \<Rightarrow> string \<Rightarrow> (rat \<times> string option) list \<Rightarrow> 's world \<Rightarrow> 's world" where
  "live_successes ops a evs w = fold (\<lambda>(t, m) w. snd (report_success ops t w a m)) evs w"

lemma live_successes_marks:
  assumes "\<forall>(t, m) \<in> set evs. t \<le> T" "good_id a"
  shows "wf_pg (w_store w) \<Longrightarrow> cooling_marks T (w_meta (pg_ops env) w a) \<Longrightarrow>
    wf_pg (w_store (live_successes (pg_ops env) a evs w)) \<and>
    cooling_marks T (w_meta (pg_ops env) (live_successes (pg_ops env) a evs w) a)"
  using assms(1)
proof (induction evs arbitrary: w)
  case (Cons e evs)
  obtain t m where e: "e = (t, m)" by (cases e)
  obtain w' where w': "report_success (pg_ops env) t w a m = (Returns (), w')" "wf_pg (w_store w')"
    "cooling_marks T (w_meta (pg_ops env) w' a)"
    using pgs.report_success_total [OF Cons.prems(1) assms(2), of env t m] Cons.prems(2,3) e by auto
  from Cons.IH [OF w'(2,3)] Cons.prems(3) w'(1) e show ?case by (simp add: live_successes_def)
qed (simp add: live_successes_def)

text \<open>
  C5: after a reported failure, no run of successful live requests brings the account back: it is still
  cooling at the end of the run. One successful probe then does, whatever model it probed.
\<close>

theorem only_probe_recovers:
  assumes "wf_pg (w_store w)" "good_id a"
    and "report_failure (pg_ops env) pt auto pol u now w a e st cd model hs = (r, w1)"
    and "\<forall>(t, m) \<in> set evs. t \<le> T"
  shows "cooling (pg_ops env) T (live_successes (pg_ops env) a evs w1) a \<and>
    (\<exists>d w2. record_model_probe_outcome (pg_ops env) pt pol T (live_successes (pg_ops env) a evs w1) a m True e2 st2 src
       kick = (Returns (Some d), w2) \<and> wf_pg (w_store w2) \<and> \<not> cooling (pg_ops env) T w2 a)"
proof -
  from pgs.report_failure_total [OF assms(1,2)] assms(3)
  have w1: "wf_pg (w_store w1)" "count_positive (w_meta (pg_ops env) w1 a)" by (metis snd_conv)+
  then have "cooling_marks T (w_meta (pg_ops env) w1 a)" by (simp add: cooling_marks_def)
  from live_successes_marks [OF assms(4,2) w1(1) this] show ?thesis
    using pgs.probe_success_recovers [of "live_successes (pg_ops env) a evs w1" a env pt pol T m e2 st2 src kick]
      assms(2) by (auto simp: cooling_def cooling_marks_cooling)
qed

theorem only_probe_recovers_witness:
  "\<exists>w1. snd (report_failure (pg_ops sample_env) sample_patterns True sample_policy 0 1000 sample_pg ''a'' ''rate limit''
       (Some 429) None None []) = w1 \<and>
     cooling (pg_ops sample_env) 99999 (live_successes (pg_ops sample_env) ''a'' [(2000, None), (3000, Some ''m'')] w1) ''a''"
proof -
  obtain r w1 where f: "report_failure (pg_ops sample_env) sample_patterns True sample_policy 0 1000 sample_pg ''a''
      ''rate limit'' (Some 429) None None [] = (r, w1)" by fastforce
  have "cooling (pg_ops sample_env) 99999 (live_successes (pg_ops sample_env) ''a'' [(2000, None), (3000, Some ''m'')] w1) ''a''"
    using only_probe_recovers [OF sample_pg_ok sample_id f, of "[(2000, None), (3000, Some ''m'')]" 99999] by simp
  with f show ?thesis by auto
qed

text \<open>Clearing by hand ends the cooldown of any account of the settings file, whatever had accumulated.\<close>

lemma clear_cooldown_readmits:
  assumes "wf_file (w_store w)" "good_id a"
  shows "wf_file (w_store (snd (clear_account_cooldown file_ops now w a))) \<and>
    \<not> cooling file_ops now (snd (clear_account_cooldown file_ops now w a)) a"
  using fps.clear_cooldown_recovers [OF assms] by (simp add: cooling_def)

definition sample_cooling_file :: "pool world" where
  "sample_cooling_file = sample_world [(''a'', [(''cooldown_count'', PInt 3), (''pool_status'', PStr ''cooldown'')])]"

lemma sample_cooling_file_ok: "wf_file (w_store sample_cooling_file)"
  by (simp add: sample_cooling_file_def sample_world_def wf_file_def pool_get_def typed_def)

lemma sample_cooling_file_meta:
  "w_meta file_ops sample_cooling_file ''a'' = [(''cooldown_count'', PInt 3), (''pool_status'', PStr ''cooldown'')]"
proof -
  have "strip ''a'' = ''a''" by code_simp
  then show ?thesis
    by (simp add: w_meta_def file_ops_def file_meta_def sample_cooling_file_def sample_world_def pool_get_def)
qed

lemma sample_cooling_file_count: "count_positive (w_meta file_ops sample_cooling_file ''a'')"
  by (simp add: sample_cooling_file_meta count_positive_def)

lemma clear_cooldown_readmits_witness:
  "cooling file_ops 5 sample_cooling_file ''a'' \<and>
   \<not> cooling file_ops 5 (snd (clear_account_cooldown file_ops 5 sample_cooling_file ''a'')) ''a''"
  using clear_cooldown_readmits [OF sample_cooling_file_ok sample_id] sample_cooling_file_count
  by (simp add: cooling_def is_in_cooldown_alt)

text \<open>
  Enabling an account by hand does not end its cooldown: with a positive count the account is still
  cooling at every time after \<open>set_account_enabled(id, True)\<close>, although the call clears the other cooldown
  fields and labels it normal.
\<close>

lemma enable_leaves_cooling:
  assumes "wf_file (w_store w)" "good_id a" "count_positive (w_meta file_ops w a)"
  shows "\<forall>later. cooling file_ops later (set_account_enabled file_ops now w a True) a"
  using fps.enable_keeps_count [OF assms] by (simp add: cooling_def)

lemma enable_leaves_cooling_witness:
  "\<forall>later. cooling file_ops later (set_account_enabled file_ops 5 sample_cooling_file ''a'' True) ''a''"
  by (rule enable_leaves_cooling [OF sample_cooling_file_ok sample_id sample_cooling_file_count])

text \<open>
  With automatic kicks on, the failed probe that completes the kick streak takes the account out of rotation at
  every later time; the call returns and keeps the invariant.
\<close>

lemma probe_streak_kicks:
  assumes "wf_pg (w_store w)" "good_id a" "w_view (pg_ops env) now w a = Some meta"
    and "dget meta ''probe_fail_streak'' = PInt n" "kick_streak pol \<le> n + 1"
  shows "\<exists>d w'. record_model_probe_outcome (pg_ops env) pt pol now w a model False e st src True = (Returns (Some d), w') \<and>
    wf_pg (w_store w') \<and> (\<forall>later. cooling (pg_ops env) later w' a)"
  using pgs.probe_failure_kicks [OF assms] by (fastforce simp: cooling_def is_in_cooldown_alt)

definition streak_row :: pool_row where
  "streak_row = sample_row\<lparr>r_extra := [(''probe_fail_streak'', PInt 1)]\<rparr>"

definition streak_pg :: "pg_store world" where
  "streak_pg = sample_world \<lparr>ps_rows = [(''a'', streak_row)], ps_mem = [], ps_seq = (\<lambda>_. 0), ps_redis = False\<rparr>"

lemma streak_pg_ok: "wf_pg (w_store streak_pg)"
  by (simp add: streak_pg_def sample_world_def wf_pg_def wf_row_def streak_row_def sample_row_def)

lemma streak_pg_view: "\<exists>meta. w_view (pg_ops sample_env) 1000 streak_pg ''a'' = Some meta \<and>
    dget meta ''probe_fail_streak'' = PInt 1"
proof -
  obtain meta where v: "w_view (pg_ops sample_env) 1000 streak_pg ''a'' = Some meta"
    using pgs.view_total [OF streak_pg_ok sample_id] by blast
  have "strip ''a'' = ''a''" by code_simp
  then have m: "w_meta (pg_ops sample_env) streak_pg ''a'' = row_to_meta sample_env streak_row"
    by (simp add: w_meta_def pg_ops_def pg_meta_def streak_pg_def sample_world_def)
  have wf: "wf_row streak_row" by (simp add: wf_row_def streak_row_def sample_row_def)
  have "''probe_fail_streak'' \<notin> set POOL_CORE_KEYS" by (simp add: POOL_CORE_KEYS_def)
  with row_to_meta_get(25) [OF wf] have "dget (row_to_meta sample_env streak_row) ''probe_fail_streak'' = PInt 1"
    by (simp add: streak_row_def)
  with v m pool_meta_get(7) [OF v [unfolded w_view_def] refl] show ?thesis by (auto simp: pool_get_def)
qed

lemma probe_streak_kicks_witness:
  "\<exists>d w'. record_model_probe_outcome (pg_ops sample_env) sample_patterns sample_policy 1000 streak_pg ''a'' (Some ''m'')
      False ''timeout'' None ''probe'' True = (Returns (Some d), w') \<and> (\<forall>later. cooling (pg_ops sample_env) later w' ''a'')"
proof -
  obtain meta where m: "w_view (pg_ops sample_env) 1000 streak_pg ''a'' = Some meta" "dget meta ''probe_fail_streak'' = PInt 1"
    using streak_pg_view by blast
  have "kick_streak sample_policy \<le> 1 + 1" by (simp add: kick_streak_def sample_policy_def) code_simp
  from probe_streak_kicks [OF streak_pg_ok sample_id m this] show ?thesis by blast
qed

subsection \<open>Free-usage hits\<close>

lemma view_not_cooling:
  assumes "w_view ops now w a = Some meta" "\<not> cooling ops now w a"
  shows "\<not> is_in_cooldown now meta"
  using assms pool_meta_cooling_sound [of now a "[(a, w_meta ops w a)]" meta]
  by (auto simp: w_view_def cooling_def pool_get_def)

text \<open>
  Two free-usage answers within the re-stacking window count as one. The first sidelines an account that was not
  cooling with a count between 1 and 4; the second, from another in-flight request, changes neither the
  count nor the stack.
\<close>

lemma free_usage_hits_once:
  assumes "wf_pg (w_store w)" "good_id a" "\<not> cooling (pg_ops env) now w a"
    and "free_usage_parsed pt now e st model = Some d1" "free_usage_parsed pt2 later e2 st2 model2 = Some d2"
    and "0 < now" "now \<le> later" "later < now + FREE_USAGE_RESTACK_MIN_SEC"
    and "apply_free_usage_cooldown (pg_ops env) pt now w a e st model src = (r1, w1)"
    and "apply_free_usage_cooldown (pg_ops env) pt2 later w1 a e2 st2 model2 src2 = (r2, w2)"
  shows "(\<exists>n. dget (w_meta (pg_ops env) w1 a) ''cooldown_count'' = PInt n \<and> 1 \<le> n \<and> n \<le> 4) \<and>
    dget (w_meta (pg_ops env) w2 a) ''cooldown_count'' = dget (w_meta (pg_ops env) w1 a) ''cooldown_count'' \<and>
    dget (w_meta (pg_ops env) w2 a) ''status_stack'' = dget (w_meta (pg_ops env) w1 a) ''status_stack''"
proof -
  have a: "a \<noteq> []" using assms(2) by (simp add: good_id_def)
  obtain meta where v: "w_view (pg_ops env) now w a = Some meta" using pgs.view_total [OF assms(1,2)] by blast
  have w1: "w1 = snd (free_hit (pg_ops env) pt now w a d1 meta st model src)"
    using assms(4,9) a v by (auto simp: apply_free_usage_cooldown_def case_prod_unfold Let_def)
  have ok1: "wf_pg (w_store w1)" unfolding w1 by (rule pgs.free_hit_ok [OF assms(1,2,4)])
  obtain meta2 where v2: "w_view (pg_ops env) later w1 a = Some meta2" using pgs.view_total [OF ok1 assms(2)] by blast
  have w2: "w2 = snd (free_hit (pg_ops env) pt2 later w1 a d2 meta2 st2 model2 src2)"
    using assms(5,10) a v2 by (auto simp: apply_free_usage_cooldown_def case_prod_unfold Let_def)
  have r: "restack now meta" using view_not_cooling [OF v assms(3)] by (rule not_cooling_restack)
  have "dget (w_meta (pg_ops env) w1 a) ''cooldown_count'' = PInt (snd (free_stack now meta (free_entry now d1 st model src)))"
    unfolding w1 by (rule pgs.free_hit_counts [OF assms(1,2,4)])
  moreover note free_stack_count [of now meta "free_entry now d1 st model src", unfolded FREE_USAGE_STACK_MAX_def]
  moreover note pgs.second_hit_same [OF assms(1,2,4,5) r assms(6-8) v2 [unfolded w1], of src2]
  ultimately show ?thesis unfolding w2 w1 by auto
qed

lemma sample_free: "\<exists>d. free_usage_parsed sample_patterns t ''free usage'' st model = Some d"
proof -
  have n: "strip ''free usage'' = ''free usage''" by code_simp
  have c: "contains (lower ''free usage'') ''free usage''" by code_simp
  show ?thesis
    by (simp add: free_usage_parsed_def parse_free_usage_error_def n Let_def free_usage_detail_def sample_patterns_def c
        split: option.splits pyval.splits prod.splits)
qed

lemma free_usage_hits_once_witness:
  "\<exists>w1 w2. w1 = snd (apply_free_usage_cooldown (pg_ops sample_env) sample_patterns 1000 sample_pg ''a'' ''free usage''
       (Some 429) None ''live'') \<and>
     w2 = snd (apply_free_usage_cooldown (pg_ops sample_env) sample_patterns 1001 w1 ''a'' ''free usage''
       (Some 429) None ''live'') \<and>
     dget (w_meta (pg_ops sample_env) w2 ''a'') ''cooldown_count'' = dget (w_meta (pg_ops sample_env) w1 ''a'') ''cooldown_count''"
proof -
  obtain d1 where d1: "free_usage_parsed sample_patterns 1000 ''free usage'' (Some 429) None = Some d1"
    using sample_free by blast
  obtain d2 where d2: "free_usage_parsed sample_patterns 1001 ''free usage'' (Some 429) None = Some d2"
    using sample_free by blast
  obtain r1 w1 where w1: "apply_free_usage_cooldown (pg_ops sample_env) sample_patterns 1000 sample_pg ''a''
      ''free usage'' (Some 429) None ''live'' = (r1, w1)" by fastforce
  obtain r2 w2 where w2: "apply_free_usage_cooldown (pg_ops sample_env) sample_patterns 1001 w1 ''a''
      ''free usage'' (Some 429) None ''live'' = (r2, w2)" by fastforce
  have "(1001 :: rat) < 1000 + FREE_USAGE_RESTACK_MIN_SEC" by (simp add: FREE_USAGE_RESTACK_MIN_SEC_def)
  from free_usage_hits_once [OF sample_pg_ok sample_id sample_pg_not_cooling d1 d2 _ _ this w1 w2] w1 w2
  show ?thesis by auto
qed

end
