(* ===== verification/Store_Theorems.thy ===== *)
theory Store_Theorems
  imports Pool_Theorems
begin

text \<open>
  The properties of the stores and of the rules the transitions are built from: queued state events, the row
  codec, the cooldown arithmetic with its policy, the classification of errors, and the view.
\<close>

subsection \<open>Queued state events\<close>

definition rows_ok :: "pg_rows \<Rightarrow> bool" where
  "rows_ok rows \<longleftrightarrow> (\<forall>(a, r) \<in> set rows. wf_row r)"

definition event_base :: "pg_env \<Rightarrow> pg_rows \<Rightarrow> string \<Rightarrow> pydict" where
  "event_base env rows a =
     (case map_of rows a of Some r \<Rightarrow> row_to_meta env r | None \<Rightarrow> default_meta @ [(''state_version'', PInt 0)])"

definition row_version :: "pg_rows \<Rightarrow> string \<Rightarrow> int" where
  "row_version rows a = (case map_of rows a of Some r \<Rightarrow> r_state_version r | None \<Rightarrow> 0)"

lemma rows_ok_wf: "rows_ok rows \<Longrightarrow> map_of rows a = Some r \<Longrightarrow> wf_row r"
  by (auto simp: rows_ok_def dest: map_of_SomeD)

lemma event_base_version:
  assumes "rows_ok rows"
  shows "int_or0 (dget (event_base env rows a) ''state_version'') = Some (row_version rows a)"
proof (cases "map_of rows a")
  case None
  then show ?thesis by (simp add: event_base_def row_version_def default_meta_def)
next
  case (Some r)
  with row_to_meta_get(24) [OF rows_ok_wf [OF assms Some], of env] show ?thesis
    by (simp add: event_base_def row_version_def)
qed

lemma event_base_typed:
  assumes "rows_ok rows"
  shows "typed (event_base env rows a)"
proof (cases "map_of rows a")
  case None
  then show ?thesis
    by (simp add: event_base_def default_meta_def typed_def)
next
  case (Some r)
  have "wf_pg \<lparr>ps_rows = rows, ps_mem = [], ps_seq = (\<lambda>_. 0), ps_redis = False\<rparr>"
    using assms by (simp add: wf_pg_def rows_ok_def)
  from typed_base [OF this, of env a] Some show ?thesis
    by (simp add: event_base_def row_meta_or_default_def)
qed

lemma apply_event_unfold:
  "a \<noteq> [] \<Longrightarrow> rows_ok rows \<Longrightarrow> apply_pool_state_event env now rows a p v =
     (if max 0 v \<le> row_version rows a then Some (False, rows)
      else let m1 = dset (merge_patch (event_base env rows a) p) ''state_version'' (PInt (max 0 v));
               m = dset m1 ''pool_status'' (PStr (pg_derive_pool_status now m1))
           in map_option (\<lambda>rows'. (True, rows')) (upsert_pool env now False True True rows a m))"
  by (simp add: apply_pool_state_event_def event_base_def [symmetric] event_base_version Let_def map_conv_bind_option comp_def)

lemma event_base_distinct: "distinct (map fst (event_base env rows a))"
proof (cases "map_of rows a")
  case None
  then show ?thesis by (simp add: event_base_def default_meta_def)
next
  case (Some r)
  then show ?thesis using distinct_base [of env rows a] by (simp add: event_base_def row_meta_or_default_def)
qed

lemma apply_event_accepted:
  assumes ok: "rows_ok rows" and a: "a \<noteq> []" and p: "patch_fits p" and v: "row_version rows a < v" "0 < v"
  shows "\<exists>r. apply_pool_state_event env now rows a p v = Some (True, AList.update a r rows) \<and>
    wf_row r \<and> r_state_version r = v \<and>
    (\<forall>old. map_of rows a = Some old \<longrightarrow> r_request_count r = r_request_count old \<and>
       r_success_count r = r_success_count old \<and> r_fail_count r = r_fail_count old)"
proof -
  have mv: "max 0 v = v" using v by simp
  define m1 where "m1 = dset (merge_patch (event_base env rows a) p) ''state_version'' (PInt v)"
  define m where "m = dset m1 ''pool_status'' (PStr (pg_derive_pool_status now m1))"
  have t: "typed m"
    using event_base_typed [OF ok, of env a] p by (simp add: m_def m1_def typed_dset typed_merge)
  have d: "distinct (map fst m)"
    by (simp add: m_def m1_def distinct_merge_patch event_base_distinct)
  from row_of_meta_typed [OF t] obtain r where r: "row_of_meta env now m = Some r" ..
  have sv: "r_state_version r = v"
    using row_of_meta_fields(24) [OF r] by (simp add: m_def m1_def)
  note wf = row_of_meta_wf [OF r d t]
  define r' where "r' = (case map_of rows a of None \<Rightarrow> r | Some old \<Rightarrow> on_conflict now False True True old r)"
  have "apply_pool_state_event env now rows a p v = Some (True, AList.update a r' rows)"
    using v by (simp add: apply_event_unfold [OF a ok] mv Let_def m1_def [symmetric] m_def [symmetric] upsert_pool_def r r'_def)
  moreover have "wf_row r' \<and> r_state_version r' = v \<and>
    (\<forall>old. map_of rows a = Some old \<longrightarrow> r_request_count r' = r_request_count old \<and>
       r_success_count r' = r_success_count old \<and> r_fail_count r' = r_fail_count old)"
  proof (cases "map_of rows a")
    case None
    then show ?thesis using wf sv by (simp add: r'_def)
  next
    case (Some old)
    then have "r_state_version old < r_state_version r" using v sv by (simp add: row_version_def)
    then show ?thesis using wf sv Some by (simp add: r'_def on_conflict_def wf_row_def)
  qed
  ultimately show ?thesis by blast
qed

text \<open>
  C7: a queued state event is applied at most once. An event newer than the row is accepted, keeps the
  rows' invariant, the counters and every other account's row; afterwards the same event, or any event not
  newer, is refused and changes nothing, so redelivery and reordering of the queue are harmless.
\<close>

theorem state_event_once:
  assumes "rows_ok rows" "a \<noteq> []" "patch_fits p" "row_version rows a < v" "0 < v"
  shows "\<exists>rows'. apply_pool_state_event env now rows a p v = Some (True, rows') \<and> rows_ok rows' \<and>
    (\<forall>b. b \<noteq> a \<longrightarrow> map_of rows' b = map_of rows b) \<and>
    (\<forall>now2 p2 v2. v2 \<le> v \<longrightarrow> apply_pool_state_event env now2 rows' a p2 v2 = Some (False, rows'))"
proof -
  obtain r where r: "apply_pool_state_event env now rows a p v = Some (True, AList.update a r rows)"
    "wf_row r" "r_state_version r = v"
    using apply_event_accepted [OF assms] by blast
  have ok': "rows_ok (AList.update a r rows)"
  proof -
    have "set (AList.update a r l) \<subseteq> insert (a, r) (set l)" for l
      by (induction l) auto
    then show ?thesis using assms(1) r(2) by (fastforce simp: rows_ok_def)
  qed
  have "row_version (AList.update a r rows) a = v" by (simp add: row_version_def update_conv' r(3))
  then have "apply_pool_state_event env now2 (AList.update a r rows) a p2 v2 = Some (False, AList.update a r rows)"
    if "v2 \<le> v" for now2 p2 v2
    using that assms(5) by (simp add: apply_event_unfold [OF assms(2) ok'])
  with r(1) ok' show ?thesis by (auto simp: update_conv')
qed

theorem state_event_once_witness:
  "\<exists>rows'. apply_pool_state_event sample_env 1000 [(''a'', sample_row)] ''a'' [(''enabled'', PBool False)] 7 = Some (True, rows') \<and>
     apply_pool_state_event sample_env 2000 rows' ''a'' [(''enabled'', PBool True)] 7 = Some (False, rows')"
proof -
  have ok: "rows_ok [(''a'', sample_row)]" by (simp add: rows_ok_def wf_row_def sample_row_def)
  have v: "row_version [(''a'', sample_row)] ''a'' < 7" by (simp add: row_version_def sample_row_def)
  have p: "patch_fits [(''enabled'', PBool False)]" by simp
  from state_event_once [OF ok _ p v, of sample_env 1000] show ?thesis by auto
qed

subsection \<open>The row codec\<close>

text \<open>
  C11: writing a typed record into its row and reading it back gives the same value for every field of a
  well-typed value except the two the store owns.
\<close>

theorem record_row_round_trip:
  assumes "row_of_meta env now m = Some r" "distinct (map fst m)" "typed m"
    and "field_ok k (dget m k)" "k \<notin> store_owned"
  shows "dget (row_to_meta env r) k = dget m k"
  by (rule row_round_trip [OF assms])

theorem record_row_round_trip_witness:
  "\<exists>r. row_of_meta sample_env 5 [(''cooldown_count'', PInt 2), (''note'', PStr ''x'')] = Some r \<and>
     dget (row_to_meta sample_env r) ''cooldown_count'' = PInt 2"
proof -
  let ?m = "[(''cooldown_count'', PInt 2), (''note'', PStr ''x'')]"
  have t: "typed ?m" by (simp add: typed_def field_ok_def)
  obtain r where r: "row_of_meta sample_env 5 ?m = Some r" using row_of_meta_typed [OF t] by blast
  have "''cooldown_count'' \<notin> store_owned" by (simp add: store_owned_def)
  from record_row_round_trip [OF r _ t _ this] r show ?thesis by auto
qed

subsection \<open>Cooldown arithmetic\<close>

text \<open>The seconds before the jitter.\<close>

definition cooldown_core :: "cooldown_policy \<Rightarrow> int option \<Rightarrow> string \<Rightarrow> int \<Rightarrow> pydict \<Rightarrow> bool \<Rightarrow> rat" where
  "cooldown_core pol st e fails hs soft =
     min (pol_max pol)
       ((case parse_retry_after e hs of None \<Rightarrow> cooldown_base pol st soft
         | Some r \<Rightarrow> max (cooldown_base pol st soft) (min r (pol_max pol))) * streak_mult fails)"

lemma compute_cooldown_core:
  "compute_cooldown_seconds pol u st e fails hs soft = jitter u (cooldown_core pol st e fails hs soft)"
  by (simp add: compute_cooldown_seconds_def cooldown_core_def Let_def split: option.split)

lemma cooldown_core_bounds:
  assumes "wf_policy pol"
  shows "1 \<le> cooldown_core pol st e fails hs soft \<and> cooldown_core pol st e fails hs soft \<le> pol_max pol"
proof -
  have m: "1 \<le> pol_max pol" using assms by (simp add: wf_policy_def)
  let ?b = "case parse_retry_after e hs of None \<Rightarrow> cooldown_base pol st soft
         | Some r \<Rightarrow> max (cooldown_base pol st soft) (min r (pol_max pol))"
  have "1 \<le> ?b" using cooldown_base_pos [OF assms, of st soft] by (auto split: option.split)
  moreover have "1 \<le> streak_mult fails" using streak_mult_bounds by blast
  ultimately have "1 * 1 \<le> ?b * streak_mult fails" by (intro mult_mono) simp_all
  with m show ?thesis by (simp add: cooldown_core_def)
qed

text \<open>
  For every policy in its ranges and every draw of the jitter, a computed cooldown lies between 0.85 seconds
  and 1.15 times the policy's maximum, and a Retry-After of \<open>r\<close> seconds is honoured up to the jitter and
  the maximum.
\<close>

lemma cooldown_seconds_bounds:
  assumes "wf_policy pol" "-1 \<le> u" "u \<le> 1"
  shows "85/100 \<le> compute_cooldown_seconds pol u st e fails hs soft \<and>
    compute_cooldown_seconds pol u st e fails hs soft \<le> pol_max pol * (115/100) \<and>
    (\<forall>r. parse_retry_after e hs = Some r \<longrightarrow>
       min r (pol_max pol) * (85/100) \<le> compute_cooldown_seconds pol u st e fails hs soft)"
proof -
  let ?c = "cooldown_core pol st e fails hs soft"
  note b = cooldown_core_bounds [OF assms(1), of st e fails hs soft]
  have j: "?c * (85/100) \<le> jitter u ?c \<and> jitter u ?c \<le> ?c * (115/100)"
    using b by (intro jitter_bounds assms) simp
  have "min r (pol_max pol) \<le> ?c" if "parse_retry_after e hs = Some r" for r
  proof -
    have p: "0 \<le> max (cooldown_base pol st soft) (min r (pol_max pol))"
      using cooldown_base_pos [OF assms(1), of st soft] by simp
    have "max (cooldown_base pol st soft) (min r (pol_max pol)) * 1 \<le>
        max (cooldown_base pol st soft) (min r (pol_max pol)) * streak_mult fails"
      using p streak_mult_bounds by (intro mult_left_mono) simp_all
    then have "min r (pol_max pol) \<le> max (cooldown_base pol st soft) (min r (pol_max pol)) * streak_mult fails" by simp
    then show ?thesis using that by (simp add: cooldown_core_def)
  qed
  with j b show ?thesis unfolding compute_cooldown_core by (force simp: field_simps)
qed

lemma cooldown_seconds_bounds_witness:
  "85/100 \<le> compute_cooldown_seconds sample_policy (1/3) (Some 429) ''rate limit'' 3 [] False \<and>
   compute_cooldown_seconds sample_policy (1/3) (Some 429) ''rate limit'' 3 [] False \<le> 690"
proof -
  have "wf_policy sample_policy" by (simp add: wf_policy_def sample_policy_def)
  from cooldown_seconds_bounds [OF this, of "1/3" "Some 429" "''rate limit''" 3 "[]" False]
  show ?thesis by (simp add: sample_policy_def)
qed

lemma jitter_mono: "s \<le> t \<Longrightarrow> -1 \<le> u \<Longrightarrow> jitter u s \<le> jitter u t"
proof -
  assume st: "s \<le> t" and u: "-1 \<le> u"
  have f: "jitter u x = max 0 x * (1 + u * (15/100))" for x
  proof -
    have "0 \<le> 1 + u * (15/100)" using u by simp
    then have "0 \<le> max 0 x * (1 + u * (15/100))" by simp
    then show ?thesis
      by (cases "x \<le> 0") (simp_all add: jitter_def COOLDOWN_JITTER_RATIO_def Let_def max_def algebra_simps)
  qed
  have "0 \<le> 1 + u * (15/100)" using u by simp
  then show ?thesis unfolding f using st by (intro mult_right_mono) (simp_all add: max_def)
qed

text \<open>With the same draw, a longer failure streak never gives a shorter cooldown.\<close>

lemma cooldown_seconds_mono:
  assumes "wf_policy pol" "-1 \<le> u" "fails \<le> fails'"
  shows "compute_cooldown_seconds pol u st e fails hs soft \<le> compute_cooldown_seconds pol u st e fails' hs soft"
proof -
  have "0 \<le> (case parse_retry_after e hs of None \<Rightarrow> cooldown_base pol st soft
         | Some r \<Rightarrow> max (cooldown_base pol st soft) (min r (pol_max pol)))"
    using cooldown_base_pos [OF assms(1), of st soft] by (auto split: option.split)
  then have "cooldown_core pol st e fails hs soft \<le> cooldown_core pol st e fails' hs soft"
    unfolding cooldown_core_def using streak_mult_mono [OF assms(3)]
    by (intro min.mono order_refl mult_left_mono) simp_all
  then show ?thesis unfolding compute_cooldown_core by (rule jitter_mono) (rule assms(2))
qed

lemma cooldown_seconds_mono_witness:
  "compute_cooldown_seconds sample_policy 0 (Some 503) ''bad gateway'' 1 [] False \<le>
   compute_cooldown_seconds sample_policy 0 (Some 503) ''bad gateway'' 5 [] False"
proof -
  have "wf_policy sample_policy" by (simp add: wf_policy_def sample_policy_def)
  from cooldown_seconds_mono [OF this] show ?thesis by simp
qed

text \<open>
  The policy the pool reads is always inside its ranges, whatever the settings, the environment and
  the cache hold.
\<close>

lemma policy_in_range:
  "wf_policy (fst (cooldown_defaults setting env now cache))"
  by (rule policy_defaults_wf)

text \<open>The window of a free-usage hit grows with the stack, from 900 seconds to at most an hour.\<close>

lemma free_usage_window:
  assumes "1 \<le> n" "n \<le> m"
  shows "900 \<le> free_usage_cooldown_ttl n \<and> free_usage_cooldown_ttl n \<le> free_usage_cooldown_ttl m \<and>
    free_usage_cooldown_ttl m \<le> 3600"
proof -
  have e: "free_usage_cooldown_ttl k = min 3600 (900 * (3/2) ^ nat (k - 1))" if "1 \<le> k" for k
  proof -
    have "(1::rat) \<le> (3/2) ^ nat (k - 1)" by (rule one_le_power) simp
    moreover have "max 60 (min 3600 (900 * x)) = min 3600 (900 * x)" if "1 \<le> x" for x :: rat
      using that by (simp add: min_def max_def)
    ultimately have "max 60 (min 3600 (900 * (3/2) ^ nat (k - 1))) = min (3600 :: rat) (900 * (3/2) ^ nat (k - 1))"
      by blast
    then show ?thesis
      using that by (simp add: free_usage_cooldown_ttl_def FREE_USAGE_COOLDOWN_MAX_SEC_def FREE_USAGE_COOLDOWN_BASE_SEC_def Let_def)
  qed
  have "(1::rat) \<le> (3/2) ^ nat (n - 1)" by (rule one_le_power) simp
  moreover have "(3/2::rat) ^ nat (n - 1) \<le> (3/2) ^ nat (m - 1)"
    using assms by (intro power_increasing) simp_all
  moreover have "900 \<le> min 3600 (900 * x) \<and> min 3600 (900 * x) \<le> min 3600 (900 * y) \<and> min 3600 (900 * y) \<le> 3600"
    if "1 \<le> x" "x \<le> y" for x y :: rat
    using that by (simp add: min_def)
  ultimately show ?thesis unfolding e [OF assms(1)] e [OF order_trans [OF assms]] by blast
qed

lemma free_usage_window_witness: "900 \<le> free_usage_cooldown_ttl 2 \<and> free_usage_cooldown_ttl 2 \<le> free_usage_cooldown_ttl 4"
  using free_usage_window [of 2 4] by simp

subsection \<open>Classification\<close>

text \<open>
  An error read as temporary is never read as a lost model or a blocked account, and no answer with status 429
  is read as a quota removal, a lost model or a blocked account, whatever the regular expressions match.
\<close>

lemma classification_exclusive:
  "(is_temporary_usage_error pt e st \<longrightarrow> \<not> is_model_unavailable_error pt e st \<and> \<not> is_account_block_error pt e st) \<and>
   \<not> is_quota_error_message pt e (Some 429) \<and> \<not> is_model_unavailable_error pt e (Some 429) \<and>
   \<not> is_account_block_error pt e (Some 429)"
  using temporary_excludes never_permanent_429 by blast

lemma classification_exclusive_witness:
  "is_temporary_usage_error sample_patterns ''rate limit'' (Some 403) \<and>
   \<not> is_account_block_error sample_patterns ''rate limit'' (Some 403)"
proof -
  have "is_temporary_usage_error sample_patterns ''rate limit'' (Some 403)" by code_simp
  with classification_exclusive [of sample_patterns "''rate limit''" "Some 403"] show ?thesis by blast
qed

subsection \<open>The view\<close>

text \<open>
  The view a selection reads agrees with the record on cooling: it is cooling only when the record is, it is
  cooling when the record is unless it is labelled expired, and its \<open>in_cooldown\<close> flag is the record's.
\<close>

lemma view_reports_cooling:
  assumes "pool_meta now None a st = Some out"
  shows "(is_in_cooldown now out \<longrightarrow> is_in_cooldown now (pool_get st a)) \<and>
    (is_in_cooldown now (pool_get st a) \<longrightarrow> is_in_cooldown now out \<or> dget out ''pool_status'' = PStr ''expired'') \<and>
    dget out ''in_cooldown'' = PBool (is_in_cooldown now (pool_get st a))"
  using pool_meta_cooling_sound [OF assms] pool_meta_cooling_complete [OF assms] pool_meta_in_cooldown [OF assms]
  by blast

lemma view_reports_cooling_witness:
  "\<exists>out. pool_meta 7 None ''a'' [(''a'', [(''cooldown_count'', PInt 2)])] = Some out \<and>
     dget out ''in_cooldown'' = PBool True"
proof -
  let ?st = "[(''a'', [(''cooldown_count'', PInt 2)])]"
  have "typed (pool_get ?st ''a'')" by (simp add: pool_get_def typed_def)
  then obtain out where o: "pool_meta 7 None ''a'' ?st = Some out" using typed_view by blast
  have "is_in_cooldown 7 (pool_get ?st ''a'')" by (simp add: pool_get_def is_in_cooldown_alt count_positive_def)
  with view_reports_cooling [OF o] o show ?thesis by auto
qed

text \<open>On a record with no mark of cooling, \<open>is_in_cooldown\<close> depends on time alone and ends for good.\<close>

lemma cooldown_ends_once:
  assumes "\<not> is_in_cooldown now m" "now \<le> later"
  shows "\<not> is_in_cooldown later m"
  using is_in_cooldown_mono_time assms by blast

lemma cooldown_ends_once_witness: "\<not> is_in_cooldown 20 [(''cooldown_until'', PFloat 10)]"
proof -
  have "\<not> is_in_cooldown 11 [(''cooldown_until'', PFloat 10)]"
    by (simp add: is_in_cooldown_alt count_positive_def stack_nonempty_def until_active_def norm_text_falsy)
  from cooldown_ends_once [OF this, of 20] show ?thesis by simp
qed

end
