(* ===== verification/Pool_Select.thy ===== *)
theory Pool_Select
  imports Pool_World "HOL-Library.Product_Lexorder" "HOL-Library.Multiset"
begin

text \<open>
  Choosing an account for a request (\<open>grok2api/pool/account_pool.py\<close>): \<open>acquire\<close> with its three modes and
  fall-backs, and the failover chain of \<open>try_acquire_sequence\<close>.

  The credentials the auth store lists, the pool snapshot and the outcome of random draws are arguments:
  a draw \<open>u\<close> in \<open>[0, 1)\<close> for \<open>random.choices\<close>, a function \<open>shuffle\<close> for \<open>random.shuffle\<close>. A view that cannot
  be computed is the exception that ends the call. The branches that recover an account by the clock
  are not entered, since \<open>PROBE_ONLY_COOLDOWN_RECOVERY\<close> is on. Credentials of one list are different
  objects with different keys.
\<close>

subsection \<open>Credentials\<close>

record credentials =
  c_token :: string
  c_email :: "string option"
  c_user_id :: "string option"
  c_expires_at :: "rat option"
  c_auth_key :: "string option"
  c_team_id :: "string option"
  c_refresh_token :: "string option"
  c_oidc_client_id :: "string option"

definition TOKEN_REFRESH_SKEW :: rat where "TOKEN_REFRESH_SKEW = 120"

definition expired :: "rat \<Rightarrow> credentials \<Rightarrow> bool" where
  "expired now c = (case c_expires_at c of None \<Rightarrow> False | Some t \<Rightarrow> t - 60 \<le> now)"

definition needs_refresh :: "rat \<Rightarrow> credentials \<Rightarrow> bool" where
  "needs_refresh now c =
     (case c_refresh_token c of
        None \<Rightarrow> False
      | Some r \<Rightarrow>
          (if r = [] then False
           else (case c_expires_at c of None \<Rightarrow> False | Some t \<Rightarrow> t - TOKEN_REFRESH_SKEW \<le> now)))"

definition text_or :: "string option \<Rightarrow> string" where
  "text_or o1 = (case o1 of None \<Rightarrow> [] | Some s \<Rightarrow> s)"

definition cred_id :: "credentials \<Rightarrow> string" where
  "cred_id c = text_or (c_auth_key c)"

definition mask :: "string option \<Rightarrow> string" where
  "mask token =
     (if text_or token = [] then []
      else if length (text_or token) \<le> 12 then ''****''
      else take 6 (text_or token) @ ''...'' @ drop (length (text_or token) - 4) (text_or token))"

subsection \<open>Eligibility\<close>

definition view :: "rat \<Rightarrow> pool \<Rightarrow> credentials \<Rightarrow> pydict option" where
  "view now state c = pool_meta now None (cred_id c) state"

definition label_expired :: "pydict \<Rightarrow> bool" where
  "label_expired meta = (norm_text (dget meta ''pool_status'') = ''expired'')"

definition meta_enabled :: "pydict \<Rightarrow> bool" where
  "meta_enabled meta = truthy (dget_or meta ''enabled'' (PBool True))"

text \<open>\<open>model and is_model_blocked(id, model, state, meta=meta)\<close>.\<close>

definition blocked_for :: "rat \<Rightarrow> bool \<Rightarrow> credentials \<Rightarrow> string option \<Rightarrow> pydict \<Rightarrow> bool" where
  "blocked_for now durable_only c model meta =
     (truthy (of_opt PStr model) \<and> is_model_blocked now durable_only (cred_id c) model meta)"

text \<open>A test on the view of a credential that is not expired; an expired one fails it unread.\<close>

definition on_view :: "rat \<Rightarrow> pool \<Rightarrow> (pydict \<Rightarrow> bool) \<Rightarrow> credentials \<Rightarrow> bool option" where
  "on_view now state P c = (if expired now c then Some False else map_option P (view now state c))"

definition eligible :: "rat \<Rightarrow> pool \<Rightarrow> string option \<Rightarrow> credentials \<Rightarrow> bool option" where
  "eligible now state model c =
     on_view now state (\<lambda>meta. \<not> label_expired meta \<and> truthy (dget meta ''enabled'') \<and>
       \<not> is_in_cooldown now meta \<and> \<not> blocked_for now False c model meta) c"

text \<open>A filter whose test may raise.\<close>

fun filter_opt :: "('a \<Rightarrow> bool option) \<Rightarrow> 'a list \<Rightarrow> 'a list option" where
  "filter_opt P [] = Some []"
| "filter_opt P (x # xs) =
     (case P x of
        None \<Rightarrow> None
      | Some b \<Rightarrow> map_option (\<lambda>ys. if b then x # ys else ys) (filter_opt P xs))"

text \<open>The first non-empty result of a list of passes, the last one when all are empty.\<close>

fun first_pass :: "('a \<Rightarrow> bool option) list \<Rightarrow> 'a list \<Rightarrow> 'a list option" where
  "first_pass [] xs = Some []"
| "first_pass (P # Ps) xs =
     (case filter_opt P xs of
        None \<Rightarrow> None
      | Some ys \<Rightarrow> (if ys \<noteq> [] then Some ys else first_pass Ps xs))"

subsection \<open>Load and health\<close>

text \<open>\<open>float(meta.get(k) or 0)\<close>: the counters of a view are numbers, so it does not raise.\<close>

definition num :: "pydict \<Rightarrow> string \<Rightarrow> rat" where
  "num meta k = (case float_or0 (dget meta k) of Some q \<Rightarrow> q | None \<Rightarrow> 0)"

definition health_penalty :: "rat \<Rightarrow> pydict \<Rightarrow> int \<Rightarrow> rat" where
  "health_penalty now meta inflight =
     (let pen = num meta ''consecutive_fails'' * 3;
          fails = num meta ''fail_count'';
          okc = num meta ''success_count'';
          total = max 1 (fails + okc);
          pen = pen + fails / total * 5;
          pen = (if is_in_cooldown now meta
                 then (case float_or0 (dget meta ''cooldown_until'') of
                         Some u \<Rightarrow> pen + max 0 (u - now) / 30
                       | None \<Rightarrow> pen + 2)
                 else pen)
      in (if 0 < inflight then pen + min 12 (of_int inflight * (5/2)) else pen))"

definition inflight_hint :: "rat \<Rightarrow> 's world \<Rightarrow> string \<Rightarrow> int" where
  "inflight_hint now w a = (if a = [] then 0 else max 0 (inflight_of now w a))"

definition soft_hint :: "rat \<Rightarrow> 's world \<Rightarrow> string \<Rightarrow> rat" where
  "soft_hint now w a =
     (if a = [] then 0
      else (case w_soft_used w a of
              Some su \<Rightarrow> (if 0 < su \<and> now - su \<le> LOCAL_SOFT_USED_TTL then su else 0)
            | None \<Rightarrow> 0))"

text \<open>\<open>_load_spread_hints\<close> also drops the in-flight marks that ran out.\<close>

definition spread_world :: "rat \<Rightarrow> string list \<Rightarrow> 's world \<Rightarrow> 's world" where
  "spread_world now ids w = (if ids = [] then w else w\<lparr>w_inflight := local_spread_purge now (w_inflight w)\<rparr>)"

definition effective_last_used :: "pydict \<Rightarrow> rat \<Rightarrow> rat" where
  "effective_last_used meta soft_ts = max (num meta ''last_used_at'') soft_ts"

definition view_or_empty :: "rat \<Rightarrow> pool \<Rightarrow> credentials \<Rightarrow> pydict" where
  "view_or_empty now state c = (case view now state c of Some m \<Rightarrow> m | None \<Rightarrow> [])"

subsection \<open>The three modes\<close>

definition pick_round_robin :: "'s world \<Rightarrow> credentials list \<Rightarrow> credentials \<times> 's world" where
  "pick_round_robin w xs =
     (let idx = w_rr_index w mod length xs
      in (xs ! idx, w\<lparr>w_rr_index := (idx + 1) mod length xs\<rparr>))"

definition pick_weight :: "rat \<Rightarrow> pool \<Rightarrow> 's world \<Rightarrow> credentials \<Rightarrow> rat" where
  "pick_weight now state w c =
     (let meta = view_or_empty now state c
      in max (5/100) (num meta ''weight'' / (1 + health_penalty now meta (inflight_hint now w (cred_id c)))))"

text \<open>\<open>random.choices(xs, weights)[0]\<close>: the first item whose cumulative weight exceeds the draw.\<close>

fun choose_at :: "rat \<Rightarrow> ('a \<times> rat) list \<Rightarrow> 'a option" where
  "choose_at t [] = None"
| "choose_at t [(x, wt)] = Some x"
| "choose_at t ((x, wt) # y # ys) = (if t < wt then Some x else choose_at (t - wt) (y # ys))"

definition pick_random :: "rat \<Rightarrow> pool \<Rightarrow> rat \<Rightarrow> 's world \<Rightarrow> credentials list \<Rightarrow> credentials option" where
  "pick_random now state u w xs =
     (let ws = map (pick_weight now state w) xs in choose_at (u * sum_list ws) (zip xs ws))"

definition least_used_score :: "rat \<Rightarrow> pool \<Rightarrow> 's world \<Rightarrow> credentials \<Rightarrow> rat \<times> rat \<times> rat" where
  "least_used_score now state w c =
     (let meta = view_or_empty now state c; infl = inflight_hint now w (cred_id c)
      in (health_penalty now meta infl, num meta ''request_count'' + of_int infl * 2,
          effective_last_used meta (soft_hint now w (cred_id c))))"

definition pick_least_used :: "rat \<Rightarrow> pool \<Rightarrow> 's world \<Rightarrow> credentials list \<Rightarrow> credentials" where
  "pick_least_used now state w xs = arg_min_list (least_used_score now state w) xs"

subsection \<open>Acquiring one account\<close>

definition acquire_passes :: "rat \<Rightarrow> pool \<Rightarrow> string option \<Rightarrow> (credentials \<Rightarrow> bool option) list" where
  "acquire_passes now state model =
     [eligible now state model,
      (\<lambda>c. on_view now state (\<lambda>meta. \<not> is_in_cooldown now meta \<and> \<not> label_expired meta \<and> meta_enabled meta \<and>
         \<not> blocked_for now True c model meta) c),
      on_view now state (\<lambda>meta. \<not> is_in_cooldown now meta \<and> \<not> label_expired meta \<and> meta_enabled meta),
      on_view now state (\<lambda>meta. \<not> is_in_cooldown now meta \<and> \<not> label_expired meta \<and>
         \<not> truthy (dget meta ''disabled_for_quota''))]"

text \<open>\<open>reload\<close> is \<open>load_credentials_by_id\<close>, which refreshes the token or raises.\<close>

definition ensure_fresh_creds :: "rat \<Rightarrow> (string \<Rightarrow> credentials option) \<Rightarrow> bool \<Rightarrow> credentials \<Rightarrow> credentials" where
  "ensure_fresh_creds now reload auto_refresh c =
     (if \<not> auto_refresh \<or> cred_id c = [] then c
      else if \<not> expired now c then c
      else if text_or (c_refresh_token c) = [] then c
      else (case reload (cred_id c) of Some c' \<Rightarrow> c' | None \<Rightarrow> c))"

definition pick :: "rat \<Rightarrow> string \<Rightarrow> pool \<Rightarrow> rat \<Rightarrow> 's world \<Rightarrow> credentials list \<Rightarrow> credentials \<times> 's world" where
  "pick now mode state u w xs =
     (if mode = ''random'' then
        (case pick_random now state u w xs of
           Some c \<Rightarrow> (c, spread_world now (map cred_id xs) w) | None \<Rightarrow> (hd xs, w))
      else if mode = ''least_used'' then (pick_least_used now state w xs, spread_world now (map cred_id xs) w)
      else pick_round_robin w xs)"

definition acquire ::
  "rat \<Rightarrow> string \<Rightarrow> credentials list \<Rightarrow> pool \<Rightarrow> string list \<Rightarrow> string option \<Rightarrow> bool
   \<Rightarrow> (string \<Rightarrow> credentials option) \<Rightarrow> rat \<Rightarrow> 's world \<Rightarrow> credentials result \<times> 's world" where
  "acquire now mode0 live state exclude model auto_refresh reload u w =
     (let mode = (if mode0 \<in> set VALID_ACCOUNT_MODES then mode0 else ''round_robin'');
          candidates = filter (\<lambda>c. cred_id c \<notin> set exclude) live
      in (case first_pass (acquire_passes now state model) candidates of
            None \<Rightarrow> (Raises, w)
          | Some xs \<Rightarrow>
              (if xs = [] then (Raises, w)
               else let (picked, w1) = pick now mode state u w xs;
                        out = ensure_fresh_creds now reload auto_refresh picked
                    in (Returns out, snd (note_account_pick now w1 (cred_id out))))))"

subsection \<open>Filters that may raise\<close>

lemma filter_opt_SomeD: "filter_opt P xs = Some ys \<Longrightarrow> ys = filter (\<lambda>x. P x = Some True) xs"
  by (induction xs arbitrary: ys) (auto split: option.splits if_splits)

lemma filter_opt_total: "(\<And>x. x \<in> set xs \<Longrightarrow> P x \<noteq> None) \<Longrightarrow> filter_opt P xs = Some (filter (\<lambda>x. P x = Some True) xs)"
  by (induction xs) (auto split: option.splits)

lemma first_pass_SomeD:
  "first_pass Ps xs = Some ys \<Longrightarrow> ys \<noteq> [] \<Longrightarrow> \<exists>P \<in> set Ps. ys = filter (\<lambda>x. P x = Some True) xs"
  by (induction Ps) (auto split: option.splits if_splits dest: filter_opt_SomeD)

lemma first_pass_head:
  "first_pass (P # Ps) xs = Some ys \<Longrightarrow> x \<in> set xs \<Longrightarrow> P x = Some True \<Longrightarrow>
     ys = filter (\<lambda>x. P x = Some True) xs"
  by (auto split: option.splits if_splits dest!: filter_opt_SomeD) (metis (mono_tags) filter_empty_conv)

lemma first_pass_total:
  "(\<And>P x. P \<in> set Ps \<Longrightarrow> x \<in> set xs \<Longrightarrow> P x \<noteq> None) \<Longrightarrow> \<exists>ys. first_pass Ps xs = Some ys \<and>
     (ys = [] \<longleftrightarrow> (\<forall>P \<in> set Ps. \<forall>x \<in> set xs. P x \<noteq> Some True))"
  by (induction Ps) (auto simp: filter_opt_total filter_empty_conv)

lemma on_view_TrueD:
  "on_view now st P c = Some True \<Longrightarrow> \<not> expired now c \<and> (\<exists>meta. view now st c = Some meta \<and> P meta)"
  by (auto simp: on_view_def split: if_splits)

lemma on_view_total: "view now st c \<noteq> None \<Longrightarrow> on_view now st P c \<noteq> None"
  by (cases "expired now c") (auto simp: on_view_def)

text \<open>What every pass of \<open>acquire\<close> asks of an account.\<close>

definition in_rotation :: "rat \<Rightarrow> pool \<Rightarrow> credentials \<Rightarrow> bool" where
  "in_rotation now st c =
     (\<not> expired now c \<and>
      (case view now st c of
         None \<Rightarrow> False
       | Some meta \<Rightarrow> \<not> is_in_cooldown now meta \<and> \<not> label_expired meta \<and>
           (meta_enabled meta \<or> \<not> truthy (dget meta ''disabled_for_quota''))))"

lemma view_enabled: "view now st c = Some meta \<Longrightarrow> truthy (dget meta ''enabled'') = meta_enabled meta"
  using pool_meta_get(1) [of now "cred_id c" st meta]
  by (auto simp: view_def meta_enabled_def dget_or_dget)

lemma passes_in_rotation:
  assumes "P \<in> set (acquire_passes now st model)" "P c = Some True"
  shows "in_rotation now st c"
  using assms by (auto simp: acquire_passes_def eligible_def in_rotation_def view_enabled dest!: on_view_TrueD)

lemma in_rotation_pass:
  assumes "in_rotation now st c"
  shows "\<exists>P \<in> set (acquire_passes now st model). P c = Some True"
  using assms by (auto simp: acquire_passes_def in_rotation_def on_view_def split: option.splits)

lemma passes_total:
  "view now st c \<noteq> None \<Longrightarrow> P \<in> set (acquire_passes now st model) \<Longrightarrow> P c \<noteq> None"
  by (auto simp: acquire_passes_def eligible_def on_view_def)

text \<open>What the view of a record answers, in terms of the record.\<close>

definition record_expired :: "pydict \<Rightarrow> bool" where
  "record_expired m =
     (norm_text (dget m ''pool_status'') = ''expired'' \<or>
      str_or_empty (dget m ''last_renew_status'') \<in> set renew_failed_statuses)"

definition record_enabled :: "pydict \<Rightarrow> bool" where
  "record_enabled m = truthy (dget_or m ''enabled'' (PBool True))"

lemma view_label_expired:
  assumes "view now st c = Some meta"
  shows "label_expired meta = record_expired (pool_get st (cred_id c))"
  using pool_meta_status [of now "cred_id c" st meta] assms
  by (auto simp: view_def label_expired_def record_expired_def norm_text_literal split: if_splits)

lemma view_cooling:
  assumes "view now st c = Some meta" "\<not> label_expired meta"
  shows "is_in_cooldown now meta = is_in_cooldown now (pool_get st (cred_id c))"
  using pool_meta_cooling_sound [of now "cred_id c" st meta] pool_meta_cooling_complete [of now "cred_id c" st meta] assms
  by (auto simp: view_def label_expired_def norm_text_literal)

lemma view_quota:
  "view now st c = Some meta \<Longrightarrow>
     truthy (dget meta ''disabled_for_quota'') = truthy (dget (pool_get st (cred_id c)) ''disabled_for_quota'')"
  using pool_meta_get(4) [of now "cred_id c" st meta] by (auto simp: view_def)

lemma view_record_enabled:
  "view now st c = Some meta \<Longrightarrow> meta_enabled meta = record_enabled (pool_get st (cred_id c))"
  using pool_meta_get(1) [of now "cred_id c" st meta]
  by (auto simp: view_def record_enabled_def simp flip: view_enabled [of now st c])

definition rotation_record :: "rat \<Rightarrow> pydict \<Rightarrow> bool" where
  "rotation_record now m =
     (\<not> is_in_cooldown now m \<and> \<not> record_expired m \<and>
      (record_enabled m \<or> \<not> truthy (dget m ''disabled_for_quota'')))"

lemma in_rotation_record:
  assumes "view now st c \<noteq> None"
  shows "in_rotation now st c \<longleftrightarrow> \<not> expired now c \<and> rotation_record now (pool_get st (cred_id c))"
proof -
  from assms obtain meta where m: "view now st c = Some meta" by blast
  show ?thesis
    using view_cooling [OF m] by (auto simp: in_rotation_def rotation_record_def m view_label_expired [OF m]
        view_quota [OF m] view_record_enabled [OF m])
qed

lemma in_rotation_not_cooling:
  assumes "in_rotation now st c"
  shows "\<not> is_in_cooldown now (pool_get st (cred_id c))"
proof -
  from assms have "view now st c \<noteq> None" by (auto simp: in_rotation_def split: option.splits)
  with assms show ?thesis by (simp add: in_rotation_record rotation_record_def)
qed

subsection \<open>What the modes return\<close>

lemma choose_at_mem: "choose_at t xs = Some x \<Longrightarrow> x \<in> fst ` set xs"
  by (induction t xs rule: choose_at.induct) (auto split: if_splits)

lemma choose_at_total: "xs \<noteq> [] \<Longrightarrow> choose_at t xs \<noteq> None"
  by (induction t xs rule: choose_at.induct) auto

lemma pick_mem: "xs \<noteq> [] \<Longrightarrow> fst (pick now mode st u w xs) \<in> set xs"
  by (auto simp: pick_def pick_random_def pick_least_used_def pick_round_robin_def Let_def arg_min_list_in
      split: option.splits dest!: choose_at_mem set_zip_leftD)

lemma fresh_creds_same: "\<not> expired now c \<Longrightarrow> ensure_fresh_creds now reload auto c = c"
  by (simp add: ensure_fresh_creds_def)

lemma acquire_ReturnsE:
  assumes "acquire now mode live st exclude model auto reload u w = (Returns c, w')"
  obtains xs where "first_pass (acquire_passes now st model) (filter (\<lambda>c. cred_id c \<notin> set exclude) live) = Some xs"
    "xs \<noteq> []" "c = fst (pick now (if mode \<in> set VALID_ACCOUNT_MODES then mode else ''round_robin'') st u w xs)"
    "c \<in> set xs" "in_rotation now st c"
    "w' = snd (note_account_pick now
       (snd (pick now (if mode \<in> set VALID_ACCOUNT_MODES then mode else ''round_robin'') st u w xs)) (cred_id c))"
proof -
  let ?m = "if mode \<in> set VALID_ACCOUNT_MODES then mode else ''round_robin''"
  let ?cs = "filter (\<lambda>c. cred_id c \<notin> set exclude) live"
  from assms obtain xs where xs: "first_pass (acquire_passes now st model) ?cs = Some xs" "xs \<noteq> []"
    and c: "c = ensure_fresh_creds now reload auto (fst (pick now ?m st u w xs))"
    and w': "w' = snd (note_account_pick now (snd (pick now ?m st u w xs)) (cred_id c))"
    by (auto simp: acquire_def Let_def split: option.splits if_splits prod.splits)
  let ?p = "fst (pick now ?m st u w xs)"
  from xs(2) have p: "?p \<in> set xs" by (rule pick_mem)
  from first_pass_SomeD [OF xs] p have r: "in_rotation now st ?p" by (auto intro: passes_in_rotation)
  then have "c = ?p" by (simp add: c in_rotation_def fresh_creds_same)
  with xs p r w' show thesis by (intro that) simp_all
qed

lemma acquire_returns_record:
  assumes "wf_file st"
  shows "(\<exists>c w'. acquire now mode live st exclude model auto reload u w = (Returns c, w')) \<longleftrightarrow>
    (\<exists>c \<in> set live. cred_id c \<notin> set exclude \<and> \<not> expired now c \<and>
       rotation_record now (pool_get st (cred_id c)))"
proof -
  let ?cs = "filter (\<lambda>c. cred_id c \<notin> set exclude) live"
  have v: "view now st c \<noteq> None" for c
    using assms typed_view by (auto simp: view_def wf_file_def)
  have tot: "P c \<noteq> None" if "P \<in> set (acquire_passes now st model)" for P c
    using passes_total [OF v that] .
  have "\<exists>xs. first_pass (acquire_passes now st model) ?cs = Some xs \<and>
      (xs = [] \<longleftrightarrow> (\<forall>P \<in> set (acquire_passes now st model). \<forall>x \<in> set ?cs. P x \<noteq> Some True))"
    by (rule first_pass_total) (rule tot)
  then obtain xs where xs: "first_pass (acquire_passes now st model) ?cs = Some xs"
    and e: "xs = [] \<longleftrightarrow> (\<forall>P \<in> set (acquire_passes now st model). \<forall>x \<in> set ?cs. P x \<noteq> Some True)"
    by auto
  have "(\<exists>c w'. acquire now mode live st exclude model auto reload u w = (Returns c, w')) \<longleftrightarrow> xs \<noteq> []"
    by (auto simp: acquire_def Let_def xs split: prod.splits)
  also have "\<dots> \<longleftrightarrow> (\<exists>c \<in> set ?cs. in_rotation now st c)"
    using e passes_in_rotation in_rotation_pass by metis
  finally show ?thesis by (auto simp: in_rotation_record [OF v])
qed

lemma acquire_state_unused [simp]:
  "w_store (snd (acquire now mode live st exclude model auto reload u w)) = w_store w"
  by (auto simp: acquire_def pick_def pick_round_robin_def spread_world_def Let_def
      split: option.splits prod.splits if_splits)

text \<open>Consecutive acquires at one moment of the pool.\<close>

primrec acquire_run :: "nat \<Rightarrow> ('s world \<Rightarrow> credentials result \<times> 's world) \<Rightarrow> 's world \<Rightarrow> credentials result list" where
  "acquire_run 0 acq w = []"
| "acquire_run (Suc n) acq w = (let (r, w') = acq w in r # acquire_run n acq w')"

lemma acquire_run_index:
  assumes "\<And>w. fst (acq w) = Returns (xs ! (w_rr_index w mod length xs))"
    and "\<And>w. w_rr_index (snd (acq w)) = (w_rr_index w mod length xs + 1) mod length xs"
  shows "acquire_run n acq w = map (\<lambda>i. Returns (xs ! ((w_rr_index w + i) mod length xs))) [0..<n]"
proof (induction n arbitrary: w)
  case (Suc n)
  have "acquire_run (Suc n) acq w = fst (acq w) # acquire_run n acq (snd (acq w))"
    by (simp add: case_prod_unfold Let_def)
  also have "\<dots> = Returns (xs ! (w_rr_index w mod length xs)) #
      map (\<lambda>i. Returns (xs ! ((w_rr_index w + Suc i) mod length xs))) [0..<n]"
    by (simp add: Suc.IH assms mod_simps add.commute add.left_commute)
  also have "\<dots> = map (\<lambda>i. Returns (xs ! ((w_rr_index w + i) mod length xs))) [0..<Suc n]"
    by (simp add: map_upt_Suc del: upt_Suc)
  finally show ?case .
qed simp

lemma rotation_mset:
  "mset (map (\<lambda>i. xs ! ((k + i) mod length xs)) [0..<length xs]) = mset xs"
proof (cases "xs = []")
  case False
  have "map (\<lambda>i. xs ! ((k + i) mod length xs)) [0..<length xs] = rotate k xs"
    by (rule nth_equalityI) (simp_all add: nth_rotate add.commute)
  then show ?thesis by (metis rotate_drop_take append_take_drop_id mset_append add.commute)
qed simp

text \<open>The candidates of the first pass, when there are any.\<close>

definition eligible_list :: "rat \<Rightarrow> credentials list \<Rightarrow> pool \<Rightarrow> string list \<Rightarrow> string option \<Rightarrow> credentials list" where
  "eligible_list now live st exclude model =
     filter (\<lambda>c. cred_id c \<notin> set exclude \<and> eligible now st model c = Some True) live"

lemma eligible_pass:
  assumes e: "eligible_list now live st exclude model \<noteq> []"
    and f: "first_pass (acquire_passes now st model) (filter (\<lambda>c. cred_id c \<notin> set exclude) live) = Some xs"
  shows "xs = eligible_list now live st exclude model"
proof -
  from e obtain c where c: "c \<in> set live" "cred_id c \<notin> set exclude" "eligible now st model c = Some True"
    by (auto simp: eligible_list_def filter_empty_conv)
  have "xs = filter (\<lambda>c. eligible now st model c = Some True) (filter (\<lambda>c. cred_id c \<notin> set exclude) live)"
    by (rule first_pass_head [OF f [unfolded acquire_passes_def]]) (use c in auto)
  then show ?thesis by (simp add: eligible_list_def conj_commute)
qed

lemma acquire_eligible:
  assumes "acquire now mode live st exclude model auto reload u w = (Returns c, w')"
    and e: "eligible_list now live st exclude model \<noteq> []"
  shows "c \<in> set (eligible_list now live st exclude model)"
  using assms(1) by (rule acquire_ReturnsE) (use eligible_pass [OF e] in blast)

lemma acquire_rr_step:
  assumes st: "wf_file st" and e: "eligible_list now live st exclude model \<noteq> []"
  defines "xs \<equiv> eligible_list now live st exclude model"
  shows "fst (acquire now ''round_robin'' live st exclude model auto reload u w) = Returns (xs ! (w_rr_index w mod length xs))"
    and "w_rr_index (snd (acquire now ''round_robin'' live st exclude model auto reload u w)) =
       (w_rr_index w mod length xs + 1) mod length xs"
proof -
  have v: "view now st c \<noteq> None" for c
    using st typed_view by (auto simp: view_def wf_file_def)
  have "\<exists>ys. first_pass (acquire_passes now st model) (filter (\<lambda>c. cred_id c \<notin> set exclude) live) = Some ys"
    using first_pass_total [of "acquire_passes now st model"] passes_total [OF v] by meson
  then have f: "first_pass (acquire_passes now st model) (filter (\<lambda>c. cred_id c \<notin> set exclude) live) = Some xs"
    using eligible_pass [OF e] by (auto simp: xs_def)
  let ?i = "w_rr_index w mod length xs"
  have "xs ! ?i \<in> set xs" using e by (simp add: xs_def)
  then have "\<not> expired now (xs ! ?i)" by (auto simp: xs_def eligible_list_def eligible_def dest!: on_view_TrueD)
  then have same: "ensure_fresh_creds now reload auto (xs ! ?i) = xs ! ?i" by (rule fresh_creds_same)
  have m: "''round_robin'' \<in> set VALID_ACCOUNT_MODES" by (simp add: VALID_ACCOUNT_MODES_def)
  have p: "pick now ''round_robin'' st u w xs = (xs ! ?i, w\<lparr>w_rr_index := (?i + 1) mod length xs\<rparr>)"
    by (simp add: pick_def pick_round_robin_def Let_def)
  have idx: "w_rr_index (snd (note_account_pick now w2 a)) = w_rr_index w2" for w2 :: "'a world" and a
    by (simp add: note_account_pick_def Let_def split: prod.split)
  have a: "acquire now ''round_robin'' live st exclude model auto reload u w =
      (Returns (xs ! ?i), snd (note_account_pick now (w\<lparr>w_rr_index := (?i + 1) mod length xs\<rparr>) (cred_id (xs ! ?i))))"
    using e unfolding acquire_def Let_def if_P [OF m] f option.case p prod.case
    by (simp add: same xs_def [symmetric])
  show "fst (acquire now ''round_robin'' live st exclude model auto reload u w) = Returns (xs ! ?i)"
    and "w_rr_index (snd (acquire now ''round_robin'' live st exclude model auto reload u w)) = (?i + 1) mod length xs"
    unfolding a by (simp_all add: idx)
qed

subsection \<open>In-flight counts\<close>

lemma inflight_spread: "inflight_of now (spread_world now ids w) b = inflight_of now w b"
  by (auto simp: inflight_of_def spread_world_def local_spread_purge_def split: option.splits)

lemma inflight_rr [simp]: "inflight_of now (w\<lparr>w_rr_index := i\<rparr>) b = inflight_of now w b"
  by (simp add: inflight_of_def)

lemma inflight_pick: "inflight_of now (snd (pick now mode st u w xs)) b = inflight_of now w b"
  by (simp add: pick_def pick_round_robin_def Let_def inflight_spread split: option.split)

lemma acquire_inflight:
  assumes "acquire now mode live st exclude model auto reload u w = (Returns c, w')" "cred_id c \<noteq> []"
  shows "inflight_of now w' b = inflight_of now w b + (if b = cred_id c then 1 else 0)"
  using assms(1)
proof (rule acquire_ReturnsE)
  fix xs
  assume w': "w' = snd (note_account_pick now
      (snd (pick now (if mode \<in> set VALID_ACCOUNT_MODES then mode else ''round_robin'') st u w xs)) (cred_id c))"
  have "inflight_of now w' b = (if b = cred_id c then inflight_of now w (cred_id c) + 1 else inflight_of now w b)"
    unfolding w' inflight_note [OF assms(2)] inflight_pick by (rule refl)
  then show ?thesis by simp
qed

end
