(* ===== verification/Pool_Sequence.thy ===== *)
theory Pool_Sequence
  imports Pool_Select
begin

text \<open>
  The failover chain of one request, \<open>try_acquire_sequence\<close> of \<open>grok2api/pool/account_pool.py\<close>: the fast path
  of a pinned conversation, the candidate window, the four passes over it, the expanded window, the order
  of each mode, and the cut to the attempt limit.

  What the function reads besides the store is the record \<open>chain_env\<close>: the listed credentials, the warm
  caches (\<open>None\<close> when cold), the batch read of records (\<open>None\<close> when it raises), the two shuffles of the
  random mode and the value of \<open>max_failover_attempts()\<close>.
\<close>

record chain_env =
  ce_mode :: string
  ce_live :: "credentials list"
  ce_peek :: "string \<Rightarrow> credentials option"
  ce_cached_live :: "credentials list option"
  ce_cached_state :: "pool option"
  ce_many :: "string list \<Rightarrow> pool option"
  ce_shuffle_window :: "credentials list \<Rightarrow> credentials list"
  ce_shuffle_order :: "credentials list \<Rightarrow> credentials list"
  ce_failover :: int

subsection \<open>Batch reads\<close>

definition clean_ids :: "string list \<Rightarrow> string list" where
  "clean_ids ids = filter (\<lambda>a. a \<noteq> []) (map strip ids)"

definition file_meta_many :: "pool \<Rightarrow> string list \<Rightarrow> pool" where
  "file_meta_many s ids =
     fold (\<lambda>a out. case map_of s a of Some m \<Rightarrow> pool_put out a m | None \<Rightarrow> out) (clean_ids ids) []"

definition state_update :: "pool \<Rightarrow> pool \<Rightarrow> pool" where
  "state_update state batch = fold (\<lambda>(a, m) s. pool_put s a m) batch state"

definition hydrate :: "chain_env \<Rightarrow> credentials list \<Rightarrow> pool \<Rightarrow> pool" where
  "hydrate env cs state =
     (if ce_cached_state env \<noteq> None \<or> cs = [] then state
      else (case ce_many env (filter (\<lambda>a. a \<noteq> []) (map cred_id cs)) of
              None \<Rightarrow> state
            | Some batch \<Rightarrow> state_update state batch))"

subsection \<open>The pinned account\<close>

text \<open>An account answers to its key, its user id and the user id at the end of its key.\<close>

definition answers_to :: "string \<Rightarrow> credentials \<Rightarrow> bool" where
  "answers_to pref c =
     (cred_id c = pref \<or> c_user_id c = Some pref \<or> ends_with (cred_id c) (''::'' @ pref))"

text \<open>Take the items that pass, in order, stopping after \<open>n\<close> of them.\<close>

fun collect_opt :: "nat \<Rightarrow> ('a \<Rightarrow> bool option) \<Rightarrow> 'a list \<Rightarrow> 'a list option" where
  "collect_opt n P [] = Some []"
| "collect_opt n P (x # xs) =
     (case P x of
        None \<Rightarrow> None
      | Some b \<Rightarrow>
          (if \<not> b then collect_opt n P xs
           else if n \<le> 1 then Some [x]
           else map_option ((#) x) (collect_opt (n - 1) P xs)))"

definition same_user_as :: "credentials \<Rightarrow> credentials \<Rightarrow> bool" where
  "same_user_as first c =
     (let uid = text_or (c_user_id first)
      in uid \<noteq> [] \<and> (c_user_id c = Some uid \<or> ends_with (cred_id c) (''::'' @ uid)))"

definition backup_ok ::
  "rat \<Rightarrow> pool \<Rightarrow> string option \<Rightarrow> credentials \<Rightarrow> credentials \<Rightarrow> bool option" where
  "backup_ok now warm model first c =
     (if cred_id c = [] \<or> cred_id c = cred_id first \<or> same_user_as first c \<or> expired now c then Some False
      else if warm = [] then Some True
      else map_option (\<lambda>meta. meta_enabled meta \<and> \<not> is_in_cooldown now meta \<and>
             \<not> blocked_for now False c model meta) (view now warm c))"

definition chain_limit :: "int option \<Rightarrow> nat" where
  "chain_limit max_attempts =
     nat (max 1 (case max_attempts of Some n \<Rightarrow> n | None \<Rightarrow> MAX_FAILOVER_ATTEMPTS))"

definition backups :: "rat \<Rightarrow> chain_env \<Rightarrow> int option \<Rightarrow> string option \<Rightarrow> credentials \<Rightarrow> credentials list" where
  "backups now env max_attempts model first =
     (if chain_limit max_attempts \<le> 1 then []
      else (case collect_opt (chain_limit max_attempts - 1)
                   (backup_ok now (case ce_cached_state env of Some s \<Rightarrow> s | None \<Rightarrow> []) model first)
                   (case ce_cached_live env of Some cs \<Rightarrow> cs | None \<Rightarrow> []) of
              Some cs \<Rightarrow> cs
            | None \<Rightarrow> []))"

definition sticky_ready :: "rat \<Rightarrow> string option \<Rightarrow> credentials \<Rightarrow> pydict \<Rightarrow> bool" where
  "sticky_ready now model c sm =
     (meta_enabled sm \<and> \<not> truthy (dget sm ''disabled_for_quota'') \<and> \<not> is_in_cooldown now sm \<and>
      \<not> label_expired sm \<and> \<not> blocked_for now False c model sm \<and> num sm ''consecutive_fails'' < 2 \<and>
      \<not> expired now c \<and> c_token c \<noteq> [])"

text \<open>\<open>Some (Returns cs)\<close> is the early return, \<open>Some Raises\<close> an exception of the view, \<open>None\<close> the full path.\<close>

definition sticky_path ::
  "'s store_ops \<Rightarrow> rat \<Rightarrow> chain_env \<Rightarrow> int option \<Rightarrow> string option \<Rightarrow> string \<Rightarrow> 's world
   \<Rightarrow> credentials list result option" where
  "sticky_path ops now env max_attempts model pref w =
     (case (if pref = [] then None else ce_peek env pref) of
        None \<Rightarrow> None
      | Some c \<Rightarrow>
          (if cred_id c = [] then None
           else (case w_view ops now w (cred_id c) of
                   None \<Rightarrow> Some Raises
                 | Some sm \<Rightarrow>
                     (if sticky_ready now model c sm
                      then Some (Returns (c # backups now env max_attempts model c)) else None))))"

subsection \<open>The candidate window\<close>

definition usable :: "rat \<Rightarrow> credentials list \<Rightarrow> credentials list" where
  "usable now cs = filter (\<lambda>c. \<not> expired now c) cs"

definition pref_first :: "string \<Rightarrow> credentials list \<Rightarrow> credentials list" where
  "pref_first pref cs =
     (if pref = [] then cs else filter (answers_to pref) cs @ filter (\<lambda>c. \<not> answers_to pref c) cs)"

definition rotate_at :: "nat \<Rightarrow> 'a list \<Rightarrow> 'a list" where
  "rotate_at start xs = drop start xs @ take start xs"

definition window_size :: "int option \<Rightarrow> credentials list \<Rightarrow> nat" where
  "window_size max_attempts order = min (length order) (max 24 (chain_limit max_attempts * 12))"

text \<open>\<open>sticky_w + [c for c in pool_window if c not in sticky_w]\<close>.\<close>

definition pin_window :: "string \<Rightarrow> credentials list \<Rightarrow> credentials list" where
  "pin_window pref win =
     (let sticky_w = (if pref = [] then [] else filter (answers_to pref) win)
      in (if sticky_w = [] then win else sticky_w @ filter (\<lambda>c. c \<notin> set sticky_w) win))"

definition pool_window ::
  "chain_env \<Rightarrow> int option \<Rightarrow> string \<Rightarrow> credentials list \<Rightarrow> 's world \<Rightarrow> credentials list \<times> 's world" where
  "pool_window env max_attempts pref order w =
     (let n = window_size max_attempts order
      in (if ce_mode env = ''random'' \<and> n < length order then (take n (ce_shuffle_window env order), w)
          else if ce_mode env \<noteq> ''least_used'' \<and> n < length order then
            (let start = w_rr_index w mod length order
             in (pin_window pref (take n (rotate_at start order)),
                 w\<lparr>w_rr_index := (start + 1) mod length order\<rparr>))
          else (take (min (length order) (max n 64)) order, w)))"

subsection \<open>The passes\<close>

definition window_ok :: "rat \<Rightarrow> string option \<Rightarrow> bool \<Rightarrow> pool \<Rightarrow> credentials \<Rightarrow> bool option" where
  "window_ok now model durable_only state c =
     on_view now state (\<lambda>meta. \<not> is_in_cooldown now meta \<and> meta_enabled meta \<and>
       \<not> blocked_for now durable_only c model meta) c"

definition window_passes :: "rat \<Rightarrow> string option \<Rightarrow> pool \<Rightarrow> (credentials \<Rightarrow> bool option) list" where
  "window_passes now model state =
     [window_ok now model False state, window_ok now model True state,
      on_view now state (\<lambda>meta. \<not> is_in_cooldown now meta \<and> meta_enabled meta),
      on_view now state (\<lambda>meta. \<not> is_in_cooldown now meta \<and> \<not> truthy (dget meta ''disabled_for_quota''))]"

definition expand ::
  "rat \<Rightarrow> chain_env \<Rightarrow> int option \<Rightarrow> string option \<Rightarrow> credentials list \<Rightarrow> credentials list \<Rightarrow> pool
   \<Rightarrow> (credentials list \<times> pool) option" where
  "expand now env max_attempts model order win state =
     (let extra = take (max 32 (window_size max_attempts order)) (filter (\<lambda>c. c \<notin> set win) order);
          state' = hydrate env extra state
      in map_option (\<lambda>cs. (cs, state'))
           (collect_opt (max 8 (chain_limit max_attempts * 2)) (window_ok now model False state') extra))"

definition candidates ::
  "rat \<Rightarrow> chain_env \<Rightarrow> int option \<Rightarrow> string option \<Rightarrow> credentials list \<Rightarrow> credentials list \<Rightarrow> pool
   \<Rightarrow> (credentials list \<times> pool) option" where
  "candidates now env max_attempts model order win state =
     (case first_pass (window_passes now model state) win of
        None \<Rightarrow> None
      | Some cs \<Rightarrow>
          (if cs \<noteq> [] \<or> order = [] then Some (cs, state)
           else expand now env max_attempts model order win state))"

definition user_key :: "credentials \<Rightarrow> string" where
  "user_key c = (if text_or (c_user_id c) = [] then cred_id c else text_or (c_user_id c))"

fun dedupe_users :: "string list \<Rightarrow> credentials list \<Rightarrow> credentials list" where
  "dedupe_users seen [] = []"
| "dedupe_users seen (c # cs) =
     (if user_key c \<in> set seen then dedupe_users seen cs
      else c # dedupe_users (user_key c # seen) cs)"

subsection \<open>Order, pin and cut\<close>

definition penalty :: "rat \<Rightarrow> pool \<Rightarrow> 's world \<Rightarrow> credentials \<Rightarrow> rat" where
  "penalty now state w c =
     health_penalty now (view_or_empty now state c) (inflight_hint now w (cred_id c))"

definition ordered :: "rat \<Rightarrow> chain_env \<Rightarrow> pool \<Rightarrow> 's world \<Rightarrow> credentials list \<Rightarrow> credentials list" where
  "ordered now env state w cs =
     (if ce_mode env = ''random'' then sort_key (penalty now state w) (ce_shuffle_order env cs)
      else if ce_mode env = ''least_used'' then sort_key (least_used_score now state w) cs
      else sort_key (\<lambda>c. (floor (penalty now state w c / 3), inflight_hint now w (cred_id c))) cs)"

definition pin_first ::
  "rat \<Rightarrow> pool \<Rightarrow> string option \<Rightarrow> string \<Rightarrow> credentials list \<Rightarrow> credentials list" where
  "pin_first now state model pref cs =
     (if pref = [] then cs
      else let sticky = filter (answers_to pref) cs;
               rest = filter (\<lambda>c. \<not> answers_to pref c) cs
           in (case sticky of
                 [] \<Rightarrow> cs
               | c # _ \<Rightarrow>
                   (let sm = view_or_empty now state c
                    in (if blocked_for now False c model sm \<or> 2 \<le> num sm ''consecutive_fails'' \<or> expired now c
                        then rest @ sticky else sticky @ rest))))"

definition attempt_limit :: "chain_env \<Rightarrow> int option \<Rightarrow> nat \<Rightarrow> int" where
  "attempt_limit env max_attempts ready =
     (case max_attempts of
        Some n \<Rightarrow> n
      | None \<Rightarrow>
          (if ready < 2
           then max (if ce_failover env = 0 then 1 else ce_failover env)
                  (min 8 (max 4 (if ready = 0 then 4 else int ready)))
           else ce_failover env))"

definition cut_chain :: "chain_env \<Rightarrow> int option \<Rightarrow> credentials list \<Rightarrow> credentials list" where
  "cut_chain env max_attempts cs = take (nat (max 1 (attempt_limit env max_attempts (length cs)))) cs"

definition full_path ::
  "rat \<Rightarrow> chain_env \<Rightarrow> int option \<Rightarrow> string option \<Rightarrow> string \<Rightarrow> 's world
   \<Rightarrow> credentials list result \<times> 's world" where
  "full_path now env max_attempts model pref w =
     (let order = pref_first pref (usable now (ce_live env));
          (win, w1) = pool_window env max_attempts pref order w;
          state = hydrate env win (case ce_cached_state env of Some s \<Rightarrow> s | None \<Rightarrow> [])
      in (case candidates now env max_attempts model order win state of
            None \<Rightarrow> (Raises, w1)
          | Some (cs, state') \<Rightarrow>
              (let ready = dedupe_users [] cs;
                   w2 = spread_world now (filter (\<lambda>a. a \<noteq> []) (map cred_id ready)) w1;
                   out = usable now (cut_chain env max_attempts
                           (pin_first now state' model pref (ordered now env state' w2 ready)))
               in (Returns out, if out = [] then w2 else snd (note_account_pick now w2 (cred_id (hd out)))))))"

definition try_acquire_sequence ::
  "'s store_ops \<Rightarrow> rat \<Rightarrow> chain_env \<Rightarrow> int option \<Rightarrow> string option \<Rightarrow> string \<Rightarrow> 's world
   \<Rightarrow> credentials list result \<times> 's world" where
  "try_acquire_sequence ops now env max_attempts model pref w =
     (case sticky_path ops now env max_attempts model pref w of
        Some r \<Rightarrow> (r, w)
      | None \<Rightarrow> full_path now env max_attempts model pref w)"

subsection \<open>The pieces of a chain\<close>

lemma collect_opt_SomeD:
  "collect_opt n P xs = Some ys \<Longrightarrow> ys = take (max 1 n) (filter (\<lambda>x. P x = Some True) xs)"
proof (induction xs arbitrary: n ys)
  case (Cons x xs)
  then obtain b where b: "P x = Some b" by (auto split: option.splits)
  consider "\<not> b" | "b" "n \<le> 1" | "b" "1 < n" by linarith
  then show ?case
  proof cases
    case 1
    with Cons.prems b have "collect_opt n P xs = Some ys" by simp
    from Cons.IH [OF this] 1 b show ?thesis by simp
  next
    case 3
    with Cons.prems b obtain zs where zs: "collect_opt (n - 1) P xs = Some zs" "ys = x # zs" by auto
    from Cons.IH [OF zs(1)] zs(2) 3 b show ?thesis by (cases n) (auto simp: max_def)
  qed (use Cons.prems b in \<open>simp add: max_def\<close>)
qed simp

lemma dedupe_subset: "set (dedupe_users seen cs) \<subseteq> set cs"
  by (induction seen cs rule: dedupe_users.induct) auto

lemma dedupe_distinct:
  "distinct (map user_key (dedupe_users seen cs)) \<and> user_key ` set (dedupe_users seen cs) \<inter> set seen = {}"
  by (induction seen cs rule: dedupe_users.induct) auto

lemma dedupe_covers: "user_key ` set cs \<subseteq> user_key ` set (dedupe_users seen cs) \<union> set seen"
  by (induction seen cs rule: dedupe_users.induct) auto

lemma dedupe_empty_iff: "dedupe_users [] cs = [] \<longleftrightarrow> cs = []"
  using dedupe_covers [of cs "[]"] by (cases cs) auto

text \<open>What \<open>random.shuffle\<close> promises.\<close>

definition shuffles :: "chain_env \<Rightarrow> bool" where
  "shuffles env \<longleftrightarrow>
     (\<forall>cs. mset (ce_shuffle_window env cs) = mset cs \<and> mset (ce_shuffle_order env cs) = mset cs)"

lemma mset_filter_split: "mset (filter P xs) + mset (filter (\<lambda>x. \<not> P x) xs) = mset xs"
  by (induction xs) auto

lemma ordered_mset: "shuffles env \<Longrightarrow> mset (ordered now env st w cs) = mset cs"
  by (simp add: ordered_def shuffles_def)

lemma pin_first_mset: "mset (pin_first now st model pref cs) = mset cs"
  using mset_filter_split [of "answers_to pref" cs]
  by (simp add: pin_first_def Let_def add.commute split: list.split)

lemma pref_first_set: "set (pref_first pref cs) = set cs"
  by (auto simp: pref_first_def)

lemma pool_window_subset:
  assumes "shuffles env"
  shows "set (fst (pool_window env m pref order w)) \<subseteq> set order"
proof -
  have "set (rotate_at k xs) = set xs" for k and xs :: "credentials list"
    unfolding rotate_at_def by (metis append_take_drop_id set_append Un_commute)
  then have r: "set (take n (rotate_at k xs)) \<subseteq> set xs" for n k and xs :: "credentials list"
    using set_take_subset by metis
  have p: "set (pin_window pref win) \<subseteq> set win" for win
    by (auto simp: pin_window_def Let_def split: if_splits)
  have "set (ce_shuffle_window env order) = set order"
    using assms mset_eq_setD by (auto simp: shuffles_def)
  with p r show ?thesis
    using set_take_subset [of _ order] set_take_subset [of _ "ce_shuffle_window env order"]
    by (auto simp: pool_window_def Let_def) (meson subsetD)+
qed

subsection \<open>Reading the records of a chain\<close>

text \<open>
  The environment reads the store \<open>s\<close>: the warm cache is \<open>s\<close>, or the cache is cold and the batch read returns
  the records of the ids asked for.
\<close>

definition reads_from :: "chain_env \<Rightarrow> pool \<Rightarrow> bool" where
  "reads_from env s \<longleftrightarrow>
     (case ce_cached_state env of
        Some s' \<Rightarrow> s' = s
      | None \<Rightarrow> (\<forall>ids. (\<forall>a \<in> set ids. good_id a) \<longrightarrow>
          (\<exists>b. ce_many env ids = Some b \<and> distinct (map fst b) \<and>
             (\<forall>a. map_of b a = (if a \<in> set ids then map_of s a else None)))))"

definition agrees :: "pool \<Rightarrow> pool \<Rightarrow> bool" where
  "agrees s st \<longleftrightarrow> (\<forall>a. pool_get st a = [] \<or> pool_get st a = pool_get s a)"

lemma pool_get_state_update:
  "distinct (map fst b) \<Longrightarrow> pool_get (state_update st b) a =
     (case map_of b a of Some m \<Rightarrow> m | None \<Rightarrow> pool_get st a)"
proof (induction b arbitrary: st)
  case (Cons x b)
  obtain k m where x: "x = (k, m)" by (cases x)
  then have "map_of b k = None" using Cons.prems by (auto simp: map_of_eq_None_iff)
  with Cons x show ?case by (auto simp: state_update_def split: option.splits)
qed (simp add: state_update_def)

lemma hydrate_reads:
  assumes r: "reads_from env s" and g: "\<forall>c \<in> set cs. good_id (cred_id c)"
    and a: "agrees s st" and w: "ce_cached_state env \<noteq> None \<Longrightarrow> st = s"
  shows "agrees s (hydrate env cs st) \<and> (\<forall>c \<in> set cs. pool_get (hydrate env cs st) (cred_id c) = pool_get s (cred_id c))"
proof (cases "ce_cached_state env \<noteq> None \<or> cs = []")
  case True
  then show ?thesis using a w by (auto simp: hydrate_def)
next
  case False
  let ?ids = "filter (\<lambda>a. a \<noteq> []) (map cred_id cs)"
  have gi: "\<forall>a \<in> set ?ids. good_id a" using g by auto
  from False have "ce_cached_state env = None" by simp
  with r gi obtain b where b: "ce_many env ?ids = Some b" "distinct (map fst b)"
    "\<And>a. map_of b a = (if a \<in> set ?ids then map_of s a else None)"
    unfolding reads_from_def by (simp only: option.case) blast
  have h: "pool_get (hydrate env cs st) x =
      (if x \<in> set ?ids \<and> map_of s x \<noteq> None then pool_get s x else pool_get st x)" for x
  proof -
    have "hydrate env cs st = state_update st b" using False b(1) by (simp add: hydrate_def)
    then show ?thesis
      using b(3) [of x] by (auto simp: pool_get_state_update [OF b(2)] pool_get_def [of s] split: option.splits)
  qed
  have n: "cred_id c \<in> set ?ids" if "c \<in> set cs" for c
    using g that by (auto simp: good_id_def)
  have miss: "pool_get st x = pool_get s x" if "map_of s x = None" for x
    using a that by (auto simp: agrees_def pool_get_def)
  show ?thesis
    using a n miss unfolding agrees_def h by (simp add: imp_disj1)
qed

lemma view_cong: "pool_get st (cred_id c) = pool_get s (cred_id c) \<Longrightarrow> view now st c = view now s c"
  by (simp add: view_def pool_meta_def Let_def)

lemma file_meta_many_reads:
  assumes "ce_cached_state env = None" "ce_many env = (\<lambda>ids. Some (file_meta_many s ids))"
  shows "reads_from env s"
proof -
  let ?f = "\<lambda>a out. case map_of s a of Some m \<Rightarrow> pool_put out a m | None \<Rightarrow> out"
  have f: "map_of (fold ?f ids out) a =
      (if a \<in> set ids \<and> map_of s a \<noteq> None then map_of s a else map_of out a)" for ids out a
    by (induction ids arbitrary: out) (auto simp: pool_put_def update_conv' split: option.splits)
  have d: "distinct (map fst out) \<Longrightarrow> distinct (map fst (fold ?f ids out))" for ids out
    by (induction ids arbitrary: out) (auto simp: pool_put_def distinct_update split: option.splits)
  have c: "clean_ids ids = ids" if "\<forall>a \<in> set ids. good_id a" for ids
    using that by (induction ids) (auto simp: clean_ids_def good_id_def)
  show ?thesis
    using assms by (auto simp: reads_from_def file_meta_many_def c f d)
qed

subsection \<open>The chain\<close>

definition not_cooling_in :: "rat \<Rightarrow> pool \<Rightarrow> credentials \<Rightarrow> bool" where
  "not_cooling_in now s c =
     (\<not> expired now c \<and> (case view now s c of None \<Rightarrow> False | Some meta \<Rightarrow> \<not> is_in_cooldown now meta))"

lemma window_pass_not_cooling:
  "P \<in> set (window_passes now model st) \<Longrightarrow> P c = Some True \<Longrightarrow> not_cooling_in now st c"
  by (auto simp: window_passes_def window_ok_def not_cooling_in_def dest!: on_view_TrueD)

lemma window_ok_not_cooling: "window_ok now model d st c = Some True \<Longrightarrow> not_cooling_in now st c"
  by (auto simp: window_ok_def not_cooling_in_def dest!: on_view_TrueD)

lemma candidates_sound:
  assumes c: "candidates now env m model order win st = Some (cs, st')"
    and r: "reads_from env s" and g: "\<forall>c \<in> set order. good_id (cred_id c)"
    and win: "set win \<subseteq> set order" and st: "st = hydrate env win (case ce_cached_state env of Some s \<Rightarrow> s | None \<Rightarrow> [])"
    and x: "x \<in> set cs"
  shows "x \<in> set order \<and> not_cooling_in now s x"
proof -
  let ?st0 = "case ce_cached_state env of Some s \<Rightarrow> s | None \<Rightarrow> []"
  have w0: "?st0 = s" if "ce_cached_state env \<noteq> None"
    using r that by (auto simp: reads_from_def)
  have a0: "agrees s ?st0" using r by (auto simp: reads_from_def agrees_def pool_get_def split: option.splits)
  have gw: "\<forall>c \<in> set win. good_id (cred_id c)" using g win by blast
  note hw = hydrate_reads [OF r gw a0 w0, folded st]
  have ws: "st = s" if "ce_cached_state env \<noteq> None" using that w0 st by (simp add: hydrate_def)
  have keep: "not_cooling_in now s y" if "not_cooling_in now t y" "pool_get t (cred_id y) = pool_get s (cred_id y)" for t y
    using that view_cong [OF that(2)] by (simp add: not_cooling_in_def)
  from c obtain fp where fp: "first_pass (window_passes now model st) win = Some fp"
    and rest: "(if fp \<noteq> [] \<or> order = [] then Some (fp, st) else expand now env m model order win st) = Some (cs, st')"
    by (auto simp: candidates_def split: option.splits)
  show ?thesis
  proof (cases "fp \<noteq> [] \<or> order = []")
    case True
    with rest x have "fp \<noteq> []" "cs = fp" by auto
    with first_pass_SomeD [OF fp] x obtain P where "P \<in> set (window_passes now model st)" "P x = Some True" "x \<in> set win"
      by auto
    then show ?thesis using win hw keep window_pass_not_cooling by blast
  next
    case False
    define extra where "extra = take (max 32 (window_size m order)) (filter (\<lambda>c. c \<notin> set win) order)"
    have sub: "set extra \<subseteq> set order" using set_take_subset unfolding extra_def by fastforce
    have ge: "\<forall>c \<in> set extra. good_id (cred_id c)" using g sub by blast
    note he = hydrate_reads [OF r ge conjunct1 [OF hw] ws]
    from False rest obtain ys where
      "collect_opt (max 8 (chain_limit m * 2)) (window_ok now model False (hydrate env extra st)) extra = Some ys" "cs = ys"
      by (auto simp: expand_def Let_def extra_def)
    then have "x \<in> set extra" "window_ok now model False (hydrate env extra st) x = Some True"
      using x by (auto dest!: collect_opt_SomeD in_set_takeD)
    then show ?thesis using sub he keep window_ok_not_cooling by blast
  qed
qed

lemma full_path_ReturnsE:
  assumes "full_path now env m model pref w = (Returns out, w')" and "shuffles env"
  obtains order win w1 st cs st' where
    "order = pref_first pref (usable now (ce_live env))" "pool_window env m pref order w = (win, w1)"
    "st = hydrate env win (case ce_cached_state env of Some s \<Rightarrow> s | None \<Rightarrow> [])"
    "candidates now env m model order win st = Some (cs, st')"
    "mset out \<subseteq># mset (dedupe_users [] cs)"
    "length out \<le> nat (max 1 (attempt_limit env m (length (dedupe_users [] cs))))"
    "\<forall>c \<in> set out. \<not> expired now c"
proof -
  define order where "order = pref_first pref (usable now (ce_live env))"
  obtain win w1 where win: "pool_window env m pref order w = (win, w1)" by force
  define st where "st = hydrate env win (case ce_cached_state env of Some s \<Rightarrow> s | None \<Rightarrow> [])"
  from assms(1) obtain cs st' where cs: "candidates now env m model order win st = Some (cs, st')"
    by (auto simp: full_path_def order_def [symmetric] win st_def [symmetric] Let_def split: option.splits)
  define ready where "ready = dedupe_users [] cs"
  define xs where "xs = pin_first now st' model pref (ordered now env st'
      (spread_world now (filter (\<lambda>a. a \<noteq> []) (map cred_id ready)) w1) ready)"
  have out: "out = usable now (cut_chain env m xs)"
    using assms(1) by (auto simp: full_path_def order_def [symmetric] win st_def [symmetric] cs Let_def
        ready_def [symmetric] xs_def [symmetric])
  have xs: "mset xs = mset ready"
    by (simp add: xs_def pin_first_mset ordered_mset assms(2))
  then have len: "length xs = length ready" by (rule mset_eq_length)
  have "mset (take n xs) \<subseteq># mset xs" for n
    by (metis append_take_drop_id mset_append mset_subset_eq_add_left)
  then have "mset out \<subseteq># mset ready"
    unfolding out usable_def cut_chain_def by (metis xs multiset_filter_subset mset_filter subset_mset.order_trans)
  moreover have "length out \<le> nat (max 1 (attempt_limit env m (length ready)))"
    unfolding out usable_def cut_chain_def
    by (rule order_trans [OF length_filter_le]) (simp add: len)
  moreover have "\<forall>c \<in> set out. \<not> expired now c" by (simp add: out usable_def)
  ultimately show thesis
    using that [OF order_def win st_def cs] by (simp add: ready_def)
qed

lemma distinct_submset:
  "mset xs \<subseteq># mset ys \<Longrightarrow> distinct (map f ys) \<Longrightarrow> distinct (map f xs)"
proof -
  assume sub: "mset xs \<subseteq># mset ys" and d: "distinct (map f ys)"
  have le: "count (mset (map f xs)) a \<le> count (mset (map f ys)) a" for a
    using image_mset_subseteq_mono [OF sub, of f] by (metis mset_map mset_subset_eq_count)
  have one: "count (mset (map f ys)) a \<le> 1" for a
    using d unfolding distinct_count_atmost_1 by simp
  show ?thesis
    unfolding distinct_count_atmost_1
  proof
    fix a
    show "count (mset (map f xs)) a = (if a \<in> set (map f xs) then 1 else 0)"
    proof (cases "a \<in> set (map f xs)")
      case True
      then have "0 < count (mset (map f xs)) a" by (simp only: count_greater_zero_iff set_mset_mset)
      then have "count (mset (map f xs)) a = 1" using order_trans [OF le one, of a] by linarith
      with True show ?thesis by simp
    next
      case False
      then have "count (mset (map f xs)) a = 0" by (simp only: count_eq_zero_iff set_mset_mset not_False_eq_True)
      with False show ?thesis by simp
    qed
  qed
qed

lemma full_path_sound:
  assumes f: "full_path now env m model pref w = (Returns out, w')" and sh: "shuffles env"
    and r: "reads_from env s" and g: "\<forall>c \<in> set (ce_live env). good_id (cred_id c)"
  shows "distinct (map user_key out) \<and> (\<forall>c \<in> set out. c \<in> set (ce_live env) \<and> not_cooling_in now s c)"
  using f sh
proof (rule full_path_ReturnsE)
  fix order win w1 st cs st'
  assume o: "order = pref_first pref (usable now (ce_live env))" "pool_window env m pref order w = (win, w1)"
    and st: "st = hydrate env win (case ce_cached_state env of Some s \<Rightarrow> s | None \<Rightarrow> [])"
    and cs: "candidates now env m model order win st = Some (cs, st')"
    and out: "mset out \<subseteq># mset (dedupe_users [] cs)"
  have sub: "set order \<subseteq> set (ce_live env)" by (auto simp: o(1) pref_first_set usable_def)
  have win: "set win \<subseteq> set order" using pool_window_subset [OF sh, of m pref order w] o(2) by simp
  have "set out \<subseteq> set cs"
    using mset_subset_eqD [OF out] dedupe_subset [of "[]" cs] by auto
  moreover have "\<forall>x \<in> set cs. x \<in> set order \<and> not_cooling_in now s x"
    using candidates_sound [OF cs r _ win st] g sub by blast
  ultimately show ?thesis
    using distinct_submset [OF out] dedupe_distinct [of "[]" cs] sub by blast
qed

subsection \<open>Both paths\<close>

lemma backups_sound:
  assumes "c \<in> set (backups now env m model first)"
  shows "\<not> expired now c \<and> c \<in> set (case ce_cached_live env of Some cs \<Rightarrow> cs | None \<Rightarrow> []) \<and>
    (\<forall>s. ce_cached_state env = Some s \<and> s \<noteq> [] \<longrightarrow> not_cooling_in now s c) \<and> cred_id c \<noteq> cred_id first"
proof -
  let ?warm = "case ce_cached_state env of Some s \<Rightarrow> s | None \<Rightarrow> []"
  from assms obtain ys where
    ys: "collect_opt (chain_limit m - 1) (backup_ok now ?warm model first)
          (case ce_cached_live env of Some cs \<Rightarrow> cs | None \<Rightarrow> []) = Some ys" "c \<in> set ys"
    unfolding backups_def
    by (cases "collect_opt (chain_limit m - 1) (backup_ok now ?warm model first)
          (case ce_cached_live env of Some cs \<Rightarrow> cs | None \<Rightarrow> [])") (auto split: if_splits)
  from collect_opt_SomeD [OF ys(1)] ys(2)
  have c: "backup_ok now ?warm model first c = Some True"
    "c \<in> set (case ce_cached_live env of Some cs \<Rightarrow> cs | None \<Rightarrow> [])"
    by (auto dest!: in_set_takeD)
  then have e: "\<not> expired now c" "cred_id c \<noteq> cred_id first"
    by (auto simp: backup_ok_def split: if_splits)
  have "not_cooling_in now s c" if "ce_cached_state env = Some s" "s \<noteq> []" for s
    using c(1) that e by (auto simp: backup_ok_def not_cooling_in_def split: if_splits)
  with c(2) e show ?thesis by blast
qed

lemma backups_length: "length (backups now env m model first) \<le> chain_limit m - 1"
  by (auto simp: backups_def split: option.splits dest!: collect_opt_SomeD)

lemma sticky_pathE:
  assumes "sticky_path ops now env m model pref w = Some r"
  obtains c where "pref \<noteq> []" "ce_peek env pref = Some c" "cred_id c \<noteq> []" "w_view ops now w (cred_id c) = None" "r = Raises"
  | c sm where "pref \<noteq> []" "ce_peek env pref = Some c" "cred_id c \<noteq> []" "w_view ops now w (cred_id c) = Some sm"
      "sticky_ready now model c sm" "r = Returns (c # backups now env m model c)"
  using assms by (auto simp: sticky_path_def split: if_splits option.splits)

lemma chain_cases:
  assumes "try_acquire_sequence ops now env m model pref w = (Returns cs, w')"
  obtains c sm where "ce_peek env pref = Some c" "w_view ops now w (cred_id c) = Some sm" "sticky_ready now model c sm"
      "cs = c # backups now env m model c" "w' = w"
  | "full_path now env m model pref w = (Returns cs, w')"
proof (cases "sticky_path ops now env m model pref w")
  case None
  with assms that(2) show thesis by (simp add: try_acquire_sequence_def)
next
  case (Some r)
  with assms have r: "r = Returns cs" "w' = w" by (simp_all add: try_acquire_sequence_def)
  from Some show thesis by (rule sticky_pathE) (use r that(1) in auto)
qed

lemma w_view_view: "w_meta ops w (cred_id c) = pool_get s (cred_id c) \<Longrightarrow> w_view ops now w (cred_id c) = view now s c"
  by (simp add: w_view_def view_def pool_meta_def pool_get_def Let_def)

lemma chain_fresh_bounded:
  assumes "try_acquire_sequence ops now env (Some n) model pref w = (Returns cs, w')" "shuffles env"
  shows "length cs \<le> nat (max 1 n) \<and> (\<forall>c \<in> set cs. \<not> expired now c)"
  using assms(1)
proof (rule chain_cases)
  fix c sm
  assume r: "sticky_ready now model c sm" and cs: "cs = c # backups now env (Some n) model c"
  have "length (backups now env (Some n) model c) \<le> nat (max 1 n) - 1"
    using backups_length [of now env "Some n" model c] by (simp add: chain_limit_def)
  then show ?thesis
    using r cs backups_sound [of _ now env "Some n" model c] by (auto simp: sticky_ready_def)
next
  assume "full_path now env (Some n) model pref w = (Returns cs, w')"
  then show ?thesis using assms(2) by (rule full_path_ReturnsE) (simp add: attempt_limit_def)
qed

lemma chain_sound:
  assumes "try_acquire_sequence ops now env m model pref w = (Returns cs, w')" "shuffles env"
    and s: "ce_cached_state env = Some s" "s \<noteq> []" and step: "\<forall>a. good_id a \<longrightarrow> w_meta ops w a = pool_get s a"
    and p: "\<forall>c. ce_peek env pref = Some c \<longrightarrow> good_id (cred_id c)" and g: "\<forall>c \<in> set (ce_live env). good_id (cred_id c)" and x: "x \<in> set cs"
  shows "not_cooling_in now s x"
  using assms(1)
proof (rule chain_cases)
  fix c sm
  assume c: "ce_peek env pref = Some c" and v: "w_view ops now w (cred_id c) = Some sm" and r: "sticky_ready now model c sm"
    and cs: "cs = c # backups now env m model c"
  have "view now s c = Some sm" using v w_view_view [of ops w c s now] step p c by simp
  with r have "not_cooling_in now s c" by (simp add: sticky_ready_def not_cooling_in_def)
  then show ?thesis using x backups_sound [of x now env m model c] s cs by auto
next
  assume "full_path now env m model pref w = (Returns cs, w')"
  moreover have "reads_from env s" by (simp add: reads_from_def s)
  ultimately show ?thesis using full_path_sound [OF _ assms(2)] g x by blast
qed

text \<open>A pinned account whose record is in order heads the chain.\<close>

lemma sticky_path_ready:
  assumes "pref \<noteq> []" "ce_peek env pref = Some c" "cred_id c \<noteq> []" "\<not> expired now c" "c_token c \<noteq> []"
    and r: "typed m" "\<not> is_in_cooldown now m" "\<not> record_expired m" "record_enabled m"
      "\<not> truthy (dget m ''disabled_for_quota'')" "\<forall>k. int_or0 (dget m ''consecutive_fails'') = Some k \<longrightarrow> k < 2"
    and m: "m = w_meta ops w (cred_id c)"
  shows "sticky_path ops now env n None pref w = Some (Returns (c # backups now env n None c))"
proof -
  let ?s = "[(cred_id c, m)]"
  have p: "pool_get ?s (cred_id c) = m" by (simp add: pool_get_def)
  obtain sm where sm: "view now ?s c = Some sm"
    using typed_view [of ?s "cred_id c" now] r(1) p by (auto simp: view_def)
  have v: "w_view ops now w (cred_id c) = Some sm" using sm by (simp add: w_view_def view_def m)
  have le: "\<not> label_expired sm" using view_label_expired [OF sm] r(3) p by simp
  have "num sm ''consecutive_fails'' < 2"
    using pool_meta_get(6) [of now "cred_id c" ?s sm] sm r(6)
    by (auto simp: num_def view_def p)
  then have "sticky_ready now None c sm"
    using assms(4,5) le view_cooling [OF sm le] view_record_enabled [OF sm] view_quota [OF sm] r
    by (simp add: sticky_ready_def p blocked_for_def)
  with v assms(1-3) show ?thesis by (simp add: sticky_path_def)
qed

text \<open>A pool whose window holds every account.\<close>

lemma full_path_nonempty:
  assumes "length (ce_live env) \<le> 24" "wf_file s" "reads_from env s" "shuffles env"
    and g: "\<forall>c \<in> set (ce_live env). good_id (cred_id c)"
    and c: "c \<in> set (ce_live env)" "\<not> expired now c" "\<not> is_in_cooldown now (pool_get s (cred_id c))"
      "record_enabled (pool_get s (cred_id c)) \<or> \<not> truthy (dget (pool_get s (cred_id c)) ''disabled_for_quota'')"
  shows "\<exists>d ds w'. full_path now env m model pref w = (Returns (d # ds), w')"
proof -
  define order where "order = pref_first pref (usable now (ce_live env))"
  let ?st0 = "case ce_cached_state env of Some s \<Rightarrow> s | None \<Rightarrow> []"
  define st where "st = hydrate env order ?st0"
  have len: "length order \<le> 24"
  proof -
    have "length (usable now (ce_live env)) \<le> 24"
      using assms(1) length_filter_le order_trans unfolding usable_def by blast
    then show ?thesis
      using sum_length_filter_compl [of "answers_to pref" "usable now (ce_live env)"]
      by (simp add: order_def pref_first_def)
  qed
  then have n: "window_size m order = length order" by (simp add: window_size_def)
  have win: "pool_window env m pref order w = (order, w)" by (simp add: pool_window_def n)
  have sub: "set order \<subseteq> set (ce_live env)" by (auto simp: order_def pref_first_set usable_def)
  have w0: "?st0 = s" if "ce_cached_state env \<noteq> None"
    using assms(3) that by (auto simp: reads_from_def)
  have a0: "agrees s ?st0" using assms(3) by (auto simp: reads_from_def agrees_def pool_get_def split: option.splits)
  have same: "view now st x = view now s x" if "x \<in> set order" for x
    using hydrate_reads [OF assms(3) _ a0 w0, of order] g sub that view_cong unfolding st_def by blast
  have v: "view now s x \<noteq> None" for x
    using assms(2) typed_view by (auto simp: view_def wf_file_def)
  have tot: "P x \<noteq> None" if "P \<in> set (window_passes now model st)" "x \<in> set order" for P x
    using that v [of x] same [of x] by (auto simp: window_passes_def window_ok_def on_view_def)
  obtain cs where
    cs: "first_pass (window_passes now model st) order = Some cs"
      "cs = [] \<longleftrightarrow> (\<forall>P \<in> set (window_passes now model st). \<forall>x \<in> set order. P x \<noteq> Some True)"
    using first_pass_total [of "window_passes now model st" order] tot by blast
  have co: "c \<in> set order" using c by (simp add: order_def pref_first_set usable_def)
  obtain meta where meta: "view now s c = Some meta" using v by blast
  have "\<not> is_in_cooldown now meta"
    using pool_meta_cooling_sound meta c(3) by (fastforce simp: view_def)
  then have "\<exists>P \<in> set (window_passes now model st). P c = Some True"
    using c(2,4) meta same [OF co]
    by (auto simp: window_passes_def on_view_def view_record_enabled [OF meta] view_quota [OF meta])
  with co have ne: "cs \<noteq> []" using cs(2) by blast
  have fresh: "\<not> expired now x" if "x \<in> set cs" for x
    using first_pass_SomeD [OF cs(1) ne] that window_pass_not_cooling by (fastforce simp: not_cooling_in_def)
  have cand: "candidates now env m model order order st = Some (cs, st)" by (simp add: candidates_def cs(1) ne)
  define ready where "ready = dedupe_users [] cs"
  define xs where "xs = pin_first now st model pref (ordered now env st
      (spread_world now (filter (\<lambda>a. a \<noteq> []) (map cred_id ready)) w) ready)"
  have xs: "mset xs = mset ready" by (simp add: xs_def pin_first_mset ordered_mset assms(4))
  then have sx: "set xs = set ready" by (rule mset_eq_setD)
  have rne: "ready \<noteq> []" using ne by (simp add: ready_def dedupe_empty_iff)
  then have "cut_chain env m xs \<noteq> []" using xs by (auto simp: cut_chain_def)
  moreover have "\<forall>x \<in> set (cut_chain env m xs). \<not> expired now x"
    using sx dedupe_subset [of "[]" cs] fresh by (auto simp: cut_chain_def ready_def dest!: in_set_takeD)
  ultimately have "usable now (cut_chain env m xs) \<noteq> []" by (auto simp: usable_def)
  then obtain d ds where "usable now (cut_chain env m xs) = d # ds" by (meson neq_Nil_conv)
  then show ?thesis
    by (auto simp: full_path_def order_def [symmetric] win st_def [symmetric] cand Let_def ready_def [symmetric]
        xs_def [symmetric])
qed

end
