(* ===== verification/Select_Theorems.thy ===== *)
theory Select_Theorems
  imports Pool_Sequence
begin

text \<open>
  The properties of account selection: what \<open>acquire\<close> and \<open>try_acquire_sequence\<close> may return, when they return
  something, and how the modes spread the load.
\<close>

subsection \<open>Sample credentials\<close>

definition sample_cred :: "string \<Rightarrow> credentials" where
  "sample_cred a =
     \<lparr>c_token = ''t'', c_email = None, c_user_id = Some (''u'' @ a), c_expires_at = Some 10000,
      c_auth_key = Some a, c_team_id = None, c_refresh_token = None, c_oidc_client_id = None\<rparr>"

definition sample_live :: "credentials list" where
  "sample_live = map sample_cred [''a'', ''b'', ''c'']"

text \<open>\<open>a\<close> is cooling, \<open>b\<close> was used, \<open>c\<close> has no record.\<close>

definition sample_pool :: pool where
  "sample_pool =
     [(''a'', [(''cooldown_count'', PInt 1)]),
      (''b'', [(''request_count'', PInt 9), (''success_count'', PInt 9)])]"

definition idle_world :: "pool world" where
  "idle_world =
     \<lparr>w_store = sample_pool, w_inflight = Map.empty, w_soft_used = Map.empty, w_rr_index = 1, w_affinity = []\<rparr>"

definition sample_chain :: "string \<Rightarrow> chain_env" where
  "sample_chain mode =
     \<lparr>ce_mode = mode, ce_live = sample_live, ce_peek = (\<lambda>p. find (\<lambda>c. cred_id c = p) sample_live),
      ce_cached_live = Some sample_live, ce_cached_state = Some sample_pool,
      ce_many = (\<lambda>ids. Some (file_meta_many sample_pool ids)), ce_shuffle_window = id,
      ce_shuffle_order = id, ce_failover = 3\<rparr>"

subsection \<open>One account\<close>

text \<open>
  C2: the account \<open>acquire\<close> returns is one of the listed credentials, was not excluded, has a token that is
  not expired, and its record shows no cooling, in every mode and whatever pass produced it.
\<close>

theorem acquire_in_rotation:
  assumes "acquire now mode live st exclude model auto reload u w = (Returns c, w')"
  shows "c \<in> set live \<and> cred_id c \<notin> set exclude \<and> \<not> expired now c \<and>
    \<not> is_in_cooldown now (pool_get st (cred_id c))"
  using assms
proof (rule acquire_ReturnsE)
  fix xs
  assume f: "first_pass (acquire_passes now st model) (filter (\<lambda>c. cred_id c \<notin> set exclude) live) = Some xs"
    "xs \<noteq> []" and c: "c \<in> set xs" and r: "in_rotation now st c"
  show ?thesis
    using first_pass_SomeD [OF f] c in_rotation_not_cooling [OF r] r by (auto simp: in_rotation_def)
qed

lemma sample_ids [simp]: "cred_id (sample_cred a) = a" "expired 1000 (sample_cred a) = False"
  "user_key (sample_cred a) = CHR ''u'' # a"
  by (simp_all add: sample_cred_def cred_id_def text_or_def expired_def user_key_def)

lemma sample_pool_ok: "wf_file sample_pool"
  by (simp add: wf_file_def sample_pool_def pool_get_def typed_def)

lemma sample_pool_get:
  "pool_get sample_pool ''a'' = [(''cooldown_count'', PInt 1)]"
  "pool_get sample_pool ''b'' = [(''request_count'', PInt 9), (''success_count'', PInt 9)]"
  "pool_get sample_pool ''c'' = []"
  by (simp_all add: sample_pool_def pool_get_def)

lemma sample_a_cooling: "is_in_cooldown t (pool_get sample_pool ''a'')"
  by (simp add: sample_pool_get is_in_cooldown_alt count_positive_def)

lemma sample_b_rotates: "rotation_record t (pool_get sample_pool ''b'')"
  by (simp add: sample_pool_get rotation_record_def record_enabled_def record_expired_def is_in_cooldown_alt
      count_positive_def stack_nonempty_def until_active_def norm_text_falsy renew_failed_statuses_def)

lemma sample_returns:
  "\<exists>c w'. acquire 1000 mode sample_live sample_pool [] model True (\<lambda>_. None) u w = (Returns c, w')"
  unfolding acquire_returns_record [OF sample_pool_ok]
  using sample_b_rotates by (auto simp: sample_live_def)

text \<open>
  C6: on a pool in its invariant \<open>acquire\<close> returns an account exactly when some listed account that is not
  excluded has a fresh token and a record in rotation: no mark of cooling, no expired label, and enabled or
  at least not removed for quota. Otherwise it raises.
\<close>

theorem acquire_returns_iff:
  assumes "wf_file st"
  shows "(\<exists>c w'. acquire now mode live st exclude model auto reload u w = (Returns c, w')) \<longleftrightarrow>
    (\<exists>c \<in> set live. cred_id c \<notin> set exclude \<and> \<not> expired now c \<and>
       rotation_record now (pool_get st (cred_id c)))"
  by (rule acquire_returns_record [OF assms])

theorem acquire_returns_iff_witness:
  "\<exists>c w'. acquire 1000 ''random'' sample_live sample_pool [] (Some ''m'') True (\<lambda>_. None) 0 idle_world = (Returns c, w')"
  unfolding acquire_returns_iff [OF sample_pool_ok]
  using sample_b_rotates by (auto simp: sample_live_def)

theorem acquire_in_rotation_witness:
  "\<exists>c. c \<in> {sample_cred ''b'', sample_cred ''c''} \<and>
     fst (acquire 1000 ''random'' sample_live sample_pool [] (Some ''m'') True (\<lambda>_. None) 0 idle_world) = Returns c"
proof -
  have "\<exists>c w'. acquire 1000 ''random'' sample_live sample_pool [] (Some ''m'') True (\<lambda>_. None) 0 idle_world =
      (Returns c, w')"
    by (rule sample_returns)
  then obtain c w' where c: "acquire 1000 ''random'' sample_live sample_pool [] (Some ''m'') True (\<lambda>_. None) 0
      idle_world = (Returns c, w')" by blast
  from acquire_in_rotation [OF c] have "c \<in> {sample_cred ''b'', sample_cred ''c''}"
    using sample_a_cooling by (auto simp: sample_live_def)
  with c show ?thesis by auto
qed

text \<open>
  When some account that is not excluded is eligible for the model, the one \<open>acquire\<close> returns is eligible:
  the fall-back passes are reached only with nobody eligible.
\<close>

lemma acquire_prefers_eligible:
  assumes "acquire now mode live st exclude model auto reload u w = (Returns c, w')"
    and "e \<in> set live" "cred_id e \<notin> set exclude" "eligible now st model e = Some True"
  shows "eligible now st model c = Some True"
proof -
  have "eligible_list now live st exclude model \<noteq> []"
    using assms(2-4) by (auto simp: eligible_list_def filter_empty_conv)
  from acquire_eligible [OF assms(1) this] show ?thesis by (simp add: eligible_list_def)
qed

lemma eligible_record:
  assumes "typed (pool_get st (cred_id c))" "\<not> expired now c" "rotation_record now (pool_get st (cred_id c))"
    "record_enabled (pool_get st (cred_id c))"
  shows "eligible now st None c = Some True"
proof -
  from typed_view [OF assms(1)] obtain meta where m: "view now st c = Some meta" by (auto simp: view_def)
  have "\<not> label_expired meta" using view_label_expired [OF m] assms(3) by (simp add: rotation_record_def)
  with view_cooling [OF m this] assms show ?thesis
    by (simp add: eligible_def on_view_def m view_enabled [OF m] view_record_enabled [OF m] blocked_for_def rotation_record_def)
qed

lemma sample_eligible: "eligible 1000 sample_pool None (sample_cred ''b'') = Some True"
  using sample_b_rotates sample_pool_ok
  by (intro eligible_record) (simp_all add: wf_file_def, simp add: sample_pool_get record_enabled_def)

lemma acquire_prefers_eligible_witness:
  "\<exists>c w'. acquire 1000 ''random'' sample_live sample_pool [''c''] None True (\<lambda>_. None) (1/2) idle_world =
      (Returns c, w') \<and> eligible 1000 sample_pool None c = Some True"
proof -
  have "\<exists>c w'. acquire 1000 ''random'' sample_live sample_pool [''c''] None True (\<lambda>_. None) (1/2) idle_world =
      (Returns c, w')"
    unfolding acquire_returns_record [OF sample_pool_ok] using sample_b_rotates by (auto simp: sample_live_def)
  then obtain c w' where c: "acquire 1000 ''random'' sample_live sample_pool [''c''] None True (\<lambda>_. None) (1/2)
      idle_world = (Returns c, w')" by blast
  have "eligible 1000 sample_pool None c = Some True"
    by (rule acquire_prefers_eligible [OF c _ _ sample_eligible]) (simp_all add: sample_live_def)
  with c show ?thesis by blast
qed

text \<open>
  C13: round robin is fair. At one moment of the pool, as many acquires in a row as there are eligible
  accounts return each of them once, wherever the index stood.
\<close>

theorem acquire_round_robin_fair:
  assumes "wf_file st" "eligible_list now live st exclude model \<noteq> []"
  shows "mset (acquire_run (length (eligible_list now live st exclude model))
      (acquire now ''round_robin'' live st exclude model auto reload u) w) =
    image_mset Returns (mset (eligible_list now live st exclude model))"
proof -
  let ?xs = "eligible_list now live st exclude model"
  have "mset (acquire_run (length ?xs) (acquire now ''round_robin'' live st exclude model auto reload u) w) =
      image_mset Returns (mset (map (\<lambda>i. ?xs ! ((w_rr_index w + i) mod length ?xs)) [0..<length ?xs]))"
    by (simp only: acquire_run_index [OF acquire_rr_step [OF assms]] mset_map [symmetric] map_map comp_def)
  then show ?thesis by (simp only: rotation_mset)
qed

theorem acquire_round_robin_fair_witness:
  "mset (acquire_run (length (eligible_list 1000 sample_live sample_pool [] None))
      (acquire 1000 ''round_robin'' sample_live sample_pool [] None True (\<lambda>_. None) 0) idle_world) =
    image_mset Returns (mset (eligible_list 1000 sample_live sample_pool [] None)) \<and>
   sample_cred ''b'' \<in> set (eligible_list 1000 sample_live sample_pool [] None)"
proof -
  have b: "sample_cred ''b'' \<in> set (eligible_list 1000 sample_live sample_pool [] None)"
    by (simp add: eligible_list_def sample_eligible sample_live_def)
  then have "eligible_list 1000 sample_live sample_pool [] None \<noteq> []" by auto
  from acquire_round_robin_fair [OF sample_pool_ok this] b show ?thesis by blast
qed

text \<open>
  In the least-used mode the account returned has the smallest score among the eligible ones: health
  penalty, then requests with twice the calls in flight, then the last use.
\<close>

lemma acquire_least_used_minimal:
  assumes "acquire now ''least_used'' live st exclude model auto reload u w = (Returns c, w')"
    and "e \<in> set live" "cred_id e \<notin> set exclude" "eligible now st model e = Some True"
  shows "least_used_score now st w c \<le> least_used_score now st w e"
  using assms(1)
proof (rule acquire_ReturnsE)
  fix xs
  assume f: "first_pass (acquire_passes now st model) (filter (\<lambda>c. cred_id c \<notin> set exclude) live) = Some xs"
    "xs \<noteq> []"
    and c: "c = fst (pick now (if ''least_used'' \<in> set VALID_ACCOUNT_MODES then ''least_used'' else ''round_robin'') st u w xs)"
  have e: "e \<in> set (eligible_list now live st exclude model)" using assms(2-4) by (simp add: eligible_list_def)
  then have "e \<in> set xs" using eligible_pass [OF _ f(1)] by fastforce
  moreover have "c = arg_min_list (least_used_score now st w) xs"
    by (simp add: c VALID_ACCOUNT_MODES_def pick_def pick_least_used_def)
  ultimately show ?thesis using f_arg_min_list_f [OF f(2), of "least_used_score now st w"] by (simp add: Min_le)
qed

lemma acquire_least_used_minimal_witness:
  "\<exists>c w'. acquire 1000 ''least_used'' sample_live sample_pool [] None True (\<lambda>_. None) 0 idle_world = (Returns c, w') \<and>
     least_used_score 1000 sample_pool idle_world c \<le> least_used_score 1000 sample_pool idle_world (sample_cred ''b'')"
proof -
  obtain c w' where c: "acquire 1000 ''least_used'' sample_live sample_pool [] None True (\<lambda>_. None) 0 idle_world =
      (Returns c, w')" using sample_returns by blast
  have "least_used_score 1000 sample_pool idle_world c \<le> least_used_score 1000 sample_pool idle_world (sample_cred ''b'')"
    by (rule acquire_least_used_minimal [OF c _ _ sample_eligible]) (simp_all add: sample_live_def)
  with c show ?thesis by blast
qed

text \<open>
  An acquire adds one to the in-flight count of the account it returns and to no other, and releasing
  that account restores every count.
\<close>

lemma acquire_release_balanced:
  assumes "acquire now mode live st exclude model auto reload u w = (Returns c, w')" "cred_id c \<noteq> []"
    and "0 \<le> inflight_of now w (cred_id c)"
  shows "inflight_of now w' b = inflight_of now w b + (if b = cred_id c then 1 else 0) \<and>
    inflight_of now (release_account_pick now w' (cred_id c)) b = inflight_of now w b"
  using assms(2,3) by (simp add: acquire_inflight [OF assms(1,2)] inflight_release)

lemma acquire_release_balanced_witness:
  "\<exists>c w'. acquire 1000 ''least_used'' sample_live sample_pool [] None True (\<lambda>_. None) 0 idle_world = (Returns c, w') \<and>
     inflight_of 1000 w' (cred_id c) = 1 \<and>
     inflight_of 1000 (release_account_pick 1000 w' (cred_id c)) (cred_id c) = 0"
proof -
  obtain c w' where c: "acquire 1000 ''least_used'' sample_live sample_pool [] None True (\<lambda>_. None) 0 idle_world =
      (Returns c, w')" using sample_returns by blast
  then have "c \<in> set sample_live" by (auto elim!: acquire_ReturnsE dest: first_pass_SomeD)
  then have n: "cred_id c \<noteq> []" by (auto simp: sample_live_def)
  have z: "inflight_of 1000 idle_world b = 0" for b by (simp add: inflight_of_def idle_world_def)
  from acquire_release_balanced [OF c n, of "cred_id c"] c show ?thesis by (auto simp: z)
qed

subsection \<open>The chain of a request\<close>

lemma sample_chain_simps [simp]:
  "ce_live (sample_chain mode) = sample_live" "ce_cached_state (sample_chain mode) = Some sample_pool"
  "ce_cached_live (sample_chain mode) = Some sample_live" "shuffles (sample_chain mode)"
  "ce_peek (sample_chain mode) = (\<lambda>p. find (\<lambda>c. cred_id c = p) sample_live)"
  by (simp_all add: sample_chain_def shuffles_def)

lemma sample_live_ids: "\<forall>c \<in> set sample_live. good_id (cred_id c)"
  by (simp add: sample_live_def) code_simp

lemma sample_pool_nonempty [simp]: "sample_pool \<noteq> []"
  by (simp add: sample_pool_def)

lemma idle_meta: "w_meta file_ops idle_world a = pool_get sample_pool a" if "good_id a"
  using that by (simp add: w_meta_def file_ops_def file_meta_def idle_world_def good_id_def)

definition cold_chain :: "string \<Rightarrow> chain_env" where
  "cold_chain mode = (sample_chain mode)\<lparr>ce_cached_state := None\<rparr>"

lemma chain_sample_nonempty:
  assumes "ce_live env = sample_live" "shuffles env" "reads_from env sample_pool"
  shows "\<exists>d ds w'. try_acquire_sequence file_ops 1000 env m None [] idle_world = (Returns (d # ds), w')"
proof -
  have "\<exists>d ds w'. full_path 1000 env m None [] idle_world = (Returns (d # ds), w')"
  proof (rule full_path_nonempty)
    show "sample_cred ''b'' \<in> set (ce_live env)" by (simp add: sample_live_def assms(1))
  qed (use assms sample_live_ids sample_pool_ok sample_b_rotates [of 1000] in
      \<open>auto simp: sample_live_def rotation_record_def\<close>)
  then show ?thesis by (auto simp: try_acquire_sequence_def sticky_path_def)
qed

lemma sample_chain_nonempty:
  "\<exists>d ds w'. try_acquire_sequence file_ops 1000 (sample_chain mode) m None [] idle_world = (Returns (d # ds), w')"
  by (rule chain_sample_nonempty) (simp_all add: reads_from_def)

lemma cold_chain_nonempty:
  "\<exists>d ds w'. try_acquire_sequence file_ops 1000 (cold_chain mode) m None [] idle_world = (Returns (d # ds), w')"
proof (rule chain_sample_nonempty)
  show "reads_from (cold_chain mode) sample_pool"
    by (rule file_meta_many_reads) (simp_all add: cold_chain_def sample_chain_def)
qed (simp_all add: cold_chain_def sample_chain_def shuffles_def)

lemma sample_a_view: "is_in_cooldown 1000 meta" if "view 1000 sample_pool (sample_cred ''a'') = Some meta"
  using view_cooling [OF that] sample_a_cooling view_label_expired [OF that]
  by (simp add: sample_pool_get record_expired_def norm_text_falsy renew_failed_statuses_def)

text \<open>
  C3: with a warm cache in step with the store, no account of a failover chain is cooling in its view, on the
  pinned fast path and on the full path, in every mode and for every attempt limit.
\<close>

theorem chain_excludes_cooling:
  assumes "try_acquire_sequence ops now env m model pref w = (Returns cs, w')" "shuffles env"
    and "ce_cached_state env = Some s" "s \<noteq> []" "\<forall>a. good_id a \<longrightarrow> w_meta ops w a = pool_get s a"
    and "\<forall>c. ce_peek env pref = Some c \<longrightarrow> good_id (cred_id c)"
    and "\<forall>c \<in> set (ce_live env). good_id (cred_id c)"
  shows "\<forall>c \<in> set cs. \<exists>meta. view now s c = Some meta \<and> \<not> is_in_cooldown now meta \<and> \<not> expired now c"
proof
  fix c
  assume "c \<in> set cs"
  from chain_sound [OF assms this] show "\<exists>meta. view now s c = Some meta \<and> \<not> is_in_cooldown now meta \<and> \<not> expired now c"
    by (auto simp: not_cooling_in_def split: option.splits)
qed

theorem chain_excludes_cooling_witness:
  "\<exists>d ds w'. try_acquire_sequence file_ops 1000 (sample_chain ''least_used'') None None [] idle_world = (Returns (d # ds), w') \<and>
     sample_cred ''a'' \<notin> set (d # ds)"
proof -
  obtain d ds w' where f: "try_acquire_sequence file_ops 1000 (sample_chain ''least_used'') None None [] idle_world =
      (Returns (d # ds), w')"
    using sample_chain_nonempty by blast
  have "\<forall>c \<in> set (d # ds). \<exists>meta. view 1000 sample_pool c = Some meta \<and> \<not> is_in_cooldown 1000 meta \<and> \<not> expired 1000 c"
    by (rule chain_excludes_cooling [OF f]) (simp_all add: idle_meta sample_live_ids, simp add: sample_live_def)
  with f sample_a_view show ?thesis by blast
qed

text \<open>
  C14: a chain asked for with \<open>max_attempts\<close> holds at most that many accounts (at least one is always
  allowed), and no account whose token is expired, whatever the caches and the store hold.
\<close>

theorem chain_bounded:
  assumes "try_acquire_sequence ops now env (Some n) model pref w = (Returns cs, w')" "shuffles env"
  shows "length cs \<le> nat (max 1 n) \<and> (\<forall>c \<in> set cs. \<not> expired now c)"
  by (rule chain_fresh_bounded [OF assms])

theorem chain_bounded_witness:
  "\<exists>d w'. try_acquire_sequence file_ops 1000 (sample_chain ''round_robin'') (Some (-3)) None [] idle_world = (Returns [d], w')"
proof -
  obtain d ds w' where f: "try_acquire_sequence file_ops 1000 (sample_chain ''round_robin'') (Some (-3)) None []
      idle_world = (Returns (d # ds), w')"
    using sample_chain_nonempty by blast
  from chain_bounded [OF f] f show ?thesis by auto
qed

text \<open>
  With no pinned account and a cold cache, read through the settings file, the chain holds each user once,
  only listed accounts, and only accounts that are not cooling in the file's records: the batch reads of the
  window and of the expanded window leave no account judged on a missing record.
\<close>

lemma chain_cold_file:
  assumes "try_acquire_sequence ops now env m model [] w = (Returns cs, w')" "shuffles env"
    and "ce_cached_state env = None" "ce_many env = (\<lambda>ids. Some (file_meta_many s ids))"
    and "\<forall>c \<in> set (ce_live env). good_id (cred_id c)"
  shows "distinct (map user_key cs) \<and>
    (\<forall>c \<in> set cs. c \<in> set (ce_live env) \<and>
       (\<exists>meta. view now s c = Some meta \<and> \<not> is_in_cooldown now meta))"
proof -
  have "full_path now env m model [] w = (Returns cs, w')"
    using assms(1) by (simp add: try_acquire_sequence_def sticky_path_def)
  from full_path_sound [OF this assms(2) file_meta_many_reads [OF assms(3,4)] assms(5)]
  show ?thesis by (auto simp: not_cooling_in_def split: option.splits)
qed

lemma chain_cold_file_witness:
  "\<exists>d ds w'. try_acquire_sequence file_ops 1000 (cold_chain ''random'') None None [] idle_world = (Returns (d # ds), w') \<and>
     distinct (map user_key (d # ds)) \<and> sample_cred ''a'' \<notin> set (d # ds)"
proof -
  obtain d ds w' where f: "try_acquire_sequence file_ops 1000 (cold_chain ''random'') None None [] idle_world =
      (Returns (d # ds), w')"
    using cold_chain_nonempty by blast
  have "distinct (map user_key (d # ds)) \<and> (\<forall>c \<in> set (d # ds). c \<in> set (ce_live (cold_chain ''random'')) \<and>
      (\<exists>meta. view 1000 sample_pool c = Some meta \<and> \<not> is_in_cooldown 1000 meta))"
    by (rule chain_cold_file [OF f]) (simp_all add: cold_chain_def sample_chain_def shuffles_def sample_live_ids)
  with f sample_a_view show ?thesis by blast
qed

text \<open>
  A pinned account with a fresh token, an enabled record with no mark of cooling, no expired label, no
  quota removal and fewer than two consecutive failures is the first of the chain, and the caches of the
  full path are not consulted.
\<close>

lemma chain_pinned_first:
  assumes "pref \<noteq> []" "ce_peek env pref = Some c" "cred_id c \<noteq> []" "\<not> expired now c" "c_token c \<noteq> []"
    and "typed (w_meta ops w (cred_id c))" "\<not> is_in_cooldown now (w_meta ops w (cred_id c))"
      "\<not> record_expired (w_meta ops w (cred_id c))" "record_enabled (w_meta ops w (cred_id c))"
      "\<not> truthy (dget (w_meta ops w (cred_id c)) ''disabled_for_quota'')"
      "\<forall>k. int_or0 (dget (w_meta ops w (cred_id c)) ''consecutive_fails'') = Some k \<longrightarrow> k < 2"
  shows "\<exists>bs. try_acquire_sequence ops now env m None pref w = (Returns (c # bs), w) \<and>
    (\<forall>b \<in> set bs. cred_id b \<noteq> cred_id c \<and> \<not> expired now b)"
  using sticky_path_ready [OF assms refl, of m] backups_sound [of _ now env m None c]
  by (auto simp: try_acquire_sequence_def)

lemma sample_b_record: "w_meta file_ops idle_world ''b'' = [(''request_count'', PInt 9), (''success_count'', PInt 9)]"
proof -
  have "good_id ''b''" by code_simp
  then show ?thesis by (simp add: idle_meta sample_pool_get)
qed

lemma sample_b_typed: "typed [(''request_count'', PInt 9), (''success_count'', PInt 9)]"
  using sample_pool_ok by (metis wf_file_def sample_pool_get(2))

lemma sample_b_ready:
  "\<not> is_in_cooldown t (w_meta file_ops idle_world ''b'')" "\<not> record_expired (w_meta file_ops idle_world ''b'')"
  "record_enabled (w_meta file_ops idle_world ''b'')" "typed (w_meta file_ops idle_world ''b'')"
  using sample_b_rotates [of t] sample_b_typed
  by (simp_all add: sample_b_record rotation_record_def sample_pool_get) (simp add: record_enabled_def)

lemma sample_b_cred: "c_token (sample_cred ''b'') \<noteq> []"
  "find (\<lambda>c. cred_id c = ''b'') sample_live = Some (sample_cred ''b'')"
  by (simp add: sample_cred_def) (simp add: sample_live_def)

lemma chain_pinned_first_witness:
  "\<exists>bs. try_acquire_sequence file_ops 1000 (sample_chain ''random'') None None ''b'' idle_world =
     (Returns (sample_cred ''b'' # bs), idle_world)"
proof -
  have "\<exists>bs. try_acquire_sequence file_ops 1000 (sample_chain ''random'') None None ''b'' idle_world =
      (Returns (sample_cred ''b'' # bs), idle_world) \<and> (\<forall>b \<in> set bs. cred_id b \<noteq> cred_id (sample_cred ''b'') \<and> \<not> expired 1000 b)"
    by (rule chain_pinned_first)
      (use sample_b_ready sample_b_cred in \<open>simp_all add: sample_b_record\<close>)
  then show ?thesis by blast
qed

text \<open>
  On a pool of at most 24 accounts with a warm cache the full path returns a chain with somebody in it as soon
  as one listed account has a fresh token, no mark of cooling, and is enabled or not removed for quota.
\<close>

lemma chain_small_pool_nonempty:
  assumes "length (ce_live env) \<le> 24" "wf_file s" "ce_cached_state env = Some s" "shuffles env"
    and "\<forall>c \<in> set (ce_live env). good_id (cred_id c)"
    and "c \<in> set (ce_live env)" "\<not> expired now c" "\<not> is_in_cooldown now (pool_get s (cred_id c))"
      "record_enabled (pool_get s (cred_id c)) \<or> \<not> truthy (dget (pool_get s (cred_id c)) ''disabled_for_quota'')"
  shows "\<exists>d ds w'. full_path now env m model pref w = (Returns (d # ds), w')"
  using assms by (intro full_path_nonempty) (simp_all add: reads_from_def)

lemma chain_small_pool_nonempty_witness:
  "\<exists>d ds w'. full_path 1000 (sample_chain ''round_robin'') None (Some ''m'') ''b'' idle_world = (Returns (d # ds), w')"
proof (rule chain_small_pool_nonempty)
  show "sample_cred ''b'' \<in> set (ce_live (sample_chain ''round_robin''))" by (simp add: sample_live_def)
qed (use sample_pool_ok sample_live_ids sample_b_rotates [of 1000] in
    \<open>auto simp: sample_live_def rotation_record_def\<close>)

subsection \<open>Where the chain is wider than \<open>acquire\<close>\<close>

definition label_pool :: pool where
  "label_pool = [(''a'', [(''pool_status'', PStr ''expired'')])]"

definition label_chain :: chain_env where
  "label_chain = (sample_chain ''least_used'')\<lparr>ce_live := [sample_cred ''a''], ce_cached_state := Some label_pool\<rparr>"

lemma label_pool_get: "pool_get label_pool ''a'' = [(''pool_status'', PStr ''expired'')]"
  by (simp add: label_pool_def pool_get_def)

lemma label_pool_ok: "wf_file label_pool"
  by (simp add: wf_file_def label_pool_def pool_get_def typed_def)

text \<open>
  The full path does not test the expired label. An account whose record says its renewal failed, and
  whose stored token is not past its expiry, is refused by \<open>acquire\<close> in every mode and is the whole
  chain of \<open>try_acquire_sequence\<close>.
\<close>

lemma chain_admits_expired_label:
  "record_expired (pool_get label_pool ''a'') \<and>
   (\<forall>mode u w. fst (acquire 1000 mode [sample_cred ''a''] label_pool [] None True (\<lambda>_. None) u w) = Raises) \<and>
   (\<exists>w'. try_acquire_sequence file_ops 1000 label_chain None None [] idle_world = (Returns [sample_cred ''a''], w'))"
proof (intro conjI allI)
  show x: "record_expired (pool_get label_pool ''a'')"
    by (simp add: label_pool_get record_expired_def norm_text_literal)
  show "fst (acquire 1000 mode [sample_cred ''a''] label_pool [] None True (\<lambda>_. None) u w) = Raises" for mode u
    and w :: "'a world"
  proof (cases "acquire 1000 mode [sample_cred ''a''] label_pool [] None True (\<lambda>_. None) u w")
    case (Pair r w')
    then show ?thesis
      using acquire_returns_record [OF label_pool_ok, of 1000 mode "[sample_cred ''a'']" "[]" None True "\<lambda>_. None" u w] x
      by (cases r) (auto simp: rotation_record_def)
  qed
  have g: "\<forall>c \<in> set (ce_live label_chain). good_id (cred_id c)"
    by (simp add: label_chain_def) code_simp
  have r: "reads_from label_chain label_pool" by (simp add: reads_from_def label_chain_def)
  have s: "shuffles label_chain" by (simp add: label_chain_def shuffles_def sample_chain_def)
  have "\<exists>d ds w'. full_path 1000 label_chain None None [] idle_world = (Returns (d # ds), w')"
  proof (rule full_path_nonempty [OF _ label_pool_ok r s g])
    show "sample_cred ''a'' \<in> set (ce_live label_chain)" by (simp add: label_chain_def)
  qed (simp_all add: label_chain_def label_pool_get is_in_cooldown_alt count_positive_def stack_nonempty_def
      until_active_def norm_text_literal record_enabled_def)
  then obtain d ds w' where f: "full_path 1000 label_chain None None [] idle_world = (Returns (d # ds), w')"
    by blast
  from full_path_sound [OF f s r g] have "d # ds = [sample_cred ''a'']"
    by (cases ds) (auto simp: label_chain_def)
  with f show "\<exists>w'. try_acquire_sequence file_ops 1000 label_chain None None [] idle_world = (Returns [sample_cred ''a''], w')"
    by (auto simp: try_acquire_sequence_def sticky_path_def)
qed

text \<open>
  With a cold state cache the pinned fast path takes its backups unread, so an account that is cooling at
  every time follows the pinned one.
\<close>

lemma chain_backup_may_cool:
  "(\<forall>t. is_in_cooldown t (pool_get sample_pool ''a'')) \<and>
   try_acquire_sequence file_ops 1000 (cold_chain ''least_used'') (Some 2) None ''b'' idle_world =
     (Returns [sample_cred ''b'', sample_cred ''a''], idle_world)"
proof
  show "\<forall>t. is_in_cooldown t (pool_get sample_pool ''a'')" using sample_a_cooling by blast
  have l: "chain_limit (Some 2) = 2" by (simp add: chain_limit_def)
  have "\<not> ends_with ''a'' (''::'' @ ''ub'')" by code_simp
  then have b: "backups 1000 (cold_chain ''least_used'') (Some 2) None (sample_cred ''b'') = [sample_cred ''a'']"
    by (simp add: backups_def l cold_chain_def sample_chain_def sample_live_def backup_ok_def same_user_as_def)
      (simp add: sample_cred_def text_or_def cred_id_def)
  have "sticky_path file_ops 1000 (cold_chain ''least_used'') (Some 2) None ''b'' idle_world =
      Some (Returns (sample_cred ''b'' # backups 1000 (cold_chain ''least_used'') (Some 2) None (sample_cred ''b'')))"
    by (rule sticky_path_ready [OF _ _ _ _ _ _ _ _ _ _ _ refl])
      (use sample_b_ready sample_b_cred in \<open>simp_all add: sample_b_record cold_chain_def\<close>)
  with b show "try_acquire_sequence file_ops 1000 (cold_chain ''least_used'') (Some 2) None ''b'' idle_world =
     (Returns [sample_cred ''b'', sample_cred ''a''], idle_world)"
    by (simp add: try_acquire_sequence_def)
qed

end
