(* ===== verification/Leader.thy ===== *)
theory Leader
  imports Py_Values
begin

text \<open>
  Maintainer leader election (\<open>grok2api/store/leader.py\<close>) over the lock helpers of
  \<open>grok2api/store/redis_client.py\<close>.

  Redis is a parameter: the four commands the helpers issue, with \<open>lease_laws\<close> stating what Redis documents of
  them. The Lua scripts are atomic; the non-atomic fall-backs taken when \<open>EVAL\<close> raises are not modelled. A
  cluster is a set of workers with different ids around one Redis. Each Redis command of a worker is one
  step, so the commands of different workers interleave, and any command may fail as an exception.
\<close>

subsection \<open>Redis\<close>

record 'r redis_cmds =
  rd_get :: "rat \<Rightarrow> 'r \<Rightarrow> string \<Rightarrow> string option"
  rd_set_nx_ex :: "rat \<Rightarrow> 'r \<Rightarrow> string \<Rightarrow> string \<Rightarrow> int \<Rightarrow> bool \<times> 'r"
  rd_expire :: "rat \<Rightarrow> 'r \<Rightarrow> string \<Rightarrow> int \<Rightarrow> bool \<times> 'r"
  rd_del :: "rat \<Rightarrow> 'r \<Rightarrow> string \<Rightarrow> bool \<times> 'r"

definition set_nx_ex :: "'r redis_cmds \<Rightarrow> rat \<Rightarrow> 'r \<Rightarrow> string \<Rightarrow> string \<Rightarrow> rat \<Rightarrow> bool \<times> 'r" where
  "set_nx_ex R now r k v ttl = rd_set_nx_ex R now r k v (max 1 (trunc_rat ttl))"

definition renew_if_owner :: "'r redis_cmds \<Rightarrow> rat \<Rightarrow> 'r \<Rightarrow> string \<Rightarrow> string \<Rightarrow> rat \<Rightarrow> bool \<times> 'r" where
  "renew_if_owner R now r k expected ttl =
     (if rd_get R now r k = Some expected then rd_expire R now r k (max 1 (trunc_rat ttl)) else (False, r))"

definition compare_and_delete :: "'r redis_cmds \<Rightarrow> rat \<Rightarrow> 'r \<Rightarrow> string \<Rightarrow> string \<Rightarrow> bool \<times> 'r" where
  "compare_and_delete R now r k expected =
     (if rd_get R now r k = Some expected then rd_del R now r k else (False, r))"

text \<open>\<open>lease r k\<close>: the value under a key set with \<open>EX\<close> and the time it expires.\<close>

definition lease_laws :: "'r redis_cmds \<Rightarrow> ('r \<Rightarrow> string \<Rightarrow> (string \<times> rat) option) \<Rightarrow> bool" where
  "lease_laws R lease \<longleftrightarrow>
     (\<forall>t r k. rd_get R t r k = (case lease r k of Some (v, e) \<Rightarrow> (if t < e then Some v else None) | None \<Rightarrow> None)) \<and>
     (\<forall>t r k v n. fst (rd_set_nx_ex R t r k v n) = (rd_get R t r k = None) \<and>
        lease (snd (rd_set_nx_ex R t r k v n)) =
          (if rd_get R t r k = None then (lease r)(k \<mapsto> (v, t + of_int n)) else lease r)) \<and>
     (\<forall>t r k n. fst (rd_expire R t r k n) = (rd_get R t r k \<noteq> None) \<and>
        lease (snd (rd_expire R t r k n)) =
          (case rd_get R t r k of Some v \<Rightarrow> (lease r)(k \<mapsto> (v, t + of_int n)) | None \<Rightarrow> lease r)) \<and>
     (\<forall>t r k. fst (rd_del R t r k) = (rd_get R t r k \<noteq> None) \<and>
        lease (snd (rd_del R t r k)) = (lease r)(k := None))"

subsection \<open>One worker\<close>

text \<open>
  \<open>phase\<close> is where the election code of the worker stands between two Redis commands. \<open>lw_confirmed\<close> is a
  ghost: when the last successful lock command of the worker ran.
\<close>

datatype phase = Idle | Renewing | Trying | Checking | Setting bool | Stopped

record leader_worker =
  lw_flag :: bool
  lw_leader_id :: "string option"
  lw_maintainers :: bool
  lw_phase :: phase
  lw_confirmed :: "rat option"

definition new_worker :: leader_worker where
  "new_worker = \<lparr>lw_flag = False, lw_leader_id = None, lw_maintainers = False, lw_phase = Idle, lw_confirmed = None\<rparr>"

definition want_force_leader :: "string \<Rightarrow> bool option" where
  "want_force_leader mode =
     (let v = lower (if mode = [] then ''auto'' else mode)
      in (if v \<in> set [''1'', ''true'', ''yes'', ''on'', ''always''] then Some True
          else if v \<in> set [''0'', ''false'', ''no'', ''off'', ''never''] then Some False
          else None))"

definition start_maintainers_if_needed :: "leader_worker \<Rightarrow> leader_worker" where
  "start_maintainers_if_needed w = (if lw_maintainers w then w else w\<lparr>lw_maintainers := True\<rparr>)"

definition stop_maintainers_if_needed :: "leader_worker \<Rightarrow> leader_worker" where
  "stop_maintainers_if_needed w = (if \<not> lw_maintainers w then w else w\<lparr>lw_maintainers := False\<rparr>)"

definition set_leader_state :: "leader_worker \<Rightarrow> bool \<Rightarrow> string option \<Rightarrow> bool \<times> leader_worker" where
  "set_leader_state w is_lead lid =
     (let was = lw_flag w;
          w1 = w\<lparr>lw_flag := is_lead, lw_leader_id := (if is_lead then lid else None)\<rparr>;
          gained = (is_lead \<and> \<not> was);
          lost = (\<not> is_lead \<and> was)
      in (gained,
          if gained then start_maintainers_if_needed w1
          else if lost then stop_maintainers_if_needed w1 else w1))"

definition lease_key :: string where "lease_key = ''g2a:lock:maintainer_leader''"

text \<open>\<open>try_become_leader\<close> run without interruption.\<close>

definition try_become_leader ::
  "'r redis_cmds \<Rightarrow> rat \<Rightarrow> 'r \<Rightarrow> string \<Rightarrow> int \<Rightarrow> bool \<Rightarrow> rat \<Rightarrow> string \<Rightarrow> leader_worker
   \<Rightarrow> bool \<times> leader_worker \<times> 'r" where
  "try_become_leader R now r mode workers redis_on ttl wid w =
     (let force = want_force_leader mode
      in (if force = Some False then (False, snd (set_leader_state w False None), r)
          else if force = Some True \<or> workers \<le> 1
            then (True, snd (set_leader_state w True (Some (if workers \<le> 1 then ''local'' else ''forced''))), r)
          else if \<not> redis_on then (False, snd (set_leader_state w False None), r)
          else let (acquired, r1) = set_nx_ex R now r lease_key wid ttl;
                   (acquired, r2) =
                     (if acquired then (True, r1)
                      else if rd_get R now r1 lease_key = Some wid then renew_if_owner R now r1 lease_key wid ttl
                      else (False, r1))
               in (if acquired then (True, snd (set_leader_state w True (Some wid)), r2)
                   else (False, snd (set_leader_state w False None), r2))))"

text \<open>The pause of the watch loop.\<close>

definition watch_interval :: "rat \<Rightarrow> rat \<Rightarrow> rat" where
  "watch_interval renew ttl = max 2 (min renew (ttl / 2))"

text \<open>The watch loop between two Redis commands.\<close>

definition watch_next ::
  "'r redis_cmds \<Rightarrow> rat \<Rightarrow> rat \<Rightarrow> string \<Rightarrow> leader_worker \<Rightarrow> 'r \<Rightarrow> leader_worker \<times> 'r" where
  "watch_next R ttl now wid w r =
     (case lw_phase w of
        Idle \<Rightarrow>
          (let cur = rd_get R now r lease_key
           in (w\<lparr>lw_phase :=
                 (if cur = Some wid then Renewing
                  else if cur \<noteq> None \<and> cur \<noteq> Some [] then Setting False else Trying)\<rparr>, r))
      | Renewing \<Rightarrow>
          (let (ok, r') = renew_if_owner R now r lease_key wid ttl
           in (w\<lparr>lw_phase := Setting ok, lw_confirmed := (if ok then Some now else lw_confirmed w)\<rparr>, r'))
      | Trying \<Rightarrow>
          (let (ok, r') = set_nx_ex R now r lease_key wid ttl
           in (w\<lparr>lw_phase := (if ok then Setting True else Checking),
                 lw_confirmed := (if ok then Some now else lw_confirmed w)\<rparr>, r'))
      | Checking \<Rightarrow>
          (w\<lparr>lw_phase := (if rd_get R now r lease_key = Some wid then Renewing else Setting False)\<rparr>, r)
      | Setting b \<Rightarrow>
          (snd (set_leader_state (w\<lparr>lw_phase := Idle\<rparr>) b (Some wid)), r)
      | Stopped \<Rightarrow> (w, r))"

text \<open>\<open>release_leader\<close> of a worker of a multi-worker deployment.\<close>

definition release_leader ::
  "'r redis_cmds \<Rightarrow> rat \<Rightarrow> string \<Rightarrow> leader_worker \<Rightarrow> 'r \<Rightarrow> leader_worker \<times> 'r" where
  "release_leader R now wid w r =
     (w\<lparr>lw_flag := False, lw_maintainers := False, lw_phase := Stopped\<rparr>,
      snd (compare_and_delete R now r lease_key wid))"

subsection \<open>The cluster\<close>

record 'r cluster =
  cl_now :: rat
  cl_redis :: 'r
  cl_worker :: "string \<Rightarrow> leader_worker"

definition put_worker :: "'r cluster \<Rightarrow> string \<Rightarrow> leader_worker \<times> 'r \<Rightarrow> 'r cluster" where
  "put_worker s x wr = s\<lparr>cl_worker := (cl_worker s)(x := fst wr), cl_redis := snd wr\<rparr>"

text \<open>
  Time passes; a worker runs to its next Redis command; a command raises before Redis ran it (\<open>fail\<close>) or after
  (\<open>lost\<close>), which the loop catches; an idle worker shuts down.
\<close>

definition at_redis :: "phase \<Rightarrow> bool" where
  "at_redis p \<longleftrightarrow> p \<in> {Idle, Renewing, Trying, Checking}"

inductive cluster_step :: "'r redis_cmds \<Rightarrow> rat \<Rightarrow> 'r cluster \<Rightarrow> 'r cluster \<Rightarrow> bool"
  for R :: "'r redis_cmds" and ttl :: rat where
  pass: "cl_now s \<le> t \<Longrightarrow> cluster_step R ttl s (s\<lparr>cl_now := t\<rparr>)"
| work: "x \<noteq> [] \<Longrightarrow> cluster_step R ttl s (put_worker s x (watch_next R ttl (cl_now s) x (cl_worker s x) (cl_redis s)))"
| fail: "at_redis (lw_phase (cl_worker s x)) \<Longrightarrow>
    cluster_step R ttl s (put_worker s x ((cl_worker s x)\<lparr>lw_phase := Idle\<rparr>, cl_redis s))"
| lost: "x \<noteq> [] \<Longrightarrow> at_redis (lw_phase (cl_worker s x)) \<Longrightarrow>
    cluster_step R ttl s (put_worker s x ((cl_worker s x)\<lparr>lw_phase := Idle\<rparr>,
      snd (watch_next R ttl (cl_now s) x (cl_worker s x) (cl_redis s))))"
| release: "lw_phase (cl_worker s x) = Idle \<Longrightarrow>
    cluster_step R ttl s (put_worker s x (release_leader R (cl_now s) x (cl_worker s x) (cl_redis s)))"

inductive cluster_reachable :: "'r redis_cmds \<Rightarrow> rat \<Rightarrow> 'r cluster \<Rightarrow> bool"
  for R :: "'r redis_cmds" and ttl :: rat where
  boot: "(\<forall>x. cl_worker s x = new_worker) \<Longrightarrow> cluster_reachable R ttl s"
| step: "cluster_reachable R ttl s \<Longrightarrow> cluster_step R ttl s s' \<Longrightarrow> cluster_reachable R ttl s'"

subsection \<open>The lease under the helpers\<close>

definition lease_len :: "rat \<Rightarrow> rat" where "lease_len ttl = of_int (max 1 (trunc_rat ttl))"

lemma set_nx_ex_lease:
  assumes "lease_laws R lease"
  shows "fst (set_nx_ex R t r k v ttl) = (rd_get R t r k = None)"
    and "lease (snd (set_nx_ex R t r k v ttl)) =
      (if rd_get R t r k = None then (lease r)(k \<mapsto> (v, t + lease_len ttl)) else lease r)"
  using assms by (simp_all add: lease_laws_def set_nx_ex_def lease_len_def)

lemma renew_lease:
  assumes "lease_laws R lease"
  shows "fst (renew_if_owner R t r k v ttl) = (rd_get R t r k = Some v)"
    and "lease (snd (renew_if_owner R t r k v ttl)) =
      (if rd_get R t r k = Some v then (lease r)(k \<mapsto> (v, t + lease_len ttl)) else lease r)"
proof -
  from assms have "fst (rd_expire R t r k n) = (rd_get R t r k \<noteq> None)"
    "lease (snd (rd_expire R t r k n)) =
       (case rd_get R t r k of Some v \<Rightarrow> (lease r)(k \<mapsto> (v, t + of_int n)) | None \<Rightarrow> lease r)" for n
    by (simp_all add: lease_laws_def)
  then show "fst (renew_if_owner R t r k v ttl) = (rd_get R t r k = Some v)"
    "lease (snd (renew_if_owner R t r k v ttl)) =
      (if rd_get R t r k = Some v then (lease r)(k \<mapsto> (v, t + lease_len ttl)) else lease r)"
    by (simp_all add: renew_if_owner_def lease_len_def)
qed

lemma cad_lease:
  assumes "lease_laws R lease"
  shows "lease (snd (compare_and_delete R t r k v)) =
      (if rd_get R t r k = Some v then (lease r)(k := None) else lease r)"
  using assms by (simp add: lease_laws_def compare_and_delete_def)

lemma lease_get:
  "lease_laws R lease \<Longrightarrow> rd_get R t r k = Some v \<longleftrightarrow> (\<exists>e. lease r k = Some (v, e) \<and> t < e)"
  "lease_laws R lease \<Longrightarrow> rd_get R t r k = None \<longleftrightarrow> (\<forall>v e. lease r k = Some (v, e) \<longrightarrow> e \<le> t)"
  by (auto simp: lease_laws_def not_less split: option.splits)

lemma lease_len_pos: "1 \<le> lease_len ttl"
  by (simp add: lease_len_def)

text \<open>A step of the watch loop takes the lease only when it is free or its own.\<close>

lemma watch_next_lease:
  assumes "lease_laws R lease" and "watch_next R ttl now x w r = (w', r')"
  shows "lease r' lease_key = lease r lease_key \<or>
    (lease r' lease_key = Some (x, now + lease_len ttl) \<and> rd_get R now r lease_key \<in> {None, Some x})"
  using assms(2)
  by (auto simp: watch_next_def Let_def set_nx_ex_lease [OF assms(1)] renew_lease [OF assms(1)]
      case_prod_unfold split: phase.splits if_splits)

lemma watch_next_moved:
  assumes R: "lease_laws R lease" and n: "watch_next R ttl now x w r = (w', r')"
  shows "lease r' lease_key = lease r lease_key \<or>
    (lease r lease_key = None \<or> (\<exists>o1 e. lease r lease_key = Some (o1, e) \<and> (e \<le> now \<or> o1 = x)))"
proof (cases "lease r lease_key")
  case (Some l)
  obtain o1 e where l: "l = (o1, e)" by (cases l)
  have "rd_get R now r lease_key = Some o1" if "now < e"
    using that Some l lease_get(1) [OF R] by blast
  with watch_next_lease [OF R n] Some l show ?thesis by (cases "now < e") auto
qed simp

text \<open>A worker confirms its lease only by the command that took or renewed it.\<close>

lemma watch_next_confirmed:
  assumes "lease_laws R lease" and "watch_next R ttl now x w r = (w', r')"
  shows "(lw_confirmed w' = lw_confirmed w \<or>
      (lw_confirmed w' = Some now \<and> lease r' lease_key = Some (x, now + lease_len ttl)))"
    and "lw_phase w' = Stopped \<longleftrightarrow> lw_phase w = Stopped"
    and "lw_flag w' \<or> lw_phase w' = Setting True \<Longrightarrow>
      lw_flag w \<or> lw_phase w = Setting True \<or> lw_confirmed w' = Some now"
    and "lw_phase w' = Setting True \<Longrightarrow> lw_confirmed w' = Some now"
  using assms(2)
  by (auto simp: watch_next_def Let_def set_nx_ex_lease [OF assms(1)] renew_lease [OF assms(1)]
      set_leader_state_def start_maintainers_if_needed_def stop_maintainers_if_needed_def lease_get [OF assms(1)]
      case_prod_unfold split: phase.splits if_splits)

subsection \<open>The invariant of the cluster\<close>

definition lease_held :: "rat \<Rightarrow> (string \<times> rat) option \<Rightarrow> rat \<Rightarrow> string \<Rightarrow> rat \<Rightarrow> bool" where
  "lease_held len l now x c \<longleftrightarrow> c \<le> now \<and> (c + len \<le> now \<or> (\<exists>e. l = Some (x, e) \<and> c + len \<le> e))"

definition leader_confirmed :: "leader_worker \<Rightarrow> bool" where
  "leader_confirmed w \<longleftrightarrow> (lw_flag w \<or> lw_phase w = Setting True \<longrightarrow> lw_confirmed w \<noteq> None)"

definition cluster_ok :: "rat \<Rightarrow> ('r \<Rightarrow> string \<Rightarrow> (string \<times> rat) option) \<Rightarrow> 'r cluster \<Rightarrow> bool" where
  "cluster_ok ttl lease s \<longleftrightarrow>
     (\<forall>x. lw_phase (cl_worker s x) \<noteq> Stopped \<longrightarrow>
        leader_confirmed (cl_worker s x) \<and>
        (\<forall>c. lw_confirmed (cl_worker s x) = Some c \<longrightarrow>
           lease_held (lease_len ttl) (lease (cl_redis s) lease_key) (cl_now s) x c))"

lemma lease_held_later: "lease_held len l now x c \<Longrightarrow> now \<le> t \<Longrightarrow> lease_held len l t x c"
  by (auto simp: lease_held_def)

lemma lease_held_now: "lease_held (lease_len ttl) (Some (x, now + lease_len ttl)) now x now"
  by (simp add: lease_held_def)

lemma lease_held_taken: "lease_held len l now x c \<Longrightarrow> lease_held len (Some (x, now + len)) now x c"
  by (auto simp: lease_held_def)

text \<open>Another worker's lease survives any move of the lock that Redis allows.\<close>

lemma lease_held_moved:
  assumes "lease_held len l now y c" and "l = None \<or> (\<exists>o1 e. l = Some (o1, e) \<and> (e \<le> now \<or> o1 \<noteq> y))"
  shows "lease_held len l' now y c"
  using assms by (auto simp: lease_held_def)

lemma cluster_ok_worker:
  assumes ok: "cluster_ok ttl lease s"
    and own: "lw_phase w' \<noteq> Stopped \<Longrightarrow> leader_confirmed w' \<and>
      (\<forall>c. lw_confirmed w' = Some c \<longrightarrow> lease_held (lease_len ttl) (lease r' lease_key) (cl_now s) x c)"
    and moved: "lease r' lease_key = lease (cl_redis s) lease_key \<or>
      (lease (cl_redis s) lease_key = None \<or>
       (\<exists>o1 e. lease (cl_redis s) lease_key = Some (o1, e) \<and> (e \<le> cl_now s \<or> o1 = x)))"
  shows "cluster_ok ttl lease (put_worker s x (w', r'))"
  unfolding cluster_ok_def
proof (intro allI impI)
  fix y
  assume p: "lw_phase (cl_worker (put_worker s x (w', r')) y) \<noteq> Stopped"
  show "leader_confirmed (cl_worker (put_worker s x (w', r')) y) \<and>
      (\<forall>c. lw_confirmed (cl_worker (put_worker s x (w', r')) y) = Some c \<longrightarrow>
         lease_held (lease_len ttl) (lease (cl_redis (put_worker s x (w', r'))) lease_key)
           (cl_now (put_worker s x (w', r'))) y c)"
  proof (cases "y = x")
    case True
    then show ?thesis using own p by (simp add: put_worker_def)
  next
    case False
    then have "lw_phase (cl_worker s y) \<noteq> Stopped" using p by (simp add: put_worker_def)
    with ok have "leader_confirmed (cl_worker s y)"
      "\<forall>c. lw_confirmed (cl_worker s y) = Some c \<longrightarrow>
         lease_held (lease_len ttl) (lease (cl_redis s) lease_key) (cl_now s) y c"
      by (auto simp: cluster_ok_def)
    with moved False lease_held_moved show ?thesis
      by (auto simp: put_worker_def) metis+
  qed
qed

lemma cluster_step_ok:
  assumes R: "lease_laws R lease" and st: "cluster_step R ttl s s'" and ok: "cluster_ok ttl lease s"
  shows "cluster_ok ttl lease s'"
  using st
proof (cases rule: cluster_step.cases)
  case (pass t)
  with ok lease_held_later show ?thesis by (fastforce simp: cluster_ok_def)
next
  case (work x)
  let ?w = "cl_worker s x" and ?r = "cl_redis s"
  obtain w' r' where n: "watch_next R ttl (cl_now s) x ?w ?r = (w', r')" by force
  note eff = watch_next_confirmed [OF R n] and move = watch_next_lease [OF R n]
  note m = watch_next_moved [OF R n]
  have "leader_confirmed w' \<and>
      (\<forall>c. lw_confirmed w' = Some c \<longrightarrow> lease_held (lease_len ttl) (lease r' lease_key) (cl_now s) x c)"
    if p: "lw_phase w' \<noteq> Stopped"
  proof -
    have "lw_phase ?w \<noteq> Stopped" using p eff(2) by simp
    with ok have o: "leader_confirmed ?w" "\<forall>c. lw_confirmed ?w = Some c \<longrightarrow>
        lease_held (lease_len ttl) (lease ?r lease_key) (cl_now s) x c"
      by (auto simp: cluster_ok_def)
    have "\<forall>c. lw_confirmed ?w = Some c \<longrightarrow> lease_held (lease_len ttl) (lease r' lease_key) (cl_now s) x c"
      using o(2) move lease_held_taken by metis
    then have "\<forall>c. lw_confirmed w' = Some c \<longrightarrow> lease_held (lease_len ttl) (lease r' lease_key) (cl_now s) x c"
      using eff(1) lease_held_now by (metis option.inject)
    moreover have "leader_confirmed w'" using o(1) eff(1,3) by (auto simp: leader_confirmed_def)
    ultimately show ?thesis by blast
  qed
  from cluster_ok_worker [OF ok this m] n work show ?thesis by simp
next
  case (fail x)
  have "cluster_ok ttl lease (put_worker s x ((cl_worker s x)\<lparr>lw_phase := Idle\<rparr>, cl_redis s))"
    by (rule cluster_ok_worker [OF ok])
      (use ok fail in \<open>auto simp: cluster_ok_def leader_confirmed_def at_redis_def\<close>)
  with fail show ?thesis by simp
next
  case (lost x)
  let ?w = "cl_worker s x" and ?r = "cl_redis s"
  obtain w' r' where n: "watch_next R ttl (cl_now s) x ?w ?r = (w', r')" by force
  note move = watch_next_lease [OF R n]
  note m = watch_next_moved [OF R n]
  have "lw_phase ?w \<noteq> Stopped" using lost by (auto simp: at_redis_def)
  with ok have o: "leader_confirmed ?w" "\<forall>c. lw_confirmed ?w = Some c \<longrightarrow>
      lease_held (lease_len ttl) (lease ?r lease_key) (cl_now s) x c"
    by (auto simp: cluster_ok_def)
  have "lease_held (lease_len ttl) (lease r' lease_key) (cl_now s) x c" if "lw_confirmed ?w = Some c" for c
    using o(2) that move lease_len_pos [of ttl] by (auto simp: lease_held_def)
  then have "cluster_ok ttl lease (put_worker s x (?w\<lparr>lw_phase := Idle\<rparr>, r'))"
    using o(1) by (intro cluster_ok_worker [OF ok _ m]) (auto simp: leader_confirmed_def)
  with n lost show ?thesis by simp
next
  case (release x)
  have "cluster_ok ttl lease (put_worker s x (release_leader R (cl_now s) x (cl_worker s x) (cl_redis s)))"
    unfolding release_leader_def
    by (rule cluster_ok_worker [OF ok]) (auto simp: cad_lease [OF R] lease_get [OF R])
  with release show ?thesis by simp
qed

lemma cluster_reachable_ok:
  assumes "lease_laws R lease"
  shows "cluster_reachable R ttl s \<Longrightarrow> cluster_ok ttl lease s"
proof (induction rule: cluster_reachable.induct)
  case (boot s)
  then show ?case by (simp add: cluster_ok_def new_worker_def leader_confirmed_def)
next
  case (step s s')
  then show ?case using cluster_step_ok [OF assms] by blast
qed

end
