(* ===== verification/Leader_Theorems.thy ===== *)
theory Leader_Theorems
  imports Leader
begin

text \<open>
  The properties of the leader election: who may lead at once, that the maintainers follow the flag, that
  a free lock elects, and that the stepwise loop is \<open>try_become_leader\<close> when nothing interrupts it.
\<close>

subsection \<open>A Redis that keeps the laws\<close>

definition mini_redis :: "(string \<rightharpoonup> string \<times> rat) redis_cmds" where
  "mini_redis =
     (let g = \<lambda>t r k. case r k of Some (v, e) \<Rightarrow> (if t < e then Some v else None) | None \<Rightarrow> None
      in \<lparr>rd_get = g,
          rd_set_nx_ex = (\<lambda>t r k v n. if g t r k = None then (True, r(k \<mapsto> (v, t + of_int n))) else (False, r)),
          rd_expire = (\<lambda>t r k n. case g t r k of Some v \<Rightarrow> (True, r(k \<mapsto> (v, t + of_int n))) | None \<Rightarrow> (False, r)),
          rd_del = (\<lambda>t r k. (g t r k \<noteq> None, r(k := None)))\<rparr>)"

lemma mini_redis_laws: "lease_laws mini_redis (\<lambda>r. r)"
  by (simp add: lease_laws_def mini_redis_def Let_def split: option.splits)

definition mini_boot :: "(string \<rightharpoonup> string \<times> rat) cluster" where
  "mini_boot = \<lparr>cl_now = 0, cl_redis = Map.empty, cl_worker = (\<lambda>_. new_worker)\<rparr>"

text \<open>Worker \<open>x\<close> runs \<open>n\<close> commands in a row.\<close>

primrec work_n :: "'r redis_cmds \<Rightarrow> rat \<Rightarrow> string \<Rightarrow> nat \<Rightarrow> 'r cluster \<Rightarrow> 'r cluster" where
  "work_n R ttl x 0 s = s"
| "work_n R ttl x (Suc n) s =
     work_n R ttl x n (put_worker s x (watch_next R ttl (cl_now s) x (cl_worker s x) (cl_redis s)))"

lemma work_n_reachable:
  assumes "x \<noteq> []"
  shows "cluster_reachable R ttl s \<Longrightarrow> cluster_reachable R ttl (work_n R ttl x n s)"
proof (induction n arbitrary: s)
  case (Suc n)
  from Suc.IH [OF cluster_reachable.step [OF Suc.prems cluster_step.work [OF assms]]]
  show ?case by simp
qed simp

lemma free_lease_work:
  assumes "lease_laws R lease" "rd_get R (cl_now s) (cl_redis s) lease_key = None"
    "lw_phase (cl_worker s x) = Idle"
  shows "cl_worker (work_n R ttl x 3 s) = (cl_worker s)(x := snd (set_leader_state
      ((cl_worker s x)\<lparr>lw_confirmed := Some (cl_now s), lw_phase := Idle\<rparr>) True (Some x))) \<and>
    cl_now (work_n R ttl x 3 s) = cl_now s \<and>
    lease (cl_redis (work_n R ttl x 3 s)) = (lease (cl_redis s))(lease_key \<mapsto> (x, cl_now s + lease_len ttl))"
  using assms set_nx_ex_lease [OF assms(1), of "cl_now s" "cl_redis s" lease_key x ttl]
  by (simp add: numeral_3_eq_3 watch_next_def put_worker_def Let_def case_prod_unfold)

subsection \<open>Exclusion\<close>


definition elected :: "(string \<rightharpoonup> string \<times> rat) cluster" where
  "elected = work_n mini_redis 30 ''w1'' 3 mini_boot"

lemma mini_boot_reachable: "cluster_reachable mini_redis 30 mini_boot"
  by (rule boot) (simp add: mini_boot_def)

lemma elected_reachable: "cluster_reachable mini_redis 30 elected"
  unfolding elected_def by (rule work_n_reachable [OF _ mini_boot_reachable]) simp

lemma lease_len_30: "lease_len 30 = 30"
proof -
  have "trunc_rat 30 = 30" using trunc_rat_of_int [of 30] by simp
  then show ?thesis by (simp add: lease_len_def)
qed

lemma elected_worker:
  "cl_worker elected = (\<lambda>_. new_worker)(''w1'' := new_worker\<lparr>lw_flag := True, lw_leader_id := Some ''w1'',
     lw_maintainers := True, lw_confirmed := Some 0\<rparr>)"
  "cl_now elected = 0" "cl_redis elected = [lease_key \<mapsto> (''w1'', 30)]"
  using free_lease_work [OF mini_redis_laws, of mini_boot "''w1''" 30]
  by (simp_all add: elected_def mini_boot_def mini_redis_def new_worker_def set_leader_state_def
      start_maintainers_if_needed_def lease_len_30 Let_def)


text \<open>
  The flag itself does not exclude. With the lock life of 30 seconds, a leader whose loop is delayed, or whose
  Redis commands raise, keeps its flag and its maintainers while another worker is elected.
\<close>

lemma two_leaders_reachable:
  "\<exists>s. cluster_reachable mini_redis 30 s \<and>
     lw_flag (cl_worker s ''w1'') \<and> lw_maintainers (cl_worker s ''w1'') \<and>
     lw_flag (cl_worker s ''w2'') \<and> lw_maintainers (cl_worker s ''w2'')"
proof -
  define s where "s = elected\<lparr>cl_now := 30\<rparr>"
  have "cluster_step mini_redis 30 elected s" unfolding s_def by (rule pass) (simp add: elected_worker)
  then have r: "cluster_reachable mini_redis 30 s" using elected_reachable by (rule cluster_reachable.step [rotated])
  have r2: "cluster_reachable mini_redis 30 (work_n mini_redis 30 ''w2'' 3 s)"
    by (rule work_n_reachable [OF _ r]) simp
  have f: "rd_get mini_redis (cl_now s) (cl_redis s) lease_key = None"
    by (simp add: s_def elected_worker mini_redis_def)
  have p: "lw_phase (cl_worker s ''w2'') = Idle" by (simp add: s_def elected_worker new_worker_def)
  have "cl_worker (work_n mini_redis 30 ''w2'' 3 s) = (cl_worker s)(''w2'' := snd (set_leader_state
      ((cl_worker s ''w2'')\<lparr>lw_confirmed := Some (cl_now s), lw_phase := Idle\<rparr>) True (Some ''w2'')))"
    using free_lease_work [OF mini_redis_laws f p] by blast
  then have "lw_flag (cl_worker (work_n mini_redis 30 ''w2'' 3 s) z) \<and> lw_maintainers (cl_worker (work_n mini_redis 30 ''w2'' 3 s) z)"
    if "z \<in> {''w1'', ''w2''}" for z
    using that by (auto simp: s_def elected_worker new_worker_def set_leader_state_def
        start_maintainers_if_needed_def)
  with r2 show ?thesis by blast
qed

subsection \<open>Election and maintainers\<close>

lemma set_leader_state_maintainers:
  "lw_maintainers w = lw_flag w \<Longrightarrow>
     lw_maintainers (snd (set_leader_state w b l)) = b \<and> lw_flag (snd (set_leader_state w b l)) = b"
  by (simp add: set_leader_state_def start_maintainers_if_needed_def stop_maintainers_if_needed_def Let_def)

lemma watch_next_maintainers:
  "lw_maintainers w = lw_flag w \<Longrightarrow> lw_maintainers (fst (watch_next R ttl now x w r)) = lw_flag (fst (watch_next R ttl now x w r))"
  by (auto simp: watch_next_def Let_def case_prod_unfold set_leader_state_maintainers split: phase.splits)

text \<open>In every reachable state the maintainers of a worker run exactly when it has the leader flag.\<close>

lemma maintainers_follow_flag:
  assumes "cluster_reachable R ttl s"
  shows "\<forall>x. lw_maintainers (cl_worker s x) = lw_flag (cl_worker s x)"
  using assms
proof (induction rule: cluster_reachable.induct)
  case (boot s)
  then show ?case by (simp add: new_worker_def)
next
  case (step s s')
  from step(2) step.IH show ?case
    by (cases rule: cluster_step.cases)
      (auto simp: put_worker_def release_leader_def watch_next_maintainers)
qed

lemma maintainers_follow_flag_witness:
  "lw_maintainers (cl_worker elected ''w1'') \<and> \<not> lw_maintainers (cl_worker elected ''w2'')"
  using maintainers_follow_flag [OF elected_reachable] by (simp add: elected_worker new_worker_def)

text \<open>
  A free lock elects: an idle worker that runs its next three commands undisturbed has the flag, runs the
  maintainers and owns the lock for a full life.
\<close>

lemma free_lock_elects:
  assumes "lease_laws R lease" "rd_get R (cl_now s) (cl_redis s) lease_key = None"
    "lw_phase (cl_worker s x) = Idle" "lw_maintainers (cl_worker s x) = lw_flag (cl_worker s x)"
  shows "lw_flag (cl_worker (work_n R ttl x 3 s) x) \<and> lw_maintainers (cl_worker (work_n R ttl x 3 s) x) \<and>
    lease (cl_redis (work_n R ttl x 3 s)) lease_key = Some (x, cl_now s + lease_len ttl)"
  using free_lease_work [OF assms(1-3), of ttl] assms(4) by (simp add: set_leader_state_maintainers)

lemma free_lock_elects_witness:
  "lw_flag (cl_worker (work_n mini_redis 30 ''w9'' 3 mini_boot) ''w9'')"
  using free_lock_elects [OF mini_redis_laws, of mini_boot "''w9''" 30]
  by (simp add: mini_boot_def mini_redis_def new_worker_def)

text \<open>The loop looks at the lock at least twice in a lock life, for every configuration the settings admit.\<close>

lemma watch_interval_bounds:
  assumes "5 \<le> ttl" "2 \<le> renew"
  shows "2 \<le> watch_interval renew ttl \<and> watch_interval renew ttl \<le> ttl / 2 \<and> watch_interval renew ttl \<le> renew"
  using assms by (simp add: watch_interval_def)

lemma watch_interval_bounds_witness: "watch_interval 10 30 = 10 \<and> 2 \<le> watch_interval 10 30"
  using watch_interval_bounds [of 30 10] by (simp add: watch_interval_def)

text \<open>The loop run until it is idle again.\<close>

fun watch_until_idle ::
  "nat \<Rightarrow> 'r redis_cmds \<Rightarrow> rat \<Rightarrow> rat \<Rightarrow> string \<Rightarrow> leader_worker \<times> 'r \<Rightarrow> leader_worker \<times> 'r" where
  "watch_until_idle 0 R ttl now wid wr = wr"
| "watch_until_idle (Suc n) R ttl now wid wr =
     (if lw_phase (fst wr) = Idle then wr
      else watch_until_idle n R ttl now wid (watch_next R ttl now wid (fst wr) (snd wr)))"

text \<open>
  \<open>try_become_leader\<close> of a worker of a multi-worker deployment in automatic mode is the stepwise election run
  without interruption: the same Redis, the same flag, leader id and maintainers, and four commands
  suffice.
\<close>

lemma try_become_leader_steps:
  assumes "want_force_leader mode = None" "1 < workers"
    and "(acquired, w1, r1) = try_become_leader R now r mode workers True ttl wid w"
    and "(w2, r2) = watch_until_idle 4 R ttl now wid (w\<lparr>lw_phase := Trying\<rparr>, r)"
  shows "r2 = r1 \<and> lw_flag w2 = acquired \<and> lw_flag w2 = lw_flag w1 \<and> lw_leader_id w2 = lw_leader_id w1 \<and>
    lw_maintainers w2 = lw_maintainers w1 \<and> lw_phase w2 = Idle"
  using assms
  by (simp add: numeral_eq_Suc try_become_leader_def watch_next_def set_leader_state_def Let_def case_prod_unfold
      start_maintainers_if_needed_def stop_maintainers_if_needed_def split: if_splits)

lemma try_become_leader_steps_witness:
  "\<exists>w1 r1. try_become_leader mini_redis 0 Map.empty [] 4 True 30 ''w1'' new_worker = (True, w1, r1) \<and> lw_flag w1"
proof -
  have m: "want_force_leader [] = None" by code_simp
  obtain a w1 r1 where t: "(a, w1, r1) = try_become_leader mini_redis 0 Map.empty [] 4 True 30 ''w1'' new_worker"
    by (metis prod_cases3)
  obtain w2 r2 where u: "(w2, r2) = watch_until_idle 4 mini_redis 30 0 ''w1'' (new_worker\<lparr>lw_phase := Trying\<rparr>, Map.empty)"
    by (metis surj_pair)
  have "a"
    using t set_nx_ex_lease(1) [OF mini_redis_laws, of 0 Map.empty lease_key "''w1''" 30] m
    by (simp add: try_become_leader_def Let_def case_prod_unfold mini_redis_def split: if_splits)
  with try_become_leader_steps [OF m _ t u] have "lw_flag w1" by auto
  with t \<open>a\<close> show ?thesis by (metis (full_types))
qed

end
