(* ===== verification/Model_Catalog.thy ===== *)
theory Model_Catalog
  imports Pool_Row "HOL-Library.Product_Lexorder" "HOL-Library.List_Lexorder" "HOL-Library.Char_ord"
begin

text \<open>
  The Build model catalog: aliases (\<open>grok2api/config.py\<close>), the catalog table (\<open>grok2api/store/models_pg.py\<close>) and the
  list the clients see (\<open>grok2api/upstream/models.py\<close>), without the network call of the sync.

  The default model is an environment variable, hence a parameter \<open>dm\<close>. \<open>None\<close> of a writing operation is an
  exception of the driver: its transaction is rolled back. Rows sort by code point, PostgreSQL's \<open>C\<close> collation.
\<close>

subsection \<open>Names\<close>

definition MODEL_ALIASES :: "string \<Rightarrow> (string \<times> string) list" where
  "MODEL_ALIASES dm =
     map (\<lambda>k. (k, dm))
       [''gpt-4'', ''gpt-4o'', ''gpt-3.5-turbo'', ''gpt-4-turbo'', ''claude'', ''claude-3'', ''claude-3-5-sonnet'',
        ''claude-3-5-sonnet-20240620'', ''claude-3-5-sonnet-20241022'', ''claude-3-5-haiku'',
        ''claude-3-5-haiku-20241022'', ''claude-3-haiku'', ''claude-3-haiku-20240307'', ''claude-3-opus'',
        ''claude-3-opus-20240229'', ''claude-3-sonnet'', ''claude-3-sonnet-20240229'', ''claude-sonnet-4'',
        ''claude-sonnet-4-0'', ''claude-sonnet-4-20250514'', ''claude-sonnet-4-5'', ''claude-sonnet-4-5-20250929'',
        ''claude-opus-4'', ''claude-opus-4-0'', ''claude-opus-4-20250514'', ''claude-opus-4-5'', ''claude-haiku-4'',
        ''claude-haiku-4-5'', ''claude-haiku-4-5-20251001'', ''grok'', ''grok-latest'']
     @ [(''grok-build'', ''grok-build''), (''grok-build-latest'', ''grok-build''),
        (''grok-4.5-build-free'', ''grok-build''), (''grok-4.5-build'', ''grok-build''), (''default'', dm)]"

definition resolve_model :: "string \<Rightarrow> string option \<Rightarrow> string" where
  "resolve_model dm model =
     (case model of
        None \<Rightarrow> dm
      | Some s \<Rightarrow>
          (if s = [] then dm
           else let m = strip s
                in (if lower m \<in> {''grok-search'', ''web-search''} then dm
                    else (case map_of (MODEL_ALIASES dm) m of
                            Some v \<Rightarrow> v
                          | None \<Rightarrow> (case map_of (MODEL_ALIASES dm) (lower m) of Some v \<Rightarrow> v | None \<Rightarrow> m)))))"

definition model_sort_key :: "string \<Rightarrow> pydict \<Rightarrow> nat \<times> string" where
  "model_sort_key dm m =
     (let mid = str_or_empty (dget m ''id'')
      in (if mid = dm then (0, mid) else if mid = ''grok-build'' then (1, mid) else (2, mid)))"

definition sort_order_for :: "string \<Rightarrow> string \<Rightarrow> int" where
  "sort_order_for dm mid =
     (if mid = dm then 0 else if mid = ''grok-build'' then 1 else if mid = ''grok-search'' then 2 else 100)"

text \<open>The built-in entries: id, name, description.\<close>

definition EXTRA_MODELS :: "(string \<times> string \<times> string) list" where
  "EXTRA_MODELS =
     [(''grok-build'', ''Grok Build'', ''Grok coding / build model (cli-chat-proxy)''),
      (''grok-search'', ''Grok Search'', ''Grok with web search enabled (local alias)'')]"

definition extra_model_entries :: "string \<Rightarrow> int \<Rightarrow> pydict list" where
  "extra_model_entries dm ts =
     map (\<lambda>(mid, name, description).
       [(''id'', PStr mid), (''object'', PStr ''model''), (''created'', PInt ts), (''owned_by'', PStr ''xai''),
        (''synthetic'', PBool True), (''sort_order'', PInt (sort_order_for dm mid)),
        (''name'', PStr name), (''description'', PStr description)]) EXTRA_MODELS"

definition extra_items_for_pg :: "string \<Rightarrow> pyval \<Rightarrow> pydict list" where
  "extra_items_for_pg dm fetched_at =
     map (\<lambda>(mid, name, description).
       [(''id'', PStr mid), (''name'', PStr name), (''description'', PStr description), (''owned_by'', PStr ''xai''),
        (''hidden'', PBool False), (''synthetic'', PBool True), (''model'', PStr mid),
        (''sort_order'', PInt (sort_order_for dm mid)), (''fetched_at'', fetched_at)]) EXTRA_MODELS"

text \<open>The loop of \<open>_merge_extra_models\<close> and of \<open>_persist_items_to_pg\<close>: append the extras whose id is not there.\<close>

definition have_ids :: "pydict list \<Rightarrow> string set" where
  "have_ids models = set (map (\<lambda>m. norm_text (dget m ''id'')) (filter (\<lambda>m. truthy (dget m ''id'')) models))"

fun append_missing :: "string set \<Rightarrow> pydict list \<Rightarrow> pydict list \<Rightarrow> pydict list" where
  "append_missing known models [] = models"
| "append_missing known models (extra # extras) =
     (let mid = norm_text (dget extra ''id'')
      in (if mid \<noteq> [] \<and> mid \<notin> known then append_missing (insert mid known) (models @ [extra]) extras
          else append_missing known models extras))"

definition merge_extra_models :: "string \<Rightarrow> int \<Rightarrow> pydict list \<Rightarrow> pydict list" where
  "merge_extra_models dm ts models = append_missing (have_ids models) models (extra_model_entries dm ts)"

subsection \<open>Records\<close>

definition exposed_fields :: "string list" where
  "exposed_fields = [''max_completion_tokens'', ''reasoning_effort'', ''reasoning_efforts'',
     ''auto_compact_threshold_percent'', ''supported_in_api'']"

fun copy_missing :: "string list \<Rightarrow> pydict \<Rightarrow> pydict \<Rightarrow> pydict" where
  "copy_missing [] src d = d"
| "copy_missing (k # ks) src d =
     copy_missing ks src (if dget src k \<noteq> PNone \<and> \<not> dhas d k then dset d k (dget src k) else d)"

fun copy_present :: "string list \<Rightarrow> pydict \<Rightarrow> pydict \<Rightarrow> pydict" where
  "copy_present [] src d = d"
| "copy_present (k # ks) src d = copy_present ks src (if dget src k \<noteq> PNone then dset d k (dget src k) else d)"

record model_rec =
  mo_id :: string
  mo_name :: pyval
  mo_description :: pyval
  mo_owned_by :: pyval
  mo_hidden :: bool
  mo_synthetic :: bool
  mo_context_window :: pyval
  mo_effort :: pyval
  mo_extra :: pydict
  mo_sort_order :: int
  mo_fetched_at :: pyval

definition normalize_record :: "pydict \<Rightarrow> pyval \<Rightarrow> model_rec option" where
  "normalize_record item default_fetched_at =
     (let info = dict_of (dget item ''info'');
          mid = strip (str_or_empty (py_or (dget item ''id'') (py_or (dget item ''model'')
                  (py_or (dget info ''id'') (dget info ''model'')))))
      in (if mid = [] then None
          else let extra = copy_missing (exposed_fields @ [''model'', ''api_key'', ''env_key'']) item
                             (dict_of (dget item ''extra''));
                   sort_order = (case py_int (if dget item ''sort_order'' \<noteq> PNone then dget item ''sort_order'' else PInt 100) of
                                   Some i \<Rightarrow> i | None \<Rightarrow> 100);
                   fetched_at = dget_or item ''fetched_at'' default_fetched_at
               in (if info \<noteq> [] then
                     let m = strip (str_or_empty (py_or (dget info ''id'') (py_or (dget info ''model'') (PStr mid))));
                         mid' = (if m = [] then mid else m)
                     in Some \<lparr>mo_id = mid',
                          mo_name = py_or (dget info ''name'') (py_or (dget item ''name'') (PStr mid')),
                          mo_description = (if dget info ''description'' \<noteq> PNone then dget info ''description''
                                            else dget item ''description''),
                          mo_owned_by = py_or (dget info ''owned_by'') (py_or (dget item ''owned_by'') (PStr ''xai'')),
                          mo_hidden = (if dhas info ''hidden'' then truthy (dget info ''hidden'') else truthy (dget item ''hidden'')),
                          mo_synthetic = (if dhas info ''synthetic'' then truthy (dget info ''synthetic'')
                                          else truthy (dget item ''synthetic'')),
                          mo_context_window = dget_or info ''context_window'' (dget item ''context_window''),
                          mo_effort = dget_or info ''supports_reasoning_effort'' (dget item ''supports_reasoning_effort''),
                          mo_extra = copy_present (exposed_fields @ [''model'']) info extra,
                          mo_sort_order = sort_order, mo_fetched_at = fetched_at\<rparr>
                   else
                     Some \<lparr>mo_id = mid, mo_name = py_or (dget item ''name'') (PStr mid),
                        mo_description = dget item ''description'',
                        mo_owned_by = py_or (dget item ''owned_by'') (PStr ''xai''),
                        mo_hidden = truthy (dget item ''hidden''), mo_synthetic = truthy (dget item ''synthetic''),
                        mo_context_window = dget item ''context_window'',
                        mo_effort = dget item ''supports_reasoning_effort'',
                        mo_extra = extra, mo_sort_order = sort_order, mo_fetched_at = fetched_at\<rparr>)))"

subsection \<open>The table\<close>

record model_row =
  mw_id :: string
  mw_name :: pyval
  mw_description :: pyval
  mw_owned_by :: pyval
  mw_hidden :: bool
  mw_synthetic :: bool
  mw_context_window :: "int option"
  mw_effort :: "bool option"
  mw_extra :: pydict
  mw_sort_order :: int
  mw_fetched_at :: "rat option"
  mw_updated_at :: rat

fun bool_col :: "pyval \<Rightarrow> bool option option" where
  "bool_col PNone = Some None"
| "bool_col (PBool b) = Some (Some b)"
| "bool_col v = None"

definition row_of_rec :: "pg_env \<Rightarrow> rat \<Rightarrow> model_rec \<Rightarrow> model_row option" where
  "row_of_rec env now rc = do {
     context_window \<leftarrow> int_col (mo_context_window rc);
     effort \<leftarrow> bool_col (mo_effort rc);
     Some \<lparr>mw_id = mo_id rc, mw_name = mo_name rc, mw_description = mo_description rc,
       mw_owned_by = py_or (mo_owned_by rc) (PStr ''xai''), mw_hidden = mo_hidden rc, mw_synthetic = mo_synthetic rc,
       mw_context_window = context_window, mw_effort = effort, mw_extra = mo_extra rc,
       mw_sort_order = (if mo_sort_order rc = 0 then 100 else mo_sort_order rc),
       mw_fetched_at = ts_col env (mo_fetched_at rc), mw_updated_at = now\<rparr>
   }"

text \<open>\<open>INSERT ... ON CONFLICT (id) DO UPDATE\<close>: a new \<open>NULL\<close> time keeps the stored one.\<close>

fun upsert_row :: "model_row \<Rightarrow> model_row list \<Rightarrow> model_row list" where
  "upsert_row new [] = [new]"
| "upsert_row new (r # rows) =
     (if mw_id r = mw_id new
      then new\<lparr>mw_fetched_at := (if mw_fetched_at new = None then mw_fetched_at r else mw_fetched_at new)\<rparr> # rows
      else r # upsert_row new rows)"

fun upsert_recs :: "pg_env \<Rightarrow> rat \<Rightarrow> model_rec list \<Rightarrow> model_row list \<Rightarrow> model_row list option" where
  "upsert_recs env now [] rows = Some rows"
| "upsert_recs env now (rc # rcs) rows =
     Option.bind (row_of_rec env now rc) (\<lambda>row. upsert_recs env now rcs (upsert_row row rows))"

definition upsert_model :: "pg_env \<Rightarrow> rat \<Rightarrow> pydict \<Rightarrow> model_row list \<Rightarrow> (bool \<times> model_row list) option" where
  "upsert_model env now item rows =
     (case normalize_record item PNone of
        None \<Rightarrow> Some (False, rows)
      | Some rc \<Rightarrow> map_option (\<lambda>rows'. (True, rows')) (upsert_recs env now [rc] rows))"

definition row_to_record :: "model_row \<Rightarrow> pydict" where
  "row_to_record r =
     (let base = [(''id'', PStr (mw_id r)), (''name'', mw_name r), (''description'', mw_description r),
        (''owned_by'', py_or (mw_owned_by r) (PStr ''xai'')), (''hidden'', PBool (mw_hidden r)),
        (''synthetic'', PBool (mw_synthetic r)), (''context_window'', of_opt PInt (mw_context_window r)),
        (''supports_reasoning_effort'', of_opt PBool (mw_effort r)), (''extra'', PDict (mw_extra r)),
        (''sort_order'', PInt (if mw_sort_order r = 0 then 100 else mw_sort_order r)),
        (''fetched_at'', of_opt PFloat (mw_fetched_at r)), (''updated_at'', PFloat (mw_updated_at r))]
      in foldl (\<lambda>d k. if dhas (mw_extra r) k \<and> \<not> dhas d k then dset d k (dget (mw_extra r) k) else d)
           base (exposed_fields @ [''model'']))"

definition list_models :: "bool \<Rightarrow> model_row list \<Rightarrow> pydict list" where
  "list_models include_hidden rows =
     map row_to_record (sort_key (\<lambda>r. (mw_sort_order r, mw_id r))
       (filter (\<lambda>r. include_hidden \<or> \<not> mw_hidden r) rows))"

definition count_models :: "bool \<Rightarrow> model_row list \<Rightarrow> nat" where
  "count_models include_hidden rows = length (filter (\<lambda>r. include_hidden \<or> \<not> mw_hidden r) rows)"

text \<open>The loop of \<open>replace_all\<close> that keeps the first record of every id.\<close>

fun first_records :: "string set \<Rightarrow> pyval \<Rightarrow> pyval list \<Rightarrow> model_rec list" where
  "first_records seen fetched_at [] = []"
| "first_records seen fetched_at (raw # items) =
     (if \<not> is_dict raw then first_records seen fetched_at items
      else (case normalize_record (dict_of raw) fetched_at of
              None \<Rightarrow> first_records seen fetched_at items
            | Some rc \<Rightarrow>
                (if mo_id rc \<in> seen then first_records seen fetched_at items
                 else rc # first_records (insert (mo_id rc) seen) fetched_at items)))"

definition retained_record :: "pyval \<Rightarrow> model_row \<Rightarrow> model_rec" where
  "retained_record fetched_at r =
     \<lparr>mo_id = mw_id r, mo_name = py_or (mw_name r) (PStr (mw_id r)), mo_description = mw_description r,
      mo_owned_by = py_or (mw_owned_by r) (PStr ''xai''), mo_hidden = mw_hidden r, mo_synthetic = True,
      mo_context_window = of_opt PInt (mw_context_window r), mo_effort = of_opt PBool (mw_effort r),
      mo_extra = mw_extra r, mo_sort_order = (if mw_sort_order r = 0 then 100 else mw_sort_order r),
      mo_fetched_at = py_or (of_opt PFloat (mw_fetched_at r)) fetched_at\<rparr>"

fun retained_records :: "string set \<Rightarrow> pyval \<Rightarrow> model_row list \<Rightarrow> model_rec list" where
  "retained_records seen fetched_at [] = []"
| "retained_records seen fetched_at (r # rows) =
     (if mw_synthetic r \<and> mw_id r \<noteq> [] \<and> mw_id r \<notin> seen
      then retained_record fetched_at r # retained_records (insert (mw_id r) seen) fetched_at rows
      else retained_records seen fetched_at rows)"

record catalog_db =
  cat_rows :: "model_row list"
  cat_meta :: "pydict option"

definition setdefault :: "pydict \<Rightarrow> string \<Rightarrow> pyval \<Rightarrow> pydict" where
  "setdefault d k v = (if dhas d k then d else dset d k v)"

definition catalog_fetched_at :: "rat \<Rightarrow> pydict option \<Rightarrow> pyval" where
  "catalog_fetched_at now meta =
     (let f = (case meta of None \<Rightarrow> PNone | Some m \<Rightarrow> py_or (dget m ''fetched_at'') (dget m ''synced_at''))
      in (if f = PNone then PFloat now else f))"

definition replacement :: "rat \<Rightarrow> pyval list \<Rightarrow> pydict option \<Rightarrow> bool \<Rightarrow> model_row list \<Rightarrow> model_rec list" where
  "replacement now items meta keep_synthetic rows =
     (let fetched_at = catalog_fetched_at now meta;
          normalized = first_records {} fetched_at items;
          retained = (if keep_synthetic then retained_records (set (map mo_id normalized)) fetched_at rows else [])
      in normalized @ retained)"

definition replace_all :: "pg_env \<Rightarrow> rat \<Rightarrow> pyval list \<Rightarrow> pydict option \<Rightarrow> bool \<Rightarrow> catalog_db \<Rightarrow> (nat \<times> catalog_db) option" where
  "replace_all env now items meta keep_synthetic db =
     (let recs = replacement now items meta keep_synthetic (cat_rows db); n = length recs
      in map_option (\<lambda>rows.
           (n, db\<lparr>cat_rows := rows,
                cat_meta := (case meta of
                    None \<Rightarrow> cat_meta db
                  | Some m \<Rightarrow> Some (setdefault (setdefault m ''count'' (PInt (int n))) ''synced_at'' (PFloat now)))\<rparr>))
           (upsert_recs env now recs []))"

subsection \<open>The public list\<close>

fun copy_exposed :: "string list \<Rightarrow> pydict \<Rightarrow> pydict \<Rightarrow> pydict" where
  "copy_exposed [] rc d = d"
| "copy_exposed (k # ks) rc d =
     copy_exposed ks rc
       (if dget rc k \<noteq> PNone then dset d k (dget rc k)
        else if dget (dict_of (dget rc ''extra'')) k \<noteq> PNone then dset d k (dget (dict_of (dget rc ''extra'')) k)
        else d)"

definition public_model_entry :: "int \<Rightarrow> pydict \<Rightarrow> pydict" where
  "public_model_entry ts rc =
     (let e0 = [(''id'', PStr (strip (str_or_empty (dget rc ''id'')))), (''object'', PStr ''model''), (''created'', PInt ts),
                (''owned_by'', py_or (dget rc ''owned_by'') (PStr ''xai''))];
          e1 = (if truthy (dget rc ''name'') then dset e0 ''name'' (dget rc ''name'') else e0);
          e2 = (if truthy (dget rc ''description'') then dset e1 ''description'' (dget rc ''description'') else e1);
          e3 = copy_present [''context_window'', ''supports_reasoning_effort''] rc e2
      in copy_exposed exposed_fields rc e3)"

definition fallback_models :: "string \<Rightarrow> int \<Rightarrow> pydict list" where
  "fallback_models dm ts =
     sort_key (model_sort_key dm) (merge_extra_models dm ts
       [[(''id'', PStr dm), (''object'', PStr ''model''), (''created'', PInt ts), (''owned_by'', PStr ''xai'')]])"

text \<open>\<open>stored\<close>: the table, \<open>None\<close> when PostgreSQL is off or the query fails.\<close>

definition load_models_from_pg :: "string \<Rightarrow> int \<Rightarrow> model_row list option \<Rightarrow> pydict list option" where
  "load_models_from_pg dm ts stored =
     (case stored of
        None \<Rightarrow> None
      | Some rows \<Rightarrow>
          (let recs = list_models False rows
           in (if recs = [] then None
               else Some (sort_key (model_sort_key dm) (merge_extra_models dm ts
                      (map (public_model_entry ts) (filter (\<lambda>r. truthy (dget r ''id'')) recs)))))))"

definition load_models_from_cache :: "string \<Rightarrow> int \<Rightarrow> model_row list option \<Rightarrow> pydict list" where
  "load_models_from_cache dm ts stored =
     (case load_models_from_pg dm ts stored of Some ms \<Rightarrow> ms | None \<Rightarrow> fallback_models dm ts)"

subsection \<open>Upstream sync and seeding\<close>

definition item_from_upstream :: "string \<Rightarrow> pyval \<Rightarrow> pydict \<Rightarrow> pydict option" where
  "item_from_upstream dm fetched_at item =
     (let model_id = strip (str_or_empty (py_or (dget item ''id'') (dget item ''model'')))
      in (if model_id = [] then None
          else Some (copy_present exposed_fields item
            [(''id'', PStr model_id), (''name'', py_or (dget item ''name'') (PStr model_id)),
             (''description'', dget item ''description''), (''owned_by'', py_or (dget item ''owned_by'') (PStr ''xai'')),
             (''hidden'', PBool (truthy (dget item ''hidden''))), (''synthetic'', PBool False),
             (''context_window'', dget item ''context_window''),
             (''supports_reasoning_effort'', dget item ''supports_reasoning_effort''),
             (''model'', py_or (dget item ''model'') (PStr model_id)),
             (''sort_order'', PInt (sort_order_for dm model_id)), (''fetched_at'', fetched_at)])))"

definition items_from_upstream_payload :: "string \<Rightarrow> pyval \<Rightarrow> pyval list \<Rightarrow> pydict list" where
  "items_from_upstream_payload dm fetched_at data =
     List.map_filter (\<lambda>v. if is_dict v then item_from_upstream dm fetched_at (dict_of v) else None) data"

text \<open>\<open>iso_time\<close> formats the clock. The result is the count, \<open>None\<close> when the write fails; the table is kept then.\<close>

definition persist_items :: "(rat \<Rightarrow> string) \<Rightarrow> string \<Rightarrow> pg_env \<Rightarrow> rat \<Rightarrow> pydict \<Rightarrow> pydict list \<Rightarrow> catalog_db \<Rightarrow> nat option \<times> catalog_db" where
  "persist_items iso_time dm env now info items db =
     (let meta = dupdate info [(''synced_at'', PFloat now)];
          meta = (if truthy (dget meta ''fetched_at'') then meta else dset meta ''fetched_at'' (PStr (iso_time now)));
          merged = append_missing (have_ids items) items (extra_items_for_pg dm (dget meta ''fetched_at''))
      in (case replace_all env now (map PDict merged) (Some meta) True db of
            None \<Rightarrow> (None, db)
          | Some (n, db') \<Rightarrow> (Some n, db')))"

definition ensure_models_catalog_seeded :: "(rat \<Rightarrow> string) \<Rightarrow> string \<Rightarrow> pg_env \<Rightarrow> rat \<Rightarrow> catalog_db \<Rightarrow> catalog_db" where
  "ensure_models_catalog_seeded iso_time dm env now db =
     (if 0 < count_models True (cat_rows db) then db
      else let fetched_at = PStr (iso_time now);
               baseline = [(''id'', PStr dm), (''name'', PStr dm), (''owned_by'', PStr ''xai''), (''hidden'', PBool False),
                 (''synthetic'', PBool False), (''model'', PStr dm), (''sort_order'', PInt (sort_order_for dm dm)),
                 (''fetched_at'', fetched_at)] # extra_items_for_pg dm fetched_at
           in snd (persist_items iso_time dm env now [(''origin'', PStr ''seed:baseline''), (''fetched_at'', fetched_at)] baseline db))"

subsection \<open>Lemmas\<close>

abbreviation nid :: "pydict \<Rightarrow> string" where
  "nid m \<equiv> norm_text (dget m ''id'')"

lemma have_ids_iff: "x \<noteq> [] \<Longrightarrow> x \<in> have_ids models \<longleftrightarrow> x \<in> nid ` set models"
proof -
  assume x: "x \<noteq> []"
  have "truthy (dget m ''id'')" if "x = nid m" for m
    using x that norm_text_falsy by blast
  then show ?thesis by (auto simp: have_ids_def)
qed

lemma append_missing_suffix:
  "\<exists>suffix. append_missing known models extras = models @ suffix \<and> set suffix \<subseteq> set extras"
proof (induction known models extras rule: append_missing.induct)
  case (2 known models extra extras)
  show ?case
  proof (cases "nid extra \<noteq> [] \<and> nid extra \<notin> known")
    case True
    with 2(1) [OF refl this] obtain suffix where
      "append_missing (insert (nid extra) known) (models @ [extra]) extras = (models @ [extra]) @ suffix" "set suffix \<subseteq> set extras"
      by blast
    then show ?thesis using True by (intro exI [of _ "extra # suffix"]) (auto simp: Let_def)
  next
    case False
    with 2(2) [OF refl this] show ?thesis by (auto simp: Let_def)
  qed
qed simp

lemma append_missing_covers:
  assumes "\<And>x. x \<noteq> [] \<Longrightarrow> x \<in> known \<Longrightarrow> x \<in> nid ` set models" "e \<in> set extras" "nid e \<noteq> []"
  shows "nid e \<in> nid ` set (append_missing known models extras)"
  using assms
proof (induction known models extras rule: append_missing.induct)
  case (2 known models extra extras)
  have keep: "set models \<subseteq> set (append_missing h models es)" for h es
    using append_missing_suffix [of h models es] by auto
  have keep1: "nid extra \<in> nid ` set (append_missing h (models @ [extra]) es)" for h es
    using append_missing_suffix [of h "models @ [extra]" es] by auto
  show ?case
  proof (cases "nid extra \<noteq> [] \<and> nid extra \<notin> known")
    case True
    then show ?thesis using 2 keep1 by (cases "e = extra") (auto simp: Let_def)
  next
    case False
    show ?thesis
    proof (cases "e = extra")
      case True
      with False 2 have "nid e \<in> nid ` set models" by auto
      then show ?thesis using False keep by (auto simp: Let_def)
    next
      case False': False
      then show ?thesis using False 2 by (auto simp: Let_def)
    qed
  qed
qed simp

lemma append_missing_distinct:
  assumes "distinct (map nid models)" "\<And>x. x \<noteq> [] \<Longrightarrow> x \<in> nid ` set models \<Longrightarrow> x \<in> known"
  shows "distinct (map nid (append_missing known models extras))"
  using assms
proof (induction known models extras rule: append_missing.induct)
  case (2 known models extra extras)
  show ?case
  proof (cases "nid extra \<noteq> [] \<and> nid extra \<notin> known")
    case True
    then have "nid extra \<notin> nid ` set models" using 2(4) by blast
    then have "distinct (map nid (append_missing (insert (nid extra) known) (models @ [extra]) extras))"
      using 2 True by (intro 2(1)) auto
    then show ?thesis using True by (simp add: Let_def)
  next
    case False
    then show ?thesis using 2 by (auto simp: Let_def)
  qed
qed simp

lemma dget_copy_exposed [simp]: "k \<notin> set ks \<Longrightarrow> dget (copy_exposed ks rc d) k = dget d k"
  by (induction ks rc d rule: copy_exposed.induct) simp_all

lemma dget_copy_present [simp]: "k \<notin> set ks \<Longrightarrow> dget (copy_present ks rc d) k = dget d k"
  by (induction ks rc d rule: copy_present.induct) simp_all

lemma public_entry_id: "dget (public_model_entry ts rc) ''id'' = PStr (strip (str_or_empty (dget rc ''id'')))"
proof -
  have "''id'' \<notin> set exposed_fields" by (simp add: exposed_fields_def)
  then show ?thesis by (simp add: public_model_entry_def Let_def del: copy_exposed.simps copy_present.simps)
qed

lemma dget_fold_missing:
  "k' \<notin> set ks \<Longrightarrow>
   dget (foldl (\<lambda>d k. if dhas x k \<and> \<not> dhas d k then dset d k (dget x k) else d) d ks) k' = dget d k'"
  by (induction ks arbitrary: d) simp_all

lemma row_to_record_id: "dget (row_to_record r) ''id'' = PStr (mw_id r)"
proof -
  have "''id'' \<notin> set (exposed_fields @ [''model''])" by (simp add: exposed_fields_def)
  then show ?thesis unfolding row_to_record_def Let_def by (subst dget_fold_missing) simp_all
qed

text \<open>The records a replacement writes.\<close>

lemma first_records_ids:
  "mo_id ` set (first_records seen f items) =
     {mo_id rc | rc raw. raw \<in> set items \<and> is_dict raw \<and> normalize_record (dict_of raw) f = Some rc} - seen \<and>
   distinct (map mo_id (first_records seen f items))"
proof (induction seen f items rule: first_records.induct)
  case (2 seen f raw items)
  then show ?case by (auto split: option.splits) 
qed simp

lemma retained_records_ids:
  "mo_id ` set (retained_records seen f rows) = {mw_id r | r. r \<in> set rows \<and> mw_synthetic r \<and> mw_id r \<noteq> []} - seen \<and>
   distinct (map mo_id (retained_records seen f rows)) \<and>
   (\<forall>rc \<in> set (retained_records seen f rows). \<exists>r \<in> set rows. rc = retained_record f r \<and> mw_synthetic r)"
proof (induction seen f rows rule: retained_records.induct)
  case (2 seen f r rows)
  then show ?case by (auto simp: retained_record_def)
qed simp

lemma upsert_row_fresh: "mw_id new \<notin> mw_id ` set rows \<Longrightarrow> upsert_row new rows = rows @ [new]"
  by (induction new rows rule: upsert_row.induct) auto

lemma row_of_rec_id: "row_of_rec env now rc = Some r \<Longrightarrow> mw_id r = mo_id rc"
  by (auto simp: row_of_rec_def split: Option.bind_splits)

lemma upsert_recs_fresh:
  assumes "upsert_recs env now rcs rows = Some rows'" "distinct (map mo_id rcs)" "mo_id ` set rcs \<inter> mw_id ` set rows = {}"
  shows "\<exists>new. rows' = rows @ new \<and> list_all2 (\<lambda>rc r. row_of_rec env now rc = Some r) rcs new"
  using assms
proof (induction env now rcs rows rule: upsert_recs.induct)
  case (2 env now rc rcs rows)
  from 2(2) obtain r where r: "row_of_rec env now rc = Some r" "upsert_recs env now rcs (upsert_row r rows) = Some rows'"
    by (auto split: Option.bind_splits)
  have "upsert_row r rows = rows @ [r]" using 2(4) row_of_rec_id [OF r(1)] by (intro upsert_row_fresh) auto
  with 2(1) [OF r] 2(3,4) row_of_rec_id [OF r(1)] r
  obtain new where "rows' = (rows @ [r]) @ new" "list_all2 (\<lambda>rc r. row_of_rec env now rc = Some r) rcs new" by auto
  with r(1) show ?case by (intro exI [of _ "r # new"]) simp
qed simp

end
