(* ===== verification/Providers.thy ===== *)
theory Providers
  imports Py_Values "HOL-Library.Product_Lexorder" "HOL-Library.List_Lexorder" "HOL-Library.Char_ord" "HOL-Library.AList"
begin

text \<open>
  Providers and model routing (\<open>grok2api/providers/types.py\<close>, \<open>registry.py\<close>, \<open>catalog.py\<close>, \<open>factory.py\<close>):
  the enumerations with their normalisation, model routes, the adapter registry, and the resolution of a
  model name to one route.

  An adapter is registered under its provider; what the registry reads of it is its list of routes. A \<open>None\<close>
  result is the \<open>ValueError\<close> of a normalisation or of a route's checks; the errors of \<open>resolve\<close> are values.
\<close>

subsection \<open>Enumerations\<close>

datatype provider_name = BUILD | WEB | CONSOLE

fun provider_value :: "provider_name \<Rightarrow> string" where
  "provider_value BUILD = ''grok_build''"
| "provider_value WEB = ''grok_web''"
| "provider_value CONSOLE = ''grok_console''"

fun namespace :: "provider_name \<Rightarrow> string" where
  "namespace BUILD = ''Build''"
| "namespace WEB = ''Web''"
| "namespace CONSOLE = ''Console''"

text \<open>Providers are ordered by their value, the order routes are sorted in.\<close>

lemma provider_value_inject [simp]: "provider_value p = provider_value q \<longleftrightarrow> p = q"
  by (cases p; cases q) simp_all

instantiation provider_name :: linorder
begin

definition less_eq_provider_name :: "provider_name \<Rightarrow> provider_name \<Rightarrow> bool" where
  "less_eq_provider_name p q = (provider_value p \<le> provider_value q)"

definition less_provider_name :: "provider_name \<Rightarrow> provider_name \<Rightarrow> bool" where
  "less_provider_name p q = (provider_value p < provider_value q)"

instance
  by standard (auto simp: less_eq_provider_name_def less_provider_name_def order.strict_iff_order)

end

definition norm_name :: "string \<Rightarrow> string" where
  "norm_name s = map (\<lambda>c. if c = CHR ''-'' then CHR ''_'' else c) (lower (strip s))"

definition provider_aliases :: "(string \<times> provider_name) list" where
  "provider_aliases =
     [(''build'', BUILD), (''grok_build'', BUILD), (''web'', WEB), (''grok_web'', WEB),
      (''console'', CONSOLE), (''grok_console'', CONSOLE)]"

definition normalize_provider :: "string \<Rightarrow> provider_name option" where
  "normalize_provider value = map_of provider_aliases (norm_name value)"

datatype capability = CHAT | RESPONSES | MESSAGES | IMAGE | IMAGE_EDIT | VIDEO | TTS | STT | REALTIME

fun capability_value :: "capability \<Rightarrow> string" where
  "capability_value CHAT = ''chat''"
| "capability_value RESPONSES = ''responses''"
| "capability_value MESSAGES = ''messages''"
| "capability_value IMAGE = ''image''"
| "capability_value IMAGE_EDIT = ''image_edit''"
| "capability_value VIDEO = ''video''"
| "capability_value TTS = ''tts''"
| "capability_value STT = ''stt''"
| "capability_value REALTIME = ''realtime''"

definition capability_aliases :: "(string \<times> capability) list" where
  "capability_aliases =
     [(''chat_completions'', CHAT), (''chat/completions'', CHAT), (''anthropic'', MESSAGES),
      (''image_generation'', IMAGE), (''images'', IMAGE), (''images_edits'', IMAGE_EDIT),
      (''audio_speech'', TTS), (''audio_transcription'', STT)]"

definition capabilities :: "capability list" where
  "capabilities = [CHAT, RESPONSES, MESSAGES, IMAGE, IMAGE_EDIT, VIDEO, TTS, STT, REALTIME]"

definition normalize_capability :: "string \<Rightarrow> capability option" where
  "normalize_capability value =
     (let text = norm_name value
      in (case map_of capability_aliases text of
            Some c \<Rightarrow> Some c
          | None \<Rightarrow> find (\<lambda>c. capability_value c = text) capabilities))"

subsection \<open>Routes\<close>

record model_route =
  mr_public_model :: string
  mr_provider :: provider_name
  mr_upstream_model :: string
  mr_capability :: capability
  mr_priority :: int
  mr_enabled :: bool
  mr_minimum_tier :: "string option"
  mr_metadata :: pydict

text \<open>\<open>__post_init__\<close>, for arguments already of their types.\<close>

definition post_init :: "model_route \<Rightarrow> model_route option" where
  "post_init r =
     (let public_model = strip (mr_public_model r); upstream_model = strip (mr_upstream_model r)
      in (if public_model = [] then None
          else if upstream_model = [] then None
          else Some (r\<lparr>mr_public_model := public_model, mr_upstream_model := upstream_model,
                      mr_priority := max 1 (if mr_priority r = 0 then 1 else mr_priority r)\<rparr>)))"

definition qualified_model :: "model_route \<Rightarrow> string" where
  "qualified_model r = namespace (mr_provider r) @ ''/'' @ mr_public_model r"

subsection \<open>The registry\<close>

definition parse_model_reference :: "string \<Rightarrow> (provider_name option \<times> string) option" where
  "parse_model_reference model =
     (let value = strip model
      in (if value = [] then None
          else (case break_at (\<lambda>c. c = CHR ''/'') value of
                  (_, None) \<Rightarrow> Some (None, value)
                | (prefix, Some rest) \<Rightarrow>
                    (let slug = strip rest
                     in (if slug = [] then None
                         else (case normalize_provider prefix of
                                 Some p \<Rightarrow> Some (Some p, slug)
                               | None \<Rightarrow> Some (None, value)))))))"

type_synonym registry = "(provider_name \<times> model_route list) list"

definition register :: "registry \<Rightarrow> provider_name \<Rightarrow> model_route list \<Rightarrow> bool \<Rightarrow> registry option" where
  "register reg p routes replace =
     (if map_of reg p \<noteq> None \<and> \<not> replace then None else Some (AList.update p routes reg))"

definition routes :: "registry \<Rightarrow> provider_name option \<Rightarrow> capability option \<Rightarrow> bool \<Rightarrow> model_route list" where
  "routes reg provider_filter capability_filter enabled_only =
     sort_key (\<lambda>r. (mr_priority r, mr_provider r, mr_public_model r))
       (concat (map (\<lambda>(p, rs).
          if provider_filter \<noteq> None \<and> provider_filter \<noteq> Some p then []
          else filter (\<lambda>r. \<not> (enabled_only \<and> \<not> mr_enabled r) \<and>
                 \<not> (capability_filter \<noteq> None \<and> capability_filter \<noteq> Some (mr_capability r))) rs) reg))"

datatype resolve_error = Bad_Value | Prefix_Conflict | No_Route | Ambiguous "string list"

definition named :: "string \<Rightarrow> model_route \<Rightarrow> bool" where
  "named model r = (mr_public_model r = model \<or> mr_upstream_model r = model)"

definition distinct_providers :: "model_route list \<Rightarrow> provider_name list" where
  "distinct_providers rs = remdups (map mr_provider rs)"

definition resolve :: "registry \<Rightarrow> string \<Rightarrow> string \<Rightarrow> string option \<Rightarrow> resolve_error + model_route" where
  "resolve reg model capability provider =
     (case parse_model_reference model of
        None \<Rightarrow> Inl Bad_Value
      | Some (prefixed, public_model) \<Rightarrow>
          (case (case provider of None \<Rightarrow> Some None | Some p \<Rightarrow> map_option Some (normalize_provider p)) of
             None \<Rightarrow> Inl Bad_Value
           | Some requested0 \<Rightarrow>
               (if prefixed \<noteq> None \<and> requested0 \<noteq> None \<and> prefixed \<noteq> requested0 then Inl Prefix_Conflict
                else let requested = (if prefixed \<noteq> None then prefixed else requested0)
                     in (case normalize_capability capability of
                           None \<Rightarrow> Inl Bad_Value
                         | Some wanted \<Rightarrow>
                             (let candidates = filter (named public_model) (routes reg requested (Some wanted) True)
                              in (if candidates = [] then Inl No_Route
                                  else if requested = None \<and> 1 < length (distinct_providers candidates)
                                    then Inl (Ambiguous (sort (map qualified_model candidates)))
                                  else Inr (arg_min_list mr_priority candidates)))))))"

subsection \<open>The interface of a registry\<close>

text \<open>
  What resolution relies on: a table of routes that answers exactly with the installed routes that pass the
  filters.
\<close>

locale route_table =
  fixes table :: "provider_name option \<Rightarrow> capability option \<Rightarrow> bool \<Rightarrow> model_route list"
    and installed :: "(provider_name \<times> model_route) set"
  assumes table_set: "set (table pf cf eo) =
      {r. \<exists>p. (p, r) \<in> installed \<and> (pf = None \<or> pf = Some p) \<and> (eo \<longrightarrow> mr_enabled r) \<and>
         (cf = None \<or> cf = Some (mr_capability r))}"
begin

lemma matching_iff:
  "r \<in> set (filter (named model) (table pf (Some cap) True)) \<longleftrightarrow>
     (\<exists>p. (p, r) \<in> installed \<and> (pf = None \<or> pf = Some p)) \<and> mr_enabled r \<and> mr_capability r = cap \<and> named model r"
  by (auto simp: table_set)

lemma best_matching:
  assumes "filter (named model) (table pf (Some cap) True) \<noteq> []"
  shows "arg_min_list mr_priority (filter (named model) (table pf (Some cap) True)) \<in> set (filter (named model) (table pf (Some cap) True))"
    and "\<forall>r \<in> set (filter (named model) (table pf (Some cap) True)).
      mr_priority (arg_min_list mr_priority (filter (named model) (table pf (Some cap) True))) \<le> mr_priority r"
  using arg_min_list_in [OF assms] f_arg_min_list_f [OF assms, of mr_priority] by (auto intro: Min_le)

lemma matching_empty_iff:
  "filter (named model) (table pf (Some cap) True) = [] \<longleftrightarrow>
     (\<nexists>p r. (p, r) \<in> installed \<and> (pf = None \<or> pf = Some p) \<and> mr_enabled r \<and> mr_capability r = cap \<and> named model r)"
proof -
  have "filter (named model) (table pf (Some cap) True) = [] \<longleftrightarrow> (\<forall>r. r \<notin> set (filter (named model) (table pf (Some cap) True)))"
    by (cases "filter (named model) (table pf (Some cap) True)") auto
  then show ?thesis unfolding matching_iff by blast
qed

end

definition installed_routes :: "registry \<Rightarrow> (provider_name \<times> model_route) set" where
  "installed_routes reg = {(p, r). \<exists>rs. (p, rs) \<in> set reg \<and> r \<in> set rs}"

interpretation reg: route_table "routes reg" "installed_routes reg" for reg
proof
  show "set (routes reg pf cf eo) =
      {r. \<exists>p. (p, r) \<in> installed_routes reg \<and> (pf = None \<or> pf = Some p) \<and> (eo \<longrightarrow> mr_enabled r) \<and>
         (cf = None \<or> cf = Some (mr_capability r))}" for pf cf eo
    by (auto simp: routes_def installed_routes_def split: if_splits)
qed

end
