(* ===== verification/Adapters.thy ===== *)
theory Adapters
  imports Providers
begin

text \<open>
  The three provider adapters (\<open>grok2api/providers/build/adapter.py\<close>, \<open>web/\<close>, \<open>console/\<close>): the static catalogs,
  the routes they expose, how each reads an upstream status, the default registry of
  \<open>factory.create_provider_registry\<close>, and the account rotation of \<open>providers/accounts.py\<close>.

  Parameters: \<open>resolve_model\<close> and the cached catalog of the Build adapter (both modelled in \<open>Model_Catalog\<close>), the
  parser of HTTP dates, the rows and the decrypted credentials of a provider. Text is Latin-1, so the two Chinese quota markers of the Build
  adapter match nothing here.
\<close>

datatype error_kind = K_REQUEST | K_AUTH | K_QUOTA | K_RATE_LIMIT | K_EGRESS | K_UPSTREAM | K_TRANSIENT

record provider_status =
  st_kind :: error_kind
  st_retryable :: bool
  st_account_scoped :: bool
  st_invalidate_credential :: bool
  st_retry_after_seconds :: "rat option"

definition plain_status :: "error_kind \<Rightarrow> provider_status" where
  "plain_status k = \<lparr>st_kind = k, st_retryable = False, st_account_scoped = False,
     st_invalidate_credential = False, st_retry_after_seconds = None\<rparr>"

subsection \<open>Build\<close>

definition quota_markers :: "string list" where
  "quota_markers = [''quota exceeded'', ''insufficient quota'']"

definition build_classify_status :: "int \<Rightarrow> string \<Rightarrow> provider_status" where
  "build_classify_status code body =
     (let lowered = lower body
      in (if code = 401 then (plain_status K_AUTH)\<lparr>st_account_scoped := True, st_invalidate_credential := True\<rparr>
          else if code \<in> {402, 429} \<or> (\<exists>m \<in> set quota_markers. contains lowered m)
            then (plain_status (if code = 402 then K_QUOTA else K_RATE_LIMIT))
                   \<lparr>st_retryable := True, st_account_scoped := True\<rparr>
          else if code \<in> {408, 409, 425} \<or> 500 \<le> code then (plain_status K_TRANSIENT)\<lparr>st_retryable := True\<rparr>
          else if code = 403 then (plain_status K_UPSTREAM)\<lparr>st_retryable := True, st_account_scoped := True\<rparr>
          else if 400 \<le> code \<and> code < 500 then plain_status K_REQUEST
          else plain_status K_UPSTREAM))"

text \<open>
  \<open>model_routes\<close>: \<open>None\<close> when the checks of a route raise, which needs a blank upstream name.
\<close>

definition build_route :: "(string \<Rightarrow> string) \<Rightarrow> string \<Rightarrow> bool \<Rightarrow> model_route option" where
  "build_route resolve_model model_id synthetic =
     post_init \<lparr>mr_public_model = model_id, mr_provider = BUILD, mr_upstream_model = resolve_model model_id,
       mr_capability = CHAT, mr_priority = 1, mr_enabled = True, mr_minimum_tier = None,
       mr_metadata = [(''synthetic'', PBool synthetic)]\<rparr>"

fun build_routes :: "(string \<Rightarrow> string) \<Rightarrow> pyval list \<Rightarrow> model_route list option" where
  "build_routes resolve_model [] = Some []"
| "build_routes resolve_model (item # catalog) =
     (let model_id = strip (str_or_empty (dget (dict_of item) ''id''))
      in (if \<not> is_dict item \<or> model_id = [] then build_routes resolve_model catalog
          else do {
            r \<leftarrow> build_route resolve_model model_id (truthy (dget (dict_of item) ''synthetic''));
            rs \<leftarrow> build_routes resolve_model catalog;
            Some (r # rs)
          }))"

subsection \<open>Web\<close>

datatype web_error_kind = W_AUTH | W_EGRESS_CLOUDFLARE | W_RATE_LIMIT | W_BAD_REQUEST | W_TRANSIENT | W_UPSTREAM

record web_error =
  we_kind :: web_error_kind
  we_status_code :: int
  we_retryable :: bool
  we_invalidates_credential :: bool
  we_retry_after_seconds :: "rat option"

definition web_retry_after :: "(string \<times> string) list \<Rightarrow> rat option" where
  "web_retry_after headers =
     (case find (\<lambda>(k, _). lower k = ''retry-after'') headers of
        Some (_, v) \<Rightarrow> map_option (max 0) (parse_float v)
      | None \<Rightarrow> None)"

definition classify_web_error :: "int \<Rightarrow> (string \<times> string) list \<Rightarrow> web_error" where
  "classify_web_error status headers =
     (let err = \<lambda>k retry. \<lparr>we_kind = k, we_status_code = status, we_retryable = retry,
                            we_invalidates_credential = False, we_retry_after_seconds = None\<rparr>
      in (if status = 401 then (err W_AUTH False)\<lparr>we_invalidates_credential := True\<rparr>
          else if status = 403 then err W_EGRESS_CLOUDFLARE True
          else if status = 429 then (err W_RATE_LIMIT True)\<lparr>we_retry_after_seconds := web_retry_after headers\<rparr>
          else if status \<in> {408, 425} \<or> 500 \<le> status \<and> status \<le> 599 then err W_TRANSIENT True
          else if 400 \<le> status \<and> status \<le> 499 then err W_BAD_REQUEST False
          else err W_UPSTREAM False))"

definition web_classify_status :: "int \<Rightarrow> (string \<times> string) list \<Rightarrow> provider_status" where
  "web_classify_status status headers =
     (let e = classify_web_error status headers
      in (case we_kind e of
            W_AUTH \<Rightarrow> (plain_status K_AUTH)\<lparr>st_retryable := we_retryable e, st_account_scoped := True,
                        st_invalidate_credential := we_invalidates_credential e\<rparr>
          | W_EGRESS_CLOUDFLARE \<Rightarrow> (plain_status K_EGRESS)\<lparr>st_retryable := we_retryable e\<rparr>
          | W_RATE_LIMIT \<Rightarrow> (plain_status K_RATE_LIMIT)\<lparr>st_retryable := we_retryable e, st_account_scoped := True,
                        st_retry_after_seconds := we_retry_after_seconds e\<rparr>
          | W_BAD_REQUEST \<Rightarrow> plain_status K_REQUEST
          | W_TRANSIENT \<Rightarrow> (plain_status K_TRANSIENT)\<lparr>st_retryable := we_retryable e\<rparr>
          | W_UPSTREAM \<Rightarrow> (plain_status K_UPSTREAM)\<lparr>st_retryable := we_retryable e\<rparr>))"

datatype web_tier = BASIC | SUPER | HEAVY

fun tier_value :: "web_tier \<Rightarrow> string" where
  "tier_value BASIC = ''basic''"
| "tier_value SUPER = ''super''"
| "tier_value HEAVY = ''heavy''"

fun web_tier_rank :: "web_tier \<Rightarrow> int" where
  "web_tier_rank BASIC = 0"
| "web_tier_rank SUPER = 1"
| "web_tier_rank HEAVY = 2"

datatype web_capability = WC_CHAT | WC_STREAMING | WC_CITATIONS | WC_REASONING | WC_IMAGE | WC_IMAGE_EDIT | WC_VIDEO

fun web_capability_value :: "web_capability \<Rightarrow> string" where
  "web_capability_value WC_CHAT = ''chat''"
| "web_capability_value WC_STREAMING = ''streaming''"
| "web_capability_value WC_CITATIONS = ''citations''"
| "web_capability_value WC_REASONING = ''reasoning''"
| "web_capability_value WC_IMAGE = ''image''"
| "web_capability_value WC_IMAGE_EDIT = ''image_edit''"
| "web_capability_value WC_VIDEO = ''video''"

record web_model =
  wm_id :: string
  wm_upstream_mode :: string
  wm_minimum_tier :: web_tier
  wm_capabilities :: "web_capability list"
  wm_description :: string
  wm_protocol_model :: string
  wm_imagine_pro :: bool

definition supports :: "web_model \<Rightarrow> web_capability \<Rightarrow> bool" where
  "supports m c = (c \<in> set (wm_capabilities m))"

definition available_to :: "web_model \<Rightarrow> web_tier \<Rightarrow> bool" where
  "available_to m tier = (web_tier_rank (wm_minimum_tier m) \<le> web_tier_rank tier)"

definition base_capabilities :: "web_capability list" where
  "base_capabilities = [WC_CHAT, WC_STREAMING, WC_CITATIONS]"

definition WEB_MODELS :: "web_model list" where
  "WEB_MODELS =
     (let m = \<lambda>i u t c d p pro. \<lparr>wm_id = i, wm_upstream_mode = u, wm_minimum_tier = t, wm_capabilities = c,
                wm_description = d, wm_protocol_model = p, wm_imagine_pro = pro\<rparr>
      in [m ''grok-chat-fast'' ''fast'' BASIC base_capabilities
            ''Low-latency Grok Web chat mode.'' [] False,
          m ''grok-chat-auto'' ''auto'' BASIC (base_capabilities @ [WC_REASONING])
            ''Grok Web automatic model selection mode.'' [] False,
          m ''grok-chat-expert'' ''expert'' SUPER (base_capabilities @ [WC_REASONING])
            ''Higher-reasoning Grok Web expert mode.'' [] False,
          m ''grok-chat-heavy'' ''heavy'' HEAVY (base_capabilities @ [WC_REASONING])
            ''Grok Web Heavy-tier reasoning mode.'' [] False,
          m ''grok-imagine-image-lite'' ''grok-imagine-image'' BASIC [WC_IMAGE]
            ''Fast Grok Web image generation mode.'' ''imagine-lite'' False,
          m ''grok-imagine-image'' ''grok-imagine-image-quality'' BASIC [WC_IMAGE]
            ''Grok Web Imagine image generation mode.'' ''imagine'' False,
          m ''grok-imagine-image-2.0'' ''grok-imagine-image-2.0'' BASIC [WC_IMAGE]
            ''Grok Web Imagine 2.0 Pro image generation mode.'' ''imagine'' True,
          m ''grok-imagine-image-edit'' ''imagine-image-edit'' BASIC [WC_IMAGE_EDIT]
            ''Grok Web image-to-image editing mode.'' ''imagine-image-edit'' False,
          m ''grok-imagine-video'' ''grok-imagine-video'' BASIC [WC_VIDEO]
            ''Grok Web text-to-video mode.'' ''imagine-video-gen'' False])"

definition get_web_model :: "string \<Rightarrow> web_model option" where
  "get_web_model model_id = find (\<lambda>m. wm_id m = lower (strip model_id)) WEB_MODELS"

definition as_public_dict :: "web_model \<Rightarrow> pydict" where
  "as_public_dict m =
     [(''id'', PStr (wm_id m)), (''object'', PStr ''model''), (''owned_by'', PStr ''xai''), (''provider'', PStr ''grok_web''),
      (''upstream_model'', PStr (wm_upstream_mode m)), (''minimum_tier'', PStr (tier_value (wm_minimum_tier m))),
      (''capabilities'', PList (map PStr (sort (map web_capability_value (wm_capabilities m))))),
      (''description'', PStr (wm_description m))]"

definition list_web_models :: "web_tier option \<Rightarrow> pydict list" where
  "list_web_models tier =
     map as_public_dict (case tier of None \<Rightarrow> WEB_MODELS | Some t \<Rightarrow> filter (\<lambda>m. available_to m t) WEB_MODELS)"

definition web_route_capability :: "web_model \<Rightarrow> capability" where
  "web_route_capability m =
     (if supports m WC_IMAGE_EDIT then IMAGE_EDIT
      else if supports m WC_VIDEO then VIDEO
      else if supports m WC_IMAGE then IMAGE
      else CHAT)"

definition web_routes :: "bool \<Rightarrow> model_route list" where
  "web_routes images_enabled =
     map (\<lambda>m. \<lparr>mr_public_model = wm_id m, mr_provider = WEB, mr_upstream_model = wm_upstream_mode m,
                mr_capability = web_route_capability m, mr_priority = 1, mr_enabled = True,
                mr_minimum_tier = Some (tier_value (wm_minimum_tier m)),
                mr_metadata = [(''description'', PStr (wm_description m)),
                  (''web_capabilities'', PList (map PStr (sort (map web_capability_value (wm_capabilities m)))))]\<rparr>)
       (filter (\<lambda>m. images_enabled \<or> \<not> supports m WC_IMAGE) WEB_MODELS)"

subsection \<open>Console\<close>

datatype console_error_kind =
  C_INVALID_REQUEST | C_AUTHENTICATION | C_DPOP_SESSION | C_ACCOUNT_BLOCKED | C_EGRESS_CHALLENGE
| C_QUOTA | C_RATE_LIMIT | C_NOT_FOUND | C_UPSTREAM_TRANSIENT | C_UPSTREAM

record error_classification =
  ec_kind :: console_error_kind
  ec_retryable :: bool
  ec_invalidate_dpop :: bool
  ec_credential_invalid :: bool
  ec_egress_failure :: bool
  ec_retry_after_seconds :: "int option"

definition plain_class :: "console_error_kind \<Rightarrow> error_classification" where
  "plain_class k = \<lparr>ec_kind = k, ec_retryable = False, ec_invalidate_dpop = False, ec_credential_invalid = False,
     ec_egress_failure = False, ec_retry_after_seconds = None\<rparr>"

text \<open>\<open>date_delta\<close> parses an HTTP date and gives the seconds to it from now, \<open>None\<close> when it is no date.\<close>

definition console_retry_after :: "(string \<Rightarrow> rat option) \<Rightarrow> string option \<Rightarrow> int option" where
  "console_retry_after date_delta value =
     (let raw = strip (case value of None \<Rightarrow> [] | Some v \<Rightarrow> v)
      in (if raw = [] then None
          else (case parse_float raw of
                  Some q \<Rightarrow> Some (max 0 (trunc_rat q))
                | None \<Rightarrow> map_option (\<lambda>d. max 0 (trunc_rat d)) (date_delta raw))))"

definition dpop_markers :: "string list" where
  "dpop_markers = [''dpop proof'', ''dpop_proof'', ''invalid dpop'', ''dpop required'']"

definition blocked_markers :: "string list" where
  "blocked_markers = [''account suspended'', ''account disabled'', ''account blocked'', ''sso disabled'']"

definition classify_error ::
  "(string \<Rightarrow> rat option) \<Rightarrow> int \<Rightarrow> string \<Rightarrow> string option \<Rightarrow> error_classification" where
  "classify_error date_delta code body retry_after =
     (let text = lower (take 16384 body)
      in (if code \<in> {400, 422} then plain_class C_INVALID_REQUEST
          else if code = 401 then (plain_class C_AUTHENTICATION)\<lparr>ec_invalidate_dpop := True, ec_credential_invalid := True\<rparr>
          else if code = 403 then
            (if \<exists>m \<in> set dpop_markers. contains text m
             then (plain_class C_DPOP_SESSION)\<lparr>ec_retryable := True, ec_invalidate_dpop := True\<rparr>
             else if \<exists>m \<in> set blocked_markers. contains text m
             then (plain_class C_ACCOUNT_BLOCKED)\<lparr>ec_credential_invalid := True\<rparr>
             else (plain_class C_EGRESS_CHALLENGE)\<lparr>ec_retryable := True, ec_egress_failure := True\<rparr>)
          else if code = 404 then plain_class C_NOT_FOUND
          else if code = 402 then (plain_class C_QUOTA)\<lparr>ec_retryable := True\<rparr>
          else if code = 429 then (plain_class C_RATE_LIMIT)\<lparr>ec_retryable := True,
              ec_retry_after_seconds := console_retry_after date_delta retry_after\<rparr>
          else if code \<in> {408, 425} \<or> 500 \<le> code then (plain_class C_UPSTREAM_TRANSIENT)\<lparr>ec_retryable := True\<rparr>
          else plain_class C_UPSTREAM))"

fun console_kind_map :: "console_error_kind \<Rightarrow> error_kind" where
  "console_kind_map C_INVALID_REQUEST = K_REQUEST"
| "console_kind_map C_AUTHENTICATION = K_AUTH"
| "console_kind_map C_DPOP_SESSION = K_AUTH"
| "console_kind_map C_ACCOUNT_BLOCKED = K_AUTH"
| "console_kind_map C_EGRESS_CHALLENGE = K_EGRESS"
| "console_kind_map C_QUOTA = K_QUOTA"
| "console_kind_map C_RATE_LIMIT = K_RATE_LIMIT"
| "console_kind_map C_NOT_FOUND = K_REQUEST"
| "console_kind_map C_UPSTREAM_TRANSIENT = K_TRANSIENT"
| "console_kind_map C_UPSTREAM = K_UPSTREAM"

definition console_classify_status ::
  "(string \<Rightarrow> rat option) \<Rightarrow> int \<Rightarrow> (string \<times> string) list \<Rightarrow> string \<Rightarrow> provider_status" where
  "console_classify_status date_delta code headers body =
     (let retry_after = map_option snd (find (\<lambda>(k, _). lower k = ''retry-after'') headers);
          c = classify_error date_delta code body retry_after
      in \<lparr>st_kind = console_kind_map (ec_kind c), st_retryable = ec_retryable c,
          st_account_scoped = (ec_kind c \<in> {C_AUTHENTICATION, C_ACCOUNT_BLOCKED, C_QUOTA, C_RATE_LIMIT}),
          st_invalidate_credential = ec_credential_invalid c,
          st_retry_after_seconds = map_option of_int (ec_retry_after_seconds c)\<rparr>)"

record model_spec =
  ms_public_id :: string
  ms_upstream_model :: string
  ms_capabilities :: "capability list"
  ms_supports_reasoning :: bool
  ms_supports_reasoning_effort :: bool
  ms_default_reasoning_effort :: "string option"
  ms_max_output_tokens :: "int option"

definition CATALOG :: "model_spec list" where
  "CATALOG =
     (let m = \<lambda>i c r re d t. \<lparr>ms_public_id = i, ms_upstream_model = i, ms_capabilities = c, ms_supports_reasoning = r,
                ms_supports_reasoning_effort = re, ms_default_reasoning_effort = d, ms_max_output_tokens = t\<rparr>;
          text = [RESPONSES, CHAT, MESSAGES]
      in [m ''grok-4.3'' text True True (Some ''medium'') (Some 1000000),
          m ''grok-4.20-0309-reasoning'' text True False None (Some 1000000),
          m ''grok-4.20-0309-non-reasoning'' text False False None (Some 1000000),
          m ''grok-4.20-multi-agent-0309'' text True True None (Some 1000000),
          m ''grok-4.5'' text True True (Some ''medium'') (Some 1000000),
          m ''grok-build-0.1'' text False False None (Some 256000),
          m ''grok-imagine-image'' [IMAGE, IMAGE_EDIT] False False None None,
          m ''grok-imagine-image-quality'' [IMAGE, IMAGE_EDIT] False False None None,
          m ''grok-imagine-image-2.0'' [IMAGE, IMAGE_EDIT] False False None None,
          m ''grok-imagine-video'' [VIDEO] False False None None,
          m ''grok-imagine-video-1.5'' [VIDEO] False False None None,
          m ''grok-voice-latest'' [REALTIME, TTS] False False None None,
          m ''grok-voice-think-fast-2.0'' [REALTIME, TTS] False False None None,
          m ''grok-voice-think-fast-1.0'' [REALTIME, TTS] False False None None,
          m ''grok-stt'' [STT] False False None None])"

definition console_metadata :: "model_spec \<Rightarrow> pydict" where
  "console_metadata m =
     [(''supports_reasoning'', PBool (ms_supports_reasoning m)),
      (''supports_reasoning_effort'', PBool (ms_supports_reasoning_effort m)),
      (''default_reasoning_effort'', of_opt PStr (ms_default_reasoning_effort m)),
      (''max_output_tokens'', of_opt PInt (ms_max_output_tokens m))]"

definition console_routes :: "model_route list" where
  "console_routes =
     concat (map (\<lambda>m.
       map (\<lambda>c. \<lparr>mr_public_model = ms_public_id m, mr_provider = CONSOLE, mr_upstream_model = ms_upstream_model m,
                  mr_capability = c, mr_priority = 1, mr_enabled = True, mr_minimum_tier = None,
                  mr_metadata = console_metadata m\<rparr>) (ms_capabilities m)) CATALOG)"

subsection \<open>The adapter interface\<close>

text \<open>
  \<open>base.ProviderAdapter\<close> with what the gateway relies on: routes of the adapter's own provider, a 401 that
  invalidates the credential and is not retried, a 429 and a server error that are retried and keep it,
  and no invalidation outside an authentication error of the account.
\<close>

locale provider_adapter =
  fixes provider :: provider_name
    and model_routes :: "model_route list"
    and classify_status :: "int \<Rightarrow> (string \<times> string) list \<Rightarrow> string \<Rightarrow> provider_status"
  assumes own_routes: "r \<in> set model_routes \<Longrightarrow> mr_provider r = provider"
    and unauthorized: "st_invalidate_credential (classify_status 401 hs body)"
    and invalidation: "st_invalidate_credential (classify_status code hs body) \<Longrightarrow>
      st_kind (classify_status code hs body) = K_AUTH \<and> st_account_scoped (classify_status code hs body) \<and>
      \<not> st_retryable (classify_status code hs body)"
    and rate_limited: "st_kind (classify_status 429 hs body) = K_RATE_LIMIT \<and>
      st_retryable (classify_status 429 hs body) \<and> st_account_scoped (classify_status 429 hs body)"
    and server_error: "500 \<le> code \<Longrightarrow> code \<le> 599 \<Longrightarrow> st_retryable (classify_status code hs body)"
begin

lemma retried_keeps_credential:
  "st_retryable (classify_status code hs body) \<Longrightarrow> \<not> st_invalidate_credential (classify_status code hs body)"
  using invalidation by blast

lemma server_error_keeps_credential:
  "500 \<le> code \<Longrightarrow> code \<le> 599 \<Longrightarrow> \<not> st_invalidate_credential (classify_status code hs body)"
  by (intro retried_keeps_credential server_error)

lemma unauthorized_not_retried: "\<not> st_retryable (classify_status 401 hs body)"
  using unauthorized invalidation by blast

lemma contract:
  "st_invalidate_credential (classify_status 401 hs body) \<and> \<not> st_retryable (classify_status 401 hs body) \<and>
   (st_retryable (classify_status code hs body) \<longrightarrow> \<not> st_invalidate_credential (classify_status code hs body)) \<and>
   (code = 429 \<or> 500 \<le> code \<and> code \<le> 599 \<longrightarrow>
      st_retryable (classify_status code hs body) \<and> \<not> st_invalidate_credential (classify_status code hs body))"
  using unauthorized unauthorized_not_retried retried_keeps_credential rate_limited server_error
    server_error_keeps_credential by blast

end

lemma build_routes_provider: "build_routes rm catalog = Some rs \<Longrightarrow> r \<in> set rs \<Longrightarrow> mr_provider r = BUILD"
  by (induction rm catalog arbitrary: rs rule: build_routes.induct)
    (auto simp: build_route_def post_init_def Let_def split: if_splits Option.bind_splits)

text \<open>A registry reads the routes of an adapter that does not raise.\<close>

definition build_listed :: "(string \<Rightarrow> string) \<Rightarrow> pyval list \<Rightarrow> model_route list" where
  "build_listed rm catalog = (case build_routes rm catalog of Some rs \<Rightarrow> rs | None \<Rightarrow> [])"

lemma build_listed_provider: "r \<in> set (build_listed rm catalog) \<Longrightarrow> mr_provider r = BUILD"
  by (auto simp: build_listed_def dest: build_routes_provider [OF sym] split: option.splits)

lemma web_routes_provider: "r \<in> set (web_routes images) \<Longrightarrow> mr_provider r = WEB"
  by (auto simp: web_routes_def)

lemma console_routes_provider: "r \<in> set console_routes \<Longrightarrow> mr_provider r = CONSOLE"
  by (auto simp: console_routes_def)

interpretation build: provider_adapter BUILD "build_listed rm catalog" "\<lambda>code hs body. build_classify_status code body"
  for rm catalog
  by unfold_locales
    (auto simp: build_classify_status_def plain_status_def Let_def build_listed_provider split: if_splits)

interpretation web: provider_adapter WEB "web_routes images" "\<lambda>code hs body. web_classify_status code hs" for images
  by unfold_locales
    (auto simp: web_classify_status_def classify_web_error_def plain_status_def Let_def web_routes_provider split: if_splits)

interpretation console: provider_adapter CONSOLE console_routes "console_classify_status date_delta" for date_delta
  by unfold_locales
    (auto simp: console_classify_status_def classify_error_def plain_class_def Let_def console_routes_provider split: if_splits)

subsection \<open>The default registry\<close>

definition validate_provider_security :: "bool \<Rightarrow> bool \<Rightarrow> string \<Rightarrow> bool" where
  "validate_provider_security use_web use_console key = (\<not> (use_web \<or> use_console) \<or> strip key \<noteq> [])"

definition create_provider_registry ::
  "bool \<Rightarrow> bool \<Rightarrow> bool \<Rightarrow> string \<Rightarrow> model_route list \<Rightarrow> registry option" where
  "create_provider_registry use_web use_console images key build =
     (if \<not> validate_provider_security use_web use_console key then None
      else do {
        reg \<leftarrow> register [] BUILD build False;
        reg \<leftarrow> (if use_web then register reg WEB (web_routes images) False else Some reg);
        (if use_console then register reg CONSOLE console_routes False else Some reg)
      })"

subsection \<open>The public list of models\<close>

definition optional_routes :: "registry \<Rightarrow> model_route list" where
  "optional_routes reg = filter (\<lambda>r. mr_provider r \<noteq> BUILD) (routes reg None None True)"

definition optional_groups :: "registry \<Rightarrow> (provider_name \<times> string) list" where
  "optional_groups reg = sort (remdups (map (\<lambda>r. (mr_provider r, mr_public_model r)) (optional_routes reg)))"

definition optional_entry :: "registry \<Rightarrow> provider_name \<times> string \<Rightarrow> pydict" where
  "optional_entry reg g =
     (let routes = filter (\<lambda>r. (mr_provider r, mr_public_model r) = g) (optional_routes reg);
          first = arg_min_list mr_priority routes;
          metadata = foldl (\<lambda>m r. dupdate m (mr_metadata r)) [] routes
      in dupdate
           [(''id'', PStr (namespace (fst g) @ ''/'' @ snd g)), (''object'', PStr ''model''), (''owned_by'', PStr ''xai''),
            (''provider'', PStr (provider_value (fst g))), (''upstream_model'', PStr (mr_upstream_model first)),
            (''capabilities'', PList (map PStr (sort (remdups (map (\<lambda>r. capability_value (mr_capability r)) routes))))),
            (''minimum_tier'', of_opt PStr (mr_minimum_tier first))] metadata)"

definition append_optional_provider_models :: "pyval list \<Rightarrow> registry \<Rightarrow> pydict list" where
  "append_optional_provider_models build_models reg =
     map dict_of (filter is_dict build_models) @ map (optional_entry reg) (optional_groups reg)"

subsection \<open>Account rotation of a provider\<close>

definition TIER_RANK :: "string \<Rightarrow> int option" where
  "TIER_RANK = map_of [(''basic'', 0), (''super'', 1), (''heavy'', 2)]"

definition tier_eligible :: "string option \<Rightarrow> string option \<Rightarrow> bool" where
  "tier_eligible actual minimum =
     (case minimum of
        None \<Rightarrow> True
      | Some m \<Rightarrow>
          (if m = [] then True
           else let a = (case actual of None \<Rightarrow> ''basic'' | Some t \<Rightarrow> if t = [] then ''basic'' else t)
                in (case TIER_RANK (lower m) of None \<Rightarrow> 99 | Some k \<Rightarrow> k)
                   \<le> (case TIER_RANK (lower a) of None \<Rightarrow> -1 | Some k \<Rightarrow> k)))"

text \<open>
  \<open>_next_index\<close>: Redis's \<open>INCR\<close> of the provider's counter when Redis is on (\<open>Some\<close>, one less than the
  new count), the process's own counters otherwise.
\<close>

type_synonym indexes = "provider_name \<Rightarrow> nat"

definition next_index :: "int option \<Rightarrow> indexes \<Rightarrow> provider_name \<Rightarrow> nat \<times> indexes" where
  "next_index redis indexes provider =
     (case redis of
        Some v \<Rightarrow> (nat (max 0 (v - 1)), indexes)
      | None \<Rightarrow> (indexes provider, indexes(provider := indexes provider + 1)))"

text \<open>A row: the account id and its tier. \<open>index\<close> is what \<open>_next_index\<close> returned.\<close>

definition acquire_provider_sequence ::
  "provider_name \<Rightarrow> (string \<times> string option) list \<Rightarrow> (string \<Rightarrow> 'cred option) \<Rightarrow> nat \<Rightarrow> string option
   \<Rightarrow> (string \<times> 'cred) list option" where
  "acquire_provider_sequence provider rows0 load index minimum_tier =
     (if provider = BUILD then None
      else let rows = filter (\<lambda>(_, tier). tier_eligible tier minimum_tier) rows0
           in (if rows = [] then None
               else let start = index mod length rows;
                        ordered = drop start rows @ take start rows;
                        result = concat (map (\<lambda>(raw, _).
                          let account_id = strip raw
                          in (if account_id = [] then []
                              else (case load account_id of None \<Rightarrow> [] | Some c \<Rightarrow> [(account_id, c)]))) ordered)
                    in (if result = [] then None else Some result)))"

end
