(* ===== verification/Provider_Theorems.thy ===== *)
theory Provider_Theorems
  imports Adapters "HOL-Library.Multiset"
begin

text \<open>
  The properties of provider routing: what a model name resolves to, the errors, the qualified names, the
  contract of the three adapters, the default registry and the rotation of provider accounts.
\<close>

subsection \<open>Resolution\<close>

text \<open>The provider a call pins, by its prefix or its argument.\<close>

definition pinned :: "provider_name option \<Rightarrow> string option \<Rightarrow> provider_name option" where
  "pinned prefixed provider =
     (if prefixed \<noteq> None then prefixed
      else (case provider of None \<Rightarrow> None | Some p \<Rightarrow> normalize_provider p))"

lemma resolve_cases:
  assumes "parse_model_reference model = Some (prefixed, name)" "normalize_capability cap = Some c"
    and "\<forall>p. provider = Some p \<longrightarrow> normalize_provider p \<noteq> None"
    and "\<forall>p q. provider = Some p \<longrightarrow> prefixed = Some q \<longrightarrow> normalize_provider p = Some q"
  shows "resolve reg model cap provider =
    (let cs = filter (named name) (routes reg (pinned prefixed provider) (Some c) True)
     in (if cs = [] then Inl No_Route
         else if pinned prefixed provider = None \<and> 1 < length (distinct_providers cs)
           then Inl (Ambiguous (sort (map qualified_model cs)))
         else Inr (arg_min_list mr_priority cs)))"
  using assms by (cases provider; cases prefixed) (auto simp: resolve_def pinned_def Let_def)

lemma resolve_InrE:
  assumes "resolve reg model cap provider = Inr r"
  obtains prefixed name c where "parse_model_reference model = Some (prefixed, name)"
    "normalize_capability cap = Some c" "\<forall>p. provider = Some p \<longrightarrow> normalize_provider p \<noteq> None"
    "\<forall>p q. provider = Some p \<longrightarrow> prefixed = Some q \<longrightarrow> normalize_provider p = Some q"
proof -
  from assms obtain prefixed name where m: "parse_model_reference model = Some (prefixed, name)"
    by (cases "parse_model_reference model") (auto simp: resolve_def)
  from assms m obtain c where c: "normalize_capability cap = Some c"
    by (cases "normalize_capability cap") (auto simp: resolve_def Let_def split: option.splits if_splits)
  show thesis
  proof (cases provider)
    case None
    then show thesis using that [OF m c] by simp
  next
    case (Some p)
    from assms m Some obtain q where q: "normalize_provider p = Some q" "prefixed = None \<or> prefixed = Some q"
      by (cases "normalize_provider p") (auto simp: resolve_def Let_def split: if_splits)
    show thesis using that [OF m c] Some q by auto
  qed
qed

lemma resolve_route:
  assumes "resolve reg model cap provider = Inr r"
  shows "\<exists>prefixed name c p. parse_model_reference model = Some (prefixed, name) \<and> normalize_capability cap = Some c \<and>
    (p, r) \<in> installed_routes reg \<and> mr_enabled r \<and> mr_capability r = c \<and> named name r \<and>
    (pinned prefixed provider = None \<or> pinned prefixed provider = Some p) \<and>
    (\<forall>p' r'. (p', r') \<in> installed_routes reg \<and> mr_enabled r' \<and> mr_capability r' = c \<and> named name r' \<and>
       (pinned prefixed provider = None \<or> pinned prefixed provider = Some p') \<longrightarrow> mr_priority r \<le> mr_priority r')"
  using assms
proof (rule resolve_InrE)
  fix prefixed name c
  assume m: "parse_model_reference model = Some (prefixed, name)" "normalize_capability cap = Some c"
    "\<forall>p. provider = Some p \<longrightarrow> normalize_provider p \<noteq> None"
    "\<forall>p q. provider = Some p \<longrightarrow> prefixed = Some q \<longrightarrow> normalize_provider p = Some q"
  let ?pf = "pinned prefixed provider"
  let ?cs = "filter (named name) (routes reg ?pf (Some c) True)"
  have r: "?cs \<noteq> []" "r = arg_min_list mr_priority ?cs"
    using assms unfolding resolve_cases [OF m] by (auto simp: Let_def split: if_splits)
  note best = reg.best_matching [OF r(1)]
  have in_r: "r \<in> set ?cs" using best(1) r(2) by simp
  then obtain p where "(p, r) \<in> installed_routes reg" "?pf = None \<or> ?pf = Some p" "mr_enabled r" "mr_capability r = c"
    "named name r"
    unfolding reg.matching_iff by blast
  moreover have "mr_priority r \<le> mr_priority r'"
    if "(p', r') \<in> installed_routes reg" "mr_enabled r'" "mr_capability r' = c" "named name r'" "?pf = None \<or> ?pf = Some p'"
    for p' r'
  proof -
    have "r' \<in> set ?cs" unfolding reg.matching_iff using that by blast
    with best(2) r(2) show ?thesis by simp
  qed
  ultimately show ?thesis using m(1,2) by blast
qed

text \<open>
  C9: a resolved route is installed, enabled, has the capability asked for and the name asked for, belongs to
  the provider the call pinned, and no other matching route has a smaller priority.
\<close>

theorem resolve_sound:
  assumes "resolve reg model cap provider = Inr r"
  shows "\<exists>prefixed name c p. parse_model_reference model = Some (prefixed, name) \<and> normalize_capability cap = Some c \<and>
    (p, r) \<in> installed_routes reg \<and> mr_enabled r \<and> mr_capability r = c \<and> named name r \<and>
    (pinned prefixed provider = None \<or> pinned prefixed provider = Some p) \<and>
    (\<forall>p' r'. (p', r') \<in> installed_routes reg \<and> mr_enabled r' \<and> mr_capability r' = c \<and> named name r' \<and>
       (pinned prefixed provider = None \<or> pinned prefixed provider = Some p') \<longrightarrow> mr_priority r \<le> mr_priority r')"
  using assms by (rule resolve_route)

definition sample_route :: "provider_name \<Rightarrow> string \<Rightarrow> model_route" where
  "sample_route p n = \<lparr>mr_public_model = n, mr_provider = p, mr_upstream_model = n, mr_capability = CHAT,
     mr_priority = 1, mr_enabled = True, mr_minimum_tier = None, mr_metadata = []\<rparr>"

definition sample_registry :: registry where
  "sample_registry = [(BUILD, [sample_route BUILD ''grok'']), (WEB, [sample_route WEB ''grok''])]"

lemma sample_parse:
  "parse_model_reference ''Web/grok'' = Some (Some WEB, ''grok'')" "parse_model_reference ''grok'' = Some (None, ''grok'')"
  "normalize_capability ''chat'' = Some CHAT"
  by code_simp+

lemma sample_routes:
  "routes sample_registry (Some WEB) (Some CHAT) True = [sample_route WEB ''grok'']"
  "set (routes sample_registry None (Some CHAT) True) = {sample_route BUILD ''grok'', sample_route WEB ''grok''}"
  by (auto simp: routes_def sample_registry_def sample_route_def)

lemma sample_resolve: "resolve sample_registry ''Web/grok'' ''chat'' None = Inr (sample_route WEB ''grok'')"
  by (subst resolve_cases [OF sample_parse(1,3)])
    (simp_all add: pinned_def sample_routes named_def sample_route_def)

theorem resolve_sound_witness:
  "mr_enabled (sample_route WEB ''grok'') \<and> mr_capability (sample_route WEB ''grok'') = CHAT"
proof -
  from resolve_sound [OF sample_resolve] show ?thesis by (auto simp: sample_parse)
qed

lemma resolve_exact:
  assumes "parse_model_reference model = Some (prefixed, name)" "normalize_capability cap = Some c"
    and "\<forall>p. provider = Some p \<longrightarrow> normalize_provider p \<noteq> None"
    and "\<forall>p q. provider = Some p \<longrightarrow> prefixed = Some q \<longrightarrow> normalize_provider p = Some q"
  shows "(resolve reg model cap provider = Inl No_Route \<longleftrightarrow>
      (\<nexists>p r. (p, r) \<in> installed_routes reg \<and> (pinned prefixed provider = None \<or> pinned prefixed provider = Some p) \<and>
         mr_enabled r \<and> mr_capability r = c \<and> named name r)) \<and>
    ((\<exists>choices. resolve reg model cap provider = Inl (Ambiguous choices)) \<longleftrightarrow>
      pinned prefixed provider = None \<and>
      (\<exists>p r p' r'. (p, r) \<in> installed_routes reg \<and> (p', r') \<in> installed_routes reg \<and> mr_enabled r \<and> mr_enabled r' \<and>
         mr_capability r = c \<and> mr_capability r' = c \<and> named name r \<and> named name r' \<and> mr_provider r \<noteq> mr_provider r'))"
proof -
  let ?pf = "pinned prefixed provider"
  let ?cs = "filter (named name) (routes reg ?pf (Some c) True)"
  have two: "1 < length (distinct_providers ?cs) \<longleftrightarrow>
      (\<exists>r \<in> set ?cs. \<exists>r' \<in> set ?cs. mr_provider r \<noteq> mr_provider r')"
  proof -
    have "length (distinct_providers ?cs) = card (mr_provider ` set ?cs)"
      by (simp add: distinct_providers_def length_remdups_card_conv)
    moreover have "1 < card A \<longleftrightarrow> (\<exists>x \<in> A. \<exists>y \<in> A. x \<noteq> y)" if "finite A" for A :: "provider_name set"
      using that card_le_Suc0_iff_eq [OF that] by (auto simp: not_le [symmetric])
    ultimately show ?thesis by auto
  qed
  have e: "?cs = [] \<longrightarrow> \<not> (\<exists>r \<in> set ?cs. \<exists>r' \<in> set ?cs. mr_provider r \<noteq> mr_provider r')" by auto
  have "resolve reg model cap provider = Inl No_Route \<longleftrightarrow> ?cs = []"
    unfolding resolve_cases [OF assms] by (simp add: Let_def)
  moreover have "(\<exists>choices. resolve reg model cap provider = Inl (Ambiguous choices)) \<longleftrightarrow>
      ?pf = None \<and> (\<exists>r \<in> set ?cs. \<exists>r' \<in> set ?cs. mr_provider r \<noteq> mr_provider r')"
  proof (cases "?cs = []")
    case True
    then show ?thesis unfolding resolve_cases [OF assms] Let_def by (simp add: e)
  next
    case False
    then show ?thesis unfolding resolve_cases [OF assms] Let_def two [symmetric] by (cases ?pf) simp_all
  qed
  ultimately show ?thesis
    unfolding reg.matching_empty_iff Bex_def reg.matching_iff by blast
qed

text \<open>
  For a well-formed call the errors are exact: no route iff nothing installed matches, and ambiguous iff
  the call pins no provider and the matching routes belong to at least two.
\<close>

lemma resolve_errors:
  assumes "parse_model_reference model = Some (prefixed, name)" "normalize_capability cap = Some c"
    and "\<forall>p. provider = Some p \<longrightarrow> normalize_provider p \<noteq> None"
    and "\<forall>p q. provider = Some p \<longrightarrow> prefixed = Some q \<longrightarrow> normalize_provider p = Some q"
  shows "(resolve reg model cap provider = Inl No_Route \<longleftrightarrow>
      (\<nexists>p r. (p, r) \<in> installed_routes reg \<and> (pinned prefixed provider = None \<or> pinned prefixed provider = Some p) \<and>
         mr_enabled r \<and> mr_capability r = c \<and> named name r)) \<and>
    ((\<exists>choices. resolve reg model cap provider = Inl (Ambiguous choices)) \<longleftrightarrow>
      pinned prefixed provider = None \<and>
      (\<exists>p r p' r'. (p, r) \<in> installed_routes reg \<and> (p', r') \<in> installed_routes reg \<and> mr_enabled r \<and> mr_enabled r' \<and>
         mr_capability r = c \<and> mr_capability r' = c \<and> named name r \<and> named name r' \<and> mr_provider r \<noteq> mr_provider r'))"
  using assms by (rule resolve_exact)

lemma resolve_errors_witness:
  "\<exists>choices. resolve sample_registry ''grok'' ''chat'' None = Inl (Ambiguous choices)"
proof -
  have i: "(BUILD, sample_route BUILD ''grok'') \<in> installed_routes sample_registry"
    "(WEB, sample_route WEB ''grok'') \<in> installed_routes sample_registry"
    by (auto simp: installed_routes_def sample_registry_def)
  have f: "mr_enabled (sample_route p n)" "mr_capability (sample_route p n) = CHAT" "named n (sample_route p n)"
    "mr_provider (sample_route p n) = p" for p n
    by (simp_all add: sample_route_def named_def)
  have n: "pinned None None = None" by (simp add: pinned_def)
  have "\<exists>p r p' r'. (p, r) \<in> installed_routes sample_registry \<and> (p', r') \<in> installed_routes sample_registry \<and>
      mr_enabled r \<and> mr_enabled r' \<and> mr_capability r = CHAT \<and> mr_capability r' = CHAT \<and> named ''grok'' r \<and>
      named ''grok'' r' \<and> mr_provider r \<noteq> mr_provider r'"
    using i by (intro exI [of _ BUILD] exI [of _ "sample_route BUILD ''grok''"] exI [of _ WEB]
      exI [of _ "sample_route WEB ''grok''"]) (simp add: f)
  with n show ?thesis using conjunct2 [OF resolve_errors [OF sample_parse(2,3), of None sample_registry]] by simp
qed

subsection \<open>Qualified names\<close>

lemma strip_fixed:
  assumes "s \<noteq> []" "\<not> is_space (hd s)" "\<not> is_space (last s)"
  shows "strip s = s"
proof -
  have "lstrip s = s" using assms(1,2) by (cases s) (auto simp: lstrip_def)
  moreover have "dropWhile is_space (rev s) = rev s"
    using assms(1,3) by (cases "rev s") (auto simp: last_rev hd_rev [symmetric])
  ultimately show ?thesis by (simp add: strip_def)
qed

lemma namespace_facts:
  "namespace p \<noteq> []" "\<not> is_space (hd (namespace p))" "CHR ''/'' \<notin> set (namespace p)"
  "normalize_provider (namespace p) = Some p"
  by (induct p; code_simp)+

lemma break_at_slash: "CHR ''/'' \<notin> set s \<Longrightarrow> break_at (\<lambda>c. c = CHR ''/'') (s @ CHR ''/'' # t) = (s, Some t)"
  by (induction s) (auto simp: break_at_def)

lemma parse_qualified:
  assumes "n \<noteq> []" "strip n = n"
  shows "parse_model_reference (namespace p @ ''/'' @ n) = Some (Some p, n)"
proof -
  have "\<not> is_space (last n)" using strip_no_space_ends [of n] assms by simp
  then have "strip (namespace p @ ''/'' @ n) = namespace p @ ''/'' @ n"
    using namespace_facts(1,2) assms(1) by (intro strip_fixed) auto
  then show ?thesis
    using break_at_slash [OF namespace_facts(3), of p n] namespace_facts(1,4) assms
    by (simp add: parse_model_reference_def)
qed

lemma normalize_capability_value [simp]: "normalize_capability (capability_value c) = Some c"
  by (induct c; code_simp)

text \<open>
  Normalisation recovers every provider from its value and from its namespace and every capability from
  its value, whatever the case, the dashes and the spaces around it.
\<close>

lemma normalize_round_trip:
  assumes "norm_name s = norm_name t"
  shows "(t = provider_value p \<or> t = namespace p \<longrightarrow> normalize_provider s = Some p) \<and>
    (t = capability_value c \<longrightarrow> normalize_capability s = Some c)"
proof -
  have "normalize_provider s = normalize_provider t" "normalize_capability s = normalize_capability t"
    using assms by (simp_all add: normalize_provider_def normalize_capability_def)
  moreover have "normalize_provider (provider_value p) = Some p" by (induct p; code_simp)
  ultimately show ?thesis using namespace_facts(4) [of p] by auto
qed

lemma normalize_round_trip_witness:
  "normalize_provider '' Grok-WEB '' = Some WEB \<and> normalize_capability ''Image-Edit'' = Some IMAGE_EDIT"
proof -
  have n: "norm_name '' Grok-WEB '' = norm_name ''grok_web''" "norm_name ''Image-Edit'' = norm_name ''image_edit''"
    by code_simp+
  from normalize_round_trip [OF n(1), of WEB] normalize_round_trip [OF n(2), of _ IMAGE_EDIT] show ?thesis by simp
qed

text \<open>
  The qualified name of a checked, enabled, installed route resolves, with the route's own capability,
  to a route of the same provider that carries the name and is preferred at least as much.
\<close>

lemma qualified_name_resolves:
  assumes "(p, r) \<in> installed_routes reg" "mr_provider r = p" "mr_enabled r" "post_init r0 = Some r"
  shows "\<exists>r'. resolve reg (qualified_model r) (capability_value (mr_capability r)) None = Inr r' \<and>
    (p, r') \<in> installed_routes reg \<and> named (mr_public_model r) r' \<and> mr_priority r' \<le> mr_priority r"
proof -
  let ?n = "mr_public_model r"
  have n: "?n \<noteq> []" "strip ?n = ?n"
    using assms(4) by (auto simp: post_init_def Let_def split: if_splits)
  have m: "parse_model_reference (qualified_model r) = Some (Some p, ?n)"
    using parse_qualified [OF n, of p] assms(2) by (simp add: qualified_model_def)
  let ?cs = "filter (named ?n) (routes reg (Some p) (Some (mr_capability r)) True)"
  have r: "r \<in> set ?cs" unfolding reg.matching_iff using assms by (auto simp: named_def)
  then have ne: "?cs \<noteq> []" by (metis empty_iff empty_set)
  have res: "resolve reg (qualified_model r) (capability_value (mr_capability r)) None = Inr (arg_min_list mr_priority ?cs)"
    using ne by (subst resolve_cases [OF m normalize_capability_value]) (simp_all add: pinned_def Let_def)
  from reg.best_matching [OF ne] r have "arg_min_list mr_priority ?cs \<in> set ?cs"
    "mr_priority (arg_min_list mr_priority ?cs) \<le> mr_priority r" by auto
  then show ?thesis using res unfolding reg.matching_iff by auto
qed

lemma qualified_name_resolves_witness:
  "\<exists>r'. resolve sample_registry ''Web/grok'' ''chat'' None = Inr r' \<and> named ''grok'' r'"
proof -
  let ?r = "sample_route WEB ''grok''"
  have "(WEB, ?r) \<in> installed_routes sample_registry" by (auto simp: installed_routes_def sample_registry_def)
  moreover have "post_init ?r = Some ?r" by code_simp
  moreover have "mr_provider ?r = WEB" "mr_enabled ?r" by (simp_all add: sample_route_def)
  ultimately have "\<exists>r'. resolve sample_registry (qualified_model ?r) (capability_value (mr_capability ?r)) None = Inr r' \<and>
      (WEB, r') \<in> installed_routes sample_registry \<and> named (mr_public_model ?r) r' \<and> mr_priority r' \<le> mr_priority ?r"
    by (intro qualified_name_resolves)
  then show ?thesis by (auto simp: qualified_model_def sample_route_def)
qed

subsection \<open>The adapters\<close>

text \<open>
  C40: every adapter invalidates a credential on a 401 and does not retry it, never invalidates one it asks
  to retry, and neither a rate limit nor a server error costs the account its credential.
\<close>

theorem adapters_keep_credentials:
  assumes "classify = (\<lambda>code hs body. build_classify_status code body) \<or>
    classify = (\<lambda>code hs body. web_classify_status code hs) \<or> classify = console_classify_status date_delta"
  shows "st_invalidate_credential (classify 401 hs body) \<and> \<not> st_retryable (classify 401 hs body) \<and>
    (st_retryable (classify code hs body) \<longrightarrow> \<not> st_invalidate_credential (classify code hs body)) \<and>
    (code = 429 \<or> 500 \<le> code \<and> code \<le> 599 \<longrightarrow>
       st_retryable (classify code hs body) \<and> \<not> st_invalidate_credential (classify code hs body))"
proof (rule disjE [OF assms])
  assume "classify = (\<lambda>code hs body. build_classify_status code body)"
  then show ?thesis by (simp only:) (rule build.contract)
next
  assume "classify = (\<lambda>code hs body. web_classify_status code hs) \<or> classify = console_classify_status date_delta"
  then show ?thesis
  proof
    assume "classify = (\<lambda>code hs body. web_classify_status code hs)"
    then show ?thesis by (simp only:) (rule web.contract)
  next
    assume "classify = console_classify_status date_delta"
    then show ?thesis by (simp only:) (rule console.contract)
  qed
qed

theorem adapters_keep_credentials_witness:
  "\<not> st_invalidate_credential (console_classify_status (\<lambda>_. None) 503 [] [])"
  using adapters_keep_credentials [of "console_classify_status (\<lambda>_. None)" "\<lambda>_. None" "[]" "[]" 503] by simp

text \<open>
  The default registry fails exactly when Web or Console is on without an encryption key; otherwise it
  holds Build and the providers that are on, and every route it installs belongs to the provider it is
  installed under.
\<close>

lemma create_registry_closed:
  assumes "\<forall>r \<in> set build. mr_provider r = BUILD"
  shows "(create_provider_registry use_web use_console images key build = None \<longleftrightarrow>
      (use_web \<or> use_console) \<and> strip key = []) \<and>
    (\<forall>reg. create_provider_registry use_web use_console images key build = Some reg \<longrightarrow>
      fst ` set reg = {BUILD} \<union> (if use_web then {WEB} else {}) \<union> (if use_console then {CONSOLE} else {}) \<and>
      (\<forall>(p, r) \<in> installed_routes reg. mr_provider r = p))"
  using assms web_routes_provider console_routes_provider
  by (cases use_web; cases use_console)
    (auto simp: create_provider_registry_def validate_provider_security_def register_def installed_routes_def)

lemma create_registry_closed_witness:
  "create_provider_registry True False True '' '' [] = None \<and> create_provider_registry False False True [] [] \<noteq> None"
proof -
  have b: "strip '' '' = []" by code_simp
  show ?thesis using create_registry_closed [of "[]" True False True "'' ''"] create_registry_closed [of "[]" False False True "[]"] b
    by simp
qed

subsection \<open>The public list\<close>

lemma dget_dupdate_other: "k \<notin> fst ` set e \<Longrightarrow> dget (dupdate d e) k = dget d k"
  by (induction d e rule: dupdate.induct) auto

lemma keys_dupdate: "fst ` set (dupdate d e) = fst ` set d \<union> fst ` set e"
proof (induction d e rule: dupdate.induct)
  case (2 d k v e)
  have "fst ` set (dset d k v) = insert k (fst ` set d)" by (simp add: dset_def dom_update)
  then show ?case using 2 by auto
qed simp

lemma metadata_keys:
  "fst ` set (foldl (\<lambda>m r. dupdate m (mr_metadata r)) d rs) = fst ` set d \<union> (\<Union>r \<in> set rs. fst ` set (mr_metadata r))"
  by (induction rs arbitrary: d) (auto simp: keys_dupdate)

lemma optional_entry_id:
  assumes "\<forall>r \<in> set (optional_routes reg). ''id'' \<notin> fst ` set (mr_metadata r)"
  shows "dget (optional_entry reg g) ''id'' = PStr (namespace (fst g) @ ''/'' @ snd g)"
proof -
  let ?rs = "filter (\<lambda>r. (mr_provider r, mr_public_model r) = g) (optional_routes reg)"
  have "''id'' \<notin> fst ` set (foldl (\<lambda>m r. dupdate m (mr_metadata r)) [] ?rs)"
    using assms unfolding metadata_keys by auto
  then show ?thesis by (simp add: optional_entry_def Let_def dget_dupdate_other)
qed

lemma optional_groups_set:
  "set (optional_groups reg) = (\<lambda>r. (mr_provider r, mr_public_model r)) ` set (optional_routes reg)"
  "distinct (optional_groups reg)"
  by (auto simp: optional_groups_def)

text \<open>
  For a registry of checked routes the public list keeps the Build rows as they are and appends, once
  each, the qualified name of every enabled model of the other providers; a listed name parses back to
  its provider and its model, and none of them can be read as a Build model.
\<close>

lemma optional_models_qualified:
  assumes "\<forall>r \<in> set (optional_routes reg). strip (mr_public_model r) = mr_public_model r \<and> mr_public_model r \<noteq> [] \<and>
      ''id'' \<notin> fst ` set (mr_metadata r)"
  shows "\<exists>ext. append_optional_provider_models build reg = map dict_of (filter is_dict build) @ ext \<and>
    (\<lambda>m. dget m ''id'') ` set ext = (\<lambda>r. PStr (qualified_model r)) ` set (optional_routes reg) \<and>
    distinct (map (\<lambda>m. dget m ''id'') ext) \<and>
    (\<forall>r \<in> set (optional_routes reg). parse_model_reference (qualified_model r) = Some (Some (mr_provider r), mr_public_model r) \<and>
       mr_provider r \<noteq> BUILD)"
proof -
  let ?ext = "map (optional_entry reg) (optional_groups reg)"
  have e: "dget (optional_entry reg g) ''id'' = PStr (namespace (fst g) @ ''/'' @ snd g)" for g
    using assms by (intro optional_entry_id) blast
  have p: "parse_model_reference (namespace (fst g) @ ''/'' @ snd g) = Some (Some (fst g), snd g)" if "g \<in> set (optional_groups reg)" for g
    using that assms unfolding optional_groups_set by (auto intro!: parse_qualified [simplified])
  have "inj_on (\<lambda>g. dget (optional_entry reg g) ''id'') (set (optional_groups reg))"
    unfolding e by (rule inj_onI) (metis p pyval.inject(4) option.inject prod.collapse prod.inject)
  then have d: "distinct (map (\<lambda>m. dget m ''id'') ?ext)"
    by (simp add: distinct_map o_def optional_groups_set(2))
  have "(\<lambda>m. dget m ''id'') ` set ?ext = (\<lambda>r. PStr (qualified_model r)) ` set (optional_routes reg)"
    by (auto simp: image_image e optional_groups_set(1) qualified_model_def)
  moreover have "\<forall>r \<in> set (optional_routes reg). parse_model_reference (qualified_model r) =
      Some (Some (mr_provider r), mr_public_model r) \<and> mr_provider r \<noteq> BUILD"
    using assms parse_qualified by (auto simp: qualified_model_def optional_routes_def)
  ultimately show ?thesis using d by (intro exI [of _ ?ext]) (simp add: append_optional_provider_models_def)
qed

lemma sample_optional: "optional_routes sample_registry = [sample_route WEB ''grok'']"
proof -
  have "mset (optional_routes sample_registry) = mset [sample_route WEB ''grok'']"
    by (simp add: optional_routes_def routes_def sample_registry_def sample_route_def)
  then show ?thesis by (metis mset_single_iff_right)
qed

lemma optional_models_qualified_witness:
  "\<exists>ext. append_optional_provider_models [] sample_registry = ext \<and> distinct (map (\<lambda>m. dget m ''id'') ext) \<and>
     (\<lambda>m. dget m ''id'') ` set ext = {PStr ''Web/grok''}"
proof -
  have "strip ''grok'' = ''grok''" by code_simp
  then have "\<forall>r \<in> set (optional_routes sample_registry). strip (mr_public_model r) = mr_public_model r \<and>
      mr_public_model r \<noteq> [] \<and> ''id'' \<notin> fst ` set (mr_metadata r)"
    by (simp add: sample_optional) (simp add: sample_route_def)
  from optional_models_qualified [OF this, of "[]"] show ?thesis
    by (auto simp: sample_optional qualified_model_def sample_route_def)
qed

subsection \<open>Account rotation\<close>

lemma pa_concat_map: "concat (map (\<lambda>(raw, _). if f raw = [] then [] else (case load (f raw) of None \<Rightarrow> [] | Some c \<Rightarrow> [(f raw, c)])) xs) =
    map (\<lambda>x. (f (fst x), the (load (f (fst x))))) (filter (\<lambda>x. f (fst x) \<noteq> [] \<and> load (f (fst x)) \<noteq> None) xs)"
  by (induction xs) (auto split: prod.splits option.splits)

lemma acquire_provider_run:
  assumes "provider \<noteq> BUILD" "rows = filter (\<lambda>(_, tier). tier_eligible tier minimum_tier) rows0" "rows \<noteq> []"
  shows "acquire_provider_sequence provider rows0 load i minimum_tier =
    (let res = map (\<lambda>x. (strip (fst x), the (load (strip (fst x)))))
       (filter (\<lambda>x. strip (fst x) \<noteq> [] \<and> load (strip (fst x)) \<noteq> None) (rotate i rows))
     in (if res = [] then None else Some res))"
  using assms by (simp add: acquire_provider_sequence_def Let_def rotate_drop_take pa_concat_map [where f = strip])

lemma mset_rotate: "mset (rotate n xs) = mset xs"
  by (metis rotate_drop_take append_take_drop_id mset_append add.commute)

text \<open>
  Whatever the rotation index, the sequence holds exactly the accounts that are eligible for the tier and
  whose credential decrypts, each as often as it is stored; the call fails exactly when there is none.
\<close>

lemma provider_rotation_complete:
  assumes "provider \<noteq> BUILD"
  shows "(acquire_provider_sequence provider rows load i minimum_tier = None \<longleftrightarrow>
      (\<forall>(raw, tier) \<in> set rows. tier_eligible tier minimum_tier \<longrightarrow> strip raw = [] \<or> load (strip raw) = None)) \<and>
    (\<forall>res. acquire_provider_sequence provider rows load i minimum_tier = Some res \<longrightarrow>
      mset res = {#(strip raw, the (load (strip raw))).
        (raw, tier) \<in># filter_mset (\<lambda>(raw, tier). tier_eligible tier minimum_tier \<and> strip raw \<noteq> [] \<and> load (strip raw) \<noteq> None)
          (mset rows)#})"
proof (cases "filter (\<lambda>(_, tier). tier_eligible tier minimum_tier) rows = []")
  case True
  then have "\<forall>(raw, tier) \<in> set rows. \<not> tier_eligible tier minimum_tier" by (auto simp: filter_empty_conv)
  then show ?thesis using True assms by (auto simp: acquire_provider_sequence_def Let_def)
next
  case False
  let ?e = "filter (\<lambda>(_, tier). tier_eligible tier minimum_tier) rows"
  let ?P = "\<lambda>x :: string \<times> string option. strip (fst x) \<noteq> [] \<and> load (strip (fst x)) \<noteq> None"
  have ms: "mset (filter ?P (rotate i ?e)) =
      filter_mset (\<lambda>(raw, tier). tier_eligible tier minimum_tier \<and> strip raw \<noteq> [] \<and> load (strip raw) \<noteq> None) (mset rows)"
    by (simp add: mset_rotate filter_filter_mset case_prod_unfold conj_ac)
  have emp: "filter ?P (rotate i ?e) = [] \<longleftrightarrow>
      (\<forall>(raw, tier) \<in> set rows. tier_eligible tier minimum_tier \<longrightarrow> strip raw = [] \<or> load (strip raw) = None)"
    by (auto simp: filter_empty_conv)
  show ?thesis
    unfolding acquire_provider_run [OF assms refl False] Let_def
    using emp by (simp add: mset_rotate filter_filter_mset case_prod_unfold conj_ac)
qed

lemma provider_rotation_complete_witness:
  "acquire_provider_sequence WEB [(''a'', Some ''super''), (''b'', None)] (\<lambda>i. Some i) 7 (Some ''super'') \<noteq> None"
proof -
  have "tier_eligible (Some ''super'') (Some ''super'')" "strip ''a'' = ''a''" by code_simp+
  then show ?thesis
    using provider_rotation_complete [of WEB "[(''a'', Some ''super''), (''b'', None)]" "\<lambda>i. Some i" 7 "Some ''super''"] by auto
qed

text \<open>The first account of each of \<open>n\<close> calls in a row.\<close>

fun starts :: "nat \<Rightarrow> provider_name \<Rightarrow> (string \<times> string option) list \<Rightarrow> (string \<Rightarrow> 'cred option) \<Rightarrow> string option \<Rightarrow>
    indexes \<Rightarrow> string option list" where
  "starts 0 p rows load tier idx = []"
| "starts (Suc n) p rows load tier idx =
     (let (i, idx') = next_index None idx p
      in map_option (fst \<circ> hd) (acquire_provider_sequence p rows load i tier) # starts n p rows load tier idx')"

lemma starts_upt:
  "starts n p rows load tier idx =
     map (\<lambda>i. map_option (fst \<circ> hd) (acquire_provider_sequence p rows load i tier)) [idx p ..< idx p + n]"
proof (induction n arbitrary: idx)
  case (Suc n)
  have "[idx p ..< idx p + Suc n] = idx p # [Suc (idx p) ..< Suc (idx p) + n]"
    by (simp add: upt_conv_Cons del: upt_Suc)
  then show ?case using Suc by (simp add: next_index_def o_def del: upt_Suc)
qed simp

lemma mset_window_mod:
  assumes "n > 0"
  shows "mset (map (\<lambda>i. f (i mod n)) [k ..< k + n]) = mset (map f [0 ..< n])"
proof (induction k)
  case (Suc k)
  have "[k ..< k + n] = k # [Suc k ..< k + n]" "[Suc k ..< Suc k + n] = [Suc k ..< k + n] @ [k + n]"
    using assms by (simp_all add: upt_conv_Cons)
  moreover have "(k + n) mod n = k mod n" by simp
  ultimately show ?case using Suc by simp
next
  case 0
  have "map (\<lambda>i. f (i mod n)) [0 ..< 0 + n] = map f [0 ..< n]" by (rule map_cong) simp_all
  then show ?case by (simp only:)
qed

text \<open>
  With no Redis and every eligible credential decryptable, each call starts one account after the
  previous one, and as many calls in a row as there are eligible accounts start once with each of them.
\<close>

lemma provider_rotation_starts:
  assumes "p \<noteq> BUILD" "rows = filter (\<lambda>(_, t). tier_eligible t tier) rows0"
    "\<forall>(raw, t) \<in> set rows. strip raw \<noteq> [] \<and> load (strip raw) \<noteq> None"
  shows "starts n p rows0 load tier idx =
      map (\<lambda>i. if rows = [] then None else Some (strip (fst (rows ! (i mod length rows))))) [idx p ..< idx p + n] \<and>
    (rows \<noteq> [] \<longrightarrow> mset (starts (length rows) p rows0 load tier idx) = {#Some (strip raw). (raw, t) \<in># mset rows#})"
proof -
  have one: "map_option (fst \<circ> hd) (acquire_provider_sequence p rows0 load i tier) =
      (if rows = [] then None else Some (strip (fst (rows ! (i mod length rows)))))" for i
  proof (cases "rows = []")
    case True
    then show ?thesis using assms(1,2) by (auto simp: acquire_provider_sequence_def Let_def)
  next
    case False
    have "filter (\<lambda>x. strip (fst x) \<noteq> [] \<and> load (strip (fst x)) \<noteq> None) (rotate i rows) = rotate i rows"
      using assms(3) by (auto simp: filter_id_conv)
    then show ?thesis using False
      by (simp add: acquire_provider_run [OF assms(1,2) False] Let_def list.map_sel(1) hd_rotate_conv_nth)
  qed
  have st: "starts n p rows0 load tier idx =
      map (\<lambda>i. if rows = [] then None else Some (strip (fst (rows ! (i mod length rows))))) [idx p ..< idx p + n]" for n
    unfolding starts_upt one ..
  have "mset (starts (length rows) p rows0 load tier idx) = {#Some (strip raw). (raw, t) \<in># mset rows#}" if "rows \<noteq> []"
  proof -
    have "mset (starts (length rows) p rows0 load tier idx) =
        mset (map (\<lambda>i. (\<lambda>j. Some (strip (fst (rows ! j)))) (i mod length rows)) [idx p ..< idx p + length rows])"
      using that by (simp add: st)
    also have "\<dots> = mset (map (\<lambda>j. Some (strip (fst (rows ! j)))) [0 ..< length rows])"
      using that by (intro mset_window_mod) simp
    also have "map (\<lambda>j. Some (strip (fst (rows ! j)))) [0 ..< length rows] = map (\<lambda>x. Some (strip (fst x))) rows"
      by (intro nth_equalityI) simp_all
    finally show ?thesis by (simp add: case_prod_unfold)
  qed
  with st show ?thesis by blast
qed

lemma provider_rotation_starts_witness:
  "starts 2 WEB [(''a'', Some ''super''), (''b'', None)] (\<lambda>i. Some i) None (\<lambda>_. 0) = [Some ''a'', Some ''b'']"
proof -
  have s: "strip ''a'' = ''a''" "strip ''b'' = ''b''" by code_simp+
  have "[0 ..< 2] = [0, 1 :: nat]" by code_simp
  with conjunct1 [OF provider_rotation_starts [of WEB "[(''a'', Some ''super''), (''b'', None)]" None
      "[(''a'', Some ''super''), (''b'', None)]" "\<lambda>i. Some i" 2 "\<lambda>_. 0"]]
  show ?thesis by (simp add: s tier_eligible_def)
qed

end
