(* ===== verification/Catalog_Theorems.thy ===== *)
theory Catalog_Theorems
  imports Model_Catalog Provider_Theorems
begin

text \<open>
  The properties of the model catalog: what a replacement leaves in the table, what the public list always
  shows, how names resolve, and what becomes of the sort order of the default model.
\<close>

subsection \<open>The table\<close>

lemma replacement_ids:
  assumes "f = catalog_fetched_at now meta"
  shows "distinct (map mo_id (replacement now items meta keep rows)) \<and>
    mo_id ` set (replacement now items meta keep rows) =
      {mo_id rc | rc raw. raw \<in> set items \<and> is_dict raw \<and> normalize_record (dict_of raw) f = Some rc} \<union>
      (if keep then {mw_id r | r. r \<in> set rows \<and> mw_synthetic r \<and> mw_id r \<noteq> []} else {})"
proof -
  define ns where "ns = first_records {} f items"
  define rs where "rs = retained_records (set (map mo_id ns)) f rows"
  define A where "A = {mo_id rc | rc raw. raw \<in> set items \<and> is_dict raw \<and> normalize_record (dict_of raw) f = Some rc}"
  define S where "S = {mw_id r | r. r \<in> set rows \<and> mw_synthetic r \<and> mw_id r \<noteq> []}"
  have n: "mo_id ` set ns = A" "distinct (map mo_id ns)"
    using first_records_ids [of "{}" f items] by (simp_all add: ns_def A_def)
  have r: "mo_id ` set rs = S - A" "distinct (map mo_id rs)"
    using retained_records_ids [of "set (map mo_id ns)" f rows] n(1) by (simp_all add: rs_def S_def)
  have rep: "replacement now items meta keep rows = ns @ (if keep then rs else [])"
    by (simp add: replacement_def assms ns_def rs_def Let_def)
  show ?thesis
    unfolding rep A_def [symmetric] S_def [symmetric] using n r by (cases keep) (auto simp: image_Un)
qed

text \<open>
  C12: a replacement that succeeds leaves a table without repeated ids that holds exactly the ids of the items
  and, when asked to keep them, of the synthetic rows stored before; it returns the number of rows, and a
  synthetic row no item names survives with its hidden mark.
\<close>

theorem catalog_replace_all:
  assumes "replace_all env now items meta keep db = Some (n, db')"
  shows "distinct (map mw_id (cat_rows db')) \<and> n = length (cat_rows db') \<and>
    mw_id ` set (cat_rows db') =
      {mo_id rc | rc raw. raw \<in> set items \<and> is_dict raw \<and> normalize_record (dict_of raw) (catalog_fetched_at now meta) = Some rc} \<union>
      (if keep then {mw_id r | r. r \<in> set (cat_rows db) \<and> mw_synthetic r \<and> mw_id r \<noteq> []} else {}) \<and>
    (\<forall>r \<in> set (cat_rows db'). mw_sort_order r \<noteq> 0)"
proof -
  let ?recs = "replacement now items meta keep (cat_rows db)"
  from assms have u: "upsert_recs env now ?recs [] = Some (cat_rows db')" and n: "n = length ?recs"
    by (auto simp: replace_all_def Let_def)
  note ids = replacement_ids [OF refl, of now items meta keep "cat_rows db"]
  from upsert_recs_fresh [OF u] ids have l: "list_all2 (\<lambda>rc r. row_of_rec env now rc = Some r) ?recs (cat_rows db')" by auto
  then have m: "map mw_id (cat_rows db') = map mo_id ?recs"
    by (induction rule: list_all2_induct) (simp_all add: row_of_rec_id)
  have "\<forall>r \<in> set (cat_rows db'). mw_sort_order r \<noteq> 0"
    using l by (induction rule: list_all2_induct) (auto simp: row_of_rec_def split: Option.bind_splits if_splits)
  moreover have "mw_id ` set (cat_rows db') = mo_id ` set ?recs" using m by (metis set_map)
  ultimately show ?thesis using m n ids by (metis length_map)
qed

definition one_item :: pyval where
  "one_item = PDict [(''id'', PStr ''grok-4.5'')]"

definition no_env :: pg_env where
  "no_env = \<lparr>pe_iso = (\<lambda>_. None), pe_loads = (\<lambda>_. None)\<rparr>"

theorem catalog_replace_all_witness:
  "\<exists>n db'. replace_all no_env 0 [one_item] None True \<lparr>cat_rows = [], cat_meta = None\<rparr> = Some (n, db') \<and> distinct (map mw_id (cat_rows db'))"
proof -
  have s: "strip ''grok-4.5'' = ''grok-4.5''" by code_simp
  have "\<exists>rc. normalize_record (dict_of one_item) (PFloat 0) = Some rc \<and> mo_context_window rc = PNone \<and> mo_effort rc = PNone"
    by (simp add: one_item_def normalize_record_def s Let_def)
  then obtain rc where "normalize_record (dict_of one_item) (PFloat 0) = Some rc" "row_of_rec no_env 0 rc \<noteq> None"
    by (auto simp: row_of_rec_def)
  then have "\<exists>r. replace_all no_env 0 [one_item] None True \<lparr>cat_rows = [], cat_meta = None\<rparr> = Some r"
    by (auto simp: replace_all_def replacement_def catalog_fetched_at_def one_item_def Let_def)
  with catalog_replace_all [of no_env 0 "[one_item]" None True "\<lparr>cat_rows = [], cat_meta = None\<rparr>"] show ?thesis by auto
qed

subsection \<open>The public list\<close>

lemma extra_entry_ids: "nid ` set (extra_model_entries dm ts) = {''grok-build'', ''grok-search''}"
proof -
  have "norm_text (PStr ''grok-build'') = ''grok-build''" "norm_text (PStr ''grok-search'') = ''grok-search''" by code_simp+
  then show ?thesis by (simp add: extra_model_entries_def EXTRA_MODELS_def)
qed

lemma merged_extras:
  "{''grok-build'', ''grok-search''} \<subseteq> nid ` set (merge_extra_models dm ts models)"
  "set models \<subseteq> set (merge_extra_models dm ts models)"
  "distinct (map nid models) \<Longrightarrow> distinct (map nid (merge_extra_models dm ts models))"
proof -
  show "{''grok-build'', ''grok-search''} \<subseteq> nid ` set (merge_extra_models dm ts models)"
  proof
    fix x assume x: "x \<in> {''grok-build'', ''grok-search''}"
    then have "x \<in> nid ` set (extra_model_entries dm ts)" by (simp only: extra_entry_ids)
    then obtain e where e: "x = nid e" "e \<in> set (extra_model_entries dm ts)" by (rule imageE)
    have "x \<noteq> []" using x by blast
    then have "nid e \<noteq> []" by (simp only: e(1) not_False_eq_True)
    then show "x \<in> nid ` set (merge_extra_models dm ts models)"
      unfolding merge_extra_models_def e(1) using append_missing_covers [OF _ e(2)] have_ids_iff by blast
  qed
  show "set models \<subseteq> set (merge_extra_models dm ts models)"
    using append_missing_suffix [of "have_ids models" models "extra_model_entries dm ts"]
    by (auto simp: merge_extra_models_def)
  show "distinct (map nid (merge_extra_models dm ts models))" if "distinct (map nid models)"
    unfolding merge_extra_models_def using that by (rule append_missing_distinct) (simp add: have_ids_iff)
qed

lemma distinct_sort_key: "distinct (map f (sort_key g xs)) = distinct (map f xs)"
  by (simp add: distinct_map mset_eq_setD [OF mset_sort] inj_on_def)

lemma catalog_extras:
  assumes "l = load_models_from_cache dm ts stored"
  shows "{''grok-build'', ''grok-search''} \<subseteq> nid ` set l"
  using merged_extras(1) unfolding assms load_models_from_cache_def load_models_from_pg_def fallback_models_def
  by (simp add: Let_def split: option.splits)

text \<open>
  Whatever the table holds, the public list shows both built-in models, is sorted with the default model
  first, and shows every row that is not hidden and has a name; when the ids of these rows differ beyond
  case, no id is listed twice.
\<close>

lemma catalog_lists_extras:
  assumes "l = load_models_from_cache dm ts stored"
  shows "{''grok-build'', ''grok-search''} \<subseteq> nid ` set l \<and> sorted (map (model_sort_key dm) l) \<and>
    (\<forall>rows. stored = Some rows \<longrightarrow>
      (\<forall>r \<in> set rows. \<not> mw_hidden r \<and> mw_id r \<noteq> [] \<longrightarrow> (\<exists>m \<in> set l. dget m ''id'' = PStr (strip (mw_id r)))) \<and>
      (distinct (map (\<lambda>r. lower (strip (mw_id r))) (filter (\<lambda>r. \<not> mw_hidden r) rows)) \<longrightarrow> rows \<noteq> [] \<longrightarrow>
         distinct (map nid l)))"
proof (cases "load_models_from_pg dm ts stored")
  case None
  then have l: "l = fallback_models dm ts" using assms by (simp add: load_models_from_cache_def)
  have hid: "mw_hidden r" if "stored = Some rows" "r \<in> set rows" for rows r
    using None that by (auto simp: load_models_from_pg_def list_models_def Let_def filter_empty_conv split: if_splits dest: arg_cong [where f = set])
  have "distinct (map nid l)"
    unfolding l fallback_models_def distinct_sort_key by (rule merged_extras(3)) simp
  then show ?thesis
    using hid merged_extras(1) [of dm ts] unfolding l fallback_models_def by (auto simp del: subset_iff)
next
  case (Some ms)
  then obtain rows where rows: "stored = Some rows"
    and ms: "ms = sort_key (model_sort_key dm) (merge_extra_models dm ts
      (map (public_model_entry ts) (filter (\<lambda>r. truthy (dget r ''id'')) (list_models False rows))))"
    by (auto simp: load_models_from_pg_def Let_def split: option.splits if_splits)
  have l: "l = ms" using assms Some by (simp add: load_models_from_cache_def)
  let ?es = "map (public_model_entry ts) (filter (\<lambda>r. truthy (dget r ''id'')) (list_models False rows))"
  have set_l: "set ?es \<subseteq> set l" unfolding l ms set_sort by (rule merged_extras(2))
  have shown: "\<exists>m \<in> set l. dget m ''id'' = PStr (strip (mw_id r))" if "r \<in> set rows" "\<not> mw_hidden r" "mw_id r \<noteq> []" for r
  proof
    show "public_model_entry ts (row_to_record r) \<in> set l"
      using that by (intro set_l [THEN subsetD]) (auto simp: list_models_def row_to_record_id)
  qed (simp add: public_entry_id row_to_record_id)
  have "distinct (map nid l)" if d: "distinct (map (\<lambda>r. lower (strip (mw_id r))) (filter (\<lambda>r. \<not> mw_hidden r) rows))"
    unfolding l ms distinct_sort_key
  proof (rule merged_extras(3))
    let ?vis = "sort_key (\<lambda>r. (mw_sort_order r, mw_id r)) (filter (\<lambda>r. \<not> mw_hidden r) rows)"
    have "map nid ?es = map (\<lambda>r. lower (strip (mw_id r))) (filter (\<lambda>r. mw_id r \<noteq> []) ?vis)"
      by (simp add: list_models_def filter_map o_def row_to_record_id public_entry_id norm_text_def)
    moreover have "distinct (map (\<lambda>r. lower (strip (mw_id r))) ?vis)" using d by (simp add: distinct_sort_key)
    ultimately show "distinct (map nid ?es)" by (simp add: distinct_map_filter)
  qed
  then show ?thesis using shown merged_extras(1) [of dm ts ?es] rows unfolding l ms by (auto simp del: subset_iff)
qed

lemma catalog_lists_extras_witness: "\<exists>m \<in> set (load_models_from_cache ''grok-4.5'' 0 None). nid m = ''grok-build''"
  using catalog_lists_extras [OF refl, of "''grok-4.5''" 0 None] by auto

subsection \<open>Names\<close>

lemma alias_values: "map_of (MODEL_ALIASES dm) k = Some v \<Longrightarrow> v = dm \<or> v = ''grok-build''"
  by (auto simp: MODEL_ALIASES_def split: if_splits)

lemma resolve_model_cases:
  assumes "s \<noteq> []"
  obtains "resolve_model dm (Some s) = dm" | "resolve_model dm (Some s) = ''grok-build''"
  | "resolve_model dm (Some s) = strip s" "lower (strip s) \<notin> {''grok-search'', ''web-search''}"
    "map_of (MODEL_ALIASES dm) (strip s) = None" "map_of (MODEL_ALIASES dm) (lower (strip s)) = None"
proof -
  have "resolve_model dm (Some s) = dm \<or> resolve_model dm (Some s) = ''grok-build'' \<or>
      (resolve_model dm (Some s) = strip s \<and> lower (strip s) \<notin> {''grok-search'', ''web-search''} \<and>
       map_of (MODEL_ALIASES dm) (strip s) = None \<and> map_of (MODEL_ALIASES dm) (lower (strip s)) = None)"
    using assms by (auto simp: resolve_model_def Let_def dest: alias_values split: option.splits)
  then show thesis using that by blast
qed

lemma alias_lower: "map_of (MODEL_ALIASES dm) k = Some v \<Longrightarrow> lower k = k"
proof -
  assume "map_of (MODEL_ALIASES dm) k = Some v"
  then have "k \<in> set (map fst (MODEL_ALIASES dm))" by (auto dest!: map_of_SomeD simp: image_iff intro: rev_bexI)
  moreover have "list_all (\<lambda>k. lower k = k) (map fst (MODEL_ALIASES dm))" by code_simp
  ultimately show ?thesis unfolding list_all_iff by blast
qed

lemma resolve_grok_build: "lower (strip s) = ''grok-build'' \<Longrightarrow> resolve_model dm (Some s) = ''grok-build''"
proof -
  assume l: "lower (strip s) = ''grok-build''"
  have "map_of (MODEL_ALIASES dm) ''grok-build'' = Some ''grok-build''" by (simp add: MODEL_ALIASES_def)
  moreover have "map_of (MODEL_ALIASES dm) (strip s) \<in> {None, Some ''grok-build''}"
    using l calculation alias_lower [of dm "strip s"] by (cases "map_of (MODEL_ALIASES dm) (strip s)") auto
  moreover have "s \<noteq> []" using l by (auto simp: lower_def strip_def lstrip_def)
  ultimately show ?thesis using l by (auto simp: resolve_model_def Let_def)
qed

text \<open>
  With a default model that resolves to itself, resolving is idempotent on every name that is not blank
  and never gives a blank name.
\<close>

lemma resolve_model_idempotent:
  assumes "strip m \<noteq> []" "resolve_model dm (Some dm) = dm" "strip dm \<noteq> []"
  shows "resolve_model dm (Some (resolve_model dm (Some m))) = resolve_model dm (Some m) \<and>
    strip (resolve_model dm (Some m)) \<noteq> []"
proof -
  have m: "m \<noteq> []" using assms(1) by (auto simp: strip_def lstrip_def)
  have g: "resolve_model dm (Some ''grok-build'') = ''grok-build''" "strip ''grok-build'' \<noteq> []"
  proof -
    have "lower (strip ''grok-build'') = ''grok-build''" by code_simp
    then show "resolve_model dm (Some ''grok-build'') = ''grok-build''" by (rule resolve_grok_build)
    show "strip ''grok-build'' \<noteq> []" by code_simp
  qed
  show ?thesis
  proof (rule resolve_model_cases [OF m, of dm])
    assume r: "resolve_model dm (Some m) = strip m" "lower (strip m) \<notin> {''grok-search'', ''web-search''}"
      "map_of (MODEL_ALIASES dm) (strip m) = None" "map_of (MODEL_ALIASES dm) (lower (strip m)) = None"
    then show ?thesis using assms(1) by (simp add: resolve_model_def)
  next
    assume "resolve_model dm (Some m) = dm"
    then show ?thesis using assms(2,3) by simp
  next
    assume "resolve_model dm (Some m) = ''grok-build''"
    then show ?thesis using g by simp
  qed
qed

lemma resolve_model_idempotent_witness:
  "resolve_model ''grok-4.5'' (Some (resolve_model ''grok-4.5'' (Some ''gpt-4o''))) = resolve_model ''grok-4.5'' (Some ''gpt-4o'')"
proof -
  have "strip ''gpt-4o'' \<noteq> []" "resolve_model ''grok-4.5'' (Some ''grok-4.5'') = ''grok-4.5''" "strip ''grok-4.5'' \<noteq> []"
    by code_simp+
  from resolve_model_idempotent [OF this] show ?thesis by simp
qed

subsection \<open>The Build adapter on the catalog\<close>

definition build_from_catalog :: "string \<Rightarrow> pyval list \<Rightarrow> model_route list option" where
  "build_from_catalog dm = build_routes (\<lambda>m. resolve_model dm (Some m))"

lemma build_route_total:
  assumes "strip dm \<noteq> []" "strip mid \<noteq> []" "mid \<noteq> []"
  shows "\<exists>r. build_route (\<lambda>m. resolve_model dm (Some m)) mid syn = Some r \<and> mr_provider r = BUILD \<and> mr_capability r = CHAT \<and>
    mr_enabled r \<and> mr_public_model r = strip mid \<and> mr_upstream_model r = strip (resolve_model dm (Some mid))"
proof -
  have "strip ''grok-build'' \<noteq> []" by code_simp
  with assms have "strip (resolve_model dm (Some mid)) \<noteq> []"
    by (rule_tac resolve_model_cases [OF assms(3), of dm]) simp_all
  then show ?thesis using assms(2) by (simp add: build_route_def post_init_def Let_def)
qed

lemma strip_nonempty: "strip s \<noteq> [] \<Longrightarrow> s \<noteq> []"
  by (auto simp: strip_def lstrip_def)

text \<open>
  With a default model that is not blank the Build adapter never raises on a catalog: one enabled chat
  route per entry that has an id, in order, under the id, to the upstream name the id resolves to.
\<close>

lemma build_routes_total:
  assumes "strip dm \<noteq> []"
  shows "\<exists>rs. build_from_catalog dm catalog = Some rs \<and>
    map mr_public_model rs =
      filter (\<lambda>s. s \<noteq> []) (map (\<lambda>item. strip (str_or_empty (dget (dict_of item) ''id''))) (filter is_dict catalog)) \<and>
    (\<forall>r \<in> set rs. mr_provider r = BUILD \<and> mr_capability r = CHAT \<and> mr_enabled r \<and>
      mr_upstream_model r = strip (resolve_model dm (Some (mr_public_model r))))"
proof (induction catalog)
  case Nil
  then show ?case by (simp add: build_from_catalog_def)
next
  case (Cons item catalog)
  let ?id = "strip (str_or_empty (dget (dict_of item) ''id''))"
  show ?case
  proof (cases "is_dict item \<and> ?id \<noteq> []")
    case False
    then show ?thesis using Cons by (auto simp: build_from_catalog_def)
  next
    case True
    then have "strip ?id \<noteq> []" "?id \<noteq> []" by simp_all
    from build_route_total [OF assms this, of "truthy (dget (dict_of item) ''synthetic'')"] Cons True show ?thesis
      by (auto simp: build_from_catalog_def)
  qed
qed

lemma build_routes_total_witness: "build_from_catalog ''grok-4.5'' [PDict [(''id'', PStr ''grok'')]] \<noteq> None"
proof -
  have "strip ''grok-4.5'' \<noteq> []" by code_simp
  from build_routes_total [OF this] show ?thesis by (metis option.distinct(1))
qed

lemma norm_grok_build: "lower (strip ''grok-build'') = ''grok-build''" "strip ''grok-build'' = ''grok-build''"
  by code_simp+

lemma create_registry_installed:
  assumes "create_provider_registry use_web use_console images key build = Some reg"
  shows "installed_routes reg = (\<lambda>r. (BUILD, r)) ` set build \<union>
    (if use_web then (\<lambda>r. (WEB, r)) ` set (web_routes images) else {}) \<union>
    (if use_console then (\<lambda>r. (CONSOLE, r)) ` set console_routes else {})"
  using assms
  by (cases use_web; cases use_console)
    (auto simp: create_provider_registry_def validate_provider_security_def register_def installed_routes_def split: if_splits)

lemma other_routes_not_grok_build:
  "r \<in> set (web_routes images) \<Longrightarrow> \<not> named ''grok-build'' r" "r \<in> set console_routes \<Longrightarrow> \<not> named ''grok-build'' r"
proof -
  have w: "list_all (\<lambda>m. wm_id m \<noteq> ''grok-build'' \<and> wm_upstream_mode m \<noteq> ''grok-build'') WEB_MODELS" by code_simp
  have c: "list_all (\<lambda>m. ms_public_id m \<noteq> ''grok-build'' \<and> ms_upstream_model m \<noteq> ''grok-build'') CATALOG" by code_simp
  show "r \<in> set (web_routes images) \<Longrightarrow> \<not> named ''grok-build'' r" "r \<in> set console_routes \<Longrightarrow> \<not> named ''grok-build'' r"
    using w c by (auto simp: web_routes_def console_routes_def named_def list_all_iff)
qed

lemma build_lists_grok_build:
  assumes "strip dm \<noteq> []" "build_from_catalog dm (map PDict (load_models_from_cache dm ts stored)) = Some build"
  shows "(\<exists>r \<in> set build. named ''grok-build'' r) \<and>
    (\<forall>r \<in> set build. mr_provider r = BUILD \<and> mr_capability r = CHAT \<and> mr_enabled r \<and>
       (named ''grok-build'' r \<longrightarrow> mr_upstream_model r = ''grok-build''))"
proof -
  let ?c = "map PDict (load_models_from_cache dm ts stored)"
  from build_routes_total [OF assms(1), of ?c] assms(2) have names: "map mr_public_model build =
      filter (\<lambda>s. s \<noteq> []) (map (\<lambda>item. strip (str_or_empty (dget (dict_of item) ''id''))) (filter is_dict ?c))"
    and b: "\<And>r. r \<in> set build \<Longrightarrow> mr_provider r = BUILD \<and> mr_capability r = CHAT \<and> mr_enabled r \<and>
      mr_upstream_model r = strip (resolve_model dm (Some (mr_public_model r)))" by auto
  have up: "mr_upstream_model r = ''grok-build''" if "r \<in> set build" "named ''grok-build'' r" for r
    using that b [OF that(1)] resolve_grok_build [of "''grok-build''" dm] norm_grok_build by (auto simp: named_def)
  have "''grok-build'' \<in> nid ` set (load_models_from_cache dm ts stored)"
    using catalog_extras [of "load_models_from_cache dm ts stored" dm ts stored] by blast
  then obtain m where m: "''grok-build'' = nid m" "m \<in> set (load_models_from_cache dm ts stored)" by (rule imageE)
  let ?p = "strip (str_or_empty (dget m ''id''))"
  have lp: "lower ?p = ''grok-build''" using m(1) by (simp add: norm_text_def)
  then have "?p \<noteq> []" by (auto simp: lower_def)
  then have "?p \<in> set (map mr_public_model build)" unfolding names using m(2) by (auto intro!: image_eqI [of _ _ "PDict m"])
  then obtain r where r: "r \<in> set build" "mr_public_model r = ?p" by auto
  have "mr_upstream_model r = ''grok-build''"
    using b [OF r(1)] resolve_grok_build [of ?p dm] lp norm_grok_build r(2) by simp
  then have "named ''grok-build'' r" by (simp add: named_def)
  with r(1) b up show ?thesis by blast
qed

text \<open>
  C8: from the stored catalog to the route: whatever the models table holds and whichever optional providers
  are on, the gateway resolves \<open>grok-build\<close>, bare or qualified, to an enabled Build route whose upstream
  model is \<open>grok-build\<close>.
\<close>

theorem grok_build_always_routed:
  assumes "strip dm \<noteq> []"
    and "build_from_catalog dm (map PDict (load_models_from_cache dm ts stored)) = Some build"
    and "create_provider_registry use_web use_console images key build = Some reg"
    and "model \<in> {''grok-build'', ''Build/grok-build''}"
  shows "\<exists>r. resolve reg model ''chat'' None = Inr r \<and> mr_provider r = BUILD \<and> mr_enabled r \<and> mr_upstream_model r = ''grok-build''"
proof -
  from build_lists_grok_build [OF assms(1,2)] obtain r where r: "r \<in> set build" and nr: "named ''grok-build'' r"
    and b: "\<And>s. s \<in> set build \<Longrightarrow> mr_provider s = BUILD \<and> mr_capability s = CHAT \<and> mr_enabled s \<and>
      (named ''grok-build'' s \<longrightarrow> mr_upstream_model s = ''grok-build'')" by blast
  note inst = create_registry_installed [OF assms(3)]
  have p: "parse_model_reference ''Build/grok-build'' = Some (Some BUILD, ''grok-build'')"
    "parse_model_reference ''grok-build'' = Some (None, ''grok-build'')" "normalize_capability ''chat'' = Some CHAT"
    by code_simp+
  have only: "p' = BUILD \<and> r' \<in> set build" if "(p', r') \<in> installed_routes reg" "named ''grok-build'' r'" for p' r'
    using that other_routes_not_grok_build unfolding inst by (auto split: if_splits)
  obtain pre where pre: "parse_model_reference model = Some (pre, ''grok-build'')" "pre = None \<or> pre = Some BUILD"
    using p assms(4) by auto
  let ?ok = "\<lambda>q s. (q, s) \<in> installed_routes reg \<and> mr_enabled s \<and> mr_capability s = CHAT \<and> named ''grok-build'' s"
  have ok: "?ok BUILD r" using r nr b [OF r] unfolding inst by auto
  have pin: "pinned pre None = pre" by (simp add: pinned_def)
  have x: "resolve reg model ''chat'' None = Inl No_Route \<longleftrightarrow> (\<nexists>q s. (q, s) \<in> installed_routes reg \<and>
        (pre = None \<or> pre = Some q) \<and> mr_enabled s \<and> mr_capability s = CHAT \<and> named ''grok-build'' s)"
    "(\<exists>cs. resolve reg model ''chat'' None = Inl (Ambiguous cs)) \<longrightarrow>
      (\<exists>q s q' s'. (q, s) \<in> installed_routes reg \<and> (q', s') \<in> installed_routes reg \<and> mr_enabled s \<and> mr_enabled s' \<and>
        mr_capability s = CHAT \<and> mr_capability s' = CHAT \<and> named ''grok-build'' s \<and> named ''grok-build'' s' \<and>
        mr_provider s \<noteq> mr_provider s')"
    using resolve_exact [OF pre(1) p(3), of None reg] unfolding pin by simp_all
  have "mr_provider s = BUILD" if "(q, s) \<in> installed_routes reg" "named ''grok-build'' s" for q s
    using only [OF that] b by blast
  then have e: "\<nexists>cs. resolve reg model ''chat'' None = Inl (Ambiguous cs)" using x(2) by metis
  have "resolve reg model ''chat'' None \<noteq> Inl No_Route" using x(1) ok pre(2) by blast
  moreover have "resolve reg model ''chat'' None \<notin> {Inl Bad_Value, Inl Prefix_Conflict}"
    using resolve_cases [OF pre(1) p(3), of None reg] by (auto simp: Let_def split: if_splits)
  ultimately obtain s where s: "resolve reg model ''chat'' None = Inr s"
    using e by (cases "resolve reg model ''chat'' None") (auto, metis resolve_error.exhaust)
  from resolve_route [OF s] obtain p' where "(p', s) \<in> installed_routes reg" "named ''grok-build'' s"
    by (auto simp: pre(1))
  with only have "s \<in> set build" "named ''grok-build'' s" by auto
  with s b show ?thesis by blast
qed

theorem grok_build_always_routed_witness:
  "\<exists>build reg r. build_from_catalog ''grok-4.5'' (map PDict (load_models_from_cache ''grok-4.5'' 0 None)) = Some build \<and>
     create_provider_registry True True True ''k'' build = Some reg \<and> resolve reg ''grok-build'' ''chat'' None = Inr r"
proof -
  have d: "strip ''grok-4.5'' \<noteq> []" and k: "strip ''k'' \<noteq> []" by code_simp+
  obtain build where build: "build_from_catalog ''grok-4.5'' (map PDict (load_models_from_cache ''grok-4.5'' 0 None)) = Some build"
    using build_routes_total [OF d, of "map PDict (load_models_from_cache ''grok-4.5'' 0 None)"] by blast
  obtain reg where "create_provider_registry True True True ''k'' build = Some reg"
    using k by (simp add: create_provider_registry_def validate_provider_security_def register_def)
  with grok_build_always_routed [OF d build this, of "''grok-build''"] build show ?thesis by auto
qed

subsection \<open>Seeding\<close>

lemma normalize_plain:
  assumes "dget item ''id'' = PStr i" "strip i = i" "i \<noteq> []" "dget item ''info'' = PNone" "dget item ''sort_order'' = PInt n"
    "dget item ''context_window'' = PNone" "dget item ''supports_reasoning_effort'' = PNone"
  shows "\<exists>rc. normalize_record item f = Some rc \<and> mo_id rc = i \<and> mo_sort_order rc = n \<and>
    (\<exists>r. row_of_rec env now rc = Some r \<and> mw_id r = i \<and> mw_sort_order r = (if n = 0 then 100 else n))"
  using assms by (simp add: normalize_record_def row_of_rec_def Let_def)

lemma replace_three:
  assumes "\<And>j. j < 3 \<Longrightarrow> \<exists>rc. normalize_record (items ! j) f = Some rc \<and> mo_id rc = ids ! j \<and> mo_sort_order rc = ns ! j \<and>
      (\<exists>r. row_of_rec env now rc = Some r \<and> mw_id r = ids ! j \<and> mw_sort_order r = (if ns ! j = 0 then 100 else ns ! j))"
    and "items = [i0, i1, i2]" "distinct [ids ! 0, ids ! 1, ids ! 2]"
  shows "\<exists>r0 r1 r2. upsert_recs env now (first_records {} f (map PDict items)) [] = Some [r0, r1, r2] \<and>
    map (\<lambda>r. (mw_id r, mw_sort_order r)) [r0, r1, r2] =
      map (\<lambda>j. (ids ! j, if ns ! j = 0 then 100 else ns ! j)) [0, 1, 2]"
proof -
  from assms(1) [of 0] assms(1) [of 1] assms(1) [of 2] assms(2,3) show ?thesis
    by (auto simp: numeral_2_eq_2)
qed

text \<open>
  The sort order 0 that ranks the default model first is stored as 100, so the table seeded at startup
  lists the default model after both built-in models.
\<close>

lemma seeded_default_listed_last:
  "map (\<lambda>m. dget m ''id'') (list_models True (cat_rows
     (ensure_models_catalog_seeded iso_time ''grok-4.5'' env now \<lparr>cat_rows = [], cat_meta = meta\<rparr>))) =
   [PStr ''grok-build'', PStr ''grok-search'', PStr ''grok-4.5'']"
proof -
  have s: "strip ''grok-build'' = ''grok-build''" "strip ''grok-search'' = ''grok-search''" "strip ''grok-4.5'' = ''grok-4.5''"
    "norm_text (PStr ''grok-build'') = ''grok-build''" "norm_text (PStr ''grok-search'') = ''grok-search''"
    "norm_text (PStr ''grok-4.5'') = ''grok-4.5''"
    "''grok-build'' < ''grok-search''"
    by code_simp+
  define t where "t = PStr (iso_time now)"
  define items where "items = [(''id'', PStr ''grok-4.5''), (''name'', PStr ''grok-4.5''), (''owned_by'', PStr ''xai''),
      (''hidden'', PBool False), (''synthetic'', PBool False), (''model'', PStr ''grok-4.5''),
      (''sort_order'', PInt (sort_order_for ''grok-4.5'' ''grok-4.5'')), (''fetched_at'', t)] # extra_items_for_pg ''grok-4.5'' t"
  have h: "append_missing (have_ids items) items (extra_items_for_pg ''grok-4.5'' t') = items" for t'
    by (simp add: items_def extra_items_for_pg_def EXTRA_MODELS_def have_ids_def s Let_def)
  obtain i0 i1 i2 where it: "items = [i0, i1, i2]" by (simp add: items_def extra_items_for_pg_def EXTRA_MODELS_def Let_def)
  define ids where "ids = [''grok-4.5'', ''grok-build'', ''grok-search'']"
  define ns where "ns = [0, 1, 2 :: int]"
  have "\<exists>rc. normalize_record (items ! j) f = Some rc \<and> mo_id rc = ids ! j \<and> mo_sort_order rc = ns ! j \<and>
      (\<exists>r. row_of_rec env now rc = Some r \<and> mw_id r = ids ! j \<and> mw_sort_order r = (if ns ! j = 0 then 100 else ns ! j))"
    if "j < 3" for j f
  proof (rule normalize_plain)
    from that have "j = 0 \<or> j = 1 \<or> j = 2" by arith
    then show "dget (items ! j) ''id'' = PStr (ids ! j)" "strip (ids ! j) = ids ! j" "ids ! j \<noteq> []" "dget (items ! j) ''info'' = PNone"
      "dget (items ! j) ''sort_order'' = PInt (ns ! j)" "dget (items ! j) ''context_window'' = PNone"
      "dget (items ! j) ''supports_reasoning_effort'' = PNone"
      by (auto simp: items_def extra_items_for_pg_def EXTRA_MODELS_def sort_order_for_def ids_def ns_def s)
  qed
  from replace_three [OF this it] obtain r0 r1 r2 where
    r: "upsert_recs env now (first_records {} f (map PDict items)) [] = Some [r0 f, r1 f, r2 f]"
    "mw_id (r0 f) = ''grok-4.5''" "mw_sort_order (r0 f) = 100" "mw_id (r1 f) = ''grok-build''" "mw_sort_order (r1 f) = 1"
    "mw_id (r2 f) = ''grok-search''" "mw_sort_order (r2 f) = 2" for f
    by (simp add: ids_def ns_def) metis
  have "\<exists>f. cat_rows (ensure_models_catalog_seeded iso_time ''grok-4.5'' env now \<lparr>cat_rows = [], cat_meta = meta\<rparr>) =
      [r0 f, r1 f, r2 f]"
    by (simp add: ensure_models_catalog_seeded_def persist_items_def replace_all_def replacement_def Let_def
        count_models_def t_def [symmetric] items_def [symmetric] h r(1)) blast
  then show ?thesis by (auto simp: list_models_def row_to_record_id r s)
qed

end
