(* ===== verification/Ready_Index.thy ===== *)
theory Ready_Index
  imports Pool_Select
begin

text \<open>
  The Redis index of ready accounts with its in-flight leases (\<open>grok2api/store/ready_redis.py\<close>), and the
  selection that uses it when \<open>READY_INDEX_MODE\<close> is \<open>on\<close> (\<open>grok2api/pool/account_pool.py\<close>).

  Redis is a parameter: the commands the code and its Lua scripts issue, with \<open>index_laws\<close> stating what Redis
  documents of them over a view \<open>V\<close> of its sorted sets, counters and JSON values. A key is a constructor where
  the code joins names with colons. \<open>None\<close> is the \<open>ValueError\<close> of an ill-typed version; the callers catch it.
\<close>

subsection \<open>Redis\<close>

datatype rkey = Ready | Cooldown_Set | Status string | Lease string | Seq string | Marker

record 'r index_cmds =
  ic_json :: "'r \<Rightarrow> rkey \<Rightarrow> pydict option"
  ic_set_json :: "'r \<Rightarrow> rkey \<Rightarrow> pydict \<Rightarrow> 'r"
  ic_num :: "rat \<Rightarrow> 'r \<Rightarrow> rkey \<Rightarrow> int option"
  ic_set_num :: "'r \<Rightarrow> rkey \<Rightarrow> int \<Rightarrow> 'r"
  ic_incrby :: "rat \<Rightarrow> 'r \<Rightarrow> rkey \<Rightarrow> int \<Rightarrow> 'r"
  ic_expire :: "rat \<Rightarrow> 'r \<Rightarrow> rkey \<Rightarrow> int \<Rightarrow> 'r"
  ic_del :: "'r \<Rightarrow> rkey \<Rightarrow> 'r"
  ic_zscore :: "'r \<Rightarrow> rkey \<Rightarrow> string \<Rightarrow> rat option"
  ic_zadd :: "'r \<Rightarrow> rkey \<Rightarrow> string \<Rightarrow> rat \<Rightarrow> 'r"
  ic_zrem :: "'r \<Rightarrow> rkey \<Rightarrow> string \<Rightarrow> 'r"
  ic_zrange :: "'r \<Rightarrow> rkey \<Rightarrow> nat \<Rightarrow> string list"
  ic_zrandmember :: "'r \<Rightarrow> rkey \<Rightarrow> nat \<Rightarrow> string list"
  ic_zbelow :: "'r \<Rightarrow> rkey \<Rightarrow> rat \<Rightarrow> nat \<Rightarrow> string list"
  ic_zcard :: "'r \<Rightarrow> rkey \<Rightarrow> nat"

text \<open>Values by key: the sorted sets, the JSON objects, the counters with the time they expire.\<close>

record redis_view =
  rv_zset :: "rkey \<Rightarrow> string \<rightharpoonup> rat"
  rv_json :: "rkey \<rightharpoonup> pydict"
  rv_num :: "rkey \<rightharpoonup> int \<times> rat option"

fun alive :: "rat \<Rightarrow> (int \<times> rat option) option \<Rightarrow> int option" where
  "alive now None = None"
| "alive now (Some (n, None)) = Some n"
| "alive now (Some (n, Some t)) = (if now < t then Some n else None)"

definition expiry_of :: "rat \<Rightarrow> (int \<times> rat option) option \<Rightarrow> rat option" where
  "expiry_of now c = (if alive now c = None then None else (case c of Some (_, e) \<Rightarrow> e | None \<Rightarrow> None))"

definition index_laws :: "'r index_cmds \<Rightarrow> ('r \<Rightarrow> redis_view) \<Rightarrow> bool" where
  "index_laws R V \<longleftrightarrow>
     (\<forall>r k. ic_json R r k = rv_json (V r) k) \<and>
     (\<forall>r k d. V (ic_set_json R r k d) = (V r)\<lparr>rv_json := (rv_json (V r))(k \<mapsto> d)\<rparr>) \<and>
     (\<forall>t r k. ic_num R t r k = alive t (rv_num (V r) k)) \<and>
     (\<forall>r k n. V (ic_set_num R r k n) = (V r)\<lparr>rv_num := (rv_num (V r))(k \<mapsto> (n, None))\<rparr>) \<and>
     (\<forall>t r k n. V (ic_incrby R t r k n) = (V r)\<lparr>rv_num := (rv_num (V r))(k \<mapsto>
        ((case alive t (rv_num (V r) k) of Some m \<Rightarrow> m | None \<Rightarrow> 0) + n, expiry_of t (rv_num (V r) k)))\<rparr>) \<and>
     (\<forall>t r k n. V (ic_expire R t r k n) = (V r)\<lparr>rv_num := (rv_num (V r))(k :=
        map_option (\<lambda>m. (m, Some (t + of_int n))) (alive t (rv_num (V r) k)))\<rparr>) \<and>
     (\<forall>r k. V (ic_del R r k) = (V r)\<lparr>rv_zset := (rv_zset (V r))(k := Map.empty),
        rv_json := (rv_json (V r))(k := None), rv_num := (rv_num (V r))(k := None)\<rparr>) \<and>
     (\<forall>r k m. ic_zscore R r k m = rv_zset (V r) k m) \<and>
     (\<forall>r k m s. V (ic_zadd R r k m s) = (V r)\<lparr>rv_zset := (rv_zset (V r))(k := (rv_zset (V r) k)(m \<mapsto> s))\<rparr>) \<and>
     (\<forall>r k m. V (ic_zrem R r k m) = (V r)\<lparr>rv_zset := (rv_zset (V r))(k := (rv_zset (V r) k)(m := None))\<rparr>) \<and>
     (\<forall>r k n. set (ic_zrange R r k n) \<subseteq> dom (rv_zset (V r) k)) \<and>
     (\<forall>r k n. set (ic_zrandmember R r k n) \<subseteq> dom (rv_zset (V r) k)) \<and>
     (\<forall>r k s n. set (ic_zbelow R r k s n) \<subseteq> {m. \<exists>q \<le> s. rv_zset (V r) k m = Some q}) \<and>
     (\<forall>r k. finite (dom (rv_zset (V r) k)) \<longrightarrow> ic_zcard R r k = card (dom (rv_zset (V r) k)))"

text \<open>\<open>MAX_ACCOUNT_INFLIGHT\<close> and \<open>ACCOUNT_LEASE_TTL_SEC\<close>.\<close>

record index_cfg =
  ix_max_inflight :: int
  ix_lease_ttl :: int

subsection \<open>Status\<close>

definition lower_label :: "pyval \<Rightarrow> string" where
  "lower_label v = lower (str_or_empty v)"

definition status_active :: "rat \<Rightarrow> pydict \<Rightarrow> bool" where
  "status_active now meta =
     (if dget meta ''enabled'' = PBool False then False
      else if truthy (dget meta ''disabled_for_quota'') then False
      else if lower_label (py_or (dget meta ''pool_status'') (PStr ''normal''))
                \<in> {''disabled'', ''expired'', ''quota_disabled'', ''cooldown''} then False
      else if dget meta ''expires_at'' \<noteq> PNone \<and>
                (case py_float (dget meta ''expires_at'') of Some e \<Rightarrow> e \<le> now | None \<Rightarrow> False) then False
      else \<not> until_active now (dget meta ''cooldown_until''))"

definition ready_score :: "string \<Rightarrow> pydict \<Rightarrow> rat" where
  "ready_score mode meta = num meta (if mode = ''least_used'' then ''request_count'' else ''last_used_at'')"

definition index_meta :: "'r index_cmds \<Rightarrow> 'r \<Rightarrow> string \<Rightarrow> pydict" where
  "index_meta R r a = (case ic_json R r (Status a) of Some d \<Rightarrow> d | None \<Rightarrow> [])"

definition raise_state_sequence_floor :: "'r index_cmds \<Rightarrow> rat \<Rightarrow> 'r \<Rightarrow> string \<Rightarrow> int \<Rightarrow> 'r" where
  "raise_state_sequence_floor R now r a v =
     (let current = (case ic_num R now r (Seq a) of Some n \<Rightarrow> n | None \<Rightarrow> 0); incoming = max 0 v
      in (if current < incoming then ic_set_num R r (Seq a) incoming else r))"

definition until_or0 :: "pydict \<Rightarrow> rat" where
  "until_or0 meta =
     (if dget meta ''cooldown_until'' = PNone then 0
      else (case py_float (dget meta ''cooldown_until'') of Some u \<Rightarrow> u | None \<Rightarrow> 0))"

definition held :: "rat \<Rightarrow> pydict \<Rightarrow> bool" where
  "held now meta = (now < until_or0 meta \<or> lower_label (dget meta ''pool_status'') = ''cooldown'')"

definition place :: "'r index_cmds \<Rightarrow> rat \<Rightarrow> string \<Rightarrow> pydict \<Rightarrow> ('r \<Rightarrow> 'r) list" where
  "place R now a meta =
     (if held now meta then [\<lambda>r. ic_zadd R r Cooldown_Set a (max (until_or0 meta) (now + 365 * 86400))]
      else if status_active now meta then [\<lambda>r. ic_zadd R r Ready a (ready_score ''round_robin'' meta)]
      else [])"

text \<open>The commands \<open>apply_status_patch\<close> writes with, in order.\<close>

definition write_steps :: "'r index_cmds \<Rightarrow> rat \<Rightarrow> string \<Rightarrow> pydict \<Rightarrow> ('r \<Rightarrow> 'r) list" where
  "write_steps R now a meta =
     [\<lambda>r. ic_set_json R r (Status a) meta, \<lambda>r. ic_zrem R r Ready a, \<lambda>r. ic_zrem R r Cooldown_Set a] @ place R now a meta"

definition run :: "('r \<Rightarrow> 'r) list \<Rightarrow> 'r \<Rightarrow> 'r" where
  "run cs r = fold (\<lambda>c r. c r) cs r"

text \<open>What a patch reads: the version it stores and the record, \<open>None\<close> for a stale patch.\<close>

definition incoming_seq :: "int \<Rightarrow> int option \<Rightarrow> int" where
  "incoming_seq current state_seq =
     (case state_seq of None \<Rightarrow> current + 1 | Some s \<Rightarrow> if s = 0 then current + 1 else s)"

definition patched_record :: "pydict \<Rightarrow> pydict \<Rightarrow> int \<Rightarrow> pydict" where
  "patched_record meta patch seq = dset (merge_patch meta patch) ''state_version'' (PInt seq)"

definition apply_status_patch :: "'r index_cmds \<Rightarrow> rat \<Rightarrow> 'r \<Rightarrow> string \<Rightarrow> pydict \<Rightarrow> int option \<Rightarrow> 'r option" where
  "apply_status_patch R now r a patch state_seq =
     (if a = [] then Some r
      else let meta = index_meta R r a
           in (case int_or0 (dget meta ''state_version'') of
                 None \<Rightarrow> None
               | Some current \<Rightarrow>
                   (let seq = incoming_seq current state_seq;
                        r1 = raise_state_sequence_floor R now r a (max current seq)
                    in (if seq < current then Some r1
                        else Some (run (write_steps R now a (patched_record meta patch seq)) r1)))))"

definition apply_success_sequence :: "'r index_cmds \<Rightarrow> rat \<Rightarrow> 'r \<Rightarrow> string \<Rightarrow> int \<Rightarrow> 'r option" where
  "apply_success_sequence R now r a seq =
     (if a = [] \<or> seq \<le> 0 then Some r
      else let meta = index_meta R r a
           in (case int_or0 (dget meta ''state_version'') of
                 None \<Rightarrow> None
               | Some current \<Rightarrow>
                   (let r1 = raise_state_sequence_floor R now r a (max current seq)
                    in (if seq \<le> current then Some r1
                        else Some (ic_set_json R r1 (Status a)
                               (dset (dset meta ''consecutive_fails'' (PInt 0)) ''state_version'' (PInt seq)))))))"

definition sync_account :: "'r index_cmds \<Rightarrow> rat \<Rightarrow> 'r \<Rightarrow> string \<Rightarrow> pydict \<Rightarrow> 'r option" where
  "sync_account R now r a meta =
     (if a = [] then Some r
      else (case int_or0 (dget meta ''state_version'') of
              None \<Rightarrow> None
            | Some v \<Rightarrow> apply_status_patch R now r a meta (Some v)))"

definition remove :: "'r index_cmds \<Rightarrow> 'r \<Rightarrow> string \<Rightarrow> 'r" where
  "remove R r a =
     (if a = [] then r
      else ic_del R (ic_del R (ic_zrem R (ic_zrem R r Ready a) Cooldown_Set a) (Status a)) (Lease a))"

subsection \<open>Leases\<close>

definition release :: "'r index_cmds \<Rightarrow> index_cfg \<Rightarrow> rat \<Rightarrow> 'r \<Rightarrow> string \<Rightarrow> 'r" where
  "release R cfg now r a =
     (if a = [] then r
      else let r1 = ic_incrby R now r (Lease a) (-1)
           in (case ic_num R now r1 (Lease a) of
                 Some n \<Rightarrow> (if n \<le> 0 then ic_del R r1 (Lease a) else ic_expire R now r1 (Lease a) (max 1 (ix_lease_ttl cfg)))
               | None \<Rightarrow> ic_expire R now r1 (Lease a) (max 1 (ix_lease_ttl cfg))))"

definition lease_count :: "'r index_cmds \<Rightarrow> rat \<Rightarrow> 'r \<Rightarrow> string \<Rightarrow> int" where
  "lease_count R now r a = (case ic_num R now r (Lease a) of Some n \<Rightarrow> n | None \<Rightarrow> 0)"

text \<open>The part both Lua scripts share: one more lease, a fresh expiry, a later place in the set.\<close>

definition take_lease :: "'r index_cmds \<Rightarrow> index_cfg \<Rightarrow> rat \<Rightarrow> string \<Rightarrow> 'r \<Rightarrow> string \<Rightarrow> 'r" where
  "take_lease R cfg now mode r a =
     (let n = lease_count R now r a;
          r1 = ic_expire R now (ic_incrby R now r (Lease a) 1) (Lease a) (max 1 (ix_lease_ttl cfg))
      in ic_zadd R r1 Ready a
           (if mode = ''least_used'' then (case ic_zscore R r1 Ready a of Some s \<Rightarrow> s | None \<Rightarrow> 0) + 1
            else now + of_int n))"

fun claim_first :: "'r index_cmds \<Rightarrow> index_cfg \<Rightarrow> rat \<Rightarrow> string \<Rightarrow> 'r \<Rightarrow> string list \<Rightarrow> string option \<times> 'r" where
  "claim_first R cfg now mode r [] = (None, r)"
| "claim_first R cfg now mode r (a # ids) =
     (if lease_count R now r a < ix_max_inflight cfg then (Some a, take_lease R cfg now mode r a)
      else claim_first R cfg now mode r ids)"

definition claim :: "'r index_cmds \<Rightarrow> index_cfg \<Rightarrow> rat \<Rightarrow> string \<Rightarrow> 'r \<Rightarrow> string option \<times> 'r" where
  "claim R cfg now mode r =
     (let (aid, r') = claim_first R cfg now mode r (ic_zrange R r Ready 64)
      in (case aid of Some a \<Rightarrow> (if a = [] then None else Some a) | None \<Rightarrow> None, r'))"

definition claim_preferred :: "'r index_cmds \<Rightarrow> index_cfg \<Rightarrow> rat \<Rightarrow> string \<Rightarrow> 'r \<Rightarrow> string \<Rightarrow> bool \<times> 'r" where
  "claim_preferred R cfg now mode r a =
     (if a = [] then (False, r)
      else if ic_zscore R r Ready a = None then (False, r)
      else if ix_max_inflight cfg \<le> lease_count R now r a then (False, r)
      else (True, take_lease R cfg now mode r a))"

definition list_candidates :: "'r index_cmds \<Rightarrow> int \<Rightarrow> string \<Rightarrow> 'r \<Rightarrow> string list" where
  "list_candidates R limit mode r =
     (let n = nat (max 1 (min 64 (if limit = 0 then 4 else limit)))
      in (if mode = ''random'' then ic_zrandmember R r Ready n else ic_zrange R r Ready n))"

definition is_ready :: "'r index_cmds \<Rightarrow> 'r \<Rightarrow> string \<Rightarrow> bool" where
  "is_ready R r a = (a \<noteq> [] \<and> ic_zscore R r Ready a \<noteq> None)"

definition reclaim_expired_cooldowns :: "'r index_cmds \<Rightarrow> rat \<Rightarrow> 'r \<Rightarrow> nat \<times> 'r" where
  "reclaim_expired_cooldowns R now r =
     (let ids = ic_zbelow R r Cooldown_Set now 500
      in (length ids, fold (\<lambda>a r. ic_zrem R r Cooldown_Set a) ids r))"

subsection \<open>Rebuilding\<close>

text \<open>\<open>rows\<close>: the records the query builds, by account id. The label is compared as it is stored.\<close>

definition place_row :: "'r index_cmds \<Rightarrow> rat \<Rightarrow> string \<Rightarrow> pydict \<Rightarrow> 'r \<Rightarrow> 'r" where
  "place_row R now a meta r =
     (if now < until_or0 meta \<or> dget meta ''pool_status'' = PStr ''cooldown''
      then ic_zadd R r Cooldown_Set a (max (until_or0 meta) (now + 365 * 86400))
      else if status_active now meta then ic_zadd R r Ready a (ready_score ''round_robin'' meta)
      else r)"

definition rebuild_ready_index :: "'r index_cmds \<Rightarrow> rat \<Rightarrow> 'r \<Rightarrow> (string \<times> pydict) list \<Rightarrow> nat \<times> 'r" where
  "rebuild_ready_index R now r rows =
     (let r1 = ic_del R (ic_del R (ic_del R r Ready) Cooldown_Set) Marker;
          r2 = fold (\<lambda>(a, meta) r. place_row R now a meta (ic_set_json R r (Status a) meta)) rows r1;
          indexed = ic_zcard R r2 Ready + ic_zcard R r2 Cooldown_Set
      in (length rows, ic_set_json R r2 Marker
            [(''built_at'', PFloat now), (''total'', PInt (int (length rows))), (''indexed'', PInt (int indexed))]))"

text \<open>\<open>ensure_ready_index\<close> of the worker that gets the rebuild lock.\<close>

definition ensure_ready_index :: "'r index_cmds \<Rightarrow> rat \<Rightarrow> 'r \<Rightarrow> (string \<times> pydict) list \<Rightarrow> nat \<times> 'r" where
  "ensure_ready_index R now r rows =
     (let existing = ic_zcard R r Ready + ic_zcard R r Cooldown_Set
      in (case ic_json R r Marker of
            Some marker \<Rightarrow>
              (if 0 < existing \<or> int_or0 (dget marker ''indexed'') = Some 0 then (existing, r)
               else rebuild_ready_index R now r rows)
          | None \<Rightarrow> rebuild_ready_index R now r rows))"

subsection \<open>Selection over the index\<close>

text \<open>A pick mark with the index on: the lease first, then the mark of the process.\<close>

definition note_indexed_pick ::
  "'r index_cmds \<Rightarrow> index_cfg \<Rightarrow> rat \<Rightarrow> string \<Rightarrow> 'r \<times> 's world \<Rightarrow> string \<Rightarrow> bool \<times> 'r \<times> 's world" where
  "note_indexed_pick R cfg now mode rw a =
     (if a = [] then (False, rw)
      else let (ok, r) = claim_preferred R cfg now mode (fst rw) a
           in (if \<not> ok then (False, r, snd rw) else (True, r, snd (note_account_pick now (snd rw) a))))"

definition release_indexed_pick ::
  "'r index_cmds \<Rightarrow> index_cfg \<Rightarrow> rat \<Rightarrow> 'r \<times> 's world \<Rightarrow> string \<Rightarrow> 'r \<times> 's world" where
  "release_indexed_pick R cfg now rw a =
     (if a = [] then rw else (release R cfg now (fst rw) a, release_account_pick now (snd rw) a))"

definition status_refuses :: "rat \<Rightarrow> string option \<Rightarrow> string \<Rightarrow> pydict \<Rightarrow> bool" where
  "status_refuses now model a meta =
     (\<not> truthy (dget_or meta ''enabled'' (PBool True)) \<or> truthy (dget meta ''disabled_for_quota'') \<or>
      is_in_cooldown now meta \<or> (truthy (of_opt PStr model) \<and> is_model_blocked now False a model meta))"

fun indexed_loop ::
  "'r index_cmds \<Rightarrow> index_cfg \<Rightarrow> rat \<Rightarrow> string \<Rightarrow> (string \<Rightarrow> credentials option) \<Rightarrow> string option
   \<Rightarrow> string list \<Rightarrow> string set \<Rightarrow> 'r \<times> 's world \<Rightarrow> credentials option \<times> string set \<times> 'r \<times> 's world" where
  "indexed_loop R cfg now mode peek model [] exclude rw = (None, exclude, rw)"
| "indexed_loop R cfg now mode peek model (a # ids) exclude rw =
     (if a = [] \<or> a \<in> exclude then indexed_loop R cfg now mode peek model ids exclude rw
      else let exclude = insert a exclude
           in (if status_refuses now model a (index_meta R (fst rw) a)
               then indexed_loop R cfg now mode peek model ids exclude rw
               else let (ok, rw') = note_indexed_pick R cfg now mode rw a
                    in (if \<not> ok then indexed_loop R cfg now mode peek model ids exclude rw'
                        else (case peek a of
                                Some c \<Rightarrow>
                                  (if expired now c \<or> c_token c = []
                                   then let (r2, w2) = release_indexed_pick R cfg now rw' a
                                        in indexed_loop R cfg now mode peek model ids exclude (remove R r2 a, w2)
                                   else (Some c, exclude, rw'))
                              | None \<Rightarrow>
                                  (let (r2, w2) = release_indexed_pick R cfg now rw' a
                                   in indexed_loop R cfg now mode peek model ids exclude (remove R r2 a, w2))))))"

definition acquire_indexed_one ::
  "'r index_cmds \<Rightarrow> index_cfg \<Rightarrow> rat \<Rightarrow> string \<Rightarrow> (string \<Rightarrow> credentials option) \<Rightarrow> (string \<times> pydict) list \<Rightarrow> string option
   \<Rightarrow> string option \<Rightarrow> string set \<Rightarrow> 'r \<times> 's world \<Rightarrow> credentials option \<times> string set \<times> 'r \<times> 's world" where
  "acquire_indexed_one R cfg now mode peek rows model prefer exclude rw =
     (let pref = strip (text_or prefer);
          ids = (if pref \<noteq> [] \<and> is_ready R (fst rw) pref then [pref] else []) @ list_candidates R 64 mode (fst rw)
      in (if ids = [] then
            let r1 = snd (ensure_ready_index R now (fst rw) rows)
            in indexed_loop R cfg now mode peek model (list_candidates R 64 mode r1) exclude (r1, snd rw)
          else indexed_loop R cfg now mode peek model ids exclude rw))"

subsection \<open>The lazy chain\<close>

record lazy_chain =
  lc_items :: "credentials list"
  lc_limit :: nat
  lc_model :: "string option"
  lc_seen :: "string set"
  lc_exhausted :: bool

text \<open>\<open>_load_through\<close>; every round adds an item or ends the chain.\<close>

function load_through ::
  "'r index_cmds \<Rightarrow> index_cfg \<Rightarrow> rat \<Rightarrow> string \<Rightarrow> (string \<Rightarrow> credentials option) \<Rightarrow> (string \<times> pydict) list \<Rightarrow> nat
   \<Rightarrow> lazy_chain \<Rightarrow> 'r \<times> 's world \<Rightarrow> lazy_chain \<times> 'r \<times> 's world" where
  "load_through R cfg now mode peek rows index lc rw =
     (if \<not> lc_exhausted lc \<and> length (lc_items lc) \<le> index \<and> length (lc_items lc) < lc_limit lc then
        (case acquire_indexed_one R cfg now mode peek rows (lc_model lc) None (lc_seen lc) rw of
           (None, seen, rw') \<Rightarrow> (lc\<lparr>lc_exhausted := True, lc_seen := seen\<rparr>, rw')
         | (Some c, seen, rw') \<Rightarrow>
             load_through R cfg now mode peek rows index (lc\<lparr>lc_items := lc_items lc @ [c], lc_seen := seen\<rparr>) rw')
      else (lc, rw))"
  by pat_completeness auto
termination
  by (relation "measure (\<lambda>(R, cfg, now, mode, peek, rows, index, lc, rw). lc_limit lc - length (lc_items lc))") auto

declare load_through.simps [simp del]

text \<open>\<open>chain[index]\<close> for an index that is not negative: \<open>None\<close> is the \<open>IndexError\<close>.\<close>

definition chain_item ::
  "'r index_cmds \<Rightarrow> index_cfg \<Rightarrow> rat \<Rightarrow> string \<Rightarrow> (string \<Rightarrow> credentials option) \<Rightarrow> (string \<times> pydict) list \<Rightarrow> nat
   \<Rightarrow> lazy_chain \<Rightarrow> 'r \<times> 's world \<Rightarrow> credentials option \<times> lazy_chain \<times> 'r \<times> 's world" where
  "chain_item R cfg now mode peek rows index lc rw =
     (let (lc', rw') = load_through R cfg now mode peek rows index lc rw
      in (if length (lc_items lc') \<le> index then (None, lc', rw') else (Some (lc_items lc' ! index), lc', rw')))"

definition try_acquire_indexed_sequence ::
  "'r index_cmds \<Rightarrow> index_cfg \<Rightarrow> rat \<Rightarrow> string \<Rightarrow> (string \<Rightarrow> credentials option) \<Rightarrow> (string \<times> pydict) list \<Rightarrow> int option
   \<Rightarrow> string option \<Rightarrow> string option \<Rightarrow> string set \<Rightarrow> 'r \<times> 's world \<Rightarrow> lazy_chain option \<times> 'r \<times> 's world" where
  "try_acquire_indexed_sequence R cfg now mode peek rows max_attempts model prefer exclude rw =
     (let n = (case max_attempts of Some m \<Rightarrow> if m = 0 then MAX_FAILOVER_ATTEMPTS else m | None \<Rightarrow> MAX_FAILOVER_ATTEMPTS);
          limit = nat (max 1 n)
      in (case acquire_indexed_one R cfg now mode peek rows model prefer exclude rw of
            (None, seen, rw') \<Rightarrow> (None, rw')
          | (Some c, seen, rw') \<Rightarrow>
              (Some \<lparr>lc_items = [c], lc_limit = limit, lc_model = model, lc_seen = seen, lc_exhausted = False\<rparr>, rw')))"

end
