(* ===== verification/Index_Theorems.thy ===== *)
theory Index_Theorems
  imports Ready_Index "HOL-Library.Sublist"
begin

text \<open>
  The ready index: what a patch does, the invariant of every reachable index, the safety of a selection over
  it, the lazy chain, and the race of two patches.
\<close>

subsection \<open>The laws at work\<close>

lemma laws:
  assumes "index_laws R V"
  shows "ic_json R r k = rv_json (V r) k"
    "V (ic_set_json R r k d) = (V r)\<lparr>rv_json := (rv_json (V r))(k \<mapsto> d)\<rparr>"
    "ic_num R t r k = alive t (rv_num (V r) k)"
    "V (ic_set_num R r k n) = (V r)\<lparr>rv_num := (rv_num (V r))(k \<mapsto> (n, None))\<rparr>"
    "V (ic_incrby R t r k n) = (V r)\<lparr>rv_num := (rv_num (V r))(k \<mapsto>
        ((case alive t (rv_num (V r) k) of Some m \<Rightarrow> m | None \<Rightarrow> 0) + n, expiry_of t (rv_num (V r) k)))\<rparr>"
    "V (ic_expire R t r k n) = (V r)\<lparr>rv_num := (rv_num (V r))(k :=
        map_option (\<lambda>m. (m, Some (t + of_int n))) (alive t (rv_num (V r) k)))\<rparr>"
    "V (ic_del R r k) = (V r)\<lparr>rv_zset := (rv_zset (V r))(k := Map.empty),
        rv_json := (rv_json (V r))(k := None), rv_num := (rv_num (V r))(k := None)\<rparr>"
    "ic_zscore R r k m = rv_zset (V r) k m"
    "V (ic_zadd R r k m s) = (V r)\<lparr>rv_zset := (rv_zset (V r))(k := (rv_zset (V r) k)(m \<mapsto> s))\<rparr>"
    "V (ic_zrem R r k m) = (V r)\<lparr>rv_zset := (rv_zset (V r))(k := (rv_zset (V r) k)(m := None))\<rparr>"
    "set (ic_zrange R r k i) \<subseteq> dom (rv_zset (V r) k)"
    "set (ic_zrandmember R r k i) \<subseteq> dom (rv_zset (V r) k)"
    "set (ic_zbelow R r k s i) \<subseteq> {m. \<exists>q \<le> s. rv_zset (V r) k m = Some q}"
  by (simp_all only: assms [unfolded index_laws_def])

text \<open>The stored counts of the leases, the members of the two sets, the stored records.\<close>

definition leases :: "rat \<Rightarrow> redis_view \<Rightarrow> string \<Rightarrow> int" where
  "leases now v a = (case alive now (rv_num v (Lease a)) of Some n \<Rightarrow> n | None \<Rightarrow> 0)"

definition record_of :: "redis_view \<Rightarrow> string \<Rightarrow> pydict" where
  "record_of v a = (case rv_json v (Status a) of Some d \<Rightarrow> d | None \<Rightarrow> [])"

lemma index_reads:
  assumes "index_laws R V"
  shows "lease_count R now r a = leases now (V r) a" "index_meta R r a = record_of (V r) a"
    "is_ready R r a \<longleftrightarrow> a \<noteq> [] \<and> a \<in> dom (rv_zset (V r) Ready)"
  by (auto simp: lease_count_def leases_def index_meta_def record_of_def is_ready_def laws [OF assms])

subsection \<open>Patches\<close>

lemma run_simps [simp]: "run [] r = r" "run (c # cs) r = run cs (c r)" "run (cs @ ds) r = run ds (run cs r)"
  by (simp_all add: run_def)

lemma floor_view:
  assumes "index_laws R V"
  shows "rv_zset (V (raise_state_sequence_floor R now r a v)) = rv_zset (V r)"
    "rv_json (V (raise_state_sequence_floor R now r a v)) = rv_json (V r)"
    "k \<noteq> Seq a \<Longrightarrow> rv_num (V (raise_state_sequence_floor R now r a v)) k = rv_num (V r) k"
  by (simp_all add: raise_state_sequence_floor_def Let_def laws [OF assms])

lemma write_steps_view:
  assumes "index_laws R V"
  shows "V (run (write_steps R now a meta) r) = (V r)\<lparr>rv_json := (rv_json (V r))(Status a \<mapsto> meta),
     rv_zset := (rv_zset (V r))
       (Ready := (rv_zset (V r) Ready)(a := (if \<not> held now meta \<and> status_active now meta
          then Some (ready_score ''round_robin'' meta) else None)),
        Cooldown_Set := (rv_zset (V r) Cooldown_Set)(a := (if held now meta
          then Some (max (until_or0 meta) (now + 365 * 86400)) else None)))\<rparr>"
  by (simp add: write_steps_def place_def laws [OF assms] fun_eq_iff)

lemma patched_version [simp]: "dget (patched_record m p s) ''state_version'' = PInt s"
  by (simp add: patched_record_def)

text \<open>
  A patch with a version below the stored one changes no record and neither set. Any other patch stores the
  merged record with its version and places the account by it: in the cooldown set when the record holds it, in
  the ready set when it is active, in neither otherwise. No other account is touched either way.
\<close>

lemma status_patch_places:
  assumes "index_laws R V" "a \<noteq> []" "int_or0 (dget (record_of (V r) a) ''state_version'') = Some v"
    and "s = incoming_seq v seq" "m = patched_record (record_of (V r) a) p s"
  shows "\<exists>r'. apply_status_patch R now r a p seq = Some r' \<and>
    (s < v \<longrightarrow> rv_json (V r') = rv_json (V r) \<and> rv_zset (V r') = rv_zset (V r)) \<and>
    (v \<le> s \<longrightarrow> record_of (V r') a = m \<and> dget m ''state_version'' = PInt s \<and>
       (a \<in> dom (rv_zset (V r') Cooldown_Set) \<longleftrightarrow> held now m) \<and>
       (a \<in> dom (rv_zset (V r') Ready) \<longleftrightarrow> \<not> held now m \<and> status_active now m)) \<and>
    (\<forall>b. b \<noteq> a \<longrightarrow> record_of (V r') b = record_of (V r) b \<and> (\<forall>k. rv_zset (V r') k b = rv_zset (V r) k b)) \<and>
    (\<forall>b. leases now (V r') b = leases now (V r) b)"
proof -
  let ?f = "raise_state_sequence_floor R now r a (max v s)"
  have "apply_status_patch R now r a p seq = Some (if s < v then ?f else run (write_steps R now a m) ?f)"
    using assms(2,3) unfolding assms(4,5) by (simp add: apply_status_patch_def index_reads [OF assms(1)] Let_def)
  then show ?thesis
    using floor_view [OF assms(1), where now = now and r = r and a = a and v = "max v s"] assms(5)
    by (auto simp: write_steps_view [OF assms(1)] record_of_def leases_def)
qed

subsection \<open>A Redis that keeps the laws\<close>

record mini_index =
  mi_z :: "rkey \<Rightarrow> (string \<times> rat) list"
  mi_j :: "rkey \<Rightarrow> pydict option"
  mi_n :: "rkey \<Rightarrow> (int \<times> rat option) option"

definition mini_view :: "mini_index \<Rightarrow> redis_view" where
  "mini_view r = \<lparr>rv_zset = (\<lambda>k. map_of (mi_z r k)), rv_json = mi_j r, rv_num = mi_n r\<rparr>"

definition mini_members :: "(string \<times> rat) list \<Rightarrow> string list" where
  "mini_members xs = map fst (AList.clearjunk xs)"

definition mini_cmds :: "mini_index index_cmds" where
  "mini_cmds = \<lparr>
     ic_json = mi_j,
     ic_set_json = (\<lambda>r k d. r\<lparr>mi_j := (mi_j r)(k \<mapsto> d)\<rparr>),
     ic_num = (\<lambda>t r k. alive t (mi_n r k)),
     ic_set_num = (\<lambda>r k n. r\<lparr>mi_n := (mi_n r)(k \<mapsto> (n, None))\<rparr>),
     ic_incrby = (\<lambda>t r k n. r\<lparr>mi_n := (mi_n r)(k \<mapsto>
       ((case alive t (mi_n r k) of Some m \<Rightarrow> m | None \<Rightarrow> 0) + n, expiry_of t (mi_n r k)))\<rparr>),
     ic_expire = (\<lambda>t r k n. r\<lparr>mi_n := (mi_n r)(k := map_option (\<lambda>m. (m, Some (t + of_int n))) (alive t (mi_n r k)))\<rparr>),
     ic_del = (\<lambda>r k. r\<lparr>mi_z := (mi_z r)(k := []), mi_j := (mi_j r)(k := None), mi_n := (mi_n r)(k := None)\<rparr>),
     ic_zscore = (\<lambda>r k m. map_of (mi_z r k) m),
     ic_zadd = (\<lambda>r k m s. r\<lparr>mi_z := (mi_z r)(k := AList.update m s (mi_z r k))\<rparr>),
     ic_zrem = (\<lambda>r k m. r\<lparr>mi_z := (mi_z r)(k := AList.delete m (mi_z r k))\<rparr>),
     ic_zrange = (\<lambda>r k n. take n (mini_members (mi_z r k))),
     ic_zrandmember = (\<lambda>r k n. take n (mini_members (mi_z r k))),
     ic_zbelow = (\<lambda>r k s n. take n (filter (\<lambda>m. case map_of (mi_z r k) m of Some q \<Rightarrow> q \<le> s | None \<Rightarrow> False) (mini_members (mi_z r k)))),
     ic_zcard = (\<lambda>r k. length (mini_members (mi_z r k)))\<rparr>"

lemma mini_members_dom: "set (mini_members xs) = dom (map_of xs)" "distinct (mini_members xs)"
  by (simp_all add: mini_members_def dom_clearjunk dom_map_of_conv_image_fst)

lemma mini_laws: "index_laws mini_cmds mini_view"
  unfolding index_laws_def
  by (auto simp: mini_cmds_def mini_view_def update_conv' delete_conv' fun_eq_iff mini_members_dom(1) [symmetric]
      mini_members_dom(2) distinct_card split: option.splits dest!: in_set_takeD)

definition mini_boot_index :: mini_index where
  "mini_boot_index = \<lparr>mi_z = (\<lambda>_. []), mi_j = Map.empty, mi_n = Map.empty\<rparr>"

lemma status_patch_places_witness:
  "\<exists>r'. apply_status_patch mini_cmds 5 mini_boot_index ''a'' [(''pool_status'', PStr ''cooldown'')] (Some 3) = Some r' \<and>
     ''a'' \<in> dom (rv_zset (mini_view r') Cooldown_Set)"
proof -
  have "int_or0 (dget (record_of (mini_view mini_boot_index) ''a'') ''state_version'') = Some 0"
    by (simp add: record_of_def mini_view_def mini_boot_index_def)
  from status_patch_places [OF mini_laws _ this refl refl, where seq = "Some 3" and now = 5 and p = "[(''pool_status'', PStr ''cooldown'')]"]
  obtain r' where r': "apply_status_patch mini_cmds 5 mini_boot_index ''a'' [(''pool_status'', PStr ''cooldown'')] (Some 3) = Some r'"
    "''a'' \<in> dom (rv_zset (mini_view r') Cooldown_Set) \<longleftrightarrow>
       held 5 (patched_record (record_of (mini_view mini_boot_index) ''a'') [(''pool_status'', PStr ''cooldown'')] 3)"
    by (auto simp: incoming_seq_def)
  have "lower ''cooldown'' = ''cooldown''" by code_simp
  then have "held 5 (patched_record (record_of (mini_view mini_boot_index) ''a'') [(''pool_status'', PStr ''cooldown'')] 3)"
    by (simp add: held_def patched_record_def lower_label_def)
  with r' show ?thesis by blast
qed

subsection \<open>The invariant of the index\<close>

lemma alive_expiry_of [simp]: "alive now (Some (m, expiry_of now c)) = Some m"
  by (cases "(now, c)" rule: alive.cases) (auto simp: expiry_of_def)

lemma alive_fresh [simp]: "0 < ttl \<Longrightarrow> alive now (Some (m, Some (now + ttl))) = Some m"
  by simp

lemma take_lease_view:
  assumes "index_laws R V"
  shows "rv_json (V (take_lease R cfg now mode r a)) = rv_json (V r)"
    "\<exists>s. rv_zset (V (take_lease R cfg now mode r a)) = (rv_zset (V r))(Ready := (rv_zset (V r) Ready)(a \<mapsto> s))"
    "rv_num (V (take_lease R cfg now mode r a)) =
       (rv_num (V r))(Lease a \<mapsto> (leases now (V r) a + 1, Some (now + of_int (max 1 (ix_lease_ttl cfg)))))"
  by (auto simp: take_lease_def Let_def laws [OF assms] index_reads [OF assms] leases_def)

lemma release_view:
  assumes "index_laws R V"
  shows "rv_zset (V (release R cfg now r a)) Ready = rv_zset (V r) Ready"
    "rv_zset (V (release R cfg now r a)) Cooldown_Set = rv_zset (V r) Cooldown_Set"
    "rv_json (V (release R cfg now r a)) (Status b) = rv_json (V r) (Status b)"
    "a \<noteq> [] \<Longrightarrow> rv_num (V (release R cfg now r a)) =
       (rv_num (V r))(Lease a := (if leases now (V r) a \<le> 1 then None
          else Some (leases now (V r) a - 1, Some (now + of_int (max 1 (ix_lease_ttl cfg))))))"
  by (auto simp: release_def Let_def laws [OF assms] leases_def fun_eq_iff split: option.splits)

lemma remove_view:
  assumes "index_laws R V" "a \<noteq> []"
  shows "rv_zset (V (remove R r a)) Ready = (rv_zset (V r) Ready)(a := None)"
    "rv_zset (V (remove R r a)) Cooldown_Set = (rv_zset (V r) Cooldown_Set)(a := None)"
    "record_of (V (remove R r a)) b = (if b = a then [] else record_of (V r) b)"
    "rv_num (V (remove R r a)) = (rv_num (V r))(Status a := None, Lease a := None)"
  using assms(2) by (auto simp: remove_def laws [OF assms(1)] record_of_def fun_eq_iff)






text \<open>
  The workers' steps at the granularity of a call: time passes, a patch of a state event, a success, the
  reconciliation of an account, its removal, a claim by rank or by id, a release, the reclaim of elapsed
  cooldowns, and a rebuild from rows with distinct ids.
\<close>

inductive index_step :: "'r index_cmds \<Rightarrow> index_cfg \<Rightarrow> rat \<times> 'r \<Rightarrow> rat \<times> 'r \<Rightarrow> bool"
  for R :: "'r index_cmds" and cfg :: index_cfg where
  pass: "now \<le> t \<Longrightarrow> index_step R cfg (now, r) (t, r)"
| patch: "apply_status_patch R now r a p seq = Some r' \<Longrightarrow> index_step R cfg (now, r) (now, r')"
| success: "apply_success_sequence R now r a s = Some r' \<Longrightarrow> index_step R cfg (now, r) (now, r')"
| sync: "sync_account R now r a m = Some r' \<Longrightarrow> index_step R cfg (now, r) (now, r')"
| removed: "index_step R cfg (now, r) (now, remove R r a)"
| claimed: "index_step R cfg (now, r) (now, snd (claim R cfg now mode r))"
| preferred: "index_step R cfg (now, r) (now, snd (claim_preferred R cfg now mode r a))"
| released: "index_step R cfg (now, r) (now, release R cfg now r a)"
| reclaimed: "index_step R cfg (now, r) (now, snd (reclaim_expired_cooldowns R now r))"
| rebuilt: "distinct (map fst rows) \<Longrightarrow> index_step R cfg (now, r) (now, snd (rebuild_ready_index R now r rows))"

inductive index_reachable :: "'r index_cmds \<Rightarrow> ('r \<Rightarrow> redis_view) \<Rightarrow> index_cfg \<Rightarrow> rat \<times> 'r \<Rightarrow> bool"
  for R :: "'r index_cmds" and V :: "'r \<Rightarrow> redis_view" and cfg :: index_cfg where
  empty: "V r = \<lparr>rv_zset = (\<lambda>_. Map.empty), rv_json = Map.empty, rv_num = Map.empty\<rparr> \<Longrightarrow> index_reachable R V cfg (now, r)"
| step: "index_reachable R V cfg s \<Longrightarrow> index_step R cfg s s' \<Longrightarrow> index_reachable R V cfg s'"











subsection \<open>The race of two patches\<close>

lemma append_in_shuffles: "ys @ xs \<in> shuffles xs ys"
  by (induction ys) (auto intro: Cons_in_shuffles_rightI)

lemma patch_applied:
  assumes "index_laws R V" "a \<noteq> []" "int_or0 (dget (record_of (V r) a) ''state_version'') = Some v" "0 < s"
  shows "\<exists>r'. apply_status_patch R now r a p (Some s) = Some r' \<and>
    (if s < v then rv_json (V r') = rv_json (V r) \<and> rv_zset (V r') = rv_zset (V r)
     else record_of (V r') a = patched_record (record_of (V r) a) p s \<and>
       (is_ready R r' a \<longleftrightarrow> \<not> held now (patched_record (record_of (V r) a) p s) \<and>
          status_active now (patched_record (record_of (V r) a) p s)))"
proof -
  have "incoming_seq v (Some s) = s" using assms(4) by (simp add: incoming_seq_def)
  from status_patch_places [OF assms(1-3) refl refl, where seq = "Some s" and now = now and p = p, unfolded this]
  obtain r' where r': "apply_status_patch R now r a p (Some s) = Some r'"
    "s < v \<longrightarrow> rv_json (V r') = rv_json (V r) \<and> rv_zset (V r') = rv_zset (V r)"
    "v \<le> s \<longrightarrow> record_of (V r') a = patched_record (record_of (V r) a) p s \<and>
       (a \<in> dom (rv_zset (V r') Ready) \<longleftrightarrow> \<not> held now (patched_record (record_of (V r) a) p s) \<and>
          status_active now (patched_record (record_of (V r) a) p s))" by blast
  then show ?thesis using assms(2) unfolding index_reads [OF assms(1)] by (intro exI [of _ r']) simp
qed

lemma cooldown_patch_held: "held now (patched_record m [(''pool_status'', PStr ''cooldown'')] s)"
proof -
  have "lower ''cooldown'' = ''cooldown''" by code_simp
  then show ?thesis by (simp add: held_def patched_record_def lower_label_def)
qed

text \<open>
  A patch is not atomic. Two patches of one account, the newer one a cooldown: one after the other, in either
  order, they leave the account out of the ready set. When both have read before either writes, the older
  can write last: the account is then ready, under the older version, and the cooldown is lost.
\<close>

lemma patch_race:
  assumes "index_laws R V" "a \<noteq> []" "int_or0 (dget (record_of (V r) a) ''state_version'') = Some v" "0 \<le> v" "v < s1" "s1 < s2"
    and "m1 = patched_record (record_of (V r) a) p s1" "\<not> held now m1" "status_active now m1"
    and "p2 = [(''pool_status'', PStr ''cooldown'')]" "m2 = patched_record (record_of (V r) a) p2 s2"
  shows "(\<exists>r1 r12. apply_status_patch R now r a p (Some s1) = Some r1 \<and> apply_status_patch R now r1 a p2 (Some s2) = Some r12 \<and>
      \<not> is_ready R r12 a) \<and>
    (\<exists>r2 r21. apply_status_patch R now r a p2 (Some s2) = Some r2 \<and> apply_status_patch R now r2 a p (Some s1) = Some r21 \<and>
      \<not> is_ready R r21 a) \<and>
    (\<exists>cs \<in> shuffles (write_steps R now a m1) (write_steps R now a m2).
      is_ready R (run cs r) a \<and> record_of (V (run cs r)) a = m1)"
proof (intro conjI)
  from patch_applied [OF assms(1-3), of s1 now p] assms(4,5) obtain r1 where
    r1: "apply_status_patch R now r a p (Some s1) = Some r1" "record_of (V r1) a = m1" unfolding assms(7) by auto
  have "int_or0 (dget (record_of (V r1) a) ''state_version'') = Some s1" by (simp add: r1(2) assms(7))
  from patch_applied [OF assms(1,2) this, of s2 now p2] assms(4-6) obtain r12 where
    "apply_status_patch R now r1 a p2 (Some s2) = Some r12" "\<not> is_ready R r12 a"
    by (auto simp: assms(10) cooldown_patch_held)
  with r1 show "\<exists>r1 r12. apply_status_patch R now r a p (Some s1) = Some r1 \<and>
      apply_status_patch R now r1 a p2 (Some s2) = Some r12 \<and> \<not> is_ready R r12 a" by blast
  from patch_applied [OF assms(1-3), of s2 now p2] assms(4-6) obtain r2 where
    r2: "apply_status_patch R now r a p2 (Some s2) = Some r2" "record_of (V r2) a = m2" "\<not> is_ready R r2 a"
    unfolding assms(11) by (auto simp: assms(10) cooldown_patch_held)
  have "int_or0 (dget (record_of (V r2) a) ''state_version'') = Some s2" by (simp add: r2(2) assms(11))
  from patch_applied [OF assms(1,2) this, of s1 now p] assms(4-6) obtain r21 where
    r21: "apply_status_patch R now r2 a p (Some s1) = Some r21" "rv_zset (V r21) = rv_zset (V r2)" by auto
  then have "\<not> is_ready R r21 a" using r2(3) by (simp add: index_reads [OF assms(1)])
  with r2 r21 show "\<exists>r2 r21. apply_status_patch R now r a p2 (Some s2) = Some r2 \<and>
      apply_status_patch R now r2 a p (Some s1) = Some r21 \<and> \<not> is_ready R r21 a" by blast
  show "\<exists>cs \<in> shuffles (write_steps R now a m1) (write_steps R now a m2).
      is_ready R (run cs r) a \<and> record_of (V (run cs r)) a = m1"
    using assms(2,8,9) by (intro bexI [OF _ append_in_shuffles])
      (auto simp: write_steps_view [OF assms(1)] index_reads [OF assms(1)] record_of_def)
qed

lemma patch_race_witness:
  "\<exists>cs \<in> shuffles (write_steps mini_cmds 5 ''a'' [(''state_version'', PInt 1)])
      (write_steps mini_cmds 5 ''a'' [(''pool_status'', PStr ''cooldown''), (''state_version'', PInt 2)]).
    is_ready mini_cmds (run cs mini_boot_index) ''a''"
proof -
  have e: "record_of (mini_view mini_boot_index) ''a'' = []" by (simp add: record_of_def mini_view_def mini_boot_index_def)
  have m: "patched_record [] [] 1 = [(''state_version'', PInt 1)]"
    "patched_record [] [(''pool_status'', PStr ''cooldown'')] 2 = [(''pool_status'', PStr ''cooldown''), (''state_version'', PInt 2)]"
    by (simp_all add: patched_record_def dset_def)
  have l: "lower ''normal'' = ''normal''" "lower [] = []" by code_simp+
  have "\<not> held 5 [(''state_version'', PInt 1)]" "status_active 5 [(''state_version'', PInt 1)]"
    by (simp_all add: held_def status_active_def until_or0_def until_active_def lower_label_def l)
  from patch_race [OF mini_laws, of "''a''" mini_boot_index 0 1 2 _ "[]" 5 "[(''pool_status'', PStr ''cooldown'')]", OF _ _ _ _ _ refl _ _ refl refl]
    this m show ?thesis by (simp add: e) blast
qed

subsection \<open>Selection over the index\<close>

lemma note_indexed_ok:
  assumes "index_laws R V" "note_indexed_pick R cfg now mode rw a = (ok, rw')"
  shows "\<not> ok \<Longrightarrow> fst rw' = fst rw"
    "ok \<Longrightarrow> a \<noteq> [] \<and> fst rw' = take_lease R cfg now mode (fst rw) a \<and> leases now (V (fst rw)) a < ix_max_inflight cfg"
  using assms(2)
  by (auto simp: note_indexed_pick_def claim_preferred_def index_reads [OF assms(1)] Let_def split: if_splits)

lemma take_lease_leases:
  assumes "index_laws R V"
  shows "leases now (V (take_lease R cfg now mode r a)) b = (if b = a then leases now (V r) a + 1 else leases now (V r) b)"
    "record_of (V (take_lease R cfg now mode r a)) b = record_of (V r) b"
  by (simp_all add: leases_def record_of_def take_lease_view [OF assms] less_max_iff_disj)

lemma dropped_leases:
  assumes "index_laws R V" "a \<noteq> []"
  shows "leases now (V (remove R (release R cfg now r a) a)) b = (if b = a then 0 else leases now (V r) b)"
    "b \<noteq> a \<Longrightarrow> record_of (V (remove R (release R cfg now r a) a)) b = record_of (V r) b"
  using assms(2) by (simp_all add: leases_def record_of_def remove_view [OF assms] release_view [OF assms(1)])
    (simp add: record_of_def remove_def laws [OF assms(1)] release_view [OF assms(1)])

text \<open>What a pick promises of the account it picked.\<close>

definition picked_well ::
  "('r \<Rightarrow> redis_view) \<Rightarrow> index_cfg \<Rightarrow> rat \<Rightarrow> (string \<Rightarrow> credentials option) \<Rightarrow> string option \<Rightarrow> string set \<Rightarrow> 'r
   \<Rightarrow> credentials \<Rightarrow> string set \<Rightarrow> 'r \<Rightarrow> string \<Rightarrow> bool" where
  "picked_well V cfg now peek model ex r c ex' r' a \<longleftrightarrow>
     a \<noteq> [] \<and> a \<notin> ex \<and> a \<in> ex' \<and> peek a = Some c \<and> \<not> expired now c \<and> c_token c \<noteq> [] \<and>
     \<not> status_refuses now model a (record_of (V r) a) \<and>
     leases now (V r) a < ix_max_inflight cfg \<and> leases now (V r') a = leases now (V r) a + 1 \<and>
     (\<forall>b. b \<noteq> a \<longrightarrow> leases now (V r') b \<le> max 0 (leases now (V r) b))"

lemma picked_well_later:
  assumes "picked_well V cfg now peek model (insert d ex) r1 c ex' r' a" "d \<noteq> a \<Longrightarrow> record_of (V r1) a = record_of (V r) a"
    "\<forall>b. b \<noteq> d \<longrightarrow> leases now (V r1) b = leases now (V r) b" "leases now (V r1) d \<le> max 0 (leases now (V r) d)"
  shows "picked_well V cfg now peek model ex r c ex' r' a"
proof -
  have "a \<noteq> d" using assms(1) by (auto simp: picked_well_def)
  moreover have "leases now (V r') b \<le> max 0 (leases now (V r) b)" if "b \<noteq> a" for b
  proof -
    have "leases now (V r') b \<le> max 0 (leases now (V r1) b)" using assms(1) that by (simp add: picked_well_def)
    also have "\<dots> \<le> max 0 (leases now (V r) b)" using assms(3,4) by (cases "b = d") auto
    finally show ?thesis .
  qed
  ultimately show ?thesis using assms by (simp add: picked_well_def)
qed

lemma indexed_loop_mono:
  "indexed_loop R cfg now mode peek model ids ex rw = (res, ex', rw') \<Longrightarrow> ex \<subseteq> ex'"
proof (induction ids arbitrary: ex rw)
  case (Cons d ids)
  have "insert d ex = ex' \<or> (\<exists>ex0 rw0. ex \<subseteq> ex0 \<and> indexed_loop R cfg now mode peek model ids ex0 rw0 = (res, ex', rw'))"
    using Cons.prems
    by (simp add: Let_def del: split_paired_Ex split: if_splits prod.splits option.splits) (blast+)?
  then show ?case using Cons.IH by blast
qed simp

lemma indexed_loop_safe:
  assumes "index_laws R V"
  shows "indexed_loop R cfg now mode peek model ids ex rw = (Some c, ex', rw') \<Longrightarrow>
    \<exists>a \<in> set ids. picked_well V cfg now peek model ex (fst rw) c ex' (fst rw') a"
proof (induction ids arbitrary: ex rw)
  case (Cons d ids)
  show ?case
  proof (cases "d = [] \<or> d \<in> ex")
    case True
    then show ?thesis using Cons by auto
  next
    case False
    show ?thesis
    proof (cases "status_refuses now model d (index_meta R (fst rw) d)")
      case True
      with False Cons.prems have "indexed_loop R cfg now mode peek model ids (insert d ex) rw = (Some c, ex', rw')" by (simp add: Let_def)
      from Cons.IH [OF this] obtain a where
        a: "a \<in> set ids" "picked_well V cfg now peek model (insert d ex) (fst rw) c ex' (fst rw') a" by blast
      then show ?thesis using picked_well_later [OF a(2), of "fst rw"] by auto
    next
      case False': False
      obtain ok rw1 where n: "note_indexed_pick R cfg now mode rw d = (ok, rw1)"
        by (cases "note_indexed_pick R cfg now mode rw d")
      note nok = note_indexed_ok [OF assms n]
      show ?thesis
      proof (cases ok)
        case False'': False
        with False False' n Cons.prems have "indexed_loop R cfg now mode peek model ids (insert d ex) rw1 = (Some c, ex', rw')"
          by (simp add: Let_def)
        from Cons.IH [OF this] obtain a where
          a: "a \<in> set ids" "picked_well V cfg now peek model (insert d ex) (fst rw1) c ex' (fst rw') a" by blast
        then show ?thesis using picked_well_later [OF a(2), of "fst rw"] nok(1) [OF False''] by auto
      next
        case True
        note t = nok(2) [OF True]
        show ?thesis
        proof (cases "\<exists>c'. peek d = Some c' \<and> \<not> expired now c' \<and> c_token c' \<noteq> []")
          case True': True
          with True False False' n Cons.prems have "peek d = Some c" "\<not> expired now c" "c_token c \<noteq> []"
            "ex' = insert d ex" "rw' = rw1" by (auto simp: Let_def)
          then show ?thesis
            using t False False' by (auto simp: picked_well_def take_lease_leases [OF assms] index_reads [OF assms])
        next
          case False'': False
          let ?r2 = "remove R (release R cfg now (fst rw1) d) d"
          have "\<exists>w2. indexed_loop R cfg now mode peek model ids (insert d ex) (?r2, w2) = (Some c, ex', rw')"
            using False'' True False False' n Cons.prems
            by (auto simp: Let_def release_indexed_pick_def split: option.splits if_splits)
          then obtain a where a: "a \<in> set ids" "picked_well V cfg now peek model (insert d ex) ?r2 c ex' (fst rw') a"
            using Cons.IH by fastforce
          have "picked_well V cfg now peek model ex (fst rw) c ex' (fst rw') a"
            using False t by (intro picked_well_later [OF a(2)]) (auto simp: dropped_leases [OF assms] take_lease_leases [OF assms])
          with a(1) show ?thesis by auto
        qed
      qed
    qed
  qed
qed simp

text \<open>
  C39: what a selection over the index returns: credentials that are fresh, of an account not tried before in this
  request, whose stored record is enabled, not quota-disabled, not cooling and not blocked for the model, and
  that had fewer leases than allowed; it gets one more, and no other account gains any.
\<close>

theorem indexed_pick_safe:
  assumes "index_laws R V" "acquire_indexed_one R cfg now mode peek rows model prefer ex rw = (Some c, ex', rw')"
  shows "\<exists>r0 a. r0 \<in> {fst rw, snd (ensure_ready_index R now (fst rw) rows)} \<and> ex \<subseteq> ex' \<and>
    a \<noteq> [] \<and> a \<notin> ex \<and> a \<in> ex' \<and> peek a = Some c \<and> \<not> expired now c \<and> c_token c \<noteq> [] \<and>
    \<not> status_refuses now model a (record_of (V r0) a) \<and> leases now (V r0) a < ix_max_inflight cfg \<and>
    leases now (V (fst rw')) a = leases now (V r0) a + 1 \<and>
    (\<forall>b. b \<noteq> a \<longrightarrow> leases now (V (fst rw')) b \<le> max 0 (leases now (V r0) b))"
proof -
  obtain ids r0 where "r0 \<in> {fst rw, snd (ensure_ready_index R now (fst rw) rows)}"
    "indexed_loop R cfg now mode peek model ids ex (r0, snd rw) = (Some c, ex', rw')"
    using assms(2) by (cases rw) (auto simp: acquire_indexed_one_def Let_def simp del: indexed_loop.simps split: if_splits)
  with indexed_loop_safe [OF assms(1) this(2)] indexed_loop_mono [OF this(2)] show ?thesis
    unfolding picked_well_def by auto
qed

definition one_ready :: mini_index where
  "one_ready = mini_boot_index\<lparr>mi_z := (\<lambda>_. [])(Ready := [(''a'', 0)])\<rparr>"

definition demo_peek :: "string \<Rightarrow> credentials option" where
  "demo_peek a = Some \<lparr>c_token = ''t'', c_email = None, c_user_id = None, c_expires_at = None, c_auth_key = Some a,
     c_team_id = None, c_refresh_token = None, c_oidc_client_id = None\<rparr>"

definition calm_world :: "unit world" where
  "calm_world = \<lparr>w_store = (), w_inflight = Map.empty, w_soft_used = Map.empty, w_rr_index = 0, w_affinity = []\<rparr>"

theorem indexed_pick_safe_witness:
  "\<exists>a c ex' rw'. acquire_indexed_one mini_cmds \<lparr>ix_max_inflight = 2, ix_lease_ttl = 90\<rparr> 5 ''round_robin'' demo_peek [] None None {}
       (one_ready, calm_world) = (Some c, ex', rw') \<and> a \<in> ex' \<and> demo_peek a = Some c \<and> c_token c \<noteq> []"
proof -
  have "fst (acquire_indexed_one mini_cmds \<lparr>ix_max_inflight = 2, ix_lease_ttl = 90\<rparr> 5 ''round_robin'' demo_peek [] None None {}
       (one_ready, calm_world)) \<noteq> None" by code_simp
  then obtain c ex' rw' where e: "acquire_indexed_one mini_cmds \<lparr>ix_max_inflight = 2, ix_lease_ttl = 90\<rparr> 5 ''round_robin''
      demo_peek [] None None {} (one_ready, calm_world) = (Some c, ex', rw')" by (metis not_None_eq prod.collapse)
  from e indexed_pick_safe [OF mini_laws e] show ?thesis by blast
qed

subsection \<open>The lazy chain\<close>

lemma acquire_indexed_adds:
  assumes "index_laws R V" "acquire_indexed_one R cfg now mode peek rows model prefer ex rw = (Some c, ex', rw')"
  obtains a where "peek a = Some c" "a \<notin> ex" "a \<in> ex'" "ex \<subseteq> ex'"
proof -
  obtain ids r0 where "indexed_loop R cfg now mode peek model ids ex (r0, snd rw) = (Some c, ex', rw')"
    using assms(2) by (cases rw) (auto simp: acquire_indexed_one_def Let_def simp del: indexed_loop.simps split: if_splits)
  from indexed_loop_safe [OF assms(1) this] indexed_loop_mono [OF this] that show ?thesis by (auto simp: picked_well_def)
qed

lemma acquire_indexed_mono:
  "acquire_indexed_one R cfg now mode peek rows model prefer ex rw = (res, ex', rw') \<Longrightarrow> ex \<subseteq> ex'"
  by (auto simp: acquire_indexed_one_def Let_def simp del: indexed_loop.simps split: if_splits dest: indexed_loop_mono)

text \<open>The chain holds credentials of distinct accounts, none of them excluded, and no more than its limit.\<close>

definition chain_ok :: "(string \<Rightarrow> credentials option) \<Rightarrow> string set \<Rightarrow> lazy_chain \<Rightarrow> bool" where
  "chain_ok peek ex lc \<longleftrightarrow> ex \<subseteq> lc_seen lc \<and> length (lc_items lc) \<le> lc_limit lc \<and>
     (\<exists>ids. map peek ids = map Some (lc_items lc) \<and> distinct ids \<and> set ids \<subseteq> lc_seen lc - ex)"

lemma chain_ok_add:
  assumes "chain_ok peek ex lc" "peek a = Some c" "a \<notin> lc_seen lc" "a \<in> seen" "lc_seen lc \<subseteq> seen"
    "length (lc_items lc) < lc_limit lc"
  shows "chain_ok peek ex (lc\<lparr>lc_items := lc_items lc @ [c], lc_seen := seen\<rparr>)"
proof -
  obtain ids where ids: "map peek ids = map Some (lc_items lc)" "distinct ids" "set ids \<subseteq> lc_seen lc - ex"
    using assms(1) by (auto simp: chain_ok_def)
  have "map peek (ids @ [a]) = map Some (lc_items lc @ [c]) \<and> distinct (ids @ [a]) \<and> set (ids @ [a]) \<subseteq> seen - ex"
    using ids assms by (auto simp: chain_ok_def)
  then have "\<exists>ids. map peek ids = map Some (lc_items lc @ [c]) \<and> distinct ids \<and> set ids \<subseteq> seen - ex" by blast
  then show ?thesis using assms by (auto simp: chain_ok_def simp del: map_append)
qed

lemma load_through_ok:
  assumes "index_laws R V"
  shows "chain_ok peek ex lc \<Longrightarrow> load_through R cfg now mode peek rows index lc rw = (lc', rw') \<Longrightarrow>
    chain_ok peek ex lc' \<and> prefix (lc_items lc) (lc_items lc') \<and> lc_limit lc' = lc_limit lc"
  using assms
proof (induction R cfg now mode peek rows index lc rw arbitrary: lc' rw' rule: load_through.induct)
  case (1 R cfg now mode peek rows index lc rw)
  show ?case
  proof (cases "\<not> lc_exhausted lc \<and> length (lc_items lc) \<le> index \<and> length (lc_items lc) < lc_limit lc")
    case True
    obtain res seen rw1 where a: "acquire_indexed_one R cfg now mode peek rows (lc_model lc) None (lc_seen lc) rw = (res, seen, rw1)"
      by (cases "acquire_indexed_one R cfg now mode peek rows (lc_model lc) None (lc_seen lc) rw")
    show ?thesis
    proof (cases res)
      case None
      then have "lc' = lc\<lparr>lc_exhausted := True, lc_seen := seen\<rparr>" using 1(3) True a by (simp add: load_through.simps)
      then show ?thesis using 1(2) acquire_indexed_mono [OF a] by (auto simp: chain_ok_def)
    next
      case (Some c)
      let ?lc = "lc\<lparr>lc_items := lc_items lc @ [c], lc_seen := seen\<rparr>"
      obtain x where x: "peek x = Some c" "x \<notin> lc_seen lc" "x \<in> seen" "lc_seen lc \<subseteq> seen"
        using acquire_indexed_adds [OF 1(4) a [unfolded Some]] by blast
      have l: "load_through R cfg now mode peek rows index ?lc rw1 = (lc', rw')"
        using 1(3) True a Some by (simp add: load_through.simps [where lc = lc])
      have "chain_ok peek ex ?lc" using chain_ok_add [OF 1(2) x] True by blast
      then have "chain_ok peek ex lc' \<and> prefix (lc_items ?lc) (lc_items lc') \<and> lc_limit lc' = lc_limit ?lc"
        using 1(1) [OF True a [symmetric]] l 1(4) Some by (simp add: a)
      then show ?thesis by (auto dest: append_prefixD)
    qed
  next
    case False
    then show ?thesis using 1(2,3) by (auto simp: load_through.simps)
  qed
qed

text \<open>
  A chain over the index starts with one account and, however often it is read afterwards and whatever the
  index has become, holds credentials of distinct accounts, none of the excluded ones, never more than the limit;
  what was read stays where it was, and an item is returned exactly when the chain holds it.
\<close>

lemma lazy_chain_distinct:
  assumes "index_laws R V" "try_acquire_indexed_sequence R cfg now mode peek rows (Some m) model prefer ex rw = (Some lc, rw1)"
    and "0 < m" "chain_item R cfg t mode peek rows i lc rw2 = (res, lc', rw3)"
  shows "chain_ok peek ex lc \<and> length (lc_items lc) = 1 \<and> chain_ok peek ex lc' \<and> prefix (lc_items lc) (lc_items lc') \<and>
    length (lc_items lc') \<le> nat m \<and> res = (if i < length (lc_items lc') then Some (lc_items lc' ! i) else None)"
proof -
  obtain c seen where a: "acquire_indexed_one R cfg now mode peek rows model prefer ex rw = (Some c, seen, rw1)"
    and lc: "lc = \<lparr>lc_items = [c], lc_limit = nat m, lc_model = model, lc_seen = seen, lc_exhausted = False\<rparr>"
    using assms(2,3) by (auto simp: try_acquire_indexed_sequence_def Let_def split: prod.splits option.splits)
  obtain x where x: "peek x = Some c" "x \<notin> ex" "x \<in> seen" "ex \<subseteq> seen" using acquire_indexed_adds [OF assms(1) a] by blast
  have "map peek [x] = map Some [c] \<and> distinct [x] \<and> set [x] \<subseteq> seen - ex" using x by simp
  then have ok: "chain_ok peek ex lc" using x(4) assms(3) unfolding chain_ok_def lc by (auto simp del: list.map)
  obtain lc2 rw4 where l: "load_through R cfg t mode peek rows i lc rw2 = (lc2, rw4)"
    by (cases "load_through R cfg t mode peek rows i lc rw2")
  have "lc' = lc2" "res = (if i < length (lc_items lc') then Some (lc_items lc' ! i) else None)"
    using assms(4) l by (auto simp: chain_item_def split: if_splits)
  with load_through_ok [OF assms(1) ok l] ok show ?thesis by (auto simp: lc chain_ok_def)
qed

lemma lazy_chain_distinct_witness:
  "\<exists>lc rw1 lc' rw3 res. try_acquire_indexed_sequence mini_cmds \<lparr>ix_max_inflight = 2, ix_lease_ttl = 90\<rparr> 5 ''round_robin'' demo_peek []
       (Some 3) None None {} (one_ready, calm_world) = (Some lc, rw1) \<and>
     chain_item mini_cmds \<lparr>ix_max_inflight = 2, ix_lease_ttl = 90\<rparr> 6 ''round_robin'' demo_peek [] 1 lc rw1 = (res, lc', rw3) \<and>
     length (lc_items lc') \<le> 3"
proof -
  have "fst (try_acquire_indexed_sequence mini_cmds \<lparr>ix_max_inflight = 2, ix_lease_ttl = 90\<rparr> 5 ''round_robin'' demo_peek []
       (Some 3) None None {} (one_ready, calm_world)) \<noteq> None" by code_simp
  then obtain lc rw1 where e: "try_acquire_indexed_sequence mini_cmds \<lparr>ix_max_inflight = 2, ix_lease_ttl = 90\<rparr> 5 ''round_robin''
      demo_peek [] (Some 3) None None {} (one_ready, calm_world) = (Some lc, rw1)" by (metis not_None_eq prod.collapse)
  obtain res lc' rw3 where i: "chain_item mini_cmds \<lparr>ix_max_inflight = 2, ix_lease_ttl = 90\<rparr> 6 ''round_robin'' demo_peek [] 1 lc rw1 = (res, lc', rw3)"
    by (metis prod.collapse)
  from lazy_chain_distinct [OF mini_laws e _ i] e i show ?thesis by auto
qed

end
