(* ===== verification/Json_Text.thy ===== *)
theory Json_Text
  imports Py_Values
begin

text \<open>
  The JSON text functions of the standard library as the code uses them: \<open>json.loads\<close>, the \<open>raw_decode\<close> of its
  decoder, and \<open>json.dumps\<close> with \<open>ensure_ascii=False\<close>; with \<open>==\<close> and \<open>str\<close> on the values they carry.

  The parser works on the rest of the text and returns what it leaves. Its fuel is the length of the text, and
  every call below consumes a character, so it never runs out. Outside the model are the constants for infinities
  and NaN and the escapes above \<open>\\u00ff\<close>, which are refused, and the exponents of a printed float, which is
  written positionally.
\<close>

subsection \<open>Equality and text of values\<close>

fun num_of :: "pyval \<Rightarrow> rat option" where
  "num_of (PBool b) = Some (if b then 1 else 0)"
| "num_of (PInt i) = Some (of_int i)"
| "num_of (PFloat q) = Some q"
| "num_of v = None"

text \<open>\<open>a == b\<close>: numbers by value, dictionaries whatever the order of their keys.\<close>

function py_eq :: "pyval \<Rightarrow> pyval \<Rightarrow> bool" where
  "py_eq (PDict d) w = (case w of
     PDict e \<Rightarrow> length d = length e \<and> list_all (\<lambda>x. case map_of e (fst x) of Some u \<Rightarrow> py_eq (snd x) u | None \<Rightarrow> False) d
   | _ \<Rightarrow> False)"
| "py_eq (PList xs) w = (case w of
     PList ys \<Rightarrow> length xs = length ys \<and> list_all (\<lambda>p. py_eq (fst p) (snd p)) (zip xs ys)
   | _ \<Rightarrow> False)"
| "py_eq PNone w = (w = PNone)"
| "py_eq (PStr s) w = (w = PStr s)"
| "py_eq (PBool b) w = (num_of w = Some (if b then 1 else 0))"
| "py_eq (PInt i) w = (num_of w = Some (of_int i))"
| "py_eq (PFloat q) w = (num_of w = Some q)"
  by pat_completeness auto
termination
proof (relation "measure (\<lambda>p. size (fst p))", goal_cases)
  case (3 xs w ys p)
  then have "fst p \<in> set xs" by (metis prod.collapse set_zip_leftD)
  then show ?case by (simp add: size_list_estimation' le_imp_less_Suc)
qed (auto simp: size_list_estimation' le_imp_less_Suc)

text \<open>\<open>v in (None, "", [], {})\<close>.\<close>

definition value_empty :: "pyval \<Rightarrow> bool" where
  "value_empty v \<longleftrightarrow> v \<in> {PNone, PStr [], PList [], PDict []}"

subsection \<open>Reading\<close>

definition json_ws :: "char \<Rightarrow> bool" where
  "json_ws c \<longleftrightarrow> c \<in> {CHR '' '', CHR 0x09, CHR 0x0A, CHR 0x0D}"

definition skip_ws :: "string \<Rightarrow> string" where
  "skip_ws s = dropWhile json_ws s"

definition is_digit :: "char \<Rightarrow> bool" where
  "is_digit c \<longleftrightarrow> digit_val c \<noteq> None"

definition hex_val :: "char \<Rightarrow> nat option" where
  "hex_val c = (let n = (of_char c :: nat) in
     if 48 \<le> n \<and> n \<le> 57 then Some (n - 48) else if 97 \<le> n \<and> n \<le> 102 then Some (n - 87)
     else if 65 \<le> n \<and> n \<le> 70 then Some (n - 55) else None)"

text \<open>The four digits of an escape, for a character of the model.\<close>

fun hex4 :: "string \<Rightarrow> (char \<times> string) option" where
  "hex4 (a # b # c # d # s) = (case (hex_val a, hex_val b, hex_val c, hex_val d) of
     (Some 0, Some 0, Some x, Some y) \<Rightarrow> Some (char_of (16 * x + y), s)
   | _ \<Rightarrow> None)"
| "hex4 s = None"

definition unescape :: "char \<Rightarrow> char option" where
  "unescape c = map_of [(CHR 0x22, CHR 0x22), (CHR 0x5C, CHR 0x5C), (CHR ''/'', CHR ''/''), (CHR ''b'', CHR 0x08),
     (CHR ''f'', CHR 0x0C), (CHR ''n'', CHR 0x0A), (CHR ''r'', CHR 0x0D), (CHR ''t'', CHR 0x09)] c"

text \<open>A string after its opening quote.\<close>

fun json_chars :: "nat \<Rightarrow> string \<Rightarrow> (string \<times> string) option" where
  "json_chars (Suc n) (c # s) =
     (if c = CHR 0x22 then Some ([], s)
      else if c = CHR 0x5C then
        (case s of
           [] \<Rightarrow> None
         | e # t \<Rightarrow>
             (case (if e = CHR ''u'' then hex4 t else map_option (\<lambda>x. (x, t)) (unescape e)) of
                None \<Rightarrow> None
              | Some (x, u) \<Rightarrow> map_option (\<lambda>(cs, r). (x # cs, r)) (json_chars n u)))
      else if (of_char c :: nat) < 32 then None
      else map_option (\<lambda>(cs, r). (c # cs, r)) (json_chars n s))"
| "json_chars n s = None"

definition fraction_part :: "string \<Rightarrow> string" where
  "fraction_part s = (case s of
     c # d # t \<Rightarrow> (if c = CHR ''.'' \<and> is_digit d then c # takeWhile is_digit (d # t) else [])
   | _ \<Rightarrow> [])"

definition exponent_part :: "string \<Rightarrow> string" where
  "exponent_part s = (case s of
     c # t \<Rightarrow>
       (if c = CHR ''e'' \<or> c = CHR ''E'' then
          (let sign = (case t of d # _ \<Rightarrow> if d = CHR ''-'' \<or> d = CHR ''+'' then [d] else [] | [] \<Rightarrow> []);
               ds = takeWhile is_digit (drop (length sign) t)
           in (if ds = [] then [] else c # sign @ ds))
        else [])
   | [] \<Rightarrow> [])"

definition json_number :: "string \<Rightarrow> (pyval \<times> string) option" where
  "json_number s =
     (let sign = (case s of c # _ \<Rightarrow> if c = CHR ''-'' then [c] else [] | [] \<Rightarrow> []);
          t = drop (length sign) s
      in (case t of
            [] \<Rightarrow> None
          | c # _ \<Rightarrow>
              (if \<not> is_digit c then None
               else let ip = (if c = CHR ''0'' then [c] else takeWhile is_digit t);
                        r1 = drop (length ip) t;
                        fp = fraction_part r1;
                        r2 = drop (length fp) r1;
                        ep = exponent_part r2;
                        r3 = drop (length ep) r2
                    in (if fp = [] \<and> ep = [] then map_option (\<lambda>i. (PInt i, r3)) (parse_int (sign @ ip))
                        else map_option (\<lambda>q. (PFloat q, r3)) (parse_float (sign @ ip @ fp @ ep))))))"

text \<open>\<open>dict(pairs)\<close>: the last value of a key, in the place of its first.\<close>

definition dict_of_pairs :: "(string \<times> pyval) list \<Rightarrow> pydict" where
  "dict_of_pairs ps = fold (\<lambda>(k, v) d. dset d k v) ps []"

fun json_value :: "nat \<Rightarrow> string \<Rightarrow> (pyval \<times> string) option"
  and json_items :: "nat \<Rightarrow> string \<Rightarrow> (pyval list \<times> string) option"
  and json_members :: "nat \<Rightarrow> string \<Rightarrow> ((string \<times> pyval) list \<times> string) option" where
  "json_value (Suc n) (c # t) =
     (if c = CHR 0x22 then map_option (\<lambda>(cs, r). (PStr cs, r)) (json_chars n t)
      else if c = CHR ''{'' then
        (case skip_ws t of
           [] \<Rightarrow> None
         | d # u \<Rightarrow> (if d = CHR ''}'' then Some (PDict [], u)
                   else map_option (\<lambda>(ps, r). (PDict (dict_of_pairs ps), r)) (json_members n (d # u))))
      else if c = CHR ''['' then
        (case skip_ws t of
           [] \<Rightarrow> None
         | d # u \<Rightarrow> (if d = CHR '']'' then Some (PList [], u)
                   else map_option (\<lambda>(xs, r). (PList xs, r)) (json_items n (d # u))))
      else if starts_with (c # t) ''null'' then Some (PNone, drop 4 (c # t))
      else if starts_with (c # t) ''true'' then Some (PBool True, drop 4 (c # t))
      else if starts_with (c # t) ''false'' then Some (PBool False, drop 5 (c # t))
      else json_number (c # t))"
| "json_value n s = None"
| "json_items (Suc n) s =
     (case json_value n s of
        None \<Rightarrow> None
      | Some (v, r) \<Rightarrow>
          (case skip_ws r of
             [] \<Rightarrow> None
           | c # u \<Rightarrow>
               (if c = CHR '']'' then Some ([v], u)
                else if c = CHR '','' then map_option (\<lambda>(vs, w). (v # vs, w)) (json_items n (skip_ws u))
                else None)))"
| "json_items 0 s = None"
| "json_members (Suc n) s =
     (case s of
        [] \<Rightarrow> None
      | q # t \<Rightarrow>
          (if q \<noteq> CHR 0x22 then None
           else (case json_chars n t of
                   None \<Rightarrow> None
                 | Some (k, r) \<Rightarrow>
                     (case skip_ws r of
                        [] \<Rightarrow> None
                      | c # u \<Rightarrow>
                          (if c \<noteq> CHR '':'' then None
                           else (case json_value n (skip_ws u) of
                                   None \<Rightarrow> None
                                 | Some (v, r2) \<Rightarrow>
                                     (case skip_ws r2 of
                                        [] \<Rightarrow> None
                                      | d # w \<Rightarrow>
                                          (if d = CHR ''}'' then Some ([(k, v)], w)
                                           else if d = CHR '','' then
                                             map_option (\<lambda>(ps, x). ((k, v) # ps, x)) (json_members n (skip_ws w))
                                           else None))))))))"
| "json_members 0 s = None"

text \<open>\<open>JSONDecoder.raw_decode\<close> from a position on, and \<open>json.loads\<close>.\<close>

definition raw_decode :: "string \<Rightarrow> (pyval \<times> string) option" where
  "raw_decode s = json_value (Suc (length s)) s"

definition json_loads :: "string \<Rightarrow> pyval option" where
  "json_loads s =
     (case raw_decode (skip_ws s) of
        Some (v, r) \<Rightarrow> if skip_ws r = [] then Some v else None
      | None \<Rightarrow> None)"

subsection \<open>Writing\<close>

definition hex_digit :: "nat \<Rightarrow> char" where
  "hex_digit n = char_of (if n < 10 then 48 + n else 87 + n)"

definition escape_char :: "char \<Rightarrow> string" where
  "escape_char c =
     (if c = CHR 0x22 then [CHR 0x5C, CHR 0x22] else if c = CHR 0x5C then [CHR 0x5C, CHR 0x5C]
      else if c = CHR 0x08 then [CHR 0x5C, CHR ''b''] else if c = CHR 0x0C then [CHR 0x5C, CHR ''f'']
      else if c = CHR 0x0A then [CHR 0x5C, CHR ''n''] else if c = CHR 0x0D then [CHR 0x5C, CHR ''r'']
      else if c = CHR 0x09 then [CHR 0x5C, CHR ''t'']
      else let n = (of_char c :: nat) in
        (if n < 32 then [CHR 0x5C, CHR ''u'', CHR ''0'', CHR ''0'', hex_digit (n div 16), hex_digit (n mod 16)] else [c]))"

definition json_string :: "string \<Rightarrow> string" where
  "json_string s = CHR 0x22 # concat (map escape_char s) @ [CHR 0x22]"

text \<open>A float with a finite decimal expansion, positionally.\<close>

definition decimals :: "rat \<Rightarrow> nat" where
  "decimals q =
     (case filter (\<lambda>k. of_int \<lfloor>q * 10 ^ k\<rfloor> = q * 10 ^ k) [1..<20] of k # _ \<Rightarrow> k | [] \<Rightarrow> 20)"

definition pad_zeros :: "nat \<Rightarrow> string \<Rightarrow> string" where
  "pad_zeros n s = replicate (n - length s) (CHR ''0'') @ s"

definition float_repr :: "rat \<Rightarrow> string" where
  "float_repr q =
     (let k = decimals q; m = nat \<lfloor>\<bar>q\<bar> * 10 ^ k\<rfloor>
      in (if q < 0 then ''-'' else []) @ str_nat (m div 10 ^ k) @ ''.'' @ pad_zeros k (str_nat (m mod 10 ^ k)))"

text \<open>The parts with their separator between them.\<close>

fun join_with :: "string \<Rightarrow> string list \<Rightarrow> string" where
  "join_with sep [] = []"
| "join_with sep [x] = x"
| "join_with sep (x # xs) = x @ sep @ join_with sep xs"

text \<open>\<open>json.dumps\<close> with the default separators, or the compact ones.\<close>

fun json_dumps :: "bool \<Rightarrow> pyval \<Rightarrow> string" where
  "json_dumps tight PNone = ''null''"
| "json_dumps tight (PBool b) = (if b then ''true'' else ''false'')"
| "json_dumps tight (PInt i) = str_int i"
| "json_dumps tight (PFloat q) = float_repr q"
| "json_dumps tight (PStr s) = json_string s"
| "json_dumps tight (PList xs) =
     ''['' @ join_with (if tight then '','' else '', '') (map (json_dumps tight) xs) @ '']''"
| "json_dumps tight (PDict d) =
     ''{'' @ join_with (if tight then '','' else '', '')
       (map (\<lambda>x. json_string (fst x) @ (if tight then '':'' else '': '') @ json_dumps tight (snd x)) d) @ ''}''"

text \<open>\<open>str(v)\<close> of a scalar.\<close>

fun py_str :: "pyval \<Rightarrow> string" where
  "py_str PNone = ''None''"
| "py_str (PBool b) = (if b then ''True'' else ''False'')"
| "py_str (PInt i) = str_int i"
| "py_str (PFloat q) = float_repr q"
| "py_str (PStr s) = s"
| "py_str v = ''<object>''"

end
