(* ===== verification/Tool_Args.thy ===== *)
theory Tool_Args
  imports Json_Text
begin

text \<open>
  Names and arguments of tool calls on their way to an Anthropic client (\<open>grok2api/protocol/anthropic_compat.py\<close>):
  the registered name, the keys a tool requires, aliases of argument keys, the repair of doubled JSON, the test
  for complete arguments and the merge of streamed pieces. A missing name is the empty text.
\<close>

subsection \<open>Names\<close>

definition TOOL_REQUIRED_KEYS :: "(string \<times> string list) list" where
  "TOOL_REQUIRED_KEYS =
     [(''read'', [''file_path'']), (''write'', [''file_path'', ''content'']),
      (''edit'', [''file_path'', ''old_string'', ''new_string'']), (''update'', [''file_path'', ''old_string'', ''new_string'']),
      (''strreplace'', [''file_path'', ''old_string'', ''new_string'']),
      (''str_replace'', [''file_path'', ''old_string'', ''new_string'']),
      (''stringreplace'', [''file_path'', ''old_string'', ''new_string'']),
      (''replace'', [''file_path'', ''old_string'', ''new_string'']),
      (''multiedit'', [''file_path'', ''edits'']), (''notebookedit'', [''notebook_path'', ''new_source'']),
      (''bash'', [''command'']), (''shell'', [''command'']), (''grep'', [''pattern'']), (''glob'', [''pattern'']),
      (''webfetch'', [''url'']), (''websearch'', [''query'']), (''web_search'', [''query''])]"

definition TOOL_EMPTY_STRING_OK :: "string list" where
  "TOOL_EMPTY_STRING_OK = [''new_string'', ''new_source'', ''content'']"

definition TOOL_ARG_KEY_ALIASES :: "(string \<times> string) list" where
  "TOOL_ARG_KEY_ALIASES =
     [(''path'', ''file_path''), (''filepath'', ''file_path''), (''file'', ''file_path''), (''filename'', ''file_path''),
      (''target_file'', ''file_path''), (''targetfile'', ''file_path''), (''targetpath'', ''file_path''),
      (''target_path'', ''file_path''), (''file_name'', ''file_path''),
      (''oldstring'', ''old_string''), (''oldstr'', ''old_string''), (''oldtext'', ''old_string''), (''old'', ''old_string''),
      (''old_text'', ''old_string''), (''original'', ''old_string''), (''original_text'', ''old_string''),
      (''newstring'', ''new_string''), (''newstr'', ''new_string''), (''newtext'', ''new_string''), (''new'', ''new_string''),
      (''new_text'', ''new_string''), (''replacement'', ''new_string''), (''replace_with'', ''new_string''),
      (''contents'', ''content''), (''filecontent'', ''content''), (''file_content'', ''content''), (''filecontents'', ''content''),
      (''notebookpath'', ''notebook_path''), (''notebook'', ''notebook_path''),
      (''cmd'', ''command''), (''shell_command'', ''command''),
      (''q'', ''query''), (''search'', ''query''), (''search_query'', ''query''),
      (''uri'', ''url''), (''href'', ''url''), (''regex'', ''pattern''), (''glob_pattern'', ''pattern'')]"

definition EDIT_TOOL_NAME_ALIASES :: "string list" where
  "EDIT_TOOL_NAME_ALIASES =
     [''update'', ''strreplace'', ''str_replace'', ''stringreplace'', ''string_replace'', ''fileedit'', ''file_edit'', ''replace'',
      ''strreplaceeditor'', ''str_replace_editor'', ''strreplacebasededittool'', ''str_replace_based_edit_tool'']"

definition PROTECTED_TOOL_NAME_KEYS :: "string list" where
  "PROTECTED_TOOL_NAME_KEYS =
     [''taskupdate'', ''taskcreate'', ''taskget'', ''tasklist'', ''taskoutput'', ''taskstop'', ''todowrite'', ''todoread'']"

definition name_char :: "char \<Rightarrow> bool" where
  "name_char c \<longleftrightarrow> (let n = (of_char c :: nat) in (97 \<le> n \<and> n \<le> 122) \<or> (48 \<le> n \<and> n \<le> 57) \<or> n = 95)"

definition tool_name_key :: "string \<Rightarrow> string" where
  "tool_name_key name = filter name_char (lower (strip name))"

text \<open>The registered names by key, the first of each key; \<open>allowed\<close> in the order the set is walked.\<close>

definition allowed_by_key :: "string list \<Rightarrow> (string \<times> string) list" where
  "allowed_by_key allowed =
     fold (\<lambda>a d. let k = tool_name_key a in if k \<noteq> [] \<and> k \<notin> set (map fst d) then d @ [(k, a)] else d)
       (filter (\<lambda>a. a \<noteq> []) (map strip allowed)) []"

definition first_registered :: "(string \<times> string) list \<Rightarrow> string list \<Rightarrow> string option" where
  "first_registered d ks = (case filter (\<lambda>k. map_of d k \<noteq> None) ks of k # _ \<Rightarrow> map_of d k | [] \<Rightarrow> None)"

definition canonical_outbound_tool_name :: "string list \<Rightarrow> string \<Rightarrow> string" where
  "canonical_outbound_tool_name allowed name =
     (let raw = strip name; key = tool_name_key raw; by_key = allowed_by_key allowed
      in (if raw = [] then raw
          else if key = [] \<or> key \<in> set PROTECTED_TOOL_NAME_KEYS then raw
          else case map_of by_key key of
            Some a \<Rightarrow> a
          | None \<Rightarrow>
              (if key \<in> set EDIT_TOOL_NAME_ALIASES \<or> key = ''update'' then
                 (case map_of by_key ''edit'' of
                    Some a \<Rightarrow> a
                  | None \<Rightarrow>
                      (case first_registered by_key [''update'', ''strreplace'', ''str_replace'', ''stringreplace''] of
                         Some a \<Rightarrow>
                           (if first_registered by_key [''update'', ''strreplace'', ''str_replace''] \<noteq> None then a else ''Edit'')
                       | None \<Rightarrow> ''Edit''))
               else raw)))"

definition extract_tool_names :: "pyval \<Rightarrow> string list" where
  "extract_tool_names tools =
     concat (map (\<lambda>t. case t of
        PDict d \<Rightarrow>
          (case dget d ''name'' of
             PStr n \<Rightarrow> (if strip n \<noteq> [] then [strip n]
                        else case dget (dict_of (dget d ''function'')) ''name'' of
                          PStr m \<Rightarrow> if strip m \<noteq> [] then [strip m] else [] | _ \<Rightarrow> [])
           | _ \<Rightarrow> (case dget (dict_of (dget d ''function'')) ''name'' of
                     PStr m \<Rightarrow> if strip m \<noteq> [] then [strip m] else [] | _ \<Rightarrow> []))
      | _ \<Rightarrow> []) (list_of tools))"

definition required_keys_for_tool :: "string \<Rightarrow> string list" where
  "required_keys_for_tool name =
     (let key0 = tool_name_key name; key = (if key0 \<in> set EDIT_TOOL_NAME_ALIASES then ''edit'' else key0)
      in (if key0 = [] then []
          else case map_of TOOL_REQUIRED_KEYS key of
            Some req \<Rightarrow> req
          | None \<Rightarrow>
              (case filter (\<lambda>x. ends_with key (CHR ''_'' # fst x)) TOOL_REQUIRED_KEYS of
                 x # _ \<Rightarrow> snd x
               | [] \<Rightarrow> [])))"

subsection \<open>Argument keys\<close>

definition canonical_tool_arg_key :: "string \<Rightarrow> string" where
  "canonical_tool_arg_key key =
     (let raw = strip key; keep_us = filter name_char (lower raw); alnum = filter (\<lambda>c. c \<noteq> CHR ''_'') keep_us
      in (if raw = [] then raw
          else case map_of TOOL_ARG_KEY_ALIASES keep_us of
            Some c \<Rightarrow> c
          | None \<Rightarrow> (case map_of TOOL_ARG_KEY_ALIASES alnum of Some c \<Rightarrow> c | None \<Rightarrow> raw)))"

definition is_path_tool_arg_key :: "string \<Rightarrow> bool" where
  "is_path_tool_arg_key key \<longleftrightarrow> canonical_tool_arg_key key = ''file_path''"

definition dict_has_path_tool_arg :: "pydict \<Rightarrow> bool" where
  "dict_has_path_tool_arg d \<longleftrightarrow> list_ex (\<lambda>x. is_path_tool_arg_key (fst x)) d"

definition strip_path_tool_args :: "pydict \<Rightarrow> pydict" where
  "strip_path_tool_args d = filter (\<lambda>x. \<not> is_path_tool_arg_key (fst x)) d"

text \<open>One item of the loop: the value chosen so far for a key, and whether the key was spelt canonically.\<close>

definition choose_arg :: "string \<times> pyval \<Rightarrow> (string \<times> pyval \<times> bool) list \<Rightarrow> (string \<times> pyval \<times> bool) list" where
  "choose_arg = (\<lambda>(k, v) chosen.
     let canon = canonical_tool_arg_key k; from_canon = (k = canon)
     in (case map_of chosen canon of
           None \<Rightarrow> AList.update canon (v, from_canon) chosen
         | Some (old_v, old_canon) \<Rightarrow>
             (if value_empty old_v \<and> \<not> value_empty v then AList.update canon (v, from_canon) chosen
              else if value_empty v then chosen
              else if py_eq old_v v then (if from_canon \<and> \<not> old_canon then AList.update canon (v, True) chosen else chosen)
              else AList.update canon (v, from_canon) chosen)))"

definition normalize_tool_argument_keys :: "pydict \<Rightarrow> pydict" where
  "normalize_tool_argument_keys d = map (\<lambda>(k, v, _). (k, v)) (fold choose_arg d [])"

subsection \<open>Merging whole objects\<close>

definition blank_text :: "pyval \<Rightarrow> bool" where
  "blank_text v = (case v of PStr s \<Rightarrow> strip s = [] | _ \<Rightarrow> False)"

definition value_blank :: "pyval \<Rightarrow> bool" where
  "value_blank v \<longleftrightarrow> blank_text v \<or> v \<in> {PList [], PDict []}"

text \<open>The length of a value as compact JSON.\<close>

definition json_size :: "pyval \<Rightarrow> nat" where
  "json_size v = length (json_dumps True v)"

definition tool_arg_value_score :: "pyval \<Rightarrow> nat list" where
  "tool_arg_value_score v =
     (case v of
        PDict d \<Rightarrow>
          (let present = filter (\<lambda>x. snd x \<noteq> PNone) d
           in [3, length d, length present, length (filter (\<lambda>x. \<not> value_blank (snd x)) present) * 1000000 + json_size v])
      | PList xs \<Rightarrow> [2, length xs, 0, json_size v]
      | PNone \<Rightarrow> [0, 0, 0, 0]
      | _ \<Rightarrow> [1, (if strip (py_str v) \<noteq> [] then 1 else 0), 0, length (py_str v)])"

fun score_gt :: "nat list \<Rightarrow> nat list \<Rightarrow> bool" where
  "score_gt (a # s) (b # t) = (b < a \<or> (a = b \<and> score_gt s t))"
| "score_gt s t = False"

text \<open>The first candidate of the highest score.\<close>

fun top_candidate :: "(nat list \<times> string) \<Rightarrow> (nat list \<times> string) list \<Rightarrow> string" where
  "top_candidate x [] = snd x"
| "top_candidate x (y # ys) = top_candidate (if score_gt (fst y) (fst x) then y else x) ys"

text \<open>The object taken as the base, \<open>i\<close> being an object before it (\<open>False\<close>) or after it.\<close>

definition fold_into_base :: "bool \<Rightarrow> pydict \<Rightarrow> pydict \<times> string list \<Rightarrow> pydict \<times> string list" where
  "fold_into_base later d = fold (\<lambda>(k, v) (base, canons).
     let canon = canonical_tool_arg_key k
     in (if \<not> later \<and> canon \<in> set canons then (base, canons)
         else if \<not> dhas base k then (dset base k v, canon # canons)
         else let old = dget base k
              in (if value_empty old then (dset base k v, canons)
                  else if blank_text v then (if later then dset base k v else base, canons)
                  else if is_dict old \<and> is_dict v then (dset base k (PDict (dupdate (dict_of old) (dict_of v))), canons)
                  else if is_list old \<and> is_list v \<and> length (list_of old) \<le> length (list_of v) then (dset base k v, canons)
                  else if later \<and> \<not> value_empty v then (dset base k v, canons)
                  else (base, canons)))) d"

definition merge_in_order :: "pydict \<Rightarrow> pydict \<Rightarrow> pydict" where
  "merge_in_order d merged =
     (let m0 = (if merged \<noteq> [] \<and> dict_has_path_tool_arg d \<and> list_ex (\<lambda>x. is_path_tool_arg_key (fst x) \<and> \<not> value_empty (snd x)) d
                then strip_path_tool_args merged else merged)
      in fold (\<lambda>(k, v) m.
           if \<not> dhas m k then dset m k v
           else let old = dget m k
                in (if value_empty old then dset m k v
                    else if blank_text v then dset m k v
                    else if v \<in> {PNone, PList [], PDict []} then m
                    else if is_dict old \<and> is_dict v then dset m k (PDict (dupdate (dict_of old) (dict_of v)))
                    else if is_list old \<and> is_list v \<and> length (list_of old) \<le> length (list_of v) then dset m k v
                    else if \<not> value_empty v then dset m k v else m)) d m0)"

text \<open>\<open>oc\<close>: whether an object alone is a complete payload of the tool.\<close>

definition merge_tool_arg_dicts :: "(pydict \<Rightarrow> bool) \<Rightarrow> pyval list \<Rightarrow> pydict option" where
  "merge_tool_arg_dicts oc vs =
     (let dicts = map dict_of (filter is_dict vs)
      in (if dicts = [] then None
          else Some (normalize_tool_argument_keys
            (case filter (\<lambda>i. oc (dicts ! i)) [0..<length dicts] of
               [] \<Rightarrow> fold merge_in_order dicts []
             | is \<Rightarrow>
                 (let b = last is; base = dicts ! b
                  in (if b = 0 then fold merge_in_order dicts []
                      else fst (fold (fold_into_base True) (drop (Suc b) dicts)
                             (fold (fold_into_base False) (take b dicts) (base, map (canonical_tool_arg_key \<circ> fst) base)))))))))"

subsection \<open>Doubled JSON\<close>

text \<open>Successive values with the text each was read from.\<close>

fun decode_all :: "nat \<Rightarrow> string \<Rightarrow> (pyval \<times> string) list" where
  "decode_all 0 s = []"
| "decode_all (Suc n) s =
     (let u = dropWhile is_space s
      in (if u = [] then []
          else case raw_decode u of
            None \<Rightarrow> []
          | Some (v, r) \<Rightarrow> (v, strip (take (length u - length r) u)) # decode_all n r))"

definition sanitize_text :: "(pydict \<Rightarrow> bool) \<Rightarrow> string \<Rightarrow> string" where
  "sanitize_text oc s =
     (let stripped = strip s; src = (if stripped \<noteq> [] then stripped else s)
      in (if s = [] then []
          else if json_loads s \<noteq> None then s
          else if stripped \<noteq> [] \<and> stripped \<noteq> s \<and> json_loads stripped \<noteq> None then stripped
          else case decode_all (length src) src of
            (v, t) # y # ys \<Rightarrow>
              (if list_all (\<lambda>x. py_eq (fst x) v) (y # ys) then t
               else let slices = map (\<lambda>(w, u). (tool_arg_value_score w, if u \<noteq> [] then u else json_dumps True w)) (y # ys);
                        first = (tool_arg_value_score v, t)
                    in (case merge_tool_arg_dicts oc (v # map fst (y # ys)) of
                          Some m \<Rightarrow> top_candidate (tool_arg_value_score (PDict m), json_dumps True (PDict m)) (first # slices)
                        | None \<Rightarrow> top_candidate first slices))
          | _ \<Rightarrow> s))"

definition sanitize_with :: "(pydict \<Rightarrow> bool) \<Rightarrow> pyval \<Rightarrow> string" where
  "sanitize_with oc raw = (case raw of PNone \<Rightarrow> [] | PStr s \<Rightarrow> sanitize_text oc s | v \<Rightarrow> json_dumps True v)"

definition opens_container :: "string \<Rightarrow> bool" where
  "opens_container s = (case s of c # _ \<Rightarrow> c = CHR ''{'' \<or> c = CHR ''['' | [] \<Rightarrow> False)"

definition normalize_with :: "(pydict \<Rightarrow> bool) \<Rightarrow> pyval \<Rightarrow> string" where
  "normalize_with oc raw =
     (let cleaned = sanitize_with oc raw; text = strip cleaned
      in (if \<not> opens_container text then cleaned
          else case json_loads text of
            Some (PDict d) \<Rightarrow>
              (let n = normalize_tool_argument_keys d
               in if py_eq (PDict n) (PDict d) then cleaned else json_dumps True (PDict n))
          | _ \<Rightarrow> cleaned))"

definition required_present :: "pydict \<Rightarrow> string \<Rightarrow> bool" where
  "required_present d k \<longleftrightarrow>
     dhas d k \<and> dget d k \<noteq> PNone \<and>
     (if blank_text (dget d k) then k \<in> set TOOL_EMPTY_STRING_OK else dget d k \<notin> {PList [], PDict []})"

definition complete_with :: "(pydict \<Rightarrow> bool) \<Rightarrow> string \<Rightarrow> string \<Rightarrow> bool" where
  "complete_with oc name s =
     (if strip s = [] then False
      else let text = strip (normalize_with oc (PStr s))
           in (if \<not> opens_container text then False
               else case json_loads text of
                 Some (PDict d) \<Rightarrow>
                   (let required = required_keys_for_tool name
                    in if d = [] then required = [] else list_all (required_present d) required)
               | Some (PList xs) \<Rightarrow> True
               | _ \<Rightarrow> False))"

text \<open>
  \<open>_obj_complete\<close> tests the text of an object it has just written. Such a text is one JSON value, which the repair
  returns as it is, so the test the repair would need there is never asked.
\<close>

definition obj_complete :: "string \<Rightarrow> pydict \<Rightarrow> bool" where
  "obj_complete name d = complete_with (\<lambda>_. False) name (json_dumps True (PDict (normalize_tool_argument_keys d)))"

definition sanitize_tool_arguments_json :: "string \<Rightarrow> pyval \<Rightarrow> string" where
  "sanitize_tool_arguments_json name raw = sanitize_with (obj_complete name) raw"

definition normalize_tool_arguments_json :: "string \<Rightarrow> pyval \<Rightarrow> string" where
  "normalize_tool_arguments_json name raw = normalize_with (obj_complete name) raw"

definition is_complete_tool_arguments_json :: "string \<Rightarrow> string \<Rightarrow> bool" where
  "is_complete_tool_arguments_json name s = complete_with (obj_complete name) name s"

definition is_complete_json_text :: "string \<Rightarrow> bool" where
  "is_complete_json_text s \<longleftrightarrow> strip s \<noteq> [] \<and> json_loads s \<noteq> None"

definition effective_tool_arguments_json :: "string \<Rightarrow> pyval \<Rightarrow> string" where
  "effective_tool_arguments_json name args =
     (let text = strip (normalize_tool_arguments_json name (if args = PNone then PStr [] else args))
      in (if text \<noteq> [] then text else if required_keys_for_tool name \<noteq> [] then [] else ''{}''))"

definition parse_tool_arguments :: "pyval \<Rightarrow> pydict" where
  "parse_tool_arguments raw =
     (case raw of
        PNone \<Rightarrow> []
      | PDict d \<Rightarrow> normalize_tool_argument_keys d
      | PStr s \<Rightarrow>
          (let cleaned = normalize_tool_arguments_json [] raw
           in (if cleaned = [] then []
               else case json_loads cleaned of
                 Some (PDict d) \<Rightarrow> normalize_tool_argument_keys d
               | Some v \<Rightarrow> [(''value'', v)]
               | None \<Rightarrow> [(''_raw'', raw)]))
      | v \<Rightarrow> [(''value'', v)])"

subsection \<open>Merging streamed pieces\<close>

definition first_text :: "string \<Rightarrow> string \<Rightarrow> string" where
  "first_text a b = (if a \<noteq> [] then a else b)"

text \<open>The keys of \<open>other\<close> that \<open>base\<close> has under no spelling.\<close>

definition fold_extras :: "pydict \<Rightarrow> pydict \<Rightarrow> pydict" where
  "fold_extras base other =
     fold (\<lambda>(k, v) m. if canonical_tool_arg_key k \<in> set (map (canonical_tool_arg_key \<circ> fst) base) \<or> dhas m k then m else dset m k v)
       other base"

definition overlay_partial :: "pydict \<Rightarrow> pydict \<Rightarrow> pydict" where
  "overlay_partial a b =
     fold (\<lambda>(k, v) m.
        if \<not> dhas m k then dset m k v
        else let old = dget m k
             in (if value_empty old then dset m k v
                 else if blank_text v then dset m k v
                 else if is_dict old \<and> is_dict v then dset m k (PDict (dupdate (dict_of old) (dict_of v)))
                 else dset m k v))
       b (if dict_has_path_tool_arg b then strip_path_tool_args a else a)"

definition merge_objects :: "string \<Rightarrow> pydict \<Rightarrow> pydict \<Rightarrow> pydict" where
  "merge_objects name a b =
     (if obj_complete name b then fold_extras b a
      else if obj_complete name a then fold_extras a b
      else overlay_partial a b)"

definition merge_values :: "string \<Rightarrow> string \<Rightarrow> string \<Rightarrow> string \<Rightarrow> string \<Rightarrow> pyval \<Rightarrow> pyval \<Rightarrow> string option" where
  "merge_values name cur_raw cur piece_raw piece a b =
     (let norm = (\<lambda>s. normalize_tool_arguments_json name (PStr s))
      in (if py_eq a b then Some (first_text cur (norm cur_raw))
          else case (a, b) of
            (PDict d, PDict e) \<Rightarrow> Some (norm (json_dumps True (PDict (merge_objects name d e))))
          | (PList xs, PList ys) \<Rightarrow>
              Some (norm (if length xs \<le> length ys then first_text piece_raw piece else first_text cur_raw cur))
          | _ \<Rightarrow>
              (if is_dict a \<or> is_list a then
                 (if is_dict b \<or> is_list b then None else Some (first_text cur (norm cur_raw)))
               else if is_dict b \<or> is_list b then Some (first_text piece (norm piece_raw))
               else None)))"

definition merge_tool_argument_delta :: "string \<Rightarrow> string \<Rightarrow> string \<Rightarrow> string" where
  "merge_tool_argument_delta name current incoming =
     (let norm = (\<lambda>s. normalize_tool_arguments_json name (PStr s));
          cur_raw = sanitize_tool_arguments_json name (PStr current);
          piece_raw = sanitize_tool_arguments_json name (PStr incoming);
          cur = (if cur_raw \<noteq> [] then norm cur_raw else []);
          piece = (if piece_raw \<noteq> [] then norm piece_raw else []);
          a = json_loads (first_text cur_raw cur);
          b = json_loads (first_text piece_raw piece);
          both_dicts = (case (a, b) of (Some (PDict d), Some (PDict e)) \<Rightarrow> True | _ \<Rightarrow> False);
          cur_complete = is_complete_tool_arguments_json name cur;
          piece_complete = is_complete_tool_arguments_json name piece;
          appended = norm (first_text cur_raw cur @ first_text piece_raw piece)
      in (if piece = [] \<and> piece_raw = [] then cur
          else if cur = [] \<and> cur_raw = [] then first_text piece piece_raw
          else if piece \<noteq> [] \<and> cur \<noteq> [] \<and> piece = cur then cur
          else if piece \<noteq> [] \<and> cur \<noteq> [] \<and> starts_with piece cur then piece
          else if piece \<noteq> [] \<and> cur \<noteq> [] \<and> starts_with cur piece then cur
          else if piece_complete \<and> \<not> cur_complete \<and> \<not> both_dicts then piece
          else if cur_complete \<and> \<not> piece_complete \<and> \<not> both_dicts then cur
          else case (a, b) of
            (Some x, Some y) \<Rightarrow>
              (case merge_values name cur_raw cur piece_raw piece x y of Some s \<Rightarrow> s | None \<Rightarrow> appended)
          | _ \<Rightarrow> appended))"

end
