(* ===== verification/Anthropic_Stream.thy ===== *)
theory Anthropic_Stream
  imports Tool_Args
begin

text \<open>
  The stream converter of \<open>grok2api/protocol/anthropic_compat.py\<close>: \<open>AnthropicStreamAssembler\<close> turns the chunks of
  an OpenAI stream into the events of an Anthropic one. Every method returns its events with the state after it.

  \<open>uuid\<close> gives the random id of a tool call that comes without one, \<open>omax\<close> is \<open>OUTBOUND_MAX_TOOLS\<close>.
\<close>

subsection \<open>Events\<close>

datatype sse_block = B_Text | B_Thinking | B_Tool pyval string

datatype sse_delta = D_Text string | D_Thinking string | D_Json string

datatype sse =
    Message_Start string string int
  | Block_Start nat sse_block
  | Block_Delta nat sse_delta
  | Block_Stop nat
  | Message_Delta string pydict
  | Message_Stop
  | Stream_Error string string
  | Ping

fun event_name :: "sse \<Rightarrow> string" where
  "event_name (Message_Start _ _ _) = ''message_start''"
| "event_name (Block_Start _ _) = ''content_block_start''"
| "event_name (Block_Delta _ _) = ''content_block_delta''"
| "event_name (Block_Stop _) = ''content_block_stop''"
| "event_name (Message_Delta _ _) = ''message_delta''"
| "event_name Message_Stop = ''message_stop''"
| "event_name (Stream_Error _ _) = ''error''"
| "event_name Ping = ''ping''"

fun block_json :: "sse_block \<Rightarrow> pydict" where
  "block_json B_Text = [(''type'', PStr ''text''), (''text'', PStr [])]"
| "block_json B_Thinking = [(''type'', PStr ''thinking''), (''thinking'', PStr [])]"
| "block_json (B_Tool tid name) =
     [(''type'', PStr ''tool_use''), (''id'', tid), (''name'', PStr name), (''input'', PDict [])]"

fun delta_json :: "sse_delta \<Rightarrow> pydict" where
  "delta_json (D_Text s) = [(''type'', PStr ''text_delta''), (''text'', PStr s)]"
| "delta_json (D_Thinking s) = [(''type'', PStr ''thinking_delta''), (''thinking'', PStr s)]"
| "delta_json (D_Json s) = [(''type'', PStr ''input_json_delta''), (''partial_json'', PStr s)]"

fun event_data :: "sse \<Rightarrow> pydict" where
  "event_data (Message_Start mid model n) =
     [(''message'', PDict
        [(''id'', PStr mid), (''type'', PStr ''message''), (''role'', PStr ''assistant''), (''content'', PList []),
         (''model'', PStr model), (''stop_reason'', PNone), (''stop_sequence'', PNone),
         (''usage'', PDict [(''input_tokens'', PInt n), (''output_tokens'', PInt 0),
            (''cache_creation_input_tokens'', PInt 0), (''cache_read_input_tokens'', PInt 0)])])]"
| "event_data (Block_Start i b) = [(''index'', PInt (int i)), (''content_block'', PDict (block_json b))]"
| "event_data (Block_Delta i d) = [(''index'', PInt (int i)), (''delta'', PDict (delta_json d))]"
| "event_data (Block_Stop i) = [(''index'', PInt (int i))]"
| "event_data (Message_Delta stop usage) =
     [(''delta'', PDict [(''stop_reason'', PStr stop), (''stop_sequence'', PNone)]), (''usage'', PDict usage)]"
| "event_data (Stream_Error ty msg) = [(''error'', PDict [(''type'', PStr ty), (''message'', PStr msg)])]"
| "event_data _ = []"

definition sse_event :: "sse \<Rightarrow> string" where
  "sse_event e = ''event: '' @ event_name e @ [CHR 0x0A] @ ''data: '' @
     json_dumps False (PDict ((''type'', PStr (event_name e)) # event_data e)) @ [CHR 0x0A, CHR 0x0A]"

definition stream_message_delta :: "string \<Rightarrow> int \<Rightarrow> int option \<Rightarrow> int option \<Rightarrow> int option \<Rightarrow> sse" where
  "stream_message_delta stop out_tok in_tok cache_read cache_creation =
     Message_Delta stop ([(''output_tokens'', PInt out_tok)] @
       (case in_tok of Some n \<Rightarrow> [(''input_tokens'', PInt n)] | None \<Rightarrow> []) @
       (case cache_read of Some n \<Rightarrow> [(''cache_read_input_tokens'', PInt n)] | None \<Rightarrow> []) @
       (case cache_creation of Some n \<Rightarrow> [(''cache_creation_input_tokens'', PInt n)] | None \<Rightarrow> []))"

definition terminal_error :: "string \<Rightarrow> string \<Rightarrow> sse list" where
  "terminal_error ty msg = [Stream_Error ty msg, stream_message_delta ''end_turn'' 0 None None None, Message_Stop]"

subsection \<open>Finish reason and usage\<close>

definition map_finish_to_stop_reason :: "string option \<Rightarrow> bool \<Rightarrow> string" where
  "map_finish_to_stop_reason finish has_tool_calls =
     (if has_tool_calls then ''tool_use''
      else case finish of
        None \<Rightarrow> ''end_turn''
      | Some f \<Rightarrow>
          (if f = ''tool_calls'' then ''end_turn''
           else if f = [] \<or> f = ''stop'' then ''end_turn''
           else if f = ''length'' \<or> f = ''max_tokens'' then ''max_tokens''
           else if f = ''content_filter'' then ''refusal''
           else if f = ''stop_sequence'' then ''stop_sequence''
           else ''end_turn''))"

text \<open>The fall-back to 0 of \<open>int(v or 0)\<close>.\<close>

definition int_try :: "pyval \<Rightarrow> int" where
  "int_try v = (case int_or0 v of Some i \<Rightarrow> i | None \<Rightarrow> 0)"

text \<open>\<open>max(n, int(v or 0))\<close>, \<open>n\<close> when \<open>int\<close> raises.\<close>

definition max_try :: "pyval \<Rightarrow> int \<Rightarrow> int" where
  "max_try v n = (case int_or0 v of Some i \<Rightarrow> max n i | None \<Rightarrow> n)"

definition anthropic_cache_tokens :: "pyval \<Rightarrow> int \<times> int" where
  "anthropic_cache_tokens usage =
     (case usage of
        PDict u \<Rightarrow>
          (let nodes = filter is_dict (map (dget u) [''prompt_tokens_details'', ''input_tokens_details'']);
               read = fold (\<lambda>d. max_try (dget (dict_of d) ''cached_tokens'')) nodes 0;
               create = fold (\<lambda>d. max_try (dget (dict_of d) ''cache_creation_tokens'')) nodes 0;
               read' = fold (\<lambda>k. max_try (dget u k)) [''cache_read_input_tokens'', ''cached_tokens'', ''prompt_cache_hit_tokens''] read;
               create' = fold (\<lambda>k. max_try (dget u k)) [''cache_creation_input_tokens'', ''cache_creation_tokens''] create
           in (max 0 read', max 0 create'))
      | _ \<Rightarrow> (0, 0))"

subsection \<open>The assembler\<close>

record tool_state =
  ts_block :: "nat option"
  ts_id :: pyval
  ts_name :: string
  ts_args :: string
  ts_sent :: string
  ts_started :: bool
  ts_stopped :: bool
  ts_closing :: bool

record assembler =
  as_message_id :: string
  as_model :: string
  as_next :: nat
  as_text :: "nat option"
  as_thinking :: "nat option"
  as_tools :: "(int \<times> tool_state) list"
  as_started :: bool
  as_saw_tool :: bool
  as_tools_pending :: bool
  as_tools_requested :: bool
  as_allowed :: "string list"
  as_held :: "(string \<times> string) list"
  as_chars :: nat
  as_max_tools :: "int option"
  as_count :: nat

definition new_assembler :: "string \<Rightarrow> string \<Rightarrow> bool \<Rightarrow> int option \<Rightarrow> string list \<Rightarrow> assembler" where
  "new_assembler mid model requested max_tools allowed =
     \<lparr>as_message_id = mid, as_model = model, as_next = 0, as_text = None, as_thinking = None, as_tools = [],
      as_started = False, as_saw_tool = False, as_tools_pending = False, as_tools_requested = requested,
      as_allowed = allowed, as_held = [], as_chars = 0, as_max_tools = max_tools, as_count = 0\<rparr>"

text \<open>The number of tool blocks that may still start, \<open>None\<close> without a limit; the limit read is kept.\<close>

definition tool_budget_left :: "int \<Rightarrow> assembler \<Rightarrow> int option \<times> assembler" where
  "tool_budget_left omax a =
     (let m = (case as_max_tools a of Some n \<Rightarrow> n | None \<Rightarrow> omax)
      in (if m \<le> 0 then None else Some (max 0 (m - int (as_count a))), a\<lparr>as_max_tools := Some m\<rparr>))"

definition exhausted :: "int option \<Rightarrow> bool" where
  "exhausted budget \<longleftrightarrow> (case budget of Some b \<Rightarrow> b \<le> 0 | None \<Rightarrow> False)"

definition assembler_start :: "int \<Rightarrow> assembler \<Rightarrow> sse list \<times> assembler" where
  "assembler_start input_tokens a =
     (if as_started a then ([], a)
      else ([Message_Start (as_message_id a) (as_model a) input_tokens], a\<lparr>as_started := True\<rparr>))"

definition close_text :: "assembler \<Rightarrow> sse list \<times> assembler" where
  "close_text a = (case as_text a of None \<Rightarrow> ([], a) | Some i \<Rightarrow> ([Block_Stop i], a\<lparr>as_text := None\<rparr>))"

definition close_thinking :: "assembler \<Rightarrow> sse list \<times> assembler" where
  "close_thinking a = (case as_thinking a of None \<Rightarrow> ([], a) | Some i \<Rightarrow> ([Block_Stop i], a\<lparr>as_thinking := None\<rparr>))"

definition merge_name :: "string \<Rightarrow> string \<Rightarrow> string" where
  "merge_name current incoming =
     (let cur = strip current; name = strip incoming
      in (if name = [] then cur else if cur = [] then name
          else if name = cur \<or> starts_with cur name then cur else name))"

text \<open>The block index of a started tool; the code never reads it before the start.\<close>

definition block_at :: "tool_state \<Rightarrow> nat" where
  "block_at s = (case ts_block s of Some i \<Rightarrow> i | None \<Rightarrow> 0)"

definition set_tool :: "int \<Rightarrow> tool_state \<Rightarrow> assembler \<Rightarrow> assembler" where
  "set_tool oi s a = a\<lparr>as_tools := AList.update oi s (as_tools a)\<rparr>"

definition flush_tool_args :: "int \<Rightarrow> tool_state \<Rightarrow> assembler \<Rightarrow> sse list \<times> tool_state \<times> assembler" where
  "flush_tool_args oi s a =
     (let remaining = drop (length (ts_sent s)) (ts_args s)
      in (if \<not> ts_started s \<or> ts_args s = [] then ([], s, a)
          else if ts_sent s \<noteq> [] \<and> \<not> starts_with (ts_args s) (ts_sent s) then ([], s, a)
          else if remaining = [] then ([], s, a)
          else if \<not> is_complete_tool_arguments_json (ts_name s) (ts_args s) \<and> \<not> ts_closing s then ([], s, a)
          else let s' = s\<lparr>ts_sent := ts_sent s @ remaining\<rparr>
               in ([Block_Delta (block_at s) (D_Json remaining)], s',
                   set_tool oi s' (a\<lparr>as_chars := as_chars a + length remaining\<rparr>))))"

text \<open>One round of \<open>_close_tools\<close>, for the open tool \<open>oi\<close>.\<close>

definition close_tool :: "int \<Rightarrow> assembler \<Rightarrow> sse list \<times> assembler" where
  "close_tool oi a =
     (case map_of (as_tools a) oi of
        None \<Rightarrow> ([], a)
      | Some s \<Rightarrow>
          (let (s1, a1) = (case ts_block s of
                 Some i \<Rightarrow> (s, a)
               | None \<Rightarrow> (s\<lparr>ts_block := Some (as_next a)\<rparr>, a\<lparr>as_next := Suc (as_next a)\<rparr>));
               (ev, s2, a2) = flush_tool_args oi (s1\<lparr>ts_closing := True\<rparr>) a1;
               invent = (strip (ts_sent s2) = [] \<and> required_keys_for_tool (strip (ts_name s2)) = []);
               s3 = (if invent then s2\<lparr>ts_args := (if ts_args s2 \<noteq> [] then ts_args s2 else ''{}''), ts_sent := ''{}''\<rparr> else s2);
               a3 = (if invent then a2\<lparr>as_chars := as_chars a2 + 2\<rparr> else a2)
           in (ev @ (if invent then [Block_Delta (block_at s2) (D_Json ''{}'')] else []) @ [Block_Stop (block_at s2)],
               set_tool oi (s3\<lparr>ts_stopped := True, ts_closing := False\<rparr>) a3)))"

fun run_all :: "('k \<Rightarrow> assembler \<Rightarrow> sse list \<times> assembler) \<Rightarrow> 'k list \<Rightarrow> assembler \<Rightarrow> sse list \<times> assembler" where
  "run_all f [] a = ([], a)"
| "run_all f (k # ks) a = (let (ev, a1) = f k a; (ev', a2) = run_all f ks a1 in (ev @ ev', a2))"

definition tool_open :: "tool_state \<Rightarrow> bool" where
  "tool_open s \<longleftrightarrow> ts_started s \<and> \<not> ts_stopped s"

definition close_order :: "tool_state \<Rightarrow> nat" where
  "close_order s = (case ts_block s of Some i \<Rightarrow> i | None \<Rightarrow> 10 ^ 9)"

definition close_tools :: "assembler \<Rightarrow> sse list \<times> assembler" where
  "close_tools a =
     run_all close_tool (map fst (sort_key (\<lambda>x. close_order (snd x)) (filter (\<lambda>x. tool_open (snd x)) (as_tools a)))) a"

text \<open>Two methods one after the other.\<close>

definition andthen ::
  "(assembler \<Rightarrow> sse list \<times> assembler) \<Rightarrow> (assembler \<Rightarrow> sse list \<times> assembler) \<Rightarrow> assembler \<Rightarrow> sse list \<times> assembler" where
  "andthen f g a = (let (ev, a1) = f a; (ev', a2) = g a1 in (ev @ ev', a2))"

definition open_thinking :: "assembler \<Rightarrow> sse list \<times> assembler" where
  "open_thinking a =
     (case as_thinking a of
        Some i \<Rightarrow> ([], a)
      | None \<Rightarrow> andthen close_text (\<lambda>a. ([Block_Start (as_next a) B_Thinking],
                    a\<lparr>as_thinking := Some (as_next a), as_next := Suc (as_next a)\<rparr>)) a)"

definition open_text :: "assembler \<Rightarrow> sse list \<times> assembler" where
  "open_text a =
     (case as_text a of
        Some i \<Rightarrow> ([], a)
      | None \<Rightarrow> ([Block_Start (as_next a) B_Text], a\<lparr>as_text := Some (as_next a), as_next := Suc (as_next a)\<rparr>))"

definition emit_reasoning :: "string \<Rightarrow> assembler \<Rightarrow> sse list \<times> assembler" where
  "emit_reasoning reasoning a =
     (if reasoning = [] then ([], a)
      else andthen close_tools (andthen open_thinking (\<lambda>a.
        ([Block_Delta (the (as_thinking a)) (D_Thinking reasoning)], a\<lparr>as_chars := as_chars a + length reasoning\<rparr>))) a)"

definition emit_content :: "string \<Rightarrow> assembler \<Rightarrow> sse list \<times> assembler" where
  "emit_content content a =
     (if content = [] then ([], a)
      else andthen close_tools (andthen close_thinking (andthen open_text (\<lambda>a.
        ([Block_Delta (the (as_text a)) (D_Text content)], a\<lparr>as_chars := as_chars a + length content\<rparr>)))) a)"

text \<open>An absent text and an empty one are the same to the method.\<close>

definition emit_text_and_thinking :: "string \<times> string \<Rightarrow> assembler \<Rightarrow> sse list \<times> assembler" where
  "emit_text_and_thinking = (\<lambda>(content, reasoning). andthen (emit_reasoning reasoning) (emit_content content))"

subsection \<open>Feeding tool calls\<close>

definition new_tool :: "pyval \<Rightarrow> tool_state" where
  "new_tool tid = \<lparr>ts_block = None, ts_id = tid, ts_name = [], ts_args = [], ts_sent = [], ts_started = False,
     ts_stopped = False, ts_closing = False\<rparr>"

definition merged_id :: "pyval \<Rightarrow> pyval \<Rightarrow> pyval" where
  "merged_id old new =
     (if \<not> truthy new then old
      else if \<not> truthy old then new
      else if starts_with (str_or_empty old) ''toolu_'' then new else old)"

definition merged_tool_name :: "string list \<Rightarrow> pydict \<Rightarrow> string \<Rightarrow> string" where
  "merged_tool_name allowed d name =
     (let fn_name = dget (dict_of (dget d ''function'')) ''name''; raw_name = dget d ''name'';
          n1 = (if truthy fn_name then merge_name name (py_str fn_name) else name);
          n2 = (if truthy raw_name then merge_name n1 (py_str raw_name) else n1)
      in (if n2 \<noteq> [] then canonical_outbound_tool_name allowed n2 else n2))"

text \<open>The arguments a chunk carries: of its function, of the call, or its input.\<close>

definition args_piece :: "string \<Rightarrow> pydict \<Rightarrow> string" where
  "args_piece name d =
     (let fn_args = dget (dict_of (dget d ''function'')) ''arguments''
      in (if fn_args \<noteq> PNone then normalize_tool_arguments_json name fn_args
          else if dget d ''arguments'' \<noteq> PNone then normalize_tool_arguments_json name (dget d ''arguments'')
          else if dget d ''input'' \<noteq> PNone then normalize_tool_arguments_json name (dget d ''input'')
          else []))"

definition call_index :: "pydict \<Rightarrow> int" where
  "call_index d = (case py_int (dget_or d ''index'' (PInt 0)) of Some i \<Rightarrow> i | None \<Rightarrow> 0)"

definition tool_at :: "(int \<Rightarrow> string) \<Rightarrow> pydict \<Rightarrow> assembler \<Rightarrow> tool_state" where
  "tool_at uuid d a =
     (case map_of (as_tools a) (call_index d) of
        Some s \<Rightarrow> s
      | None \<Rightarrow> new_tool (py_or (dget d ''id'') (PStr (''toolu_'' @ uuid (call_index d)))))"

definition absorb_into :: "string list \<Rightarrow> pydict \<Rightarrow> tool_state \<Rightarrow> tool_state" where
  "absorb_into allowed d s =
     (let name = merged_tool_name allowed d (ts_name s); piece = args_piece name d
      in s\<lparr>ts_id := merged_id (ts_id s) (dget d ''id''), ts_name := name,
           ts_args := (if piece \<noteq> [] then merge_tool_argument_delta name (ts_args s) piece else ts_args s)\<rparr>)"

definition absorb :: "(int \<Rightarrow> string) \<Rightarrow> pyval \<Rightarrow> assembler \<Rightarrow> assembler" where
  "absorb uuid raw a =
     (case raw of
        PDict d \<Rightarrow>
          (let s = tool_at uuid d a
           in (if ts_stopped s then a else set_tool (call_index d) (absorb_into (as_allowed a) d s) a))
      | _ \<Rightarrow> a)"

definition tool_complete :: "tool_state \<Rightarrow> bool" where
  "tool_complete s \<longleftrightarrow> is_complete_tool_arguments_json (ts_name s) (ts_args s)"

definition tool_known :: "tool_state \<Rightarrow> bool" where
  "tool_known s \<longleftrightarrow> ts_name s \<noteq> [] \<or> truthy (ts_id s) \<or> strip (ts_args s) \<noteq> []"

text \<open>A lower tool that must go first.\<close>

definition blocked_below :: "int \<Rightarrow> assembler \<Rightarrow> bool" where
  "blocked_below oi a \<longleftrightarrow>
     list_ex (\<lambda>(k, s). 0 \<le> k \<and> k < oi \<and> \<not> ts_stopped s \<and> (ts_started s \<or> tool_known s)) (as_tools a)"

definition open_tool :: "int \<Rightarrow> tool_state \<Rightarrow> string \<Rightarrow> assembler \<Rightarrow> sse list \<times> tool_state \<times> assembler" where
  "open_tool oi s name a =
     (let i = as_next a; s' = s\<lparr>ts_block := Some i, ts_started := True\<rparr>
      in ([Block_Start i (B_Tool (ts_id s) name)], s',
          set_tool oi s' (a\<lparr>as_next := Suc i, as_count := Suc (as_count a), as_saw_tool := True, as_held := []\<rparr>)))"

text \<open>Sending the arguments of a started tool and closing it when all is sent.\<close>

definition send_and_close :: "int \<Rightarrow> tool_state \<Rightarrow> assembler \<Rightarrow> sse list \<times> assembler" where
  "send_and_close oi s a =
     (let (ev, s1, a1) = flush_tool_args oi s a
      in (if ts_sent s1 \<noteq> [] \<and> ts_args s1 \<noteq> [] \<and> ts_sent s1 = ts_args s1 \<and> tool_complete s1
          then (ev @ [Block_Stop (block_at s1)], set_tool oi (s1\<lparr>ts_stopped := True\<rparr>) a1)
          else (ev, a1)))"

text \<open>The loop over the tools in ascending index; \<open>break\<close> ends it.\<close>

fun emit_tools :: "int \<Rightarrow> int list \<Rightarrow> assembler \<Rightarrow> sse list \<times> assembler" where
  "emit_tools omax [] a = ([], a)"
| "emit_tools omax (oi # ois) a =
     (case map_of (as_tools a) oi of
        None \<Rightarrow> emit_tools omax ois a
      | Some s \<Rightarrow>
          (if ts_stopped s then emit_tools omax ois a
           else if ts_started s then andthen (send_and_close oi s) (emit_tools omax ois) a
           else if \<not> (ts_name s \<noteq> [] \<and> ts_args s \<noteq> [] \<and> tool_complete s) then
             (if ts_name s \<noteq> [] \<or> truthy (ts_id s) then ([], a) else emit_tools omax ois a)
           else if blocked_below oi a then ([], a)
           else if list_ex (\<lambda>(k, s). tool_open s) (as_tools a) then ([], a)
           else let (budget, a1) = tool_budget_left omax a
                in (if exhausted budget then ([], a1)
                    else let (ev, s1, a2) = open_tool oi s (ts_name s) a1;
                             (ev', a3) = andthen (send_and_close oi s1) (emit_tools omax ois) a2
                         in (ev @ ev', a3))))"

definition feed_tools :: "(int \<Rightarrow> string) \<Rightarrow> int \<Rightarrow> pyval list \<Rightarrow> assembler \<Rightarrow> sse list \<times> assembler" where
  "feed_tools uuid omax calls a =
     (if calls = [] then ([], a)
      else andthen close_thinking (andthen close_text (\<lambda>a.
        let a1 = fold (absorb uuid) calls a in emit_tools omax (sort (map fst (as_tools a1))) a1))
        (a\<lparr>as_tools_pending := True\<rparr>))"

text \<open>Text that waits until it is known whether tools win, that is dropped after a tool, or that is sent on.\<close>

definition feed_text :: "string \<Rightarrow> string \<Rightarrow> assembler \<Rightarrow> sse list \<times> assembler" where
  "feed_text content reasoning a =
     (if as_tools_requested a \<and> \<not> as_saw_tool a then
        ([], if content \<noteq> [] \<or> reasoning \<noteq> []
             then a\<lparr>as_held := as_held a @ [(content, reasoning)], as_chars := as_chars a + length content + length reasoning\<rparr>
             else a)
      else if as_tools_requested a \<and> as_saw_tool a then ([], a)
      else emit_text_and_thinking (content, reasoning) a)"

definition feed :: "(int \<Rightarrow> string) \<Rightarrow> int \<Rightarrow> string \<times> string \<times> pyval list \<Rightarrow> assembler \<Rightarrow> sse list \<times> assembler" where
  "feed uuid omax = (\<lambda>(content, reasoning, calls).
     andthen (assembler_start 0) (andthen (feed_text content reasoning) (feed_tools uuid omax calls)))"

subsection \<open>Finishing\<close>

text \<open>Empty arguments of a tool that requires none become an empty object.\<close>

definition fill_empty_args :: "tool_state \<Rightarrow> tool_state" where
  "fill_empty_args s =
     (let name = strip (ts_name s); eff = effective_tool_arguments_json name (PStr (ts_args s))
      in (if ts_stopped s \<or> ts_started s \<or> name = [] then s
          else if eff \<noteq> [] \<and> eff \<noteq> strip (ts_args s) then s\<lparr>ts_args := eff\<rparr> else s))"

definition has_ready_tool :: "assembler \<Rightarrow> bool" where
  "has_ready_tool a \<longleftrightarrow>
     list_ex (\<lambda>(k, s). strip (ts_name s) \<noteq> [] \<and> strip (ts_args s) \<noteq> [] \<and> tool_complete s \<and> \<not> ts_stopped s) (as_tools a)"

definition release_held :: "assembler \<Rightarrow> sse list \<times> assembler" where
  "release_held a =
     (if as_saw_tool a \<or> has_ready_tool a then ([], a\<lparr>as_held := []\<rparr>)
      else let (ev, a1) = run_all emit_text_and_thinking (as_held a) a in (ev, a1\<lparr>as_held := []\<rparr>))"

text \<open>The name and arguments a tool is finished with; \<open>ready\<close> is whether a tool was ready at the start.\<close>

definition final_tool :: "string list \<Rightarrow> tool_state \<Rightarrow> tool_state" where
  "final_tool allowed s =
     (let name = (if strip (ts_name s) \<noteq> [] then canonical_outbound_tool_name allowed (strip (ts_name s)) else []);
          args = strip (ts_args s)
      in s\<lparr>ts_name := (if strip (ts_name s) \<noteq> [] then name else ts_name s),
           ts_args := (if args \<noteq> [] \<and> name \<noteq> [] then normalize_tool_arguments_json name (PStr args) else ts_args s)\<rparr>)"

definition finish_tool :: "int \<Rightarrow> bool \<Rightarrow> int \<Rightarrow> assembler \<Rightarrow> sse list \<times> assembler" where
  "finish_tool omax ready oi a =
     (case map_of (as_tools a) oi of
        None \<Rightarrow> ([], a)
      | Some s0 \<Rightarrow>
          (if ts_stopped s0 then ([], a)
           else
             let s = final_tool (as_allowed a) s0; a0 = set_tool oi s a;
                 name = (if strip (ts_name s0) \<noteq> [] then ts_name s else []);
                 args = (if strip (ts_args s0) \<noteq> [] \<and> name \<noteq> [] then ts_args s else strip (ts_args s0))
             in (if ts_started s then close_tools a0
                 else if name = [] \<and> args = [] then ([], a0)
                 else if \<not> (name \<noteq> [] \<and> args \<noteq> [] \<and> is_complete_tool_arguments_json name args) then ([], a0)
                 else if as_held a0 \<noteq> [] \<and> \<not> as_saw_tool a0 \<and> \<not> ready then ([], a0)
                 else let (budget, a1) = tool_budget_left omax a0
                      in (if exhausted budget then ([], a1)
                          else andthen close_tools (andthen (\<lambda>a. let (ev, _, a') = open_tool oi s name a in (ev, a')) close_tools) a1))))"

definition finish_usage :: "string option \<Rightarrow> pyval \<Rightarrow> int \<Rightarrow> assembler \<Rightarrow> sse list" where
  "finish_usage finish_reason usage input_tokens a =
     (let u = dict_of usage;
          eff = (if as_saw_tool a \<and> finish_reason \<in> {None, Some ''stop'', Some ''end_turn'', Some []} then Some ''tool_calls''
                 else finish_reason);
          stop = map_finish_to_stop_reason eff (as_saw_tool a);
          out0 = int_try (py_or (dget u ''completion_tokens'') (dget u ''output_tokens''));
          prompt = int_try (py_or (dget u ''prompt_tokens'') (dget u ''input_tokens''));
          in_tok = (if 0 < prompt then prompt else input_tokens);
          out_tok = (if out0 \<le> 0 then (if as_chars a \<noteq> 0 then max 1 (int (as_chars a div 4)) else 0) else out0);
          (cache_read, cache_creation) = anthropic_cache_tokens usage
      in [stream_message_delta stop out_tok (if 0 < in_tok then Some in_tok else None) (Some cache_read) (Some cache_creation),
          Message_Stop])"

definition finish_body :: "int \<Rightarrow> assembler \<Rightarrow> sse list \<times> assembler" where
  "finish_body omax a0 =
     andthen release_held (andthen close_thinking (andthen close_text (\<lambda>a.
       andthen (run_all (finish_tool omax (has_ready_tool a0)) (sort (map fst (as_tools a)))) close_tools a))) a0"

definition finish :: "int \<Rightarrow> string option \<Rightarrow> pyval \<Rightarrow> int \<Rightarrow> assembler \<Rightarrow> sse list \<times> assembler" where
  "finish omax finish_reason usage input_tokens =
     andthen (assembler_start input_tokens) (\<lambda>a.
       andthen (finish_body omax) (\<lambda>a. (finish_usage finish_reason usage input_tokens a, a))
         (a\<lparr>as_tools := map (\<lambda>(k, s). (k, fill_empty_args s)) (as_tools a)\<rparr>))"

text \<open>A whole response: the chunks in order, then the end.\<close>

definition run_stream ::
  "(int \<Rightarrow> string) \<Rightarrow> int \<Rightarrow> (string \<times> string \<times> pyval list) list \<Rightarrow> string option \<Rightarrow> pyval \<Rightarrow> int \<Rightarrow> assembler \<Rightarrow> sse list \<times> assembler" where
  "run_stream uuid omax chunks finish_reason usage input_tokens =
     andthen (run_all (feed uuid omax) chunks) (finish omax finish_reason usage input_tokens)"

end
