(* ===== verification/Anthropic_Protocol.thy ===== *)
theory Anthropic_Protocol
  imports Anthropic_Stream
begin

text \<open>
  The assembler against the Anthropic streaming protocol: an automaton states which events may follow each other,
  and every method of the assembler is shown to move it from the phase of its state to the phase of its next state.
\<close>

subsection \<open>The protocol\<close>

datatype phase = Fresh | Between nat | Within nat sse_block | Closing | Done

fun fits :: "sse_block \<Rightarrow> sse_delta \<Rightarrow> bool" where
  "fits B_Text (D_Text s) = True"
| "fits B_Thinking (D_Thinking s) = True"
| "fits (B_Tool i n) (D_Json s) = True"
| "fits b d = False"

text \<open>Pings and errors may come at any time before the end.\<close>

fun sse_next :: "phase \<Rightarrow> sse \<Rightarrow> phase option" where
  "sse_next p Ping = (if p = Done then None else Some p)"
| "sse_next p (Stream_Error _ _) = (if p = Done then None else Some p)"
| "sse_next Fresh (Message_Start _ _ _) = Some (Between 0)"
| "sse_next (Between n) (Block_Start i b) = (if i = n then Some (Within n b) else None)"
| "sse_next (Within n b) (Block_Delta i d) = (if i = n \<and> fits b d then Some (Within n b) else None)"
| "sse_next (Within n b) (Block_Stop i) = (if i = n then Some (Between (Suc n)) else None)"
| "sse_next (Between n) (Message_Delta _ _) = Some Closing"
| "sse_next Closing Message_Stop = Some Done"
| "sse_next p e = None"

fun sse_run :: "phase \<Rightarrow> sse list \<Rightarrow> phase option" where
  "sse_run p [] = Some p"
| "sse_run p (e # es) = (case sse_next p e of Some q \<Rightarrow> sse_run q es | None \<Rightarrow> None)"

lemma sse_run_append [simp]: "sse_run p (xs @ ys) = (case sse_run p xs of Some q \<Rightarrow> sse_run q ys | None \<Rightarrow> None)"
  by (induction p xs rule: sse_run.induct) (auto split: option.splits)

text \<open>The phase of a state, and the states the methods leave.\<close>

definition phase_of :: "assembler \<Rightarrow> phase" where
  "phase_of a =
     (if \<not> as_started a then Fresh
      else case as_thinking a of
        Some i \<Rightarrow> Within i B_Thinking
      | None \<Rightarrow> (case as_text a of Some i \<Rightarrow> Within i B_Text | None \<Rightarrow> Between (as_next a)))"

definition tool_settled :: "tool_state \<Rightarrow> bool" where
  "tool_settled s \<longleftrightarrow> ts_started s = ts_stopped s \<and> \<not> ts_closing s \<and> (\<not> ts_started s \<longrightarrow> ts_block s = None \<and> ts_sent s = [])"

definition settled :: "assembler \<Rightarrow> bool" where
  "settled a \<longleftrightarrow>
     (\<forall>k s. map_of (as_tools a) k = Some s \<longrightarrow> tool_settled s) \<and> distinct (map fst (as_tools a)) \<and>
     (\<not> as_started a \<longrightarrow> as_text a = None \<and> as_thinking a = None \<and> as_next a = 0) \<and>
     (\<forall>i. as_thinking a = Some i \<longrightarrow> as_text a = None \<and> as_next a = Suc i) \<and>
     (\<forall>i. as_text a = Some i \<longrightarrow> as_next a = Suc i)"

text \<open>What a client collects of the stream: its texts, and the tools with the input of their block.\<close>

fun text_of :: "sse list \<Rightarrow> string" where
  "text_of [] = []"
| "text_of (Block_Delta i (D_Text s) # es) = s @ text_of es"
| "text_of (e # es) = text_of es"

fun thinking_of :: "sse list \<Rightarrow> string" where
  "thinking_of [] = []"
| "thinking_of (Block_Delta i (D_Thinking s) # es) = s @ thinking_of es"
| "thinking_of (e # es) = thinking_of es"

fun input_of :: "nat \<Rightarrow> sse list \<Rightarrow> string" where
  "input_of i [] = []"
| "input_of i (Block_Delta j (D_Json s) # es) = (if i = j then s @ input_of i es else input_of i es)"
| "input_of i (Block_Stop j # es) = (if i = j then [] else input_of i es)"
| "input_of i (e # es) = input_of i es"

fun tools_of :: "sse list \<Rightarrow> (string \<times> string) list" where
  "tools_of [] = []"
| "tools_of (Block_Start i (B_Tool tid name) # es) = (name, input_of i es) # tools_of es"
| "tools_of (e # es) = tools_of es"

text \<open>The tools some events deliver, whatever follows, and the count of the assembler with them.\<close>

definition ready_state :: "tool_state \<Rightarrow> bool" where
  "ready_state s \<longleftrightarrow> ts_name s \<noteq> [] \<and> ts_args s \<noteq> [] \<and> tool_complete s"

definition tool_input :: "tool_state \<Rightarrow> string \<times> string" where
  "tool_input s = (ts_name s, ts_args s)"

definition tool_limit :: "int \<Rightarrow> assembler \<Rightarrow> int" where
  "tool_limit omax a = (case as_max_tools a of Some n \<Rightarrow> n | None \<Rightarrow> omax)"

definition within_limit :: "int \<Rightarrow> assembler \<Rightarrow> bool" where
  "within_limit omax a \<longleftrightarrow> (0 < tool_limit omax a \<longrightarrow> int (as_count a) \<le> tool_limit omax a)"

definition delivers :: "int \<Rightarrow> assembler \<Rightarrow> sse list \<Rightarrow> assembler \<Rightarrow> tool_state list \<Rightarrow> bool" where
  "delivers omax a ev a' ts \<longleftrightarrow>
     (\<forall>es. tools_of (ev @ es) = map tool_input ts @ tools_of es) \<and> (\<forall>s \<in> set ts. ready_state s) \<and>
     as_count a' = as_count a + length ts \<and> (as_saw_tool a' \<longleftrightarrow> as_saw_tool a \<or> ts \<noteq> []) \<and>
     tool_limit omax a' = tool_limit omax a \<and> (within_limit omax a \<longrightarrow> within_limit omax a')"

definition ships :: "int \<Rightarrow> assembler \<Rightarrow> sse list \<Rightarrow> assembler \<Rightarrow> bool" where
  "ships omax a ev a' \<longleftrightarrow> (\<exists>ts. delivers omax a ev a' ts)"

lemma ships_nothing:
  "\<lbrakk>\<And>es. tools_of (ev @ es) = tools_of es; as_count a' = as_count a; as_saw_tool a' = as_saw_tool a; as_max_tools a' = as_max_tools a\<rbrakk>
   \<Longrightarrow> ships omax a ev a'"
  unfolding ships_def delivers_def by (intro exI [of _ "[]"]) (simp add: within_limit_def tool_limit_def)

lemma ships_append: "ships omax a ev a1 \<Longrightarrow> ships omax a1 ev' a2 \<Longrightarrow> ships omax a (ev @ ev') a2"
proof -
  assume "ships omax a ev a1" "ships omax a1 ev' a2"
  then obtain ts ts' where "delivers omax a ev a1 ts" "delivers omax a1 ev' a2 ts'" by (auto simp: ships_def)
  then have "delivers omax a (ev @ ev') a2 (ts @ ts')" by (auto simp: delivers_def)
  then show ?thesis by (auto simp: ships_def)
qed

text \<open>A method that keeps a condition, emits only what the protocol allows and delivers complete tools.\<close>

definition conforms :: "int \<Rightarrow> (assembler \<Rightarrow> bool) \<Rightarrow> (assembler \<Rightarrow> bool) \<Rightarrow> (assembler \<Rightarrow> sse list \<times> assembler) \<Rightarrow> bool" where
  "conforms omax P Q f \<longleftrightarrow> (\<forall>a. P a \<and> settled a \<longrightarrow>
     settled (snd (f a)) \<and> Q (snd (f a)) \<and> sse_run (phase_of a) (fst (f a)) = Some (phase_of (snd (f a))) \<and>
     ships omax a (fst (f a)) (snd (f a)))"

lemma conforms_andthen: "conforms omax P Q f \<Longrightarrow> conforms omax Q R g \<Longrightarrow> conforms omax P R (andthen f g)"
  by (auto simp: conforms_def andthen_def split: prod.splits) (metis fst_conv snd_conv option.simps(5) ships_append)+

lemma conforms_run_all: "(\<And>k. k \<in> set ks \<Longrightarrow> conforms omax P P (f k)) \<Longrightarrow> conforms omax P P (run_all f ks)"
proof (induction ks)
  case (Cons k ks)
  have "run_all f (k # ks) = andthen (f k) (run_all f ks)" by (simp add: fun_eq_iff andthen_def)
  then show ?case using Cons conforms_andthen by (metis list.set_intros)
qed (simp add: conforms_def ships_nothing)

lemma conforms_weaken: "conforms omax P Q f \<Longrightarrow> (\<And>a. P' a \<Longrightarrow> P a) \<Longrightarrow> (\<And>a. Q a \<Longrightarrow> Q' a) \<Longrightarrow> conforms omax P' Q' f"
  unfolding conforms_def by blast

text \<open>The conditions between the methods: started, no thinking block open, no block open.\<close>

definition begun :: "assembler \<Rightarrow> bool" where "begun a \<longleftrightarrow> as_started a"
definition no_thinking :: "assembler \<Rightarrow> bool" where "no_thinking a \<longleftrightarrow> as_started a \<and> as_thinking a = None"
definition quiet :: "assembler \<Rightarrow> bool" where "quiet a \<longleftrightarrow> as_started a \<and> as_thinking a = None \<and> as_text a = None"

lemmas conditions = begun_def no_thinking_def quiet_def

lemma conforms_start: "conforms omax (\<lambda>_. True) begun (assembler_start n)"
  by (auto simp: conforms_def assembler_start_def phase_of_def settled_def begun_def split: option.splits intro!: ships_nothing)

lemma conforms_close_thinking: "conforms omax begun no_thinking close_thinking"
  by (auto simp: conforms_def close_thinking_def phase_of_def settled_def conditions split: option.splits intro!: ships_nothing)

lemma conforms_close_text: "conforms omax no_thinking quiet close_text"
  by (auto simp: conforms_def close_text_def phase_of_def settled_def conditions split: option.splits intro!: ships_nothing)

text \<open>In a settled state no tool is open, so closing the tools does nothing.\<close>

lemma close_tools_settled: "settled a \<Longrightarrow> close_tools a = ([], a)"
proof -
  assume "settled a"
  then have "filter (\<lambda>x. tool_open (snd x)) (as_tools a) = []"
    by (auto simp: settled_def tool_settled_def tool_open_def filter_empty_conv)
  then show ?thesis by (simp add: close_tools_def)
qed

lemma conforms_close_tools: "conforms omax P P close_tools"
  by (simp add: conforms_def close_tools_settled ships_nothing)

lemma conforms_open_thinking: "conforms omax begun (\<lambda>a. begun a \<and> as_thinking a \<noteq> None) open_thinking"
  by (auto simp: conforms_def open_thinking_def andthen_def close_text_def phase_of_def settled_def conditions
      split: option.splits intro!: ships_nothing)

lemma conforms_emit_reasoning: "conforms omax begun begun (emit_reasoning r)"
proof (cases "r = []")
  case False
  have "conforms omax (\<lambda>a. begun a \<and> as_thinking a \<noteq> None) begun
      (\<lambda>a. ([Block_Delta (the (as_thinking a)) (D_Thinking r)], a\<lparr>as_chars := as_chars a + length r\<rparr>))"
    by (auto simp: conforms_def phase_of_def settled_def conditions intro!: ships_nothing)
  from conforms_andthen [OF conforms_close_tools conforms_andthen [OF conforms_open_thinking this]] False
  show ?thesis by (simp add: emit_reasoning_def conforms_def)
qed (simp add: conforms_def emit_reasoning_def ships_nothing)

lemma conforms_open_text: "conforms omax no_thinking (\<lambda>a. no_thinking a \<and> as_text a \<noteq> None) open_text"
  by (auto simp: conforms_def open_text_def phase_of_def settled_def conditions split: option.splits intro!: ships_nothing)

lemma conforms_emit_content: "conforms omax begun begun (emit_content c)"
proof (cases "c = []")
  case False
  have "conforms omax (\<lambda>a. no_thinking a \<and> as_text a \<noteq> None) begun
      (\<lambda>a. ([Block_Delta (the (as_text a)) (D_Text c)], a\<lparr>as_chars := as_chars a + length c\<rparr>))"
    by (auto simp: conforms_def phase_of_def settled_def conditions intro!: ships_nothing)
  from conforms_andthen [OF conforms_close_tools conforms_andthen [OF conforms_close_thinking
    conforms_andthen [OF conforms_open_text this]]] False
  show ?thesis by (simp add: emit_content_def conforms_def)
qed (simp add: conforms_def emit_content_def ships_nothing)

lemma conforms_emit: "conforms omax begun begun (emit_text_and_thinking p)"
  by (cases p) (simp add: emit_text_and_thinking_def conforms_andthen [OF conforms_emit_reasoning conforms_emit_content])

text \<open>Fields the phase does not depend on.\<close>

lemma settled_other [simp]:
  "settled (a\<lparr>as_held := h\<rparr>) = settled a" "settled (a\<lparr>as_chars := n\<rparr>) = settled a"
  "settled (a\<lparr>as_tools_pending := b\<rparr>) = settled a" "settled (a\<lparr>as_max_tools := m\<rparr>) = settled a"
  by (simp_all add: settled_def)

lemma phase_other [simp]:
  "phase_of (a\<lparr>as_held := h\<rparr>) = phase_of a" "phase_of (a\<lparr>as_chars := n\<rparr>) = phase_of a"
  "phase_of (a\<lparr>as_tools_pending := b\<rparr>) = phase_of a" "phase_of (a\<lparr>as_max_tools := m\<rparr>) = phase_of a"
  "phase_of (a\<lparr>as_tools := ts\<rparr>) = phase_of a"
  by (simp_all add: phase_of_def cong: option.case_cong)

lemma conforms_feed_text: "conforms omax begun begun (feed_text c r)"
proof (unfold conforms_def, intro allI impI)
  fix a assume "begun a \<and> settled a"
  with conforms_emit [where p = "(c, r)"] show "settled (snd (feed_text c r a)) \<and> begun (snd (feed_text c r a)) \<and>
      sse_run (phase_of a) (fst (feed_text c r a)) = Some (phase_of (snd (feed_text c r a))) \<and>
      ships omax a (fst (feed_text c r a)) (snd (feed_text c r a))"
    unfolding feed_text_def conforms_def by (cases "c = [] \<and> r = []") (simp_all add: begun_def ships_nothing)
qed

subsection \<open>Tools\<close>

lemma settled_set_tool: "settled a \<Longrightarrow> tool_settled s \<Longrightarrow> settled (set_tool oi s a)"
  by (auto simp: settled_def set_tool_def distinct_update update_conv' split: if_splits)

lemma phase_set_tool [simp]: "phase_of (set_tool oi s a) = phase_of a"
  by (simp add: set_tool_def)

lemma settled_at: "settled a \<Longrightarrow> map_of (as_tools a) oi = Some s \<Longrightarrow> tool_settled s"
  by (auto simp: settled_def)

lemma set_tool_same [simp]: "set_tool oi s (set_tool oi t a) = set_tool oi s a"
  by (simp add: set_tool_def)

lemma quiet_other [simp]:
  "quiet (set_tool oi s a) = quiet a" "quiet (a\<lparr>as_tools_pending := b\<rparr>) = quiet a" "quiet (a\<lparr>as_max_tools := m\<rparr>) = quiet a"
  "quiet (a\<lparr>as_held := h\<rparr>) = quiet a"
  by (simp_all add: quiet_def set_tool_def)

lemma absorb_into_settled: "tool_settled s \<Longrightarrow> tool_settled (absorb_into allowed d s)"
  by (simp add: absorb_into_def Let_def tool_settled_def)

lemma tool_at_settled: "settled a \<Longrightarrow> tool_settled (tool_at uuid d a)"
  by (auto simp: tool_at_def settled_def new_tool_def tool_settled_def split: option.splits)

lemma absorb_keeps: "settled a \<Longrightarrow> settled (absorb uuid raw a) \<and> phase_of (absorb uuid raw a) = phase_of a \<and> quiet (absorb uuid raw a) = quiet a"
  by (simp add: absorb_def Let_def settled_set_tool absorb_into_settled tool_at_settled split: pyval.splits)

lemma absorb_same:
  "as_count (absorb uuid raw a) = as_count a" "as_saw_tool (absorb uuid raw a) = as_saw_tool a"
  "as_max_tools (absorb uuid raw a) = as_max_tools a"
  by (simp_all add: absorb_def Let_def set_tool_def split: pyval.splits)

lemma absorb_all_keeps:
  "settled a \<Longrightarrow> settled (fold (absorb uuid) calls a) \<and> phase_of (fold (absorb uuid) calls a) = phase_of a \<and>
     quiet (fold (absorb uuid) calls a) = quiet a \<and> as_count (fold (absorb uuid) calls a) = as_count a \<and>
     as_saw_tool (fold (absorb uuid) calls a) = as_saw_tool a \<and> as_max_tools (fold (absorb uuid) calls a) = as_max_tools a"
  by (induction calls arbitrary: a) (simp_all add: absorb_keeps absorb_same)

text \<open>A tool goes out in three events: its start, its whole arguments, its stop.\<close>

definition tool_events :: "nat \<Rightarrow> tool_state \<Rightarrow> string \<Rightarrow> sse list" where
  "tool_events n s name = [Block_Start n (B_Tool (ts_id s) name), Block_Delta n (D_Json (ts_args s)), Block_Stop n]"

definition after_tool :: "int \<Rightarrow> tool_state \<Rightarrow> assembler \<Rightarrow> assembler" where
  "after_tool oi s a =
     set_tool oi (s\<lparr>ts_block := Some (as_next a), ts_started := True, ts_stopped := True, ts_closing := False, ts_sent := ts_args s\<rparr>)
       (a\<lparr>as_next := Suc (as_next a), as_count := Suc (as_count a), as_saw_tool := True, as_held := [],
          as_chars := as_chars a + length (ts_args s)\<rparr>)"

lemma set_tool_update [simp]:
  "(set_tool oi s a)\<lparr>as_chars := n\<rparr> = set_tool oi s (a\<lparr>as_chars := n\<rparr>)"
  by (simp add: set_tool_def)

lemma tool_goes_out:
  assumes "tool_settled s" "\<not> ts_started s" "ts_args s \<noteq> []" "is_complete_tool_arguments_json (ts_name s) (ts_args s)"
    and "open_tool oi s name a = (ev, s1, a2)"
  shows "send_and_close oi s1 a2 = ([Block_Delta (as_next a) (D_Json (ts_args s)), Block_Stop (as_next a)], after_tool oi s a)"
    "ev = [Block_Start (as_next a) (B_Tool (ts_id s) name)]"
proof -
  let ?a = "a\<lparr>as_next := Suc (as_next a), as_count := Suc (as_count a), as_saw_tool := True, as_held := []\<rparr>"
  have o: "s1 = s\<lparr>ts_block := Some (as_next a), ts_started := True\<rparr>" "a2 = set_tool oi s1 ?a"
    and ev: "ev = [Block_Start (as_next a) (B_Tool (ts_id s) name)]"
    using assms(5) by (auto simp: open_tool_def Let_def)
  have s: "ts_sent s = []" "\<not> ts_closing s" using assms(1,2) by (simp_all add: tool_settled_def)
  have "as_chars (set_tool oi s1 ?a) = as_chars a" by (simp add: set_tool_def)
  then have f: "flush_tool_args oi s1 a2 = ([Block_Delta (as_next a) (D_Json (ts_args s))], s1\<lparr>ts_sent := ts_args s\<rparr>,
      set_tool oi (s1\<lparr>ts_sent := ts_args s\<rparr>) (?a\<lparr>as_chars := as_chars a + length (ts_args s)\<rparr>))"
    using assms(3,4) s unfolding o(2) by (simp add: flush_tool_args_def o(1) block_at_def Let_def)
  show "ev = [Block_Start (as_next a) (B_Tool (ts_id s) name)]" by (fact ev)
  show "send_and_close oi s1 a2 = ([Block_Delta (as_next a) (D_Json (ts_args s)), Block_Stop (as_next a)], after_tool oi s a)"
    using assms(3,4) s unfolding send_and_close_def f
    by (cases s) (simp add: o(1) tool_complete_def block_at_def after_tool_def)
qed

lemma after_tool_keeps: "settled a \<Longrightarrow> quiet a \<Longrightarrow> settled (after_tool oi s a) \<and> quiet (after_tool oi s a)"
  by (auto simp: after_tool_def settled_def quiet_def set_tool_def distinct_update update_conv' tool_settled_def split: if_splits)

lemma quiet_phase: "quiet a \<Longrightarrow> phase_of a = Between (as_next a)"
  by (simp add: quiet_def phase_of_def)

lemma as_next_after [simp]: "as_next (after_tool oi s a) = Suc (as_next a)"
  by (simp add: after_tool_def set_tool_def)

lemma tool_events_phases: "sse_run (Between n) (tool_events n s name) = Some (Between (Suc n))"
  by (simp add: tool_events_def)

lemma tool_events_tools: "tools_of (tool_events n s (ts_name s) @ es) = tool_input s # tools_of es"
  by (simp add: tool_events_def tool_input_def)

lemma budget_left:
  assumes "tool_budget_left omax a = (b, a1)"
  shows "a1 = a\<lparr>as_max_tools := Some (tool_limit omax a)\<rparr>"
    "b = (if tool_limit omax a \<le> 0 then None else Some (max 0 (tool_limit omax a - int (as_count a))))"
  using assms by (auto simp: tool_budget_left_def Let_def tool_limit_def split: option.splits)

text \<open>One tool out, the budget allowing it.\<close>

lemma one_tool:
  assumes "settled a" "quiet a" "ready_state s" "tool_budget_left omax a = (b, a1)" "\<not> exhausted b"
  shows "settled (after_tool oi s a1) \<and> quiet (after_tool oi s a1) \<and>
    sse_run (phase_of a) (tool_events (as_next a1) s (ts_name s)) = Some (phase_of (after_tool oi s a1)) \<and>
    ships omax a (tool_events (as_next a1) s (ts_name s)) (after_tool oi s a1)"
proof -
  note a1 = budget_left(1) [OF assms(4)]
  have "settled a1" "quiet a1" using assms(1,2) by (simp_all add: a1)
  then have k: "settled (after_tool oi s a1)" "quiet (after_tool oi s a1)" using after_tool_keeps by blast+
  have "delivers omax a (tool_events (as_next a1) s (ts_name s)) (after_tool oi s a1) [s]"
    using assms(3,5) unfolding budget_left(2) [OF assms(4)]
    by (auto simp: exhausted_def delivers_def tool_events_tools a1 after_tool_def set_tool_def within_limit_def tool_limit_def)
  then have "ships omax a (tool_events (as_next a1) s (ts_name s)) (after_tool oi s a1)" unfolding ships_def by blast
  moreover have "phase_of a = Between (as_next a1)" using assms(2) by (simp add: quiet_phase a1)
  ultimately show ?thesis using k by (simp add: tool_events_phases quiet_phase)
qed

lemma conforms_stay: "conforms omax P P (\<lambda>a. ([], a))"
  by (simp add: conforms_def ships_nothing)

lemma conforms_emit_tools: "conforms omax quiet quiet (emit_tools omax ois)"
proof (induction ois)
  case (Cons oi ois)
  show ?case
  proof (unfold conforms_def, intro allI impI)
    fix a assume a: "quiet a \<and> settled a"
    let ?r = "emit_tools omax (oi # ois) a"
    let ?G = "\<lambda>r. settled (snd r) \<and> quiet (snd r) \<and> sse_run (phase_of a) (fst r) = Some (phase_of (snd r)) \<and> ships omax a (fst r) (snd r)"
    have skip: "?G (emit_tools omax ois a)" using Cons a by (simp add: conforms_def)
    have stop: "?G ([], a)" using a by (simp add: ships_nothing)
    show "?G ?r"
    proof (cases "map_of (as_tools a) oi")
      case None
      then show ?thesis using skip by simp
    next
      case (Some s)
      have s: "tool_settled s" using a Some settled_at by blast
      show ?thesis
      proof (cases "ts_stopped s")
        case True
        then show ?thesis using skip Some by simp
      next
        case False
        then have ns: "\<not> ts_started s" using s by (simp add: tool_settled_def)
        obtain b a1 where b: "tool_budget_left omax a = (b, a1)" by fastforce
        have stop1: "?G ([], a1)" using a by (simp add: budget_left(1) [OF b] ships_def delivers_def tool_limit_def within_limit_def)
        show ?thesis
        proof (cases "ready_state s \<and> \<not> blocked_below oi a \<and> \<not> list_ex (\<lambda>(k, s). tool_open s) (as_tools a) \<and> \<not> exhausted b")
          case True
          obtain ev s1 a2 where o: "open_tool oi s (ts_name s) a1 = (ev, s1, a2)" by (metis prod_cases3)
          note g = tool_goes_out [OF s ns _ _ o]
          have rdy: "ready_state s" using True by blast
          then have g: "ev = [Block_Start (as_next a1) (B_Tool (ts_id s) (ts_name s))]" "send_and_close oi s1 a2 =
              ([Block_Delta (as_next a1) (D_Json (ts_args s)), Block_Stop (as_next a1)], after_tool oi s a1)"
            using g by (auto simp: ready_state_def tool_complete_def)
          obtain ev' a3 where e: "emit_tools omax ois (after_tool oi s a1) = (ev', a3)" by fastforce
          have r: "?r = (tool_events (as_next a1) s (ts_name s) @ ev', a3)"
            using Some False ns True b o g e
            by (auto simp: ready_state_def andthen_def tool_events_def split: option.splits)
          have one: "settled (after_tool oi s a1) \<and> quiet (after_tool oi s a1) \<and>
              sse_run (phase_of a) (tool_events (as_next a1) s (ts_name s)) = Some (phase_of (after_tool oi s a1)) \<and>
              ships omax a (tool_events (as_next a1) s (ts_name s)) (after_tool oi s a1)"
            using one_tool [OF _ _ rdy b] a True by blast
          have "settled a3 \<and> quiet a3 \<and> sse_run (phase_of (after_tool oi s a1)) ev' = Some (phase_of a3) \<and> ships omax (after_tool oi s a1) ev' a3"
            using Cons one e unfolding conforms_def by (metis fst_conv snd_conv)
          with one show ?thesis unfolding r using ships_append [of omax a _ "after_tool oi s a1"] by simp
        next
          case no: False
          have "?r = ([], a) \<or> ?r = ([], a1) \<or> ?r = emit_tools omax ois a"
            using Some False ns no b by (auto simp: ready_state_def split: option.splits)
          then show ?thesis using skip stop stop1 by auto
        qed
      qed
    qed
  qed
qed (simp add: conforms_def ships_nothing)

text \<open>A change of state that emits nothing, before a method.\<close>

lemma ships_from:
  "as_count a1 = as_count a \<Longrightarrow> as_saw_tool a1 = as_saw_tool a \<Longrightarrow> as_max_tools a1 = as_max_tools a \<Longrightarrow> ships omax a1 ev a' = ships omax a ev a'"
  by (simp add: ships_def delivers_def tool_limit_def within_limit_def)

lemma conforms_after:
  assumes "conforms omax Q R g"
    and "\<And>a. P a \<Longrightarrow> settled a \<Longrightarrow> settled (h a) \<and> Q (h a) \<and> phase_of (h a) = phase_of a \<and> as_count (h a) = as_count a \<and>
      as_saw_tool (h a) = as_saw_tool a \<and> as_max_tools (h a) = as_max_tools a"
  shows "conforms omax P R (\<lambda>a. g (h a))"
proof (unfold conforms_def, intro allI impI)
  fix a assume "P a \<and> settled a"
  with assms(2) have h: "settled (h a)" "Q (h a)" "phase_of (h a) = phase_of a" "as_count (h a) = as_count a"
    "as_saw_tool (h a) = as_saw_tool a" "as_max_tools (h a) = as_max_tools a" by blast+
  with assms(1) show "settled (snd (g (h a))) \<and> R (snd (g (h a))) \<and>
      sse_run (phase_of a) (fst (g (h a))) = Some (phase_of (snd (g (h a)))) \<and> ships omax a (fst (g (h a))) (snd (g (h a)))"
    unfolding conforms_def using ships_from [OF h(4-6)] by metis
qed

lemma conforms_cong: "(\<And>a. g a = f a) \<Longrightarrow> conforms omax P Q f \<Longrightarrow> conforms omax P Q g"
  by (metis ext)

lemma conforms_feed_tools: "conforms omax begun begun (feed_tools uuid omax calls)"
proof (cases "calls = []")
  case False
  have e: "conforms omax quiet quiet (\<lambda>a. emit_tools omax (sort (map fst (as_tools (fold (absorb uuid) calls a)))) (fold (absorb uuid) calls a))"
  proof (unfold conforms_def, intro allI impI)
    fix a assume a: "quiet a \<and> settled a"
    let ?a1 = "fold (absorb uuid) calls a"
    have k: "settled ?a1" "quiet ?a1" "phase_of ?a1 = phase_of a" "as_count ?a1 = as_count a" "as_saw_tool ?a1 = as_saw_tool a"
      "as_max_tools ?a1 = as_max_tools a" using absorb_all_keeps a by blast+
    show "settled (snd (emit_tools omax (sort (map fst (as_tools ?a1))) ?a1)) \<and> quiet (snd (emit_tools omax (sort (map fst (as_tools ?a1))) ?a1)) \<and>
        sse_run (phase_of a) (fst (emit_tools omax (sort (map fst (as_tools ?a1))) ?a1)) =
          Some (phase_of (snd (emit_tools omax (sort (map fst (as_tools ?a1))) ?a1))) \<and>
        ships omax a (fst (emit_tools omax (sort (map fst (as_tools ?a1))) ?a1)) (snd (emit_tools omax (sort (map fst (as_tools ?a1))) ?a1))"
      using conforms_emit_tools k(1,2) ships_from [OF k(4-6)] unfolding conforms_def k(3) [symmetric] by blast
  qed
  have c: "conforms omax begun quiet (andthen close_thinking (andthen close_text (\<lambda>a.
        let a1 = fold (absorb uuid) calls a in emit_tools omax (sort (map fst (as_tools a1))) a1)))"
    by (simp add: Let_def conforms_andthen [OF conforms_close_thinking conforms_andthen [OF conforms_close_text e]])
  have "conforms omax begun quiet (feed_tools uuid omax calls)"
    by (rule conforms_cong [OF _ conforms_after [OF c, where h = "\<lambda>a. a\<lparr>as_tools_pending := True\<rparr>"]])
      (simp_all add: feed_tools_def False begun_def)
  then show ?thesis by (rule conforms_weaken) (simp_all add: conditions)
qed (simp add: feed_tools_def [abs_def] conforms_stay)

lemma conforms_feed: "conforms omax (\<lambda>_. True) begun (feed uuid omax c)"
  by (cases c) (simp add: feed_def conforms_andthen [OF conforms_start conforms_andthen [OF conforms_feed_text conforms_feed_tools]])

subsection \<open>Finishing\<close>

lemma filter_update_one:
  "\<forall>x \<in> set xs. \<not> P (snd x) \<Longrightarrow> distinct (map fst xs) \<Longrightarrow> P v \<Longrightarrow> filter (\<lambda>x. P (snd x)) (AList.update k v xs) = [(k, v)]"
  by (induction xs) (auto simp: filter_empty_conv)

lemma complete_not_blank: "is_complete_tool_arguments_json name s \<Longrightarrow> strip s \<noteq> []"
  by (auto simp: is_complete_tool_arguments_json_def complete_with_def)

lemma open_then_close:
  assumes "settled a" "tool_settled s" "\<not> ts_started s" "ready_state s" "open_tool oi s name a = (ev, s1, a2)"
  shows "close_tools a2 = ([Block_Delta (as_next a) (D_Json (ts_args s)), Block_Stop (as_next a)], after_tool oi s a)"
proof -
  let ?a = "a\<lparr>as_next := Suc (as_next a), as_count := Suc (as_count a), as_saw_tool := True, as_held := []\<rparr>"
  have o: "s1 = s\<lparr>ts_block := Some (as_next a), ts_started := True\<rparr>" "a2 = set_tool oi s1 ?a"
    using assms(5) by (auto simp: open_tool_def Let_def)
  have s: "ts_sent s = []" "\<not> ts_closing s" "\<not> ts_stopped s" using assms(2,3) by (simp_all add: tool_settled_def)
  have rdy: "ts_args s \<noteq> []" "strip (ts_args s) \<noteq> []"
    using assms(4) complete_not_blank by (auto simp: ready_state_def tool_complete_def)
  have "\<forall>x \<in> set (as_tools a). \<not> tool_open (snd x)" "distinct (map fst (as_tools a))"
    using assms(1) by (auto simp: settled_def tool_settled_def tool_open_def)
  moreover have "tool_open s1" using s by (simp add: o(1) tool_open_def)
  ultimately have "filter (\<lambda>x. tool_open (snd x)) (as_tools a2) = [(oi, s1)]"
    using filter_update_one [of "as_tools a" tool_open s1 oi] by (simp add: o(2) set_tool_def)
  then have c: "close_tools a2 = close_tool oi a2"
    by (simp add: close_tools_def split_beta)
  have m: "map_of (as_tools a2) oi = Some s1" by (simp add: o(2) set_tool_def update_conv')
  have "as_chars (set_tool oi s1 ?a) = as_chars a" by (simp add: set_tool_def)
  then have f: "flush_tool_args oi (s1\<lparr>ts_closing := True\<rparr>) a2 = ([Block_Delta (as_next a) (D_Json (ts_args s))],
      s1\<lparr>ts_closing := True, ts_sent := ts_args s\<rparr>,
      set_tool oi (s1\<lparr>ts_closing := True, ts_sent := ts_args s\<rparr>) (?a\<lparr>as_chars := as_chars a + length (ts_args s)\<rparr>))"
    using rdy s unfolding o(2) by (simp add: flush_tool_args_def o(1) block_at_def Let_def)
  show ?thesis
    using rdy s f unfolding c close_tool_def m by (cases s) (simp add: o(1) block_at_def after_tool_def)
qed

lemma final_tool_same [simp]:
  "ts_started (final_tool al s) = ts_started s" "ts_stopped (final_tool al s) = ts_stopped s" "ts_sent (final_tool al s) = ts_sent s"
  "ts_closing (final_tool al s) = ts_closing s" "ts_block (final_tool al s) = ts_block s"
  by (simp_all add: final_tool_def Let_def)

lemma conforms_finish_tool: "conforms omax quiet quiet (finish_tool omax rdy oi)"
proof (unfold conforms_def, intro allI impI)
  fix a assume a: "quiet a \<and> settled a"
  let ?r = "finish_tool omax rdy oi a"
  let ?G = "\<lambda>r. settled (snd r) \<and> quiet (snd r) \<and> sse_run (phase_of a) (fst r) = Some (phase_of (snd r)) \<and> ships omax a (fst r) (snd r)"
  have stop: "?G ([], a)" using a by (simp add: ships_nothing)
  show "?G ?r"
  proof (cases "map_of (as_tools a) oi")
    case None
    then show ?thesis using stop by (simp add: finish_tool_def)
  next
    case (Some s0)
    have s0: "tool_settled s0" using a Some settled_at by blast
    let ?s = "final_tool (as_allowed a) s0"
    let ?a0 = "set_tool oi ?s a"
    show ?thesis
    proof (cases "ts_stopped s0")
      case True
      then show ?thesis using stop Some by (simp add: finish_tool_def)
    next
      case False
      then have ns: "\<not> ts_started ?s" using s0 by (simp add: tool_settled_def)
      have s: "tool_settled ?s" using s0 by (simp add: tool_settled_def)
      have a0: "settled ?a0" "quiet ?a0" using a s by (simp_all add: settled_set_tool)
      have same: "as_count ?a0 = as_count a" "as_saw_tool ?a0 = as_saw_tool a" "as_max_tools ?a0 = as_max_tools a"
        by (simp_all add: set_tool_def)
      have stop0: "?G ([], ?a0)" using a a0 same by (simp add: ships_nothing)
      obtain b a1 where b: "tool_budget_left omax ?a0 = (b, a1)" by fastforce
      have stop1: "?G ([], a1)"
        using a a0 same by (simp add: budget_left(1) [OF b] ships_def delivers_def tool_limit_def within_limit_def)
      obtain ev s1 a2 where o: "open_tool oi ?s (ts_name ?s) a1 = (ev, s1, a2)" by (metis prod_cases3)
      have a1: "settled a1" using a0 by (simp add: budget_left(1) [OF b])
      let ?ev = "tool_events (as_next a1) ?s (ts_name ?s)"
      have "?r = ([], ?a0) \<or> ?r = ([], a1) \<or> (?r = (?ev, after_tool oi ?s a1) \<and> ready_state ?s \<and> \<not> exhausted b)"
      proof -
        let ?name = "if strip (ts_name s0) \<noteq> [] then ts_name ?s else []"
        let ?args = "if strip (ts_args s0) \<noteq> [] \<and> ?name \<noteq> [] then ts_args ?s else strip (ts_args s0)"
        show ?thesis
        proof (cases "?name \<noteq> [] \<and> ?args \<noteq> [] \<and> is_complete_tool_arguments_json ?name ?args")
          case True
          then have n: "?name = ts_name ?s" "?args = ts_args ?s" by (auto split: if_splits)
          then have rdy: "ready_state ?s" using True by (simp add: ready_state_def tool_complete_def)
          note cl = close_tools_settled [OF a1] open_then_close [OF a1 s ns rdy o] tool_goes_out(2) [OF s ns _ _ o]
          have ev: "ev = [Block_Start (as_next a1) (B_Tool (ts_id ?s) (ts_name ?s))]" using o by (auto simp: open_tool_def Let_def)
          have op: "andthen close_tools (andthen (\<lambda>a. let (ev, _, a') = open_tool oi ?s (ts_name ?s) a in (ev, a')) close_tools) a1 =
              (?ev, after_tool oi ?s a1)"
            by (simp add: andthen_def cl(1,2) o ev tool_events_def)
          have "?r = ([], ?a0) \<or> ?r = ([], a1) \<or> (?r = (?ev, after_tool oi ?s a1) \<and> \<not> exhausted b)"
            unfolding finish_tool_def Some Let_def option.case n
            using True False ns b op by (auto simp: n split: option.splits)
          then show ?thesis using rdy by blast
        next
          case no: False
          have "?r = ([], ?a0)"
            unfolding finish_tool_def Some Let_def option.case using no False ns by (auto split: if_splits)
          then show ?thesis by blast
        qed
      qed
      then show ?thesis
      proof (elim disjE conjE)
        assume r: "?r = (?ev, after_tool oi ?s a1)" and rdy: "ready_state ?s" and k: "\<not> exhausted b"
        from one_tool [OF a0 rdy b k] show ?thesis unfolding r using ships_from [OF same] by simp
      qed (use stop0 stop1 in auto)
    qed
  qed
qed

lemma conforms_release_held: "conforms omax begun begun release_held"
proof (unfold conforms_def, intro allI impI)
  fix a assume a: "begun a \<and> settled a"
  have "conforms omax begun begun (run_all emit_text_and_thinking (as_held a))" by (rule conforms_run_all) (rule conforms_emit)
  then have "let r = run_all emit_text_and_thinking (as_held a) a in settled (snd r) \<and> begun (snd r) \<and>
      sse_run (phase_of a) (fst r) = Some (phase_of (snd r)) \<and> ships omax a (fst r) (snd r)"
    using a by (simp add: conforms_def Let_def)
  then show "settled (snd (release_held a)) \<and> begun (snd (release_held a)) \<and>
      sse_run (phase_of a) (fst (release_held a)) = Some (phase_of (snd (release_held a))) \<and>
      ships omax a (fst (release_held a)) (snd (release_held a))"
    using a by (auto simp: release_held_def begun_def ships_nothing Let_def split_beta ships_def delivers_def tool_limit_def within_limit_def)
qed

lemma conforms_finish_body: "conforms omax begun quiet (finish_body omax)"
proof -
  have f: "conforms omax quiet quiet (\<lambda>a. andthen (run_all (finish_tool omax rdy) (sort (map fst (as_tools a)))) close_tools a)" for rdy
  proof -
    have "conforms omax quiet quiet (andthen (run_all (finish_tool omax rdy) ks) close_tools)" for ks
      by (rule conforms_andthen [OF conforms_run_all conforms_close_tools]) (rule conforms_finish_tool)
    then show ?thesis unfolding conforms_def by blast
  qed
  have "conforms omax begun quiet (andthen release_held (andthen close_thinking (andthen close_text (\<lambda>a.
      andthen (run_all (finish_tool omax rdy) (sort (map fst (as_tools a)))) close_tools a))))" for rdy
    by (intro conforms_andthen [OF conforms_release_held] conforms_andthen [OF conforms_close_thinking]
        conforms_andthen [OF conforms_close_text] f)
  then show ?thesis unfolding conforms_def finish_body_def by blast
qed

lemma fill_settled: "tool_settled s \<Longrightarrow> tool_settled (fill_empty_args s)"
  by (auto simp: fill_empty_args_def Let_def tool_settled_def)

definition fill_all :: "assembler \<Rightarrow> assembler" where
  "fill_all a = a\<lparr>as_tools := map (\<lambda>(k, s). (k, fill_empty_args s)) (as_tools a)\<rparr>"

lemma fill_all_keeps: "settled a \<Longrightarrow> settled (fill_all a)"
proof -
  assume a: "settled a"
  have "map_of (map (\<lambda>(k, s). (k, fill_empty_args s)) (as_tools a)) k = map_option fill_empty_args (map_of (as_tools a) k)" for k
    by (induction "as_tools a") (auto simp: map_of_map)
  then show ?thesis using a by (auto simp: settled_def fill_all_def fill_settled split_beta comp_def)
qed

lemma conforms_filled: "conforms omax begun quiet (\<lambda>a. finish_body omax (fill_all a))"
  by (rule conforms_after [OF conforms_finish_body])
    (auto simp: fill_all_keeps, auto simp: fill_all_def begun_def)

text \<open>The whole stream up to its last two events, from a new assembler.\<close>

definition stream_body :: "(int \<Rightarrow> string) \<Rightarrow> int \<Rightarrow> (string \<times> string \<times> pyval list) list \<Rightarrow> int \<Rightarrow> assembler \<Rightarrow> sse list \<times> assembler" where
  "stream_body uuid omax chunks n =
     andthen (run_all (feed uuid omax) chunks) (andthen (assembler_start n) (\<lambda>a. finish_body omax (fill_all a)))"

lemma run_stream_body:
  "fst (run_stream uuid omax chunks fr usage n a) =
     fst (stream_body uuid omax chunks n a) @ finish_usage fr usage n (snd (stream_body uuid omax chunks n a))"
  by (simp add: run_stream_def stream_body_def finish_def andthen_def fill_all_def split_beta Let_def)

lemma conforms_stream_body: "conforms omax (\<lambda>_. True) quiet (stream_body uuid omax chunks n)"
proof -
  have "conforms omax (\<lambda>_. True) (\<lambda>_. True) (run_all (feed uuid omax) chunks)"
    by (rule conforms_run_all) (rule conforms_weaken [OF conforms_feed], simp_all)
  from conforms_andthen [OF this conforms_andthen [OF conforms_start conforms_filled]] show ?thesis unfolding stream_body_def .
qed

lemma new_assembler_settled: "settled (new_assembler mid model req mt al)" "phase_of (new_assembler mid model req mt al) = Fresh"
  by (simp_all add: new_assembler_def settled_def phase_of_def)

lemma stream_body_facts:
  assumes "a = new_assembler mid model req mt al" "stream_body uuid omax chunks n a = (ev, a')"
  shows "settled a'" "quiet a'" "sse_run Fresh ev = Some (Between (as_next a'))" "ships omax a ev a'"
  using conforms_stream_body [of omax uuid chunks n] new_assembler_settled [of mid model req mt al] assms
  unfolding conforms_def by (metis fst_conv snd_conv quiet_phase)+

lemma usage_events:
  obtains u stop where "finish_usage fr usage n a = [Message_Delta stop u, Message_Stop]"
    "stop = ''tool_use'' \<longleftrightarrow> as_saw_tool a"
proof -
  let ?eff = "if as_saw_tool a \<and> fr \<in> {None, Some ''stop'', Some ''end_turn'', Some []} then Some ''tool_calls'' else fr"
  obtain u where "finish_usage fr usage n a = [Message_Delta (map_finish_to_stop_reason ?eff (as_saw_tool a)) u, Message_Stop]"
    by (simp add: finish_usage_def Let_def stream_message_delta_def split_beta)
  moreover have "map_finish_to_stop_reason ?eff (as_saw_tool a) = ''tool_use'' \<longleftrightarrow> as_saw_tool a"
    by (auto simp: map_finish_to_stop_reason_def split: option.splits)
  ultimately show ?thesis using that by blast
qed

text \<open>
  C15: whatever chunks arrive, in whatever order, and however the response ends, the events sent form one Anthropic
  message: its start, content blocks numbered from 0 without a gap, each closed before the next opens and holding
  only deltas of its own kind, then the final delta and the stop.
\<close>

theorem stream_well_formed:
  "sse_run Fresh (fst (run_stream uuid omax chunks fr usage n (new_assembler mid model req mt al))) = Some Done"
proof -
  obtain ev a' where b: "stream_body uuid omax chunks n (new_assembler mid model req mt al) = (ev, a')" by fastforce
  obtain u stop where "finish_usage fr usage n a' = [Message_Delta stop u, Message_Stop]" using usage_events by blast
  then show ?thesis using stream_body_facts(3) [OF refl b] by (simp add: run_stream_body b)
qed

text \<open>The stop reason of a stream.\<close>

fun stop_of :: "sse list \<Rightarrow> string option" where
  "stop_of [] = None"
| "stop_of (Message_Delta stop u # es) = Some stop"
| "stop_of (e # es) = stop_of es"

lemma stop_of_body: "sse_run p ev = Some (Between n) \<Longrightarrow> stop_of (ev @ es) = stop_of es"
proof (induction p ev rule: sse_run.induct)
  case (2 p e ev)
  have c: "sse_run Closing xs \<noteq> Some (Between n)" for xs
  proof (induction xs)
    case (Cons x xs)
    have "sse_run Done ys \<noteq> Some (Between n)" for ys
      by (cases ys) (auto split: option.splits, case_tac a, auto)
    with Cons show ?case by (cases x) auto
  qed simp
  obtain q where q: "sse_next p e = Some q" "sse_run q ev = Some (Between n)" using 2(2) by (auto split: option.splits)
  then have "stop_of (e # (ev @ es)) = stop_of (ev @ es)"
    using c by (cases "(p, e)" rule: sse_next.cases) (auto split: if_splits)
  then show ?case using 2(1) q by simp
qed simp

text \<open>
  C18: the error events that end a response in place of \<open>finish\<close> close the message when no content block is open,
  and break the protocol when one is, or when nothing has been sent.
\<close>

theorem terminal_error_closes:
  assumes "fst (run_all (feed uuid omax) chunks (new_assembler mid model req mt al)) = ev"
    and "snd (run_all (feed uuid omax) chunks (new_assembler mid model req mt al)) = a"
  shows "sse_run Fresh (ev @ terminal_error ty msg) =
    (if as_started a \<and> as_text a = None \<and> as_thinking a = None then Some Done else None)"
proof -
  have "conforms omax (\<lambda>_. True) (\<lambda>_. True) (run_all (feed uuid omax) chunks)"
    by (rule conforms_run_all) (rule conforms_weaken [OF conforms_feed], simp_all)
  then have "sse_run Fresh ev = Some (phase_of a)"
    using new_assembler_settled [of mid model req mt al] assms unfolding conforms_def by metis
  then show ?thesis by (simp add: terminal_error_def stream_message_delta_def phase_of_def split: option.splits)
qed

theorem terminal_error_closes_witness:
  "sse_run Fresh (fst (run_all (feed (\<lambda>_. ''0'') 1) [(''hi'', [], [])] (new_assembler ''m'' ''g'' False None [])) @ terminal_error ''api_error'' ''x'') = None"
  using terminal_error_closes [OF refl refl, of "\<lambda>_. ''0''" 1 "[(''hi'', [], [])]" "''m''" "''g''" False None "[]" "''api_error''" "''x''"]
  by (simp add: feed_def andthen_def assembler_start_def new_assembler_def feed_text_def emit_text_and_thinking_def emit_reasoning_def
      emit_content_def close_tools_def close_thinking_def open_text_def feed_tools_def)

text \<open>
  C16: the tools a client is sent are named and come with complete arguments of their tool, never more of them than
  the limit, and the message ends with the stop reason \<open>tool_use\<close> exactly when it holds a tool.
\<close>

theorem stream_tools_complete:
  assumes "ev = fst (run_stream uuid omax chunks fr usage n (new_assembler mid model req mt al))"
  shows "(\<forall>(name, input) \<in> set (tools_of ev). name \<noteq> [] \<and> is_complete_tool_arguments_json name input) \<and>
    (let limit = (case mt of Some m \<Rightarrow> m | None \<Rightarrow> omax) in 0 < limit \<longrightarrow> int (length (tools_of ev)) \<le> limit) \<and>
    (stop_of ev = Some ''tool_use'' \<longleftrightarrow> tools_of ev \<noteq> [])"
proof -
  let ?a = "new_assembler mid model req mt al"
  obtain ev0 a' where b: "stream_body uuid omax chunks n ?a = (ev0, a')" by fastforce
  obtain u stop where f: "finish_usage fr usage n a' = [Message_Delta stop u, Message_Stop]" "stop = ''tool_use'' \<longleftrightarrow> as_saw_tool a'"
    using usage_events by blast
  obtain ts where ts: "delivers omax ?a ev0 a' ts" using stream_body_facts(4) [OF refl b] by (auto simp: ships_def)
  have ev: "ev = ev0 @ [Message_Delta stop u, Message_Stop]" using assms by (simp add: run_stream_body b f)
  have t: "tools_of ev = map tool_input ts" using ts by (simp add: ev delivers_def)
  have "stop_of ev = Some stop" using stop_of_body [OF stream_body_facts(3) [OF refl b]] by (simp add: ev)
  then have "stop_of ev = Some ''tool_use'' \<longleftrightarrow> tools_of ev \<noteq> []"
    using ts f(2) by (simp add: t delivers_def new_assembler_def)
  moreover have "\<forall>(name, input) \<in> set (tools_of ev). name \<noteq> [] \<and> is_complete_tool_arguments_json name input"
    using ts by (auto simp: t delivers_def ready_state_def tool_complete_def tool_input_def)
  moreover have "0 < tool_limit omax ?a \<longrightarrow> int (length (tools_of ev)) \<le> tool_limit omax ?a"
    using ts by (auto simp: t delivers_def within_limit_def new_assembler_def)
  ultimately show ?thesis by (simp add: tool_limit_def new_assembler_def Let_def)
qed

definition list_call :: pyval where
  "list_call = PDict [(''index'', PInt 0), (''id'', PStr ''c1''), (''function'', PDict [(''name'', PStr ''TaskList'')])]"

theorem stream_tools_complete_witness:
  "\<exists>ev. ev = fst (run_stream (\<lambda>_. ''0'') 1 [([], [], [list_call])] None PNone 0 (new_assembler ''m'' ''g'' True None [])) \<and>
     tools_of ev = [(''TaskList'', ''{}'')] \<and> is_complete_tool_arguments_json ''TaskList'' ''{}'' \<and> stop_of ev = Some ''tool_use''"
proof -
  let ?ev = "fst (run_stream (\<lambda>_. ''0'') 1 [([], [], [list_call])] None PNone 0 (new_assembler ''m'' ''g'' True None []))"
  have t: "tools_of ?ev = [(''TaskList'', ''{}'')]" by code_simp
  from stream_tools_complete [OF refl, of "\<lambda>_. ''0''" 1 "[([], [], [list_call])]" None PNone 0 "''m''" "''g''" True None "[]"]
  show ?thesis by (simp add: t)
qed

end
