(* ===== verification/Anthropic_Texts.thy ===== *)
theory Anthropic_Texts
  imports Anthropic_Protocol
begin

text \<open>What a client reads of a stream: the answer and the reasoning arrive whole.\<close>

subsection \<open>The texts\<close>

lemma text_append [simp]: "text_of (xs @ ys) = text_of xs @ text_of ys"
  by (induction xs rule: text_of.induct) simp_all

lemma thinking_append [simp]: "thinking_of (xs @ ys) = thinking_of xs @ thinking_of ys"
  by (induction xs rule: thinking_of.induct) simp_all

definition mute :: "sse list \<Rightarrow> bool" where
  "mute ev \<longleftrightarrow> text_of ev = [] \<and> thinking_of ev = []"

text \<open>A method that says nothing and leaves the held texts alone, unless it ships a tool and drops them.\<close>

definition hushed :: "(assembler \<Rightarrow> sse list \<times> assembler) \<Rightarrow> bool" where
  "hushed f \<longleftrightarrow> (\<forall>a. mute (fst (f a)) \<and> as_tools_requested (snd (f a)) = as_tools_requested a \<and>
     ((as_held (snd (f a)) = as_held a \<and> as_saw_tool (snd (f a)) = as_saw_tool a) \<or>
      (as_held (snd (f a)) = [] \<and> as_saw_tool (snd (f a)))))"

lemma hushed_andthen: "hushed f \<Longrightarrow> hushed g \<Longrightarrow> hushed (andthen f g)"
  unfolding hushed_def andthen_def by (simp add: split_beta mute_def Let_def) metis

lemma hushed_run_all: "(\<And>k. hushed (f k)) \<Longrightarrow> hushed (run_all f ks)"
proof (induction ks)
  case (Cons k ks)
  have "run_all f (k # ks) = andthen (f k) (run_all f ks)" by (simp add: fun_eq_iff andthen_def)
  then show ?case using Cons hushed_andthen by metis
qed (simp add: hushed_def mute_def)

lemma hushed_simple: "hushed (assembler_start n)" "hushed close_text" "hushed close_thinking" "hushed (\<lambda>a. ([], a))"
  by (auto simp: hushed_def mute_def assembler_start_def close_text_def close_thinking_def split: option.splits)

lemma flush_hushed [simp]:
  "text_of (fst (flush_tool_args oi s a)) = []" "thinking_of (fst (flush_tool_args oi s a)) = []"
  "as_tools_requested (snd (snd (flush_tool_args oi s a))) = as_tools_requested a"
  "as_held (snd (snd (flush_tool_args oi s a))) = as_held a" "as_saw_tool (snd (snd (flush_tool_args oi s a))) = as_saw_tool a"
  by (simp_all add: flush_tool_args_def Let_def set_tool_def)

lemma hushed_close_tool: "hushed (close_tool oi)"
  unfolding hushed_def close_tool_def Let_def
  by (simp add: mute_def set_tool_def split_beta split: option.splits)

lemma hushed_close_tools: "hushed close_tools"
proof -
  have "hushed (run_all close_tool ks)" for ks by (rule hushed_run_all) (rule hushed_close_tool)
  then show ?thesis unfolding hushed_def close_tools_def by blast
qed

lemma hushed_send: "hushed (send_and_close oi s)"
  unfolding hushed_def send_and_close_def Let_def
  by (simp add: mute_def set_tool_def split_beta)

lemma budget_hushed:
  assumes "tool_budget_left omax a = (b, a1)"
  shows "as_tools_requested a1 = as_tools_requested a" "as_held a1 = as_held a" "as_saw_tool a1 = as_saw_tool a"
  using budget_left(1) [OF assms] by simp_all

lemma open_tool_hushed:
  assumes "open_tool oi s name a = (ev, s', a')"
  shows "mute ev" "as_tools_requested a' = as_tools_requested a" "as_held a' = []" "as_saw_tool a'"
  using assms by (auto simp: open_tool_def Let_def mute_def set_tool_def)

lemma hushed_at: "hushed f \<Longrightarrow> f a = (ev, a') \<Longrightarrow> mute ev \<and> as_tools_requested a' = as_tools_requested a \<and>
    ((as_held a' = as_held a \<and> as_saw_tool a' = as_saw_tool a) \<or> (as_held a' = [] \<and> as_saw_tool a'))"
  unfolding hushed_def by (metis fst_conv snd_conv)

lemma hushed_open_and:
  assumes "hushed g" "tool_budget_left omax a = (b, a1)" "open_tool oi s name a1 = (ev, s', a2)" "g a2 = (ev', a3)"
  shows "mute (ev @ ev') \<and> as_tools_requested a3 = as_tools_requested a \<and> as_held a3 = [] \<and> as_saw_tool a3"
  using hushed_at [OF assms(1,4)] open_tool_hushed [OF assms(3)] budget_hushed [OF assms(2)] by (auto simp: mute_def)

lemma hushed_emit_tools: "hushed (emit_tools omax ois)"
proof (induction ois)
  case (Cons oi ois)
  show ?case
    unfolding hushed_def
  proof
    fix a
    have h: "hushed (andthen (send_and_close oi s) (emit_tools omax ois))" for s
      using hushed_andthen [OF hushed_send Cons] .
    obtain b a1 where b: "tool_budget_left omax a = (b, a1)" by fastforce
    show "mute (fst (emit_tools omax (oi # ois) a)) \<and>
        as_tools_requested (snd (emit_tools omax (oi # ois) a)) = as_tools_requested a \<and>
        (as_held (snd (emit_tools omax (oi # ois) a)) = as_held a \<and> as_saw_tool (snd (emit_tools omax (oi # ois) a)) = as_saw_tool a \<or>
         as_held (snd (emit_tools omax (oi # ois) a)) = [] \<and> as_saw_tool (snd (emit_tools omax (oi # ois) a)))" (is "?G (emit_tools omax (oi # ois) a)")
    proof (cases "map_of (as_tools a) oi")
      case None
      then show ?thesis using Cons by (simp add: hushed_def)
    next
      case (Some s)
      have g: "?G (andthen (send_and_close oi s) (emit_tools omax ois) a)" "?G (emit_tools omax ois a)" "?G ([], a)" "?G ([], a1)"
        using h Cons budget_hushed [OF b] by (simp_all add: hushed_def mute_def)
      obtain ev s1 a2 where o: "open_tool oi s (ts_name s) a1 = (ev, s1, a2)" by (metis prod_cases3)
      obtain ev' a3 where e: "andthen (send_and_close oi s1) (emit_tools omax ois) a2 = (ev', a3)" by fastforce
      have "?G (ev @ ev', a3)" using hushed_open_and [OF h b o e] by simp
      with g show ?thesis using Some b o e by simp
    qed
  qed
qed (simp add: hushed_def mute_def)

lemma hushed_after:
  assumes "hushed g" "\<And>a. as_tools_requested (h a) = as_tools_requested a \<and> as_held (h a) = as_held a \<and> as_saw_tool (h a) = as_saw_tool a"
  shows "hushed (\<lambda>a. g (h a))"
proof (unfold hushed_def, intro allI)
  fix a
  from assms(1) [unfolded hushed_def, rule_format, of "h a"] assms(2) [of a]
  show "mute (fst (g (h a))) \<and> as_tools_requested (snd (g (h a))) = as_tools_requested a \<and>
     ((as_held (snd (g (h a))) = as_held a \<and> as_saw_tool (snd (g (h a))) = as_saw_tool a) \<or>
      (as_held (snd (g (h a))) = [] \<and> as_saw_tool (snd (g (h a)))))" by simp
qed

lemma absorb_all_same:
  "as_tools_requested (fold (absorb uuid) calls a) = as_tools_requested a \<and> as_held (fold (absorb uuid) calls a) = as_held a \<and>
   as_saw_tool (fold (absorb uuid) calls a) = as_saw_tool a"
  by (induction calls arbitrary: a) (auto simp: absorb_def Let_def set_tool_def split: pyval.splits)

lemma hushed_feed_tools: "hushed (feed_tools uuid omax calls)"
proof (cases "calls = []")
  case False
  have e: "hushed (\<lambda>a. emit_tools omax (sort (map fst (as_tools (fold (absorb uuid) calls a)))) (fold (absorb uuid) calls a))"
  proof (unfold hushed_def, intro allI)
    fix a
    let ?a1 = "fold (absorb uuid) calls a"
    let ?r = "emit_tools omax (sort (map fst (as_tools ?a1))) ?a1"
    from hushed_emit_tools [unfolded hushed_def, rule_format, of omax "sort (map fst (as_tools ?a1))" ?a1] absorb_all_same [of uuid calls a]
    show "mute (fst ?r) \<and> as_tools_requested (snd ?r) = as_tools_requested a \<and>
       ((as_held (snd ?r) = as_held a \<and> as_saw_tool (snd ?r) = as_saw_tool a) \<or> (as_held (snd ?r) = [] \<and> as_saw_tool (snd ?r)))" by simp
  qed
  have "hushed (andthen close_thinking (andthen close_text (\<lambda>a.
        let a1 = fold (absorb uuid) calls a in emit_tools omax (sort (map fst (as_tools a1))) a1)))"
    by (simp add: Let_def hushed_andthen [OF hushed_simple(3) hushed_andthen [OF hushed_simple(2) e]])
  from hushed_after [OF this, of "\<lambda>a. a\<lparr>as_tools_pending := True\<rparr>"] show ?thesis
    using False by (simp add: feed_tools_def [abs_def])
qed (simp add: feed_tools_def [abs_def] hushed_simple)

lemma hushed_finish_tool: "hushed (finish_tool omax rdy oi)"
  unfolding hushed_def
proof
  fix a :: assembler
  let ?G = "\<lambda>r. mute (fst r) \<and> as_tools_requested (snd r) = as_tools_requested a \<and>
      (as_held (snd r) = as_held a \<and> as_saw_tool (snd r) = as_saw_tool a \<or> as_held (snd r) = [] \<and> as_saw_tool (snd r))"
  show "?G (finish_tool omax rdy oi a)"
  proof (cases "map_of (as_tools a) oi")
    case None
    then show ?thesis by (simp add: finish_tool_def mute_def)
  next
    case (Some s0)
    let ?a0 = "set_tool oi (final_tool (as_allowed a) s0) a"
    obtain b a1 where b: "tool_budget_left omax ?a0 = (b, a1)" by fastforce
    have a0: "as_tools_requested ?a0 = as_tools_requested a" "as_held ?a0 = as_held a" "as_saw_tool ?a0 = as_saw_tool a"
      by (simp_all add: set_tool_def)
    have o: "hushed (andthen (\<lambda>a. let (ev, _, a') = open_tool oi s name a in (ev, a')) close_tools)" for s name
      by (rule hushed_andthen [OF _ hushed_close_tools])
        (auto simp: hushed_def split_beta Let_def open_tool_def mute_def set_tool_def)
    let ?o = "\<lambda>s name. andthen close_tools (andthen (\<lambda>a. let (ev, _, a') = open_tool oi s name a in (ev, a')) close_tools) a1"
    have g: "?G (?o s name)" for s name
      using hushed_andthen [OF hushed_close_tools o] budget_hushed [OF b] a0 unfolding hushed_def by metis
    have c: "?G (close_tools ?a0)" using hushed_close_tools a0 unfolding hushed_def by metis
    have n: "?G ([], a)" "?G ([], ?a0)" "?G ([], a1)" using a0 budget_hushed [OF b] by (simp_all add: mute_def)
    have "finish_tool omax rdy oi a \<in> {([], a), ([], ?a0), ([], a1), close_tools ?a0} \<or> (\<exists>s name. finish_tool omax rdy oi a = ?o s name)"
      unfolding finish_tool_def Some Let_def option.case b prod.case by (auto split: if_splits)
    then consider "finish_tool omax rdy oi a = ([], a)" | "finish_tool omax rdy oi a = ([], ?a0)"
      | "finish_tool omax rdy oi a = ([], a1)" | "finish_tool omax rdy oi a = close_tools ?a0"
      | s name where "finish_tool omax rdy oi a = ?o s name" by blast
    then show ?thesis by cases (simp_all only: n c g)
  qed
qed

text \<open>A method that says the given texts and changes none of the fields above.\<close>

definition says :: "string \<Rightarrow> string \<Rightarrow> (assembler \<Rightarrow> sse list \<times> assembler) \<Rightarrow> bool" where
  "says c r f \<longleftrightarrow> (\<forall>a. text_of (fst (f a)) = c \<and> thinking_of (fst (f a)) = r \<and>
     as_tools_requested (snd (f a)) = as_tools_requested a \<and> as_held (snd (f a)) = as_held a \<and> as_saw_tool (snd (f a)) = as_saw_tool a \<and>
     (as_tools a = [] \<longrightarrow> as_tools (snd (f a)) = []))"

lemma says_andthen: "says c r f \<Longrightarrow> says c' r' g \<Longrightarrow> says (c @ c') (r @ r') (andthen f g)"
  unfolding says_def andthen_def by (simp add: split_beta Let_def)

lemma says_close_tools: "says [] [] close_tools"
proof -
  have "says [] [] (run_all close_tool ks)" for ks
  proof (induction ks)
    case (Cons k ks)
    have e: "run_all close_tool (k # ks) = andthen (close_tool k) (run_all close_tool ks)" by (simp add: fun_eq_iff andthen_def)
    have "says [] [] (close_tool k)"
      unfolding says_def close_tool_def Let_def by (simp add: set_tool_def split_beta split: option.splits)
    from says_andthen [OF this Cons] show ?case unfolding e by simp
  qed (simp add: says_def)
  then show ?thesis unfolding says_def close_tools_def by blast
qed

lemma says_simple: "says [] [] close_text" "says [] [] close_thinking" "says [] [] open_thinking" "says [] [] open_text"
  "says [] [] (assembler_start n)"
  by (auto simp: says_def close_text_def close_thinking_def open_thinking_def open_text_def andthen_def assembler_start_def split: option.splits)

lemma says_emit: "says (fst p) (snd p) (emit_text_and_thinking p)"
proof -
  have r: "says [] r (emit_reasoning r)" for r
  proof (cases "r = []")
    case False
    have "says [] r (\<lambda>a. ([Block_Delta (the (as_thinking a)) (D_Thinking r)], a\<lparr>as_chars := as_chars a + length r\<rparr>))"
      by (simp add: says_def)
    from says_andthen [OF says_close_tools says_andthen [OF says_simple(3) this]] False
    show ?thesis by (simp add: emit_reasoning_def says_def)
  qed (simp add: says_def emit_reasoning_def)
  have c: "says c [] (emit_content c)" for c
  proof (cases "c = []")
    case False
    have "says c [] (\<lambda>a. ([Block_Delta (the (as_text a)) (D_Text c)], a\<lparr>as_chars := as_chars a + length c\<rparr>))"
      by (simp add: says_def)
    from says_andthen [OF says_close_tools says_andthen [OF says_simple(2) says_andthen [OF says_simple(4) this]]] False
    show ?thesis by (simp add: emit_content_def says_def)
  qed (simp add: says_def emit_content_def)
  show ?thesis using says_andthen [OF r [of "snd p"] c [of "fst p"]] by (simp add: emit_text_and_thinking_def split_beta)
qed

text \<open>What has been told after some chunks of the given texts.\<close>

definition told :: "string \<Rightarrow> string \<Rightarrow> sse list \<Rightarrow> assembler \<Rightarrow> bool" where
  "told c r ev a \<longleftrightarrow>
     (if \<not> as_tools_requested a then text_of ev = c \<and> thinking_of ev = r \<and> as_held a = []
      else mute ev \<and> (if as_saw_tool a then as_held a = [] else concat (map fst (as_held a)) = c \<and> concat (map snd (as_held a)) = r))"

lemma told_says: "says [] [] f \<Longrightarrow> told c r ev a \<Longrightarrow> told c r (ev @ fst (f a)) (snd (f a))"
  using says_def [THEN iffD1, rule_format, of "[]" "[]" f a] by (cases "as_tools_requested a") (simp_all add: told_def mute_def)

lemma told_hushed: "hushed f \<Longrightarrow> told c r ev a \<Longrightarrow> told c r (ev @ fst (f a)) (snd (f a))"
  using hushed_def [THEN iffD1, rule_format, of f a] by (cases "as_tools_requested a") (auto simp: told_def mute_def)

lemma told_feed_text: "told c r ev a \<Longrightarrow> told (c @ c') (r @ r') (ev @ fst (feed_text c' r' a)) (snd (feed_text c' r' a))"
  using says_emit [of "(c', r')", unfolded says_def, rule_format, of a]
  by (cases "as_tools_requested a"; cases "as_saw_tool a") (simp_all add: told_def feed_text_def mute_def)

lemma told_feed: "told c r ev a \<Longrightarrow> told (c @ c') (r @ r') (ev @ fst (feed uuid omax (c', r', calls) a)) (snd (feed uuid omax (c', r', calls) a))"
proof -
  assume t: "told c r ev a"
  let ?a1 = "snd (assembler_start 0 a)"
  have 1: "told c r (ev @ fst (assembler_start 0 a)) ?a1" using told_says [OF says_simple(5) t] .
  from told_hushed [OF hushed_feed_tools [of uuid omax calls] told_feed_text [OF 1, of c' r']] show ?thesis
    by (simp add: feed_def andthen_def split_beta Let_def)
qed

lemma told_chunks:
  "told c r ev a \<Longrightarrow> told (c @ concat (map fst chunks)) (r @ concat (map (fst \<circ> snd) chunks))
     (ev @ fst (run_all (feed uuid omax) chunks a)) (snd (run_all (feed uuid omax) chunks a))"
proof (induction chunks arbitrary: c r ev a)
  case (Cons x chunks)
  obtain c' r' calls where x: "x = (c', r', calls)" by (cases x)
  from Cons.IH [OF told_feed [OF Cons.prems, of c' r' uuid omax calls]] show ?case
    by (simp add: x split_beta Let_def)
qed simp

lemma says_run_emit: "says (concat (map fst hs)) (concat (map snd hs)) (run_all emit_text_and_thinking hs)"
proof (induction hs)
  case (Cons h hs)
  have e: "run_all emit_text_and_thinking (h # hs) = andthen (emit_text_and_thinking h) (run_all emit_text_and_thinking hs)"
    by (simp add: fun_eq_iff andthen_def)
  from says_andthen [OF says_emit Cons] show ?case unfolding e by simp
qed (simp add: says_def)

lemma told_released:
  assumes "told c r ev a"
  shows "(text_of (ev @ fst (release_held a)) = c \<and> thinking_of (ev @ fst (release_held a)) = r) \<or>
    (as_tools_requested a \<and> (as_saw_tool a \<or> has_ready_tool a) \<and> mute (ev @ fst (release_held a)))"
  using assms says_run_emit [of "as_held a", unfolded says_def, rule_format, of a]
  by (cases "as_tools_requested a"; cases "as_saw_tool a \<or> has_ready_tool a")
    (auto simp: told_def mute_def release_held_def split_beta Let_def)

lemma hushed_rest: "hushed (andthen close_thinking (andthen close_text (\<lambda>a.
    andthen (run_all (finish_tool omax rdy) (sort (map fst (as_tools a)))) close_tools a)))"
proof -
  have l: "hushed (andthen (run_all (finish_tool omax rdy) ks) close_tools)" for ks
    by (rule hushed_andthen [OF hushed_run_all hushed_close_tools]) (rule hushed_finish_tool)
  have "hushed (\<lambda>a. andthen (run_all (finish_tool omax rdy) (sort (map fst (as_tools a)))) close_tools a)"
    using l unfolding hushed_def by blast
  from hushed_andthen [OF hushed_simple(3) hushed_andthen [OF hushed_simple(2) this]] show ?thesis .
qed

lemma finish_body_texts:
  assumes "told c r ev a"
  shows "(text_of (ev @ fst (finish_body omax a)) = c \<and> thinking_of (ev @ fst (finish_body omax a)) = r) \<or>
    (as_tools_requested a \<and> (as_saw_tool a \<or> has_ready_tool a) \<and> mute (ev @ fst (finish_body omax a)))"
proof -
  obtain e1 a1 where r: "release_held a = (e1, a1)" by fastforce
  from hushed_rest [unfolded hushed_def, rule_format, of omax "has_ready_tool a" a1] told_released [OF assms]
  show ?thesis by (simp add: finish_body_def andthen_def [of release_held] r split_beta mute_def Let_def)
qed

lemma feed_no_calls:
  "\<forall>x \<in> set chunks. snd (snd x) = [] \<Longrightarrow> as_tools a = [] \<Longrightarrow> \<not> as_saw_tool a \<Longrightarrow>
     as_tools (snd (run_all (feed uuid omax) chunks a)) = [] \<and> \<not> as_saw_tool (snd (run_all (feed uuid omax) chunks a))"
proof (induction chunks arbitrary: a)
  case (Cons x chunks)
  obtain c r where x: "x = (c, r, [])" using Cons.prems(1) by (cases x) auto
  have "as_tools (snd (feed uuid omax x a)) = [] \<and> \<not> as_saw_tool (snd (feed uuid omax x a))"
    using Cons.prems(2,3) says_emit [of "(c, r)", unfolded says_def, rule_format]
    by (simp add: x feed_def andthen_def assembler_start_def feed_text_def feed_tools_def split_beta Let_def)
  then show ?case using Cons by (simp add: split_beta Let_def)
qed simp

lemma feed_requested: "as_tools_requested (snd (run_all (feed uuid omax) chunks a)) = as_tools_requested a"
proof (induction chunks arbitrary: a)
  case (Cons x chunks)
  obtain c r calls where x: "x = (c, r, calls)" by (cases x)
  have t: "as_tools_requested (snd (feed_text c r a)) = as_tools_requested a" for a
    using says_emit [of "(c, r)", unfolded says_def, rule_format, of a] by (auto simp: feed_text_def)
  have "as_tools_requested (snd (feed uuid omax x a)) = as_tools_requested a"
    using hushed_feed_tools [unfolded hushed_def, rule_format, of uuid omax calls] t
    by (simp add: x feed_def andthen_def assembler_start_def split_beta Let_def)
  then show ?case using Cons by (simp add: split_beta Let_def)
qed simp

lemma stream_texts:
  assumes "ev = fst (run_stream uuid omax chunks fr usage n (new_assembler mid model req mt al))"
  shows "(text_of ev = concat (map fst chunks) \<and> thinking_of ev = concat (map (fst \<circ> snd) chunks)) \<or>
    (req \<and> (\<exists>(c, r, calls) \<in> set chunks. calls \<noteq> []) \<and> text_of ev = [] \<and> thinking_of ev = [])"
proof -
  let ?a = "new_assembler mid model req mt al"
  obtain e1 a1 where f: "run_all (feed uuid omax) chunks ?a = (e1, a1)" by fastforce
  obtain e2 a2 where s: "assembler_start n a1 = (e2, a2)" by fastforce
  let ?e = "fst (finish_body omax (fill_all a2))"
  obtain u stop where u: "finish_usage fr usage n (snd (finish_body omax (fill_all a2))) = [Message_Delta stop u, Message_Stop]"
    using usage_events by blast
  have ev: "ev = (e1 @ e2) @ ?e @ [Message_Delta stop u, Message_Stop]"
    using assms u by (simp add: run_stream_body stream_body_def andthen_def f s split_beta Let_def)
  have "told [] [] [] ?a" by (simp add: told_def new_assembler_def mute_def)
  from told_says [OF says_simple(5) [of n] told_chunks [OF this, of chunks uuid omax]] f s
  have t: "told (concat (map fst chunks)) (concat (map (fst \<circ> snd) chunks)) (e1 @ e2) (fill_all a2)"
    by (auto simp: told_def fill_all_def split: if_splits)
  have req: "as_tools_requested a1 = req" "as_saw_tool a2 = as_saw_tool a1" "as_tools a2 = as_tools a1" "as_tools_requested a2 = as_tools_requested a1"
    using feed_requested [of uuid omax chunks ?a] f s by (auto simp: assembler_start_def new_assembler_def split: if_splits)
  have calls: "\<exists>(c, r, calls) \<in> set chunks. calls \<noteq> []" if "as_saw_tool a2 \<or> has_ready_tool (fill_all a2)"
  proof (rule ccontr)
    assume "\<not> (\<exists>(c, r, calls) \<in> set chunks. calls \<noteq> [])"
    then have "\<forall>x \<in> set chunks. snd (snd x) = []" by auto
    from feed_no_calls [OF this, of ?a uuid omax] f have "as_tools a1 = []" "\<not> as_saw_tool a1" by (simp_all add: new_assembler_def)
    with that req show False by (simp add: fill_all_def has_ready_tool_def)
  qed
  from finish_body_texts [OF t, of omax] calls req show ?thesis by (auto simp: ev mute_def fill_all_def)
qed

text \<open>Without calls no tool is ever open, and the end gives the stop reason of the upstream.\<close>

lemma finish_body_plain:
  assumes "as_tools a = []" "\<not> as_saw_tool a"
  shows "\<not> as_saw_tool (snd (finish_body omax a))"
proof -
  obtain e1 a1 where r: "release_held a = (e1, a1)" by fastforce
  have 1: "as_tools a1 = []" "\<not> as_saw_tool a1"
    using says_run_emit [of "as_held a", unfolded says_def, rule_format, of a] assms r
    by (auto simp: release_held_def has_ready_tool_def split_beta Let_def)
  obtain e2 a2 where c: "close_thinking a1 = (e2, a2)" by fastforce
  obtain e3 a3 where d: "close_text a2 = (e3, a3)" by fastforce
  have 3: "as_tools a3 = []" "\<not> as_saw_tool a3"
    using says_simple(2) [unfolded says_def, rule_format, of a1] says_simple(1) [unfolded says_def, rule_format, of a2] 1 c d by simp_all
  have "finish_body omax a = (e1 @ e2 @ e3 @ fst (close_tools a3), snd (close_tools a3))"
    by (simp add: finish_body_def andthen_def r c d 3 split_beta Let_def)
  then show ?thesis using says_close_tools [unfolded says_def, rule_format, of a3] 3 by simp
qed

lemma stream_stop_plain:
  assumes "\<forall>x \<in> set chunks. snd (snd x) = []"
  shows "stop_of (fst (run_stream uuid omax chunks fr usage n (new_assembler mid model req mt al))) =
    Some (map_finish_to_stop_reason fr False)"
proof -
  let ?a = "new_assembler mid model req mt al"
  obtain b0 a where b: "stream_body uuid omax chunks n ?a = (b0, a)" by fastforce
  obtain e1 a1 where f: "run_all (feed uuid omax) chunks ?a = (e1, a1)" by fastforce
  obtain e2 a2 where s: "assembler_start n a1 = (e2, a2)" by fastforce
  have "as_tools a1 = []" "\<not> as_saw_tool a1"
    using feed_no_calls [OF assms, of ?a uuid omax] f by (simp_all add: new_assembler_def)
  then have "as_tools (fill_all a2) = []" "\<not> as_saw_tool (fill_all a2)"
    using s by (auto simp: assembler_start_def fill_all_def split: if_splits)
  from finish_body_plain [OF this, of omax] b have "\<not> as_saw_tool a"
    by (simp add: stream_body_def andthen_def f s split_beta Let_def)
  then obtain u where "finish_usage fr usage n a = [Message_Delta (map_finish_to_stop_reason fr False) u, Message_Stop]"
    by (auto simp: finish_usage_def stream_message_delta_def split_beta Let_def)
  then show ?thesis using stop_of_body [OF stream_body_facts(3) [OF refl b]] b by (simp add: run_stream_body split_beta Let_def)
qed

text \<open>
  C17: the answer and the reasoning arrive whole: what the client is sent as text and as thinking is what the chunks
  carried, in order. The exception is a client that offered tools and is sent tool calls: both are then dropped
  together.
\<close>

theorem stream_text_whole:
  assumes "ev = fst (run_stream uuid omax chunks fr usage n (new_assembler mid model req mt al))"
  shows "(text_of ev = concat (map fst chunks) \<and> thinking_of ev = concat (map (fst \<circ> snd) chunks)) \<or>
    (req \<and> (\<exists>(c, r, calls) \<in> set chunks. calls \<noteq> []) \<and> text_of ev = [] \<and> thinking_of ev = [])"
  using assms by (rule stream_texts)

theorem stream_text_whole_witness:
  "\<exists>ev. ev = fst (run_stream (\<lambda>_. ''0'') 1 [(''hi'', [], []), ([], ''so'', [])] None PNone 0 (new_assembler ''m'' ''g'' True None [])) \<and>
     text_of ev = ''hi'' \<and> thinking_of ev = ''so''"
  using stream_text_whole [OF refl, of "\<lambda>_. ''0''" 1 "[(''hi'', [], []), ([], ''so'', [])]" None PNone 0 "''m''" "''g''" True None "[]"]
  by simp

end
