(* ===== verification/Anthropic_Messages.thy ===== *)
theory Anthropic_Messages
  imports Anthropic_Stream "HOL-Library.List_Lexorder" "HOL-Library.Char_ord"
begin

text \<open>
  Requests and whole replies of \<open>grok2api/protocol/anthropic_compat.py\<close>: an Anthropic request as a chat body, and a
  collected completion as an Anthropic message. \<open>None\<close> is an exception of the code, raised for a \<open>type\<close>, a \<open>role\<close> or
  a text that is not a string. \<open>uuid\<close> gives the random id of a tool call by the place of its block.
\<close>

definition newline :: string where "newline = [CHR 0x0A]"

text \<open>\<open>(v or dflt).lower()\<close>.\<close>

definition lower_type :: "pyval \<Rightarrow> string \<Rightarrow> string option" where
  "lower_type v dflt = (case py_or v (PStr dflt) of PStr s \<Rightarrow> Some (lower s) | _ \<Rightarrow> None)"

text \<open>\<open>str(v or '')\<close>.\<close>

definition str_of :: "pyval \<Rightarrow> string" where
  "str_of v = (if truthy v then py_str v else [])"

subsection \<open>Texts\<close>

lemma size_dget: "dget d k = PList xs \<Longrightarrow> size (PList xs) < size (PDict d)"
proof -
  assume "dget d k = PList xs"
  then have "map_of d k = Some (PList xs)" by (auto simp: dget_def split: option.splits)
  then have "(k, PList xs) \<in> set d" by (rule map_of_SomeD)
  then have "size_prod (\<lambda>x. 0) size (k, PList xs) \<le> size_list (size_prod (\<lambda>x. 0) size) d"
    by (rule size_list_estimation') simp
  then show ?thesis by simp
qed

function as_text :: "pyval \<Rightarrow> string option" and part_text :: "pyval \<Rightarrow> string list option" where
  "as_text PNone = Some []"
| "as_text (PStr s) = Some s"
| "as_text (PList bs) = map_option (\<lambda>ps. join_with newline (concat ps)) (those (map part_text bs))"
| "as_text (PDict d) = (case dget d ''text'' of PStr s \<Rightarrow> Some s | _ \<Rightarrow> Some (json_dumps False (PDict d)))"
| "as_text (PBool b) = Some (py_str (PBool b))"
| "as_text (PInt i) = Some (py_str (PInt i))"
| "as_text (PFloat q) = Some (py_str (PFloat q))"
| "part_text (PStr s) = Some [s]"
| "part_text (PDict d) =
     (case lower_type (dget d ''type'') [] of
        None \<Rightarrow> None
      | Some t \<Rightarrow>
          (case dget d ''text'' of
             PStr s \<Rightarrow> Some [s]
           | _ \<Rightarrow>
               (if t = ''thinking'' then (case dget d ''thinking'' of PStr s \<Rightarrow> Some [s] | _ \<Rightarrow> Some [])
                else if t = ''tool_result'' then
                  (case dget d ''content'' of
                     PStr s \<Rightarrow> Some [s]
                   | PList xs \<Rightarrow> map_option (\<lambda>s. [s]) (as_text (PList xs))
                   | PNone \<Rightarrow> Some [[]]
                   | c \<Rightarrow> Some [json_dumps False c])
                else Some [])))"
| "part_text PNone = Some []"
| "part_text (PBool b) = Some []"
| "part_text (PInt i) = Some []"
| "part_text (PFloat q) = Some []"
| "part_text (PList xs) = Some []"
  by pat_completeness auto
termination
  by (relation "measure (case_sum size size)") (auto simp: size_list_estimation' le_imp_less_Suc dest!: size_dget)

definition tool_result_to_text :: "pydict \<Rightarrow> string option" where
  "tool_result_to_text d =
     (case dget d ''content'' of
        PStr s \<Rightarrow> Some s
      | PList xs \<Rightarrow> as_text (PList xs)
      | PNone \<Rightarrow> Some []
      | c \<Rightarrow> Some (json_dumps False c))"

definition text_part :: "pyval \<Rightarrow> pyval" where
  "text_part t = PDict [(''type'', PStr ''text''), (''text'', t)]"

definition image_part :: "string \<Rightarrow> pyval" where
  "image_part url = PDict [(''type'', PStr ''image_url''), (''image_url'', PDict [(''url'', PStr url)])]"

definition image_to_openai_part :: "pydict \<Rightarrow> pyval option option" where
  "image_to_openai_part d =
     (case py_or (dget d ''source'') (PDict []) of
        PDict s \<Rightarrow>
          (case lower_type (dget s ''type'') [] of
             None \<Rightarrow> None
           | Some t \<Rightarrow>
               Some (if t = ''base64'' then
                       Some (image_part (''data:'' @ py_str (py_or (dget s ''media_type'') (PStr ''image/png'')) @ '';base64,'' @
                         py_str (py_or (dget s ''data'') (PStr []))))
                     else if t = ''url'' then
                       (let url = py_or (dget s ''url'') (PStr [])
                        in (if truthy url then Some (PDict [(''type'', PStr ''image_url''), (''image_url'', PDict [(''url'', url)])]) else None))
                     else None))
      | _ \<Rightarrow> Some None)"

text \<open>The part of a block, and whether it is more than text.\<close>

definition user_part :: "pyval \<Rightarrow> (bool \<times> pyval list) option" where
  "user_part b =
     (case b of
        PStr s \<Rightarrow> Some (False, [text_part (PStr s)])
      | PDict d \<Rightarrow>
          Option.bind (lower_type (dget d ''type'') ''text'') (\<lambda>t.
            if t = ''text'' \<or> t = ''input_text'' then Some (False, [text_part (py_or (dget d ''text'') (PStr []))])
            else if t = ''image'' then
              map_option (\<lambda>img. case img of Some p \<Rightarrow> (True, [p]) | None \<Rightarrow> (False, [])) (image_to_openai_part d)
            else if t = ''tool_result'' then Some (False, [])
            else let v = py_or (dget d ''text'') (dget d ''title'')
                 in Some (False, if truthy v then [text_part (PStr (py_str v))] else []))
      | _ \<Rightarrow> Some (False, []))"

definition user_content_to_openai :: "pyval \<Rightarrow> pyval option" where
  "user_content_to_openai content =
     (case content of
        PNone \<Rightarrow> Some (PStr [])
      | PStr s \<Rightarrow> Some (PStr s)
      | PList bs \<Rightarrow>
          map_option (\<lambda>ps.
            let parts = concat (map snd ps)
            in (if parts = [] then PStr []
                else if \<not> list_ex fst ps \<and> list_all (\<lambda>p. dget (dict_of p) ''type'' = PStr ''text'') parts
                then PStr (join_with newline (map (\<lambda>p. str_of (dget (dict_of p) ''text'')) parts))
                else PList parts)) (those (map user_part bs))
      | v \<Rightarrow> map_option PStr (as_text v))"

subsection \<open>Messages\<close>

definition chat_msg :: "string \<Rightarrow> pyval \<Rightarrow> pyval" where
  "chat_msg role content = PDict [(''role'', PStr role), (''content'', content)]"

definition is_tool_result :: "pyval \<Rightarrow> bool option" where
  "is_tool_result b =
     (case b of PDict d \<Rightarrow> map_option (\<lambda>t. t = ''tool_result'') (lower_type (dget d ''type'') []) | _ \<Rightarrow> Some False)"

definition tool_msg :: "pydict \<Rightarrow> pyval option" where
  "tool_msg d =
     map_option (\<lambda>t. PDict [(''role'', PStr ''tool''),
        (''tool_call_id'', PStr (str_of (py_or (py_or (dget d ''tool_use_id'') (dget d ''tool_call_id'')) (dget d ''id'')))),
        (''content'', PStr t)]) (tool_result_to_text d)"

definition flush_pending :: "pyval list \<Rightarrow> pyval list option" where
  "flush_pending pending =
     (if pending = [] then Some [] else map_option (\<lambda>c. [chat_msg ''user'' c]) (user_content_to_openai (PList pending)))"

text \<open>The blocks of a user message; \<open>pending\<close> are those since the last tool result.\<close>

fun user_blocks :: "pyval list \<Rightarrow> pyval list \<Rightarrow> pyval list option" where
  "user_blocks pending [] = flush_pending pending"
| "user_blocks pending (b # bs) =
     (case is_tool_result b of
        None \<Rightarrow> None
      | Some False \<Rightarrow> user_blocks (pending @ [b]) bs
      | Some True \<Rightarrow>
          Option.bind (flush_pending pending) (\<lambda>us. Option.bind (tool_msg (dict_of b)) (\<lambda>t.
            map_option (\<lambda>rest. us @ t # rest) (user_blocks [] bs))))"

text \<open>What a block of an assistant message adds: texts, thinking, tool calls.\<close>

definition text_field :: "pyval \<Rightarrow> string option" where
  "text_field v = (case py_or v (PStr []) of PStr s \<Rightarrow> Some s | _ \<Rightarrow> None)"

definition tool_call_of :: "string \<Rightarrow> pydict \<Rightarrow> pyval" where
  "tool_call_of fresh d =
     PDict [(''id'', py_or (dget d ''id'') (PStr (''toolu_'' @ fresh))), (''type'', PStr ''function''),
       (''function'', PDict [(''name'', py_or (dget d ''name'') (PStr [])),
          (''arguments'', case dget d ''input'' of
             PStr s \<Rightarrow> PStr s
           | PNone \<Rightarrow> PStr (json_dumps False (PDict []))
           | v \<Rightarrow> PStr (json_dumps False v))])]"

definition assistant_block :: "string \<Rightarrow> pyval \<Rightarrow> (string list \<times> string list \<times> pyval list) option" where
  "assistant_block fresh b =
     (case b of
        PStr s \<Rightarrow> Some ([s], [], [])
      | PDict d \<Rightarrow>
          Option.bind (lower_type (dget d ''type'') ''text'') (\<lambda>t.
            if t = ''text'' \<or> t = ''output_text'' then map_option (\<lambda>s. ([s], [], [])) (text_field (dget d ''text''))
            else if t = ''thinking'' then map_option (\<lambda>s. ([], [s], [])) (text_field (dget d ''thinking''))
            else if t = ''tool_use'' then Some ([], [], [tool_call_of fresh d])
            else Some ([], [], []))
      | _ \<Rightarrow> Some ([], [], []))"

definition assistant_msg :: "string list \<times> string list \<times> pyval list \<Rightarrow> pyval" where
  "assistant_msg = (\<lambda>(texts, thinking, calls).
     let joined = join_with newline (filter (\<lambda>p. p \<noteq> []) texts)
     in PDict ([(''role'', PStr ''assistant'')] @
          (if thinking \<noteq> [] then [(''reasoning_content'', PStr (join_with newline thinking))] else []) @
          (if calls \<noteq> [] then [(''tool_calls'', PList calls), (''content'', if joined \<noteq> [] then PStr joined else PNone)]
           else [(''content'', PStr joined)])))"

definition assistant_to_openai :: "(nat \<Rightarrow> string) \<Rightarrow> pyval \<Rightarrow> pyval option" where
  "assistant_to_openai uuid content =
     (case content of
        PStr s \<Rightarrow> Some (assistant_msg ([s], [], []))
      | PList bs \<Rightarrow>
          map_option (\<lambda>ps. assistant_msg (concat (map fst ps), concat (map (fst \<circ> snd) ps), concat (map (snd \<circ> snd) ps)))
            (those (map (\<lambda>(i, b). assistant_block (uuid i) b) (enumerate 0 bs)))
      | v \<Rightarrow> map_option (\<lambda>s. assistant_msg ([s], [], [])) (as_text v))"

definition system_msg :: "string \<Rightarrow> pyval list" where
  "system_msg text = (if strip text \<noteq> [] then [chat_msg ''system'' (PStr text)] else [])"

definition message_to_openai :: "(nat \<Rightarrow> string) \<Rightarrow> pyval \<Rightarrow> pyval list option" where
  "message_to_openai uuid raw =
     (case raw of
        PDict d \<Rightarrow>
          (let content = dget d ''content''
           in Option.bind (lower_type (dget d ''role'') ''user'') (\<lambda>role.
                if role = ''user'' then
                  (case content of
                     PList bs \<Rightarrow> user_blocks [] bs
                   | _ \<Rightarrow> map_option (\<lambda>c. [chat_msg ''user'' c]) (user_content_to_openai content))
                else if role = ''assistant'' then map_option (\<lambda>m. [m]) (assistant_to_openai uuid content)
                else if role = ''system'' \<or> role = ''developer'' then map_option system_msg (as_text content)
                else map_option (\<lambda>t. [chat_msg ''user'' (PStr t)]) (as_text content)))
      | _ \<Rightarrow> Some [])"

definition system_to_openai :: "pyval \<Rightarrow> pyval list option" where
  "system_to_openai system =
     (case system of
        PStr s \<Rightarrow> Some (system_msg s)
      | PList bs \<Rightarrow> map_option system_msg (as_text (PList bs))
      | PDict d \<Rightarrow> (if d = [] then Some [] else map_option system_msg (as_text (PList [PDict d])))
      | _ \<Rightarrow> Some [])"

definition anthropic_messages_to_openai :: "(nat \<Rightarrow> nat \<Rightarrow> string) \<Rightarrow> pyval list \<Rightarrow> pyval \<Rightarrow> pyval list option" where
  "anthropic_messages_to_openai uuid messages system =
     Option.bind (system_to_openai system) (\<lambda>sys.
       map_option (\<lambda>ms. sys @ concat ms) (those (map (\<lambda>(i, m). message_to_openai (uuid i) m) (enumerate 0 messages))))"

subsection \<open>Tools\<close>

definition empty_tool_parameters :: pydict where
  "empty_tool_parameters = [(''type'', PStr ''object''), (''properties'', PDict [])]"

text \<open>A schema given as JSON text is decoded; every decoding of a text leaves a shorter one.\<close>

fun ensure_params :: "nat \<Rightarrow> pyval \<Rightarrow> pydict" where
  "ensure_params n (PDict d) =
     (let d1 = (if dhas d ''type'' then d else dset d ''type'' (PStr ''object''))
      in (if dget d1 ''type'' = PStr ''object'' \<and> \<not> dhas d1 ''properties'' then dset d1 ''properties'' (PDict []) else d1))"
| "ensure_params (Suc n) (PStr s) =
     (let text = strip s
      in (if text = [] then empty_tool_parameters
          else case json_loads text of Some v \<Rightarrow> ensure_params n v | None \<Rightarrow> empty_tool_parameters))"
| "ensure_params n v = empty_tool_parameters"

definition ensure_tool_parameters :: "pyval \<Rightarrow> pydict" where
  "ensure_tool_parameters v = ensure_params (case v of PStr s \<Rightarrow> Suc (length s) | _ \<Rightarrow> 0) v"

definition first_given :: "pyval list \<Rightarrow> pyval" where
  "first_given vs = (case filter (\<lambda>v. v \<noteq> PNone) vs of v # _ \<Rightarrow> v | [] \<Rightarrow> PNone)"

definition openai_tool :: "pydict \<Rightarrow> pyval" where
  "openai_tool fn = PDict [(''type'', PStr ''function''), (''function'', PDict fn)]"

definition tool_to_openai :: "pyval \<Rightarrow> pyval list" where
  "tool_to_openai t =
     (case t of
        PDict d \<Rightarrow>
          (case dget d ''function'' of
             PDict fn \<Rightarrow>
               (let name = py_or (dget fn ''name'') (dget d ''name'');
                    raw = first_given [dget fn ''parameters'', dget fn ''input_schema'', dget d ''parameters'', dget d ''input_schema'']
                in (if \<not> truthy name then []
                    else [openai_tool (dpop (dset (dset fn ''name'' name) ''parameters'' (PDict (ensure_tool_parameters raw))) ''input_schema'')]))
           | _ \<Rightarrow>
               (let name = dget d ''name''
                in (if \<not> truthy name then []
                    else [openai_tool ([(''name'', name)] @
                            (if dget d ''description'' \<noteq> PNone then [(''description'', dget d ''description'')] else []) @
                            [(''parameters'', PDict (ensure_tool_parameters (first_given [dget d ''input_schema'', dget d ''parameters''])))])])))
      | _ \<Rightarrow> [])"

definition tool_sort_key :: "pyval \<Rightarrow> string" where
  "tool_sort_key t = lower (str_of (py_or (dget (dict_of (dget (dict_of t) ''function'')) ''name'') (dget (dict_of t) ''name'')))"

definition anthropic_tools_to_openai :: "pyval list \<Rightarrow> pyval list" where
  "anthropic_tools_to_openai tools = sort_key tool_sort_key (concat (map tool_to_openai tools))"

definition anthropic_tool_choice_to_openai :: "pyval \<Rightarrow> pyval option" where
  "anthropic_tool_choice_to_openai choice =
     (case choice of
        PStr s \<Rightarrow>
          (let low = lower s
           in Some (if low = ''any'' then PStr ''required''
                    else if low \<in> {''auto'', ''none'', ''required''} then PStr low else choice))
      | PDict d \<Rightarrow>
          map_option (\<lambda>t.
            if t = ''auto'' then PStr ''auto'' else if t = ''any'' then PStr ''required'' else if t = ''none'' then PStr ''none''
            else if t = ''tool'' then PDict [(''type'', PStr ''function''),
              (''function'', PDict [(''name'', py_or (dget d ''name'') (PStr []))])]
            else choice) (lower_type (dget d ''type'') [])
      | _ \<Rightarrow> Some choice)"

subsection \<open>The body\<close>

definition THINKING_EFFORT_MAP :: "(string \<times> string) list" where
  "THINKING_EFFORT_MAP = [(''low'', ''low''), (''medium'', ''medium''), (''high'', ''high''), (''xhigh'', ''xhigh''),
     (''extra_high'', ''xhigh''), (''extrahigh'', ''xhigh'')]"

definition effort_named :: "pyval \<Rightarrow> string option" where
  "effort_named v = (case v of PStr s \<Rightarrow> if strip s \<noteq> [] then map_of THINKING_EFFORT_MAP (strip (lower s)) else None | _ \<Rightarrow> None)"

definition effort_of_budget :: "pyval \<Rightarrow> string" where
  "effort_of_budget v =
     (case py_int v of
        None \<Rightarrow> ''medium''
      | Some n \<Rightarrow> (if n \<le> 4096 then ''low'' else if n \<le> 16000 then ''medium'' else if n \<le> 48000 then ''high'' else ''xhigh''))"

definition thinking_to_reasoning_effort :: "pyval \<Rightarrow> string option option" where
  "thinking_to_reasoning_effort thinking =
     (case thinking of
        PStr s \<Rightarrow> Some (map_of THINKING_EFFORT_MAP (strip (lower s)))
      | PBool b \<Rightarrow> Some (if b then Some ''medium'' else None)
      | PDict d \<Rightarrow>
          map_option (\<lambda>t.
            if t \<noteq> ''enabled'' \<and> t \<noteq> [] then None
            else case effort_named (dget d ''effort'') of
              Some e \<Rightarrow> Some e
            | None \<Rightarrow> (case effort_named (dget d ''reasoning_effort'') of
                Some e \<Rightarrow> Some e
              | None \<Rightarrow> Some (effort_of_budget (dget d ''budget_tokens'')))) (lower_type (dget d ''type'') [])
      | _ \<Rightarrow> Some None)"

record messages_request =
  mr_messages :: "pyval list"
  mr_max_tokens :: int
  mr_system :: pyval
  mr_stream :: bool
  mr_temperature :: pyval
  mr_top_p :: pyval
  mr_stop_sequences :: "pyval list"
  mr_metadata :: pyval
  mr_tools :: "pyval list"
  mr_tool_choice :: pyval
  mr_thinking :: pyval

definition cache_control_piece :: "pyval \<Rightarrow> string option" where
  "cache_control_piece block =
     (case block of
        PDict d \<Rightarrow>
          (case dget d ''cache_control'' of
             PNone \<Rightarrow> None
           | PBool b \<Rightarrow> (if b then Some ''cc:1'' else None)
           | PDict cc \<Rightarrow>
               (let t0 = strip (py_str (py_or (dget cc ''type'') (PStr ''ephemeral'')));
                    ctype = (if t0 \<noteq> [] then t0 else ''ephemeral''); ttl = dget cc ''ttl''
                in Some (if ttl \<noteq> PNone \<and> strip (py_str ttl) \<noteq> [] then ''cc:'' @ ctype @ '':'' @ take 24 (strip (py_str ttl))
                         else ''cc:'' @ ctype))
           | PStr s \<Rightarrow> Some (if strip s \<noteq> [] then ''cc:'' @ take 40 (strip s) else ''cc:1'')
           | _ \<Rightarrow> Some ''cc:1'')
      | _ \<Rightarrow> None)"

definition system_pieces :: "pyval \<Rightarrow> string list" where
  "system_pieces system =
     concat (map (\<lambda>b. case cache_control_piece b of
         Some mark \<Rightarrow> [''sys:'' @ mark @ '':'' @ take 120 (str_of (dget (dict_of b) ''text''))] | None \<Rightarrow> [])
       (case system of PList bs \<Rightarrow> bs | PDict d \<Rightarrow> [PDict d] | _ \<Rightarrow> []))"

definition tool_pieces :: "pyval list \<Rightarrow> string list" where
  "tool_pieces tools =
     concat (map (\<lambda>t. case cache_control_piece t of
         Some mark \<Rightarrow> [''tool:'' @ mark @ '':'' @ take 80 (str_of (dget (dict_of t) ''name''))] | None \<Rightarrow> []) tools)"

fun block_pieces :: "pyval list \<Rightarrow> string list \<Rightarrow> string list" where
  "block_pieces [] pieces = pieces"
| "block_pieces (b # bs) pieces =
     (case cache_control_piece b of
        None \<Rightarrow> block_pieces bs pieces
      | Some mark \<Rightarrow>
          (let p = pieces @ [''msg:'' @ mark @ '':'' @ take 32 (str_of (dget (dict_of b) ''type''))]
           in (if 12 \<le> length p then p else block_pieces bs p)))"

fun message_pieces :: "pyval list \<Rightarrow> string list \<Rightarrow> string list" where
  "message_pieces [] pieces = pieces"
| "message_pieces (m # ms) pieces =
     (case dget (dict_of m) ''content'' of
        PList bs \<Rightarrow> (let p = block_pieces bs pieces in (if 12 \<le> length p then p else message_pieces ms p))
      | _ \<Rightarrow> message_pieces ms pieces)"

text \<open>\<open>sha\<close> is the hexadecimal SHA-256 digest.\<close>

definition extract_anthropic_prompt_cache_key :: "(string \<Rightarrow> string) \<Rightarrow> messages_request \<Rightarrow> string option" where
  "extract_anthropic_prompt_cache_key sha req =
     (let named = filter (\<lambda>v. v \<noteq> PNone \<and> strip (py_str v) \<noteq> []) (map (dget (dict_of (mr_metadata req)))
            [''prompt_cache_key'', ''promptCacheKey'', ''cache_key'', ''cacheKey'', ''session_id'', ''sessionId'', ''user_id'']);
          pieces = message_pieces (take 4 (mr_messages req)) (system_pieces (mr_system req) @ tool_pieces (mr_tools req))
      in (case named of
            v # _ \<Rightarrow> Some (take 240 (strip (py_str v)))
          | [] \<Rightarrow> (if pieces = [] then None else Some (''acc:'' @ take 32 (sha (join_with ''|'' pieces))))))"

definition opt_field :: "string \<Rightarrow> pyval \<Rightarrow> pydict" where
  "opt_field k v = (if v \<noteq> PNone then [(k, v)] else [])"

definition build_openai_chat_body ::
  "(nat \<Rightarrow> nat \<Rightarrow> string) \<Rightarrow> (string \<Rightarrow> string) \<Rightarrow> messages_request \<Rightarrow> string \<Rightarrow> bool \<Rightarrow> pydict option" where
  "build_openai_chat_body uuid sha req model force_stream =
     (let stream = force_stream \<or> mr_stream req;
          tools = anthropic_tools_to_openai (mr_tools req);
          user = dget (dict_of (mr_metadata req)) ''user_id''
      in Option.bind (anthropic_messages_to_openai uuid (mr_messages req) (mr_system req)) (\<lambda>messages.
         Option.bind (if tools = [] then Some [] else map_option (opt_field ''tool_choice'') (anthropic_tool_choice_to_openai (mr_tool_choice req))) (\<lambda>choice.
         Option.bind (thinking_to_reasoning_effort (mr_thinking req)) (\<lambda>effort.
           Some ([(''model'', PStr model), (''messages'', PList messages), (''stream'', PBool stream), (''max_tokens'', PInt (mr_max_tokens req))] @
             (if tools = [] then [] else [(''tools'', PList tools)]) @ choice @
             opt_field ''temperature'' (mr_temperature req) @ opt_field ''top_p'' (mr_top_p req) @
             (if mr_stop_sequences req = [] then [] else [(''stop'', PList (mr_stop_sequences req))]) @
             (if truthy user then [(''user'', PStr (py_str user))] else []) @
             opt_field ''prompt_cache_key'' (of_opt PStr (extract_anthropic_prompt_cache_key sha req)) @
             opt_field ''reasoning_effort'' (of_opt PStr effort) @
             (if stream then [(''stream_options'', PDict [(''include_usage'', PBool True)])] else []))))))"

subsection \<open>Token counts\<close>

definition estimate_tokens :: "string \<Rightarrow> nat" where
  "estimate_tokens s = (if s = [] then 0 else max 1 ((length s + 3) div 4))"

definition message_tokens :: "pyval \<Rightarrow> nat option" where
  "message_tokens m =
     (case m of
        PDict d \<Rightarrow>
          map_option (\<lambda>t. estimate_tokens t +
            (\<Sum>b \<leftarrow> list_of (dget d ''content''). case b of
               PDict b \<Rightarrow>
                 (if dget b ''type'' = PStr ''tool_use'' then estimate_tokens (str_of (dget b ''name'')) +
                    estimate_tokens (json_dumps False (py_or (dget b ''input'') (PDict []))) else 0)
             | _ \<Rightarrow> 0)) (as_text (dget d ''content''))
      | _ \<Rightarrow> Some 0)"

definition tool_tokens :: "pyval \<Rightarrow> nat" where
  "tool_tokens t =
     (case t of
        PDict d \<Rightarrow> estimate_tokens (str_of (dget d ''name'')) + estimate_tokens (str_of (dget d ''description'')) +
          estimate_tokens (json_dumps False (py_or (py_or (dget d ''input_schema'') (dget d ''parameters'')) (PDict [])))
      | _ \<Rightarrow> 0)"

definition count_tokens_for_request :: "messages_request \<Rightarrow> nat option" where
  "count_tokens_for_request req =
     Option.bind (as_text (mr_system req)) (\<lambda>s.
       map_option (\<lambda>ns. estimate_tokens s + sum_list ns + (\<Sum>t \<leftarrow> mr_tools req. tool_tokens t)) (those (map message_tokens (mr_messages req))))"

subsection \<open>Whole replies\<close>

definition tool_call_block :: "string list \<Rightarrow> string \<Rightarrow> pyval \<Rightarrow> pyval list" where
  "tool_call_block allowed fresh tc =
     (case tc of
        PDict d \<Rightarrow>
          (let fn = dict_of (dget d ''function'');
               name = canonical_outbound_tool_name allowed (str_of (py_or (dget fn ''name'') (dget d ''name'')));
               args_raw = (if dget fn ''arguments'' \<noteq> PNone then dget fn ''arguments'' else py_or (dget d ''arguments'') (dget d ''input''));
               args = effective_tool_arguments_json name args_raw;
               parsed = parse_tool_arguments (PStr args)
           in (if args = [] \<or> \<not> is_complete_tool_arguments_json name args then []
               else if set (map fst parsed) = {''_raw''} then []
               else if name = [] then []
               else [PDict [(''type'', PStr ''tool_use''), (''id'', py_or (dget d ''id'') (PStr (''toolu_'' @ fresh))),
                       (''name'', PStr name), (''input'', PDict parsed)]]))
      | _ \<Rightarrow> [])"

definition openai_tool_calls_to_content_blocks :: "(nat \<Rightarrow> string) \<Rightarrow> string list \<Rightarrow> pyval list \<Rightarrow> pyval list" where
  "openai_tool_calls_to_content_blocks uuid allowed calls =
     concat (map (\<lambda>(i, tc). tool_call_block allowed (uuid i) tc) (enumerate 0 calls))"

definition approx_len :: "string \<Rightarrow> int" where
  "approx_len s = (if s = [] then 0 else max 1 (int ((length s + 3) div 4)))"

definition reply_usage :: "pyval \<Rightarrow> string \<Rightarrow> string \<Rightarrow> pyval list \<Rightarrow> int \<times> int" where
  "reply_usage usage content reasoning tool_blocks =
     (let u = dict_of usage;
          in0 = int_try (py_or (dget u ''prompt_tokens'') (dget u ''input_tokens''));
          out0 = int_try (py_or (dget u ''completion_tokens'') (dget u ''output_tokens''));
          total = int_try (dget u ''total_tokens'');
          in1 = (if in0 \<le> 0 \<and> out0 \<le> 0 \<and> 0 < total then total else in0);
          approx = approx_len content + approx_len reasoning +
            (if tool_blocks \<noteq> [] then max 1 (int ((length (json_dumps False (PList tool_blocks)) + 3) div 4)) else 0)
      in (in1, if out0 \<le> 0 then approx else out0))"

definition openai_completion_to_anthropic ::
  "(nat \<Rightarrow> string) \<Rightarrow> string list \<Rightarrow> string \<Rightarrow> string \<Rightarrow> string \<Rightarrow> string \<Rightarrow> string option \<Rightarrow> pyval \<Rightarrow> pyval list \<Rightarrow> pydict" where
  "openai_completion_to_anthropic uuid allowed message_id model content reasoning finish_reason usage calls =
     (let tool_blocks = openai_tool_calls_to_content_blocks uuid allowed calls;
          blocks0 = (if reasoning \<noteq> [] then [PDict [(''type'', PStr ''thinking''), (''thinking'', PStr reasoning)]] else []) @
            (if content \<noteq> [] then [PDict [(''type'', PStr ''text''), (''text'', PStr content)]] else []) @ tool_blocks;
          blocks = (if blocks0 = [] then [PDict [(''type'', PStr ''text''), (''text'', PStr [])]] else blocks0);
          (input_tokens, output_tokens) = reply_usage usage content reasoning tool_blocks;
          (cache_read, cache_creation) = anthropic_cache_tokens usage
      in [(''id'', PStr message_id), (''type'', PStr ''message''), (''role'', PStr ''assistant''), (''content'', PList blocks),
          (''model'', PStr model), (''stop_reason'', PStr (map_finish_to_stop_reason finish_reason (tool_blocks \<noteq> []))),
          (''stop_sequence'', PNone),
          (''usage'', PDict [(''input_tokens'', PInt input_tokens), (''output_tokens'', PInt output_tokens),
             (''cache_creation_input_tokens'', PInt cache_creation), (''cache_read_input_tokens'', PInt cache_read)])])"

definition anthropic_error :: "string \<Rightarrow> int \<Rightarrow> string \<Rightarrow> pydict" where
  "anthropic_error message status err_type =
     [(''type'', PStr ''error''),
      (''error'', PDict [(''type'', PStr (if status = 401 then ''authentication_error'' else if status = 403 then ''permission_error''
         else if status = 404 then ''not_found_error'' else if status = 429 then ''rate_limit_error''
         else if status = 400 then ''invalid_request_error'' else err_type)), (''message'', PStr message)])]"

end
