(* ===== verification/Anthropic_Theorems.thy ===== *)
theory Anthropic_Theorems
  imports Anthropic_Texts Anthropic_Messages "HOL-Library.Multiset"
begin

text \<open>What the conversion of requests and of whole replies keeps, and how a stream and a whole reply agree.\<close>

subsection \<open>Tool results\<close>

lemma those_Some_iff: "those xs = Some ys \<longleftrightarrow> xs = map Some ys"
proof (induction xs arbitrary: ys)
  case (Cons x xs)
  show ?case
  proof (cases x)
    case None
    then show ?thesis by (cases ys) simp_all
  next
    case (Some a)
    then show ?thesis using Cons by (cases ys) auto
  qed
qed auto

text \<open>The tool results of a request, and the tool messages of a chat.\<close>

definition results_of :: "pyval list \<Rightarrow> pydict list" where
  "results_of bs = map dict_of (filter (\<lambda>b. is_tool_result b = Some True) bs)"

definition request_results :: "pyval \<Rightarrow> pydict list" where
  "request_results m =
     (case m of
        PDict d \<Rightarrow> (if lower_type (dget d ''role'') ''user'' = Some ''user'' then results_of (list_of (dget d ''content'')) else [])
      | _ \<Rightarrow> [])"

definition tool_msgs :: "pyval list \<Rightarrow> pyval list" where
  "tool_msgs ms = filter (\<lambda>m. dget (dict_of m) ''role'' = PStr ''tool'') ms"

lemma tool_msgs_append [simp]: "tool_msgs (xs @ ys) = tool_msgs xs @ tool_msgs ys" "tool_msgs [] = []"
  by (simp_all add: tool_msgs_def)

lemma tool_msgs_user [simp]: "tool_msgs [chat_msg ''user'' c] = []" "tool_msgs (system_msg t) = []"
  by (simp_all add: tool_msgs_def chat_msg_def system_msg_def)

lemma flush_no_tool: "flush_pending p = Some us \<Longrightarrow> tool_msgs us = []"
  by (auto simp: flush_pending_def split: if_splits)

lemma tool_msg_role: "tool_msg d = Some m \<Longrightarrow> tool_msgs (m # ms) = m # tool_msgs ms"
  by (auto simp: tool_msg_def tool_msgs_def)

lemma user_blocks_results: "user_blocks p bs = Some out \<Longrightarrow> map Some (tool_msgs out) = map tool_msg (results_of bs)"
proof (induction p bs arbitrary: out rule: user_blocks.induct)
  case (1 p)
  then show ?case by (simp add: flush_no_tool results_of_def)
next
  case (2 p b bs)
  show ?case
  proof (cases "is_tool_result b")
    case None
    then show ?thesis using 2(3) by simp
  next
    case (Some t)
    show ?thesis
    proof (cases t)
      case True
      with Some have s: "is_tool_result b = Some True" by simp
      from True obtain us m rest where o: "flush_pending p = Some us" "tool_msg (dict_of b) = Some m" "user_blocks [] bs = Some rest"
        "out = us @ m # rest" using 2(3) Some by (auto simp: bind_eq_Some_conv)
      have "tool_msgs out = m # tool_msgs rest"
        using flush_no_tool [OF o(1)] tool_msg_role [OF o(2)] by (simp add: o(4))
      then show ?thesis using 2(1) [OF s refl o(1,2,3)] o(2) Some True by (simp add: results_of_def)
    next
      case False
      with Some have s: "is_tool_result b = Some False" by simp
      from False show ?thesis using 2(2) [OF s refl] 2(3) Some by (simp add: results_of_def)
    qed
  qed
qed

lemma assistant_no_tool: "tool_msgs [assistant_msg x] = []"
  by (simp add: tool_msgs_def assistant_msg_def Let_def split_beta)

lemma assistant_to_openai_no_tool: "assistant_to_openai uuid c = Some m \<Longrightarrow> tool_msgs [m] = []"
  by (auto simp: assistant_to_openai_def assistant_no_tool split: pyval.splits)

lemma message_results: "message_to_openai uuid m = Some out \<Longrightarrow> map Some (tool_msgs out) = map tool_msg (request_results m)"
proof (cases m)
  case (PDict d)
  assume m: "message_to_openai uuid m = Some out"
  then obtain role where role: "lower_type (dget d ''role'') ''user'' = Some role"
    by (auto simp: PDict message_to_openai_def Let_def bind_eq_Some_conv)
  show ?thesis
  proof (cases "role = ''user''")
    case True
    show ?thesis
    proof (cases "dget d ''content''")
      case (PList bs)
      then show ?thesis
        using user_blocks_results [of "[]" bs out] m True by (simp add: PDict message_to_openai_def role request_results_def)
    qed (use m True in \<open>auto simp: PDict message_to_openai_def role request_results_def results_of_def\<close>)
  next
    case False
    then show ?thesis
      using m assistant_to_openai_no_tool
      by (auto simp: PDict message_to_openai_def role request_results_def Let_def split: if_splits)
  qed
qed (simp_all add: message_to_openai_def request_results_def)

text \<open>
  C36: the tool results of a request reach the chat as its tool messages, all of them, in their order, each with the
  id of its call and its text, whatever other blocks stand between them.
\<close>

theorem tool_results_kept:
  assumes "anthropic_messages_to_openai uuid ms system = Some out"
  shows "map Some (tool_msgs out) = map tool_msg (concat (map request_results ms))"
proof -
  obtain sys outs where sys: "system_to_openai system = Some sys" and out: "out = sys @ concat outs"
    and outs: "map (\<lambda>(i, m). message_to_openai (uuid i) m) (enumerate 0 ms) = map Some outs"
    using assms by (auto simp: anthropic_messages_to_openai_def bind_eq_Some_conv those_Some_iff)
  have s: "tool_msgs sys = []"
    using sys by (auto simp: system_to_openai_def split: pyval.splits if_splits)
  have "map (\<lambda>(i, m). message_to_openai (uuid i) m) (enumerate n ms) = map Some outs \<Longrightarrow>
      map Some (tool_msgs (concat outs)) = map tool_msg (concat (map request_results ms))" for n
  proof (induction ms arbitrary: n outs)
    case (Cons m ms)
    then obtain o1 os where o: "outs = o1 # os" "message_to_openai (uuid n) m = Some o1"
      "map (\<lambda>(i, m). message_to_openai (uuid i) m) (enumerate (Suc n) ms) = map Some os" by (cases outs) auto
    show ?case using message_results [OF o(2)] Cons.IH [OF o(3)] by (simp add: o(1))
  qed simp
  from this [OF outs] show ?thesis by (simp add: out s)
qed

definition result_message :: pyval where
  "result_message = PDict [(''role'', PStr ''user''), (''content'', PList
     [PStr ''see'', PDict [(''type'', PStr ''tool_result''), (''tool_use_id'', PStr ''t1''), (''content'', PStr ''ok'')]])]"

theorem tool_results_kept_witness:
  "\<exists>out. anthropic_messages_to_openai (\<lambda>_ _. []) [result_message] PNone = Some out \<and>
     map Some (tool_msgs out) = [tool_msg [(''type'', PStr ''tool_result''), (''tool_use_id'', PStr ''t1''), (''content'', PStr ''ok'')]]"
proof -
  have "anthropic_messages_to_openai (\<lambda>_ _. []) [result_message] PNone \<noteq> None" by code_simp
  then obtain out where o: "anthropic_messages_to_openai (\<lambda>_ _. []) [result_message] PNone = Some out" by blast
  have "concat (map request_results [result_message]) = [[(''type'', PStr ''tool_result''), (''tool_use_id'', PStr ''t1''), (''content'', PStr ''ok'')]]"
    by code_simp
  with tool_results_kept [OF o] o show ?thesis by simp
qed

subsection \<open>The body\<close>

lemma ensure_params_object: "dhas (ensure_params n v) ''type''"
  by (induction n v rule: ensure_params.induct) (auto simp: empty_tool_parameters_def Let_def split: option.splits)

definition tool_fn :: "pyval \<Rightarrow> pydict" where
  "tool_fn t = dict_of (dget (dict_of t) ''function'')"

definition good_tool :: "pyval \<Rightarrow> bool" where
  "good_tool t \<longleftrightarrow> truthy (dget (tool_fn t) ''name'') \<and> dhas (dict_of (dget (tool_fn t) ''parameters'')) ''type''"

lemma good_openai_tool: "truthy (dget fn ''name'') \<Longrightarrow> dget fn ''parameters'' = PDict (ensure_tool_parameters v) \<Longrightarrow> good_tool (openai_tool fn)"
  by (simp add: good_tool_def tool_fn_def openai_tool_def ensure_tool_parameters_def ensure_params_object)

lemma tool_to_openai_params: "x \<in> set (tool_to_openai t) \<Longrightarrow> good_tool x"
proof (cases t)
  case (PDict d)
  assume x: "x \<in> set (tool_to_openai t)"
  show ?thesis
  proof (cases "dget d ''function''")
    case (PDict fn)
    with x \<open>t = PDict d\<close> show ?thesis
      by (auto simp: tool_to_openai_def Let_def intro!: good_openai_tool split: if_splits)
  qed (use x PDict in \<open>auto simp: tool_to_openai_def Let_def intro!: good_openai_tool split: if_splits\<close>)
qed (simp_all add: tool_to_openai_def)

lemma no_key_append [simp]: "map_of (xs @ ys) k = None \<longleftrightarrow> map_of xs k = None \<and> map_of ys k = None"
  by (simp add: map_add_None)

lemma no_key_opt_field [simp]: "k \<noteq> k' \<Longrightarrow> map_of (opt_field k v) k' = None"
  by (simp add: opt_field_def)

lemma body_parts:
  assumes "build_openai_chat_body uuid sha req model force = Some body" "tools = anthropic_tools_to_openai (mr_tools req)"
  obtains pre choice rest where "body = pre @ (if tools = [] then [] else [(''tools'', PList tools)]) @ choice @ rest"
    "map_of pre ''tools'' = None" "map_of pre ''tool_choice'' = None" "map_of rest ''tools'' = None" "map_of rest ''tool_choice'' = None"
    "map_of choice ''tools'' = None" "tools = [] \<Longrightarrow> choice = []"
proof -
  obtain messages choice effort where b: "body = [(''model'', PStr model), (''messages'', PList messages), (''stream'', PBool (force \<or> mr_stream req)), (''max_tokens'', PInt (mr_max_tokens req))] @
      (if tools = [] then [] else [(''tools'', PList tools)]) @ choice @
      opt_field ''temperature'' (mr_temperature req) @ opt_field ''top_p'' (mr_top_p req) @
      (if mr_stop_sequences req = [] then [] else [(''stop'', PList (mr_stop_sequences req))]) @
      (if truthy (dget (dict_of (mr_metadata req)) ''user_id'') then [(''user'', PStr (py_str (dget (dict_of (mr_metadata req)) ''user_id'')))] else []) @
      opt_field ''prompt_cache_key'' (of_opt PStr (extract_anthropic_prompt_cache_key sha req)) @
      opt_field ''reasoning_effort'' (of_opt PStr effort) @
      (if force \<or> mr_stream req then [(''stream_options'', PDict [(''include_usage'', PBool True)])] else [])"
    (is "_ = ?pre @ _ @ _ @ ?rest")
    and c: "(if tools = [] then Some [] else map_option (opt_field ''tool_choice'') (anthropic_tool_choice_to_openai (mr_tool_choice req))) = Some choice"
    using assms unfolding build_openai_chat_body_def Let_def bind_eq_Some_conv option.inject by blast
  have r: "map_of ?rest k = None" if "k = ''tools'' \<or> k = ''tool_choice''" for k using that by (elim disjE) simp_all
  show ?thesis by (rule that [OF b]) (use r c in \<open>auto split: if_splits\<close>)
qed

lemma body_fields:
  assumes "build_openai_chat_body uuid sha req model force = Some body" "tools = anthropic_tools_to_openai (mr_tools req)"
  shows "dget body ''tools'' = (if tools = [] then PNone else PList tools)" "dhas body ''tool_choice'' \<Longrightarrow> dhas body ''tools''"
  by (rule body_parts [OF assms]; force simp: dget_def dhas_def map_add_def split: option.splits)+

text \<open>
  C37: a body carries a tool choice only beside tools; its tools are sorted by name, each has a name and a typed
  schema, and none of the request's is lost or repeated.
\<close>

theorem body_tools:
  assumes "build_openai_chat_body uuid sha req model force = Some body"
  shows "(dhas body ''tool_choice'' \<longrightarrow> dhas body ''tools'') \<and>
    (let tools = list_of (dget body ''tools'')
     in sorted (map tool_sort_key tools) \<and> mset tools = mset (concat (map tool_to_openai (mr_tools req))) \<and>
        (\<forall>t \<in> set tools. good_tool t))"
proof -
  let ?tools = "anthropic_tools_to_openai (mr_tools req)"
  have "list_of (dget body ''tools'') = ?tools" using body_fields(1) [OF assms refl] by simp
  moreover have "sorted (map tool_sort_key ?tools)" "mset ?tools = mset (concat (map tool_to_openai (mr_tools req)))"
    by (simp_all add: anthropic_tools_to_openai_def)
  moreover have "\<forall>t \<in> set ?tools. good_tool t" using tool_to_openai_params by (auto simp: anthropic_tools_to_openai_def)
  ultimately show ?thesis using body_fields(2) [OF assms refl] by (simp add: Let_def)
qed

definition sample_tools :: "pyval list" where
  "sample_tools = [PDict [(''name'', PStr ''b'')], PStr ''x'', PDict [(''name'', PStr ''A''), (''input_schema'', PDict [])]]"

definition sample_request :: messages_request where
  "sample_request = \<lparr>mr_messages = [], mr_max_tokens = 9, mr_system = PNone, mr_stream = True, mr_temperature = PNone, mr_top_p = PNone,
     mr_stop_sequences = [], mr_metadata = PNone, mr_tools = sample_tools, mr_tool_choice = PStr ''any'', mr_thinking = PNone\<rparr>"

theorem body_tools_witness:
  "\<exists>body. build_openai_chat_body (\<lambda>_ _. []) (\<lambda>s. s) sample_request ''g'' False = Some body \<and>
     map tool_sort_key (list_of (dget body ''tools'')) = [''a'', ''b''] \<and> list_all good_tool (list_of (dget body ''tools''))"
proof -
  have t: "map tool_sort_key (anthropic_tools_to_openai sample_tools) = [''a'', ''b'']"
    "anthropic_tool_choice_to_openai (PStr ''any'') = Some (PStr ''required'')" by code_simp+
  have "\<exists>body. build_openai_chat_body (\<lambda>_ _. []) (\<lambda>s. s) sample_request ''g'' False = Some body"
    by (simp add: build_openai_chat_body_def sample_request_def t(2) anthropic_messages_to_openai_def system_to_openai_def
        thinking_to_reasoning_effort_def Let_def)
  then obtain body where b: "build_openai_chat_body (\<lambda>_ _. []) (\<lambda>s. s) sample_request ''g'' False = Some body" by blast
  have k: "map tool_sort_key (list_of (dget body ''tools'')) = [''a'', ''b'']"
    using body_fields(1) [OF b refl] t(1) by (auto simp: sample_request_def)
  have g: "list_all good_tool (list_of (dget body ''tools''))"
    using body_tools [OF b] by (simp add: Let_def list_all_iff)
  show ?thesis by (intro exI conjI) (rule b, rule k, rule g)
qed

subsection \<open>Whole replies\<close>

definition is_tool_block :: "pyval \<Rightarrow> bool" where
  "is_tool_block b \<longleftrightarrow> dget (dict_of b) ''type'' = PStr ''tool_use''"

text \<open>The text and the thinking of a message.\<close>

definition reply_text :: "string \<Rightarrow> pydict \<Rightarrow> string" where
  "reply_text k reply = concat (map (\<lambda>b. if dget (dict_of b) ''type'' = PStr k then str_of (dget (dict_of b) k) else []) (list_of (dget reply ''content'')))"

lemma tool_blocks_all: "b \<in> set (openai_tool_calls_to_content_blocks uuid al calls) \<Longrightarrow> is_tool_block b"
  by (auto simp: openai_tool_calls_to_content_blocks_def tool_call_block_def Let_def is_tool_block_def split: pyval.splits if_splits)

text \<open>
  A whole reply always has content, and says \<open>tool_use\<close> exactly when it holds a tool block.
\<close>

lemma reply_stop_reason:
  "let reply = openai_completion_to_anthropic uuid al mid model content reasoning fr usage calls
   in list_of (dget reply ''content'') \<noteq> [] \<and>
      (dget reply ''stop_reason'' = PStr ''tool_use'' \<longleftrightarrow> list_ex is_tool_block (list_of (dget reply ''content'')))"
proof -
  let ?tb = "openai_tool_calls_to_content_blocks uuid al calls"
  have "map_finish_to_stop_reason fr (?tb \<noteq> []) = ''tool_use'' \<longleftrightarrow> ?tb \<noteq> []"
    by (simp add: map_finish_to_stop_reason_def split: option.splits)
  moreover have "list_ex is_tool_block ?tb \<longleftrightarrow> ?tb \<noteq> []"
    using tool_blocks_all [of _ uuid al calls] by (cases ?tb) (auto simp: list_ex_iff)
  ultimately show ?thesis
    by (simp add: openai_completion_to_anthropic_def Let_def split_beta dget_def is_tool_block_def)
qed

lemma plain_reply:
  assumes "reply = openai_completion_to_anthropic uuid al mid model content reasoning fr usage []"
  shows "reply_text ''text'' reply = content" "reply_text ''thinking'' reply = reasoning"
    "dget reply ''stop_reason'' = PStr (map_finish_to_stop_reason fr False)"
  using assms
  by (simp_all add: openai_completion_to_anthropic_def openai_tool_calls_to_content_blocks_def Let_def split_beta reply_text_def
      dget_def str_of_def)

text \<open>
  C19: a response without tool calls reads the same streamed and whole: the same text, the same reasoning, the same
  stop reason.
\<close>

theorem stream_matches_reply:
  assumes "\<forall>x \<in> set chunks. snd (snd x) = []"
    and "ev = fst (run_stream uuid omax chunks fr usage n (new_assembler mid model req mt al))"
    and "reply = openai_completion_to_anthropic uuid' al mid model (concat (map fst chunks)) (concat (map (fst \<circ> snd) chunks)) fr usage []"
  shows "text_of ev = reply_text ''text'' reply \<and> thinking_of ev = reply_text ''thinking'' reply \<and>
    dget reply ''stop_reason'' = of_opt PStr (stop_of ev)"
  using stream_texts [OF assms(2)] stream_stop_plain [OF assms(1), of uuid omax fr usage n mid model req mt al] assms(1,2)
    plain_reply [OF assms(3)] by fastforce

theorem stream_matches_reply_witness:
  "\<exists>ev reply. ev = fst (run_stream (\<lambda>_. ''0'') 1 [(''hi'', [], []), ([], ''so'', [])] (Some ''length'') PNone 0 (new_assembler ''m'' ''g'' True None [])) \<and>
     reply = openai_completion_to_anthropic (\<lambda>_. []) [] ''m'' ''g'' ''hi'' ''so'' (Some ''length'') PNone [] \<and>
     text_of ev = reply_text ''text'' reply \<and> dget reply ''stop_reason'' = of_opt PStr (stop_of ev)"
  using stream_matches_reply [of "[(''hi'', [], []), ([], ''so'', [])]", OF _ refl refl, of "\<lambda>_. ''0''" 1 "Some ''length''" PNone 0 "''m''" "''g''" True None "[]" "\<lambda>_. []"]
  by simp

end
