(* ===== verification/Responses_Stream.thy ===== *)
theory Responses_Stream
  imports Anthropic_Messages
begin

text \<open>
  The Responses side of the gateway (\<open>grok2api/protocol/openai_responses.py\<close>): usage and response objects, the
  frames of an event stream, \<open>ResponsesLiveStreamer\<close>, which sends them while the upstream answers, and the frames
  of a collected answer. The fall-backs for a failed import of \<open>anthropic_compat\<close> are outside the model.

  \<open>uuid kind n\<close> is the random id drawn for the thing of that kind at place \<open>n\<close>.
\<close>

definition stringify :: "pyval \<Rightarrow> string" where
  "stringify v = (case v of PNone \<Rightarrow> [] | PStr s \<Rightarrow> s | w \<Rightarrow> json_dumps False w)"

subsection \<open>Usage\<close>

definition first_positive :: "int list \<Rightarrow> int \<Rightarrow> int" where
  "first_positive ns dflt = (case filter (\<lambda>n. 0 < n) ns of n # _ \<Rightarrow> n | [] \<Rightarrow> dflt)"

definition detail_of :: "pydict \<Rightarrow> string \<Rightarrow> string \<Rightarrow> int" where
  "detail_of u k parent = int_try (dget (dict_of (dget u parent)) k)"

definition detail_cached_tokens :: "pydict \<Rightarrow> int" where
  "detail_cached_tokens u =
     first_positive (map (detail_of u ''cached_tokens'') [''input_tokens_details'', ''prompt_tokens_details''] @
       map (\<lambda>k. int_try (dget u k)) [''cached_tokens'', ''cache_read_input_tokens'', ''prompt_cache_hit_tokens'']) 0"

definition detail_cache_creation_tokens :: "pydict \<Rightarrow> int" where
  "detail_cache_creation_tokens u =
     first_positive (map (\<lambda>k. int_try (dget u k)) [''cache_creation_input_tokens'', ''cache_creation_tokens''] @
       map (detail_of u ''cache_creation_tokens'') [''input_tokens_details'', ''prompt_tokens_details'']) 0"

definition detail_reasoning_tokens :: "pydict \<Rightarrow> int" where
  "detail_reasoning_tokens u =
     first_positive (map (detail_of u ''reasoning_tokens'') [''output_tokens_details'', ''completion_tokens_details''])
       (int_try (dget u ''reasoning_tokens''))"

definition chat_usage_to_responses_usage :: "pyval \<Rightarrow> pydict" where
  "chat_usage_to_responses_usage usage =
     (case usage of
        PDict u \<Rightarrow>
          (let inp = int_try (py_or (dget u ''prompt_tokens'') (dget u ''input_tokens''));
               out = int_try (py_or (dget u ''completion_tokens'') (dget u ''output_tokens''));
               total = (case py_int (py_or (dget u ''total_tokens'') (PInt (inp + out))) of Some t \<Rightarrow> t | None \<Rightarrow> inp + out);
               cached = detail_cached_tokens u; reasoning = detail_reasoning_tokens u
           in [(''input_tokens'', PInt inp), (''output_tokens'', PInt out), (''total_tokens'', PInt total),
               (''input_tokens_details'', PDict [(''cached_tokens'', PInt cached)]),
               (''output_tokens_details'', PDict [(''reasoning_tokens'', PInt reasoning)]),
               (''prompt_tokens'', PInt inp), (''completion_tokens'', PInt out),
               (''prompt_tokens_details'', PDict [(''cached_tokens'', PInt cached)]),
               (''completion_tokens_details'', PDict [(''reasoning_tokens'', PInt reasoning)]),
               (''cache_read_input_tokens'', PInt cached),
               (''cache_creation_input_tokens'', PInt (detail_cache_creation_tokens u))])
      | _ \<Rightarrow>
          [(''input_tokens'', PInt 0), (''output_tokens'', PInt 0), (''total_tokens'', PInt 0),
           (''input_tokens_details'', PDict [(''cached_tokens'', PInt 0)]),
           (''output_tokens_details'', PDict [(''reasoning_tokens'', PInt 0)])])"

subsection \<open>Events\<close>

text \<open>A message with its text, a call with its id, name and arguments; both start empty.\<close>

datatype resp_item = Item_Message string string | Item_Call string string string string

datatype resp_event =
    Created pydict
  | In_Progress pydict
  | Item_Added nat resp_item
  | Part_Added nat string
  | Text_Delta nat string string
  | Text_Done nat string string
  | Part_Done nat string string
  | Args_Delta nat string string
  | Args_Done nat string string
  | Item_Done nat resp_item
  | Completed pydict
  | Failed pydict

datatype resp_frame = Frame nat resp_event | Done_Mark

fun item_id :: "resp_item \<Rightarrow> string" where
  "item_id (Item_Message i t) = i"
| "item_id (Item_Call i c n a) = i"

fun added_json :: "resp_item \<Rightarrow> pydict" where
  "added_json (Item_Message i t) =
     [(''id'', PStr i), (''type'', PStr ''message''), (''role'', PStr ''assistant''), (''status'', PStr ''in_progress''), (''content'', PList [])]"
| "added_json (Item_Call i c n a) =
     [(''id'', PStr i), (''type'', PStr ''function_call''), (''status'', PStr ''in_progress''), (''call_id'', PStr c), (''name'', PStr n),
      (''arguments'', PStr [])]"

definition output_text :: "string \<Rightarrow> pyval" where
  "output_text t = PDict [(''type'', PStr ''output_text''), (''text'', PStr t)]"

fun done_json :: "resp_item \<Rightarrow> pydict" where
  "done_json (Item_Message i t) =
     [(''id'', PStr i), (''type'', PStr ''message''), (''role'', PStr ''assistant''), (''status'', PStr ''completed''),
      (''content'', PList [output_text t])]"
| "done_json (Item_Call i c n a) =
     [(''id'', PStr i), (''type'', PStr ''function_call''), (''status'', PStr ''completed''), (''call_id'', PStr c), (''name'', PStr n),
      (''arguments'', PStr a)]"

fun resp_event_name :: "resp_event \<Rightarrow> string" where
  "resp_event_name (Created _) = ''response.created''"
| "resp_event_name (In_Progress _) = ''response.in_progress''"
| "resp_event_name (Item_Added _ _) = ''response.output_item.added''"
| "resp_event_name (Part_Added _ _) = ''response.content_part.added''"
| "resp_event_name (Text_Delta _ _ _) = ''response.output_text.delta''"
| "resp_event_name (Text_Done _ _ _) = ''response.output_text.done''"
| "resp_event_name (Part_Done _ _ _) = ''response.content_part.done''"
| "resp_event_name (Args_Delta _ _ _) = ''response.function_call_arguments.delta''"
| "resp_event_name (Args_Done _ _ _) = ''response.function_call_arguments.done''"
| "resp_event_name (Item_Done _ _) = ''response.output_item.done''"
| "resp_event_name (Completed _) = ''response.completed''"
| "resp_event_name (Failed _) = ''response.failed''"

definition at_index :: "nat \<Rightarrow> (string \<times> pyval)" where
  "at_index oi = (''output_index'', PInt (int oi))"

fun resp_event_data :: "resp_event \<Rightarrow> pydict" where
  "resp_event_data (Created r) = [(''response'', PDict r)]"
| "resp_event_data (In_Progress r) = [(''response'', PDict r)]"
| "resp_event_data (Item_Added oi x) = [at_index oi, (''item'', PDict (added_json x))]"
| "resp_event_data (Part_Added oi i) = [(''item_id'', PStr i), at_index oi, (''content_index'', PInt 0), (''part'', output_text [])]"
| "resp_event_data (Text_Delta oi i d) = [(''item_id'', PStr i), at_index oi, (''content_index'', PInt 0), (''delta'', PStr d)]"
| "resp_event_data (Text_Done oi i t) = [(''item_id'', PStr i), at_index oi, (''content_index'', PInt 0), (''text'', PStr t)]"
| "resp_event_data (Part_Done oi i t) = [(''item_id'', PStr i), at_index oi, (''content_index'', PInt 0), (''part'', output_text t)]"
| "resp_event_data (Args_Delta oi i d) = [(''item_id'', PStr i), at_index oi, (''delta'', PStr d)]"
| "resp_event_data (Args_Done oi i a) = [(''item_id'', PStr i), at_index oi, (''arguments'', PStr a)]"
| "resp_event_data (Item_Done oi x) = [at_index oi, (''item'', PDict (done_json x))]"
| "resp_event_data (Completed r) = [(''response'', PDict r)]"
| "resp_event_data (Failed r) = [(''response'', PDict r)]"

fun responses_sse :: "resp_frame \<Rightarrow> string" where
  "responses_sse (Frame n e) = ''event: '' @ resp_event_name e @ newline @ ''data: '' @
     json_dumps False (PDict ((''type'', PStr (resp_event_name e)) # resp_event_data e @ [(''sequence_number'', PInt (int n))])) @
     newline @ newline"
| "responses_sse Done_Mark = ''data: [DONE]'' @ newline @ newline"

subsection \<open>The streamer\<close>

record tool_slot =
  sl_id :: string
  sl_call :: string
  sl_name :: string
  sl_args :: string
  sl_index :: "nat option"
  sl_emitted :: bool

record streamer =
  rs_response_id :: string
  rs_model :: string
  rs_created_at :: int
  rs_previous :: string
  rs_metadata :: pydict
  rs_allowed :: "string list"
  rs_seq :: nat
  rs_started :: bool
  rs_text_open :: bool
  rs_msg_id :: string
  rs_parts :: "string list"
  rs_tools :: "(int \<times> tool_slot) list"
  rs_opened :: "int list"
  rs_done :: "int list"
  rs_output_index :: nat
  rs_text_index :: nat
  rs_closed :: bool

definition new_streamer :: "string \<Rightarrow> string \<Rightarrow> int \<Rightarrow> string \<Rightarrow> pydict \<Rightarrow> string list \<Rightarrow> streamer" where
  "new_streamer rid model created previous metadata allowed =
     \<lparr>rs_response_id = rid, rs_model = model, rs_created_at = created, rs_previous = previous, rs_metadata = metadata,
      rs_allowed = allowed, rs_seq = 0, rs_started = False, rs_text_open = False, rs_msg_id = [], rs_parts = [], rs_tools = [],
      rs_opened = [], rs_done = [], rs_output_index = 0, rs_text_index = 0, rs_closed = False\<rparr>"

text \<open>\<open>_emit\<close> of several events.\<close>

definition emit :: "resp_event list \<Rightarrow> streamer \<Rightarrow> resp_frame list \<times> streamer" where
  "emit evs s = (map (\<lambda>(n, e). Frame n e) (enumerate (rs_seq s) evs), s\<lparr>rs_seq := rs_seq s + length evs\<rparr>)"

text \<open>Two methods one after the other.\<close>

definition next_do ::
  "(streamer \<Rightarrow> resp_frame list \<times> streamer) \<Rightarrow> (streamer \<Rightarrow> resp_frame list \<times> streamer) \<Rightarrow> streamer \<Rightarrow> resp_frame list \<times> streamer" where
  "next_do f g s = (let (fs, s1) = f s; (gs, s2) = g s1 in (fs @ gs, s2))"

definition response_extras :: "string \<Rightarrow> pydict \<Rightarrow> pydict" where
  "response_extras previous metadata =
     (if previous \<noteq> [] then [(''previous_response_id'', PStr previous)] else []) @
     (if metadata \<noteq> [] then [(''metadata'', PDict metadata)] else [])"

definition response_head :: "string \<Rightarrow> int \<Rightarrow> string \<Rightarrow> string \<Rightarrow> pyval list \<Rightarrow> pyval \<Rightarrow> pydict" where
  "response_head rid created status model out usage =
     [(''id'', PStr rid), (''object'', PStr ''response''), (''created_at'', PInt created), (''status'', PStr status),
      (''model'', PStr model), (''output'', PList out), (''usage'', PDict (chat_usage_to_responses_usage usage))]"

definition initial_response :: "streamer \<Rightarrow> pydict" where
  "initial_response s = response_head (rs_response_id s) (rs_created_at s) ''in_progress'' (rs_model s) [] PNone @ response_extras (rs_previous s) (rs_metadata s)"

definition start_stream :: "streamer \<Rightarrow> resp_frame list \<times> streamer" where
  "start_stream s =
     (if rs_started s then ([], s)
      else emit [Created (initial_response s), In_Progress (initial_response s)] (s\<lparr>rs_started := True\<rparr>))"

definition fail_stream :: "string \<Rightarrow> string \<Rightarrow> streamer \<Rightarrow> resp_frame list \<times> streamer" where
  "fail_stream err_type message s =
     (if rs_closed s then ([], s)
      else next_do start_stream (\<lambda>s.
        let (fs, s1) = emit [Failed ([(''id'', PStr (rs_response_id s)), (''object'', PStr ''response''), (''status'', PStr ''failed''),
               (''model'', PStr (rs_model s)), (''error'', PDict [(''type'', PStr err_type), (''message'', PStr message)])] @
               (if rs_previous s \<noteq> [] then [(''previous_response_id'', PStr (rs_previous s))] else []))] s
        in (fs @ [Done_Mark], s1\<lparr>rs_closed := True\<rparr>)) s)"

subsubsection \<open>Text\<close>

definition ensure_text_open :: "(string \<Rightarrow> int \<Rightarrow> string) \<Rightarrow> streamer \<Rightarrow> resp_frame list \<times> streamer" where
  "ensure_text_open uuid s =
     (if rs_text_open s then ([], s)
      else let oi = rs_output_index s; mid = ''msg_'' @ uuid ''msg'' (int oi)
           in emit [Item_Added oi (Item_Message mid []), Part_Added oi mid]
                (s\<lparr>rs_text_open := True, rs_msg_id := mid, rs_text_index := oi, rs_output_index := Suc oi\<rparr>))"

definition on_text_delta :: "(string \<Rightarrow> int \<Rightarrow> string) \<Rightarrow> string \<Rightarrow> streamer \<Rightarrow> resp_frame list \<times> streamer" where
  "on_text_delta uuid delta s =
     (if delta = [] \<or> rs_closed s then ([], s)
      else next_do start_stream (next_do (ensure_text_open uuid) (\<lambda>s.
        emit [Text_Delta (rs_text_index s) (rs_msg_id s) delta] (s\<lparr>rs_parts := rs_parts s @ [delta]\<rparr>))) s)"

definition close_open_text :: "streamer \<Rightarrow> resp_frame list \<times> streamer" where
  "close_open_text s =
     (if \<not> rs_text_open s \<or> rs_msg_id s = [] then ([], s)
      else let oi = rs_text_index s; mid = rs_msg_id s; text = concat (rs_parts s)
           in emit [Text_Done oi mid text, Part_Done oi mid text, Item_Done oi (Item_Message mid text)] (s\<lparr>rs_text_open := False\<rparr>))"

subsubsection \<open>Tools\<close>

definition new_slot :: "(string \<Rightarrow> int \<Rightarrow> string) \<Rightarrow> int \<Rightarrow> tool_slot" where
  "new_slot uuid i = \<lparr>sl_id = ''fc_'' @ uuid ''fc'' i, sl_call = [], sl_name = [], sl_args = [], sl_index = None, sl_emitted = False\<rparr>"

definition put_slot :: "int \<Rightarrow> tool_slot \<Rightarrow> streamer \<Rightarrow> streamer" where
  "put_slot i t s = s\<lparr>rs_tools := AList.update i t (rs_tools s)\<rparr>"

definition merge_live_name :: "string list \<Rightarrow> string \<Rightarrow> string \<Rightarrow> string" where
  "merge_live_name allowed current incoming =
     (let cur = strip current; inc = strip incoming
      in canonical_outbound_tool_name allowed
           (if inc = [] then cur else if cur = [] then inc else if starts_with inc cur then inc
            else if ends_with cur inc then cur else if contains cur inc then cur
            else if length cur \<le> length inc then inc else cur))"

definition live_index :: "pydict \<Rightarrow> int" where
  "live_index d = (case py_int (if dget d ''index'' \<noteq> PNone then dget d ''index'' else PInt 0) of Some i \<Rightarrow> i | None \<Rightarrow> 0)"

definition merge_slot :: "string list \<Rightarrow> pydict \<Rightarrow> tool_slot \<Rightarrow> tool_slot" where
  "merge_slot allowed d t =
     (let fn = dict_of (dget d ''function'');
          name = (if truthy (dget fn ''name'') then merge_live_name allowed (sl_name t) (py_str (dget fn ''name'')) else sl_name t);
          raw = (if dget fn ''arguments'' \<noteq> PNone then dget fn ''arguments'' else dget d ''arguments'')
      in t\<lparr>sl_call := (if truthy (dget d ''id'') then py_str (dget d ''id'') else sl_call t), sl_name := name,
           sl_args := (if raw \<noteq> PNone then merge_tool_argument_delta name (sl_args t) (stringify raw) else sl_args t)\<rparr>)"

definition absorb_live :: "(string \<Rightarrow> int \<Rightarrow> string) \<Rightarrow> pyval \<Rightarrow> streamer \<Rightarrow> streamer" where
  "absorb_live uuid tc s =
     (case tc of
        PDict d \<Rightarrow>
          (let i = live_index d; t = (case map_of (rs_tools s) i of Some t \<Rightarrow> t | None \<Rightarrow> new_slot uuid i)
           in put_slot i (merge_slot (rs_allowed s) d t) s)
      | _ \<Rightarrow> s)"

definition args_ready :: "string \<Rightarrow> string \<Rightarrow> bool" where
  "args_ready name args = is_complete_tool_arguments_json name (normalize_tool_arguments_json name (PStr args))"

text \<open>The arguments a tool is flushed with at the end, if they may be sent.\<close>

definition terminal_args :: "string \<Rightarrow> string \<Rightarrow> string option" where
  "terminal_args name args =
     (let text = strip (normalize_tool_arguments_json name (PStr args))
      in (if text = [] then Some ''{}''
          else if \<not> opens_container text then None
          else case json_loads text of
            None \<Rightarrow> None
          | Some v \<Rightarrow>
              (if \<not> is_dict v \<and> \<not> is_list v then None
               else if \<not> is_complete_tool_arguments_json name text \<and> required_keys_for_tool name \<noteq> [] then None
               else Some text)))"

definition slot_known :: "tool_slot \<Rightarrow> bool" where
  "slot_known t \<longleftrightarrow> sl_name t \<noteq> [] \<or> sl_call t \<noteq> [] \<or> strip (sl_args t) \<noteq> []"

definition unfinished_below :: "(int \<Rightarrow> tool_slot \<Rightarrow> bool) \<Rightarrow> int \<Rightarrow> streamer \<Rightarrow> bool" where
  "unfinished_below P i s \<longleftrightarrow> list_ex (\<lambda>(k, t). 0 \<le> k \<and> k < i \<and> k \<notin> set (rs_done s) \<and> slot_known t \<and> P k t) (rs_tools s)"

text \<open>Opening a tool, sending its arguments and closing it, in one burst; an opened slot has an index.\<close>

definition ship_tool :: "(string \<Rightarrow> int \<Rightarrow> string) \<Rightarrow> int \<Rightarrow> tool_slot \<Rightarrow> streamer \<Rightarrow> resp_frame list \<times> streamer" where
  "ship_tool uuid i t s =
     (let opened = (i \<in> set (rs_opened s));
          call = (if sl_call t \<noteq> [] then sl_call t else ''call_'' @ uuid ''call'' i);
          oi = (if opened then (case sl_index t of Some n \<Rightarrow> n | None \<Rightarrow> 0) else rs_output_index s);
          t1 = (if opened then t else t\<lparr>sl_call := call, sl_index := Some oi\<rparr>);
          s1 = (if opened then s else s\<lparr>rs_output_index := Suc oi, rs_opened := i # rs_opened s\<rparr>)
      in emit ((if opened then [] else [Item_Added oi (Item_Call (sl_id t) call (sl_name t) [])]) @
               (if sl_emitted t then [] else [Args_Delta oi (sl_id t) (sl_args t)]) @
               [Args_Done oi (sl_id t) (sl_args t), Item_Done oi (Item_Call (sl_id t) call (sl_name t) (sl_args t))])
           (put_slot i (t1\<lparr>sl_emitted := True\<rparr>) (s1\<lparr>rs_done := i # rs_done s1\<rparr>)))"

text \<open>The loop over the tools in ascending index; at most one is sent.\<close>

fun emit_ready :: "(string \<Rightarrow> int \<Rightarrow> string) \<Rightarrow> int list \<Rightarrow> streamer \<Rightarrow> resp_frame list \<times> streamer" where
  "emit_ready uuid [] s = ([], s)"
| "emit_ready uuid (i # is) s =
     (if i \<in> set (rs_done s) then emit_ready uuid is s
      else case map_of (rs_tools s) i of
        None \<Rightarrow> ([], s)
      | Some t \<Rightarrow>
          (if unfinished_below (\<lambda>_ _. True) i s then ([], s)
           else if strip (sl_name t) = [] then
             (if sl_call t \<noteq> [] \<or> strip (sl_args t) \<noteq> [] then ([], s) else emit_ready uuid is s)
           else
             let name = canonical_outbound_tool_name (rs_allowed s) (strip (sl_name t));
                 args = normalize_tool_arguments_json name (PStr (sl_args t));
                 t1 = t\<lparr>sl_name := name, sl_args := args\<rparr>; s1 = put_slot i t1 s
             in (if \<not> args_ready name args then ([], s1) else ship_tool uuid i t1 s1)))"

definition emit_ready_tools :: "(string \<Rightarrow> int \<Rightarrow> string) \<Rightarrow> streamer \<Rightarrow> resp_frame list \<times> streamer" where
  "emit_ready_tools uuid s = emit_ready uuid (sort (map fst (rs_tools s))) s"

definition tool_is_ready :: "bool \<Rightarrow> int \<Rightarrow> streamer \<Rightarrow> bool" where
  "tool_is_ready terminal i s \<longleftrightarrow>
     (i \<notin> set (rs_done s) \<and>
      (case map_of (rs_tools s) i of
         None \<Rightarrow> False
       | Some t \<Rightarrow>
           (let name = strip (sl_name t)
            in name \<noteq> [] \<and> (if terminal then terminal_args name (sl_args t) \<noteq> None else args_ready name (sl_args t)))))"

fun any_shipable :: "bool \<Rightarrow> int list \<Rightarrow> streamer \<Rightarrow> bool" where
  "any_shipable terminal [] s = False"
| "any_shipable terminal (i # is) s =
     (if unfinished_below (\<lambda>k _. \<not> tool_is_ready terminal k s) i s then False
      else tool_is_ready terminal i s \<or> any_shipable terminal is s)"

definition any_shipable_tool :: "bool \<Rightarrow> streamer \<Rightarrow> bool" where
  "any_shipable_tool terminal s = any_shipable terminal (sort (map fst (rs_tools s))) s"

definition on_tool_delta :: "(string \<Rightarrow> int \<Rightarrow> string) \<Rightarrow> pyval list \<Rightarrow> streamer \<Rightarrow> resp_frame list \<times> streamer" where
  "on_tool_delta uuid calls s =
     (if calls = [] \<or> rs_closed s then ([], s)
      else let s1 = fold (absorb_live uuid) calls s
           in (if \<not> any_shipable_tool False s1 then ([], s1)
               else next_do start_stream (emit_ready_tools uuid) s1))"

definition has_client_payload :: "streamer \<Rightarrow> bool" where
  "has_client_payload s \<longleftrightarrow>
     list_ex (\<lambda>p. p \<noteq> []) (rs_parts s) \<or> rs_done s \<noteq> [] \<or>
     list_ex (\<lambda>(i, t). i \<in> set (rs_done s) \<or> (sl_emitted t \<and> strip (sl_name t) \<noteq> [])) (rs_tools s)"

subsubsection \<open>The end\<close>

text \<open>The tools not sent yet; every round of the loop below sends one of them.\<close>

definition slot_keys :: "streamer \<Rightarrow> int set" where
  "slot_keys s = fst ` set (rs_tools s)"

definition unsent :: "streamer \<Rightarrow> int set" where
  "unsent s = slot_keys s - set (rs_done s)"

lemma slot_keys_dom: "slot_keys s = dom (map_of (rs_tools s))"
  by (simp add: slot_keys_def dom_map_of_conv_image_fst)

lemma put_slot_fields [simp]:
  "rs_done (put_slot i t s) = rs_done s" "rs_opened (put_slot i t s) = rs_opened s" "rs_seq (put_slot i t s) = rs_seq s"
  "rs_started (put_slot i t s) = rs_started s" "rs_text_open (put_slot i t s) = rs_text_open s" "rs_msg_id (put_slot i t s) = rs_msg_id s"
  "rs_parts (put_slot i t s) = rs_parts s" "rs_output_index (put_slot i t s) = rs_output_index s"
  "rs_text_index (put_slot i t s) = rs_text_index s" "rs_closed (put_slot i t s) = rs_closed s" "rs_allowed (put_slot i t s) = rs_allowed s"
  "map_of (rs_tools (put_slot i t s)) = (map_of (rs_tools s))(i \<mapsto> t)" "slot_keys (put_slot i t s) = insert i (slot_keys s)"
  by (simp_all add: put_slot_def update_conv' slot_keys_dom)

lemma ship_tool_done [simp]:
  "rs_done (snd (ship_tool uuid i t s)) = i # rs_done s" "slot_keys (snd (ship_tool uuid i t s)) = insert i (slot_keys s)"
  "fst (ship_tool uuid i t s) \<noteq> []"
  by (simp_all add: ship_tool_def emit_def Let_def) (simp_all add: put_slot_def slot_keys_def dom_update)

lemma emit_ready_progress:
  assumes "fst (emit_ready uuid is s) \<noteq> []"
  shows "\<exists>i. i \<in> unsent s \<and> rs_done (snd (emit_ready uuid is s)) = i # rs_done s \<and> slot_keys (snd (emit_ready uuid is s)) = slot_keys s"
  using assms
proof (induction uuid "is" s rule: emit_ready.induct)
  case (2 uuid i "is" s)
  show ?case
  proof (cases "i \<in> set (rs_done s) \<or> map_of (rs_tools s) i = None")
    case True
    then show ?thesis using 2 by (auto split: if_splits)
  next
    case False
    then obtain t where t: "i \<notin> set (rs_done s)" "map_of (rs_tools s) i = Some t" by auto
    then have i: "i \<in> unsent s" "i \<in> slot_keys s" by (auto simp: unsent_def slot_keys_dom)
    show ?thesis using 2 t i by (auto simp: Let_def insert_absorb split: if_splits)
  qed
qed simp

function drain_ready :: "(string \<Rightarrow> int \<Rightarrow> string) \<Rightarrow> streamer \<Rightarrow> resp_frame list \<times> streamer" where
  "drain_ready uuid s =
     (let (fs, s1) = emit_ready_tools uuid s
      in (if fs = [] then ([], s1) else let (gs, s2) = drain_ready uuid s1 in (fs @ gs, s2)))"
  by pat_completeness auto
termination
proof (relation "measure (\<lambda>(uuid, s). card (unsent s))", goal_cases)
  case (2 uuid s x fs s1)
  then have "emit_ready uuid (sort (map fst (rs_tools s))) s = (fs, s1)" by (simp add: emit_ready_tools_def)
  then obtain i where i: "i \<in> unsent s" "rs_done s1 = i # rs_done s" "slot_keys s1 = slot_keys s"
    using emit_ready_progress [of uuid "sort (map fst (rs_tools s))" s] 2(3) by auto
  then have "unsent s1 \<subset> unsent s" by (auto simp: unsent_def)
  then show ?case by (simp add: psubset_card_mono unsent_def slot_keys_def)
qed simp

declare drain_ready.simps [simp del]

text \<open>The terminal flush of one tool.\<close>

definition flush_tool :: "(string \<Rightarrow> int \<Rightarrow> string) \<Rightarrow> int \<Rightarrow> streamer \<Rightarrow> resp_frame list \<times> streamer" where
  "flush_tool uuid i s =
     (case (if i \<in> set (rs_done s) then None else map_of (rs_tools s) i) of
        None \<Rightarrow> ([], s)
      | Some t \<Rightarrow>
          (if strip (sl_name t) = [] then ([], s)
           else let name = canonical_outbound_tool_name (rs_allowed s) (strip (sl_name t));
                    args = (if strip (sl_args t) \<noteq> [] then normalize_tool_arguments_json name (PStr (sl_args t)) else sl_args t);
                    t1 = t\<lparr>sl_name := name, sl_args := args\<rparr>
                in (case terminal_args name args of
                      None \<Rightarrow> ([], put_slot i t1 s)
                    | Some a \<Rightarrow>
                        (let t2 = t1\<lparr>sl_args := a\<rparr>; s2 = put_slot i t2 s
                         in (if i \<in> set (rs_opened s) \<and> sl_index t = None then ([], s2) else ship_tool uuid i t2 s2)))))"

fun flush_tools :: "(string \<Rightarrow> int \<Rightarrow> string) \<Rightarrow> int list \<Rightarrow> streamer \<Rightarrow> resp_frame list \<times> streamer" where
  "flush_tools uuid [] s = ([], s)"
| "flush_tools uuid (i # is) s = next_do (flush_tool uuid i) (flush_tools uuid is) s"

definition close_open_tools :: "(string \<Rightarrow> int \<Rightarrow> string) \<Rightarrow> streamer \<Rightarrow> resp_frame list \<times> streamer" where
  "close_open_tools uuid = next_do (drain_ready uuid) (\<lambda>s. flush_tools uuid (sort (map fst (rs_tools s))) s)"

text \<open>The item of a slot in the final object.\<close>

definition slot_item :: "(string \<Rightarrow> int \<Rightarrow> string) \<Rightarrow> int \<Rightarrow> tool_slot \<Rightarrow> resp_item" where
  "slot_item uuid i t =
     Item_Call (if sl_id t \<noteq> [] then sl_id t else ''fc_'' @ uuid ''late'' i) (if sl_call t \<noteq> [] then sl_call t else ''call_'' @ uuid ''late'' i)
       (strip (sl_name t)) (if sl_args t \<noteq> [] then sl_args t else ''{}'')"

definition final_items :: "(string \<Rightarrow> int \<Rightarrow> string) \<Rightarrow> streamer \<Rightarrow> resp_item list" where
  "final_items uuid s =
     (if concat (rs_parts s) \<noteq> []
      then [Item_Message (if rs_msg_id s \<noteq> [] then rs_msg_id s else ''msg_'' @ uuid ''late'' 0) (concat (rs_parts s))] else []) @
     concat (map (\<lambda>i. case map_of (rs_tools s) i of Some t \<Rightarrow> if i \<in> set (rs_done s) then [slot_item uuid i t] else [] | None \<Rightarrow> [])
       (sort (map fst (rs_tools s))))"

definition build_completed_response :: "(string \<Rightarrow> int \<Rightarrow> string) \<Rightarrow> pyval \<Rightarrow> string \<Rightarrow> streamer \<Rightarrow> pydict" where
  "build_completed_response uuid usage reasoning s =
     response_head (rs_response_id s) (rs_created_at s) ''completed'' (rs_model s) (map (PDict \<circ> done_json) (final_items uuid s)) usage @
     response_extras (rs_previous s) (rs_metadata s) @ (if reasoning \<noteq> [] then [(''x_grok2api_reasoning'', PStr reasoning)] else [])"

definition complete_stream :: "(string \<Rightarrow> int \<Rightarrow> string) \<Rightarrow> pyval \<Rightarrow> string \<Rightarrow> bool \<Rightarrow> streamer \<Rightarrow> resp_frame list \<times> streamer" where
  "complete_stream uuid usage reasoning force s =
     (let has_text = list_ex (\<lambda>p. p \<noteq> []) (rs_parts s)
      in (if rs_closed s then ([], s)
          else if \<not> (has_client_payload s \<or> has_text) \<and> \<not> any_shipable_tool False s \<and> \<not> (force \<and> any_shipable_tool True s) then ([], s)
          else let (fs, s1) = next_do start_stream (next_do (drain_ready uuid)
                     (next_do (if force then close_open_tools uuid else (\<lambda>s. ([], s))) close_open_text)) s
               in (if \<not> has_client_payload s1 \<and> \<not> has_text then ([], s1)
                   else if final_items uuid s1 = [] then ([], s1)
                   else let (gs, s2) = emit [Completed (build_completed_response uuid usage reasoning s1)] s1
                        in (fs @ gs @ [Done_Mark], s2\<lparr>rs_closed := True\<rparr>))))"

subsubsection \<open>A whole answer\<close>

text \<open>
  The events of a chunk, and the answer as the handler of \<open>/v1/responses\<close> runs it (\<open>app.py\<close>): the envelope once the
  upstream has answered 200, the chunks in order, and the completed response or, when nothing can be sent, a failure.
\<close>

fun live_chunks :: "(string \<Rightarrow> int \<Rightarrow> string) \<Rightarrow> (string \<times> pyval list) list \<Rightarrow> streamer \<Rightarrow> resp_frame list \<times> streamer" where
  "live_chunks uuid [] s = ([], s)"
| "live_chunks uuid ((content, calls) # cs) s =
     next_do (on_text_delta uuid content) (next_do (on_tool_delta uuid calls) (live_chunks uuid cs)) s"

definition live_end :: "(string \<Rightarrow> int \<Rightarrow> string) \<Rightarrow> pyval \<Rightarrow> string \<Rightarrow> string \<Rightarrow> streamer \<Rightarrow> resp_frame list \<times> streamer" where
  "live_end uuid usage reasoning joined s =
     (if \<not> has_client_payload s \<and> strip joined = [] \<and> \<not> any_shipable_tool True s \<and> \<not> list_ex (\<lambda>p. p \<noteq> []) (rs_parts s)
      then fail_stream ''server_error'' ''Upstream returned HTTP 200 with empty model output (no content/tool_calls)'' s
      else let (fs, s1) = complete_stream uuid usage reasoning True s
           in (if fs = [] \<and> \<not> has_client_payload s1
                 then fail_stream ''server_error'' ''Upstream returned HTTP 200 with empty model output (no client-visible content/tool_calls)'' s1
               else if fs \<noteq> [] then (fs, s1)
               else if \<not> rs_closed s1 then fail_stream ''server_error'' ''client disconnected'' s1
               else ([], s1)))"

definition live_answer ::
  "(string \<Rightarrow> int \<Rightarrow> string) \<Rightarrow> (string \<times> pyval list) list \<Rightarrow> pyval \<Rightarrow> string \<Rightarrow> streamer \<Rightarrow> resp_frame list \<times> streamer" where
  "live_answer uuid chunks usage reasoning =
     next_do start_stream (next_do (live_chunks uuid chunks) (live_end uuid usage reasoning (concat (map fst chunks))))"

end
