(* ===== verification/Responses_Protocol.thy ===== *)
theory Responses_Protocol
  imports Responses_Stream "HOL-Library.Multiset"
begin

text \<open>
  The live streamer against the Responses streaming protocol: an automaton states which frames may follow each other,
  item by item, and every method of the streamer is shown to move it as the state of the streamer moves.
\<close>

subsection \<open>The protocol\<close>

text \<open>An item that has been added and is not done, with what it has been sent.\<close>

datatype item_phase =
    Msg_Opened string
  | Msg_Part string string
  | Msg_Text string string
  | Msg_Ended string string
  | Call_Opened string string string
  | Call_Sent string string string string
  | Call_Ended string string string string

fun newly_open :: "resp_item \<Rightarrow> item_phase" where
  "newly_open (Item_Message i t) = Msg_Opened i"
| "newly_open (Item_Call i c n a) = Call_Opened i c n"

fun item_next :: "item_phase \<Rightarrow> resp_event \<Rightarrow> item_phase option" where
  "item_next (Msg_Opened i) (Part_Added oi j) = (if j = i then Some (Msg_Part i []) else None)"
| "item_next (Msg_Part i t) (Text_Delta oi j d) = (if j = i then Some (Msg_Part i (t @ d)) else None)"
| "item_next (Msg_Part i t) (Text_Done oi j u) = (if j = i \<and> u = t then Some (Msg_Text i t) else None)"
| "item_next (Msg_Text i t) (Part_Done oi j u) = (if j = i \<and> u = t then Some (Msg_Ended i t) else None)"
| "item_next (Call_Opened i c n) (Args_Delta oi j d) = (if j = i then Some (Call_Sent i c n d) else None)"
| "item_next (Call_Sent i c n a) (Args_Delta oi j d) = (if j = i then Some (Call_Sent i c n (a @ d)) else None)"
| "item_next (Call_Sent i c n a) (Args_Done oi j u) = (if j = i \<and> u = a then Some (Call_Ended i c n a) else None)"
| "item_next p e = None"

fun ended_item :: "item_phase \<Rightarrow> resp_item option" where
  "ended_item (Msg_Ended i t) = Some (Item_Message i t)"
| "ended_item (Call_Ended i c n a) = Some (Item_Call i c n a)"
| "ended_item p = None"

fun event_index :: "resp_event \<Rightarrow> nat option" where
  "event_index (Part_Added oi _) = Some oi"
| "event_index (Text_Delta oi _ _) = Some oi"
| "event_index (Text_Done oi _ _) = Some oi"
| "event_index (Part_Done oi _ _) = Some oi"
| "event_index (Args_Delta oi _ _) = Some oi"
| "event_index (Args_Done oi _ _) = Some oi"
| "event_index e = None"

text \<open>
  The number the next frame must have, the index of the next item, the open items and the done ones. A completed
  response leaves no item open and lists the ids of the items done.
\<close>

datatype resp_phase =
    R_Fresh
  | R_Created
  | R_Live nat nat "(nat \<times> item_phase) list" "resp_item list"
  | R_Closing
  | R_Over

definition output_ids :: "pydict \<Rightarrow> pyval list" where
  "output_ids r = map (\<lambda>v. dget (dict_of v) ''id'') (list_of (dget r ''output''))"

fun live_next :: "resp_event \<Rightarrow> nat \<Rightarrow> nat \<Rightarrow> (nat \<times> item_phase) list \<Rightarrow> resp_item list \<Rightarrow> resp_phase option" where
  "live_next (Item_Added oi x) n k os ds =
     (if oi = k \<and> x = (case x of Item_Message i t \<Rightarrow> Item_Message i [] | Item_Call i c nm a \<Rightarrow> Item_Call i c nm [])
      then Some (R_Live (Suc n) (Suc k) (os @ [(oi, newly_open x)]) ds) else None)"
| "live_next (Item_Done oi x) n k os ds =
     (if (case map_of os oi of Some p \<Rightarrow> ended_item p = Some x | None \<Rightarrow> False)
      then Some (R_Live (Suc n) k (AList.delete oi os) (ds @ [x])) else None)"
| "live_next (Completed r) n k os ds =
     (if os = [] \<and> mset (output_ids r) = mset (map (PStr \<circ> item_id) ds) then Some R_Closing else None)"
| "live_next (Failed r) n k os ds = Some R_Closing"
| "live_next e n k os ds =
     (case event_index e of
        None \<Rightarrow> None
      | Some oi \<Rightarrow>
          (case map_of os oi of
             None \<Rightarrow> None
           | Some p \<Rightarrow> map_option (\<lambda>p'. R_Live (Suc n) k (AList.update oi p' os) ds) (item_next p e)))"

fun resp_next :: "resp_phase \<Rightarrow> resp_frame \<Rightarrow> resp_phase option" where
  "resp_next R_Fresh (Frame n (Created r)) = (if n = 0 then Some R_Created else None)"
| "resp_next R_Created (Frame n (In_Progress r)) = (if n = 1 then Some (R_Live 2 0 [] []) else None)"
| "resp_next (R_Live n k os ds) (Frame m e) = (if m = n then live_next e n k os ds else None)"
| "resp_next R_Closing Done_Mark = Some R_Over"
| "resp_next p f = None"

fun resp_run :: "resp_phase \<Rightarrow> resp_frame list \<Rightarrow> resp_phase option" where
  "resp_run p [] = Some p"
| "resp_run p (f # fs) = (case resp_next p f of Some q \<Rightarrow> resp_run q fs | None \<Rightarrow> None)"

lemma resp_run_append [simp]: "resp_run p (xs @ ys) = (case resp_run p xs of Some q \<Rightarrow> resp_run q ys | None \<Rightarrow> None)"
  by (induction p xs rule: resp_run.induct) (auto split: option.splits)

text \<open>What a client reads: the text, and the calls done.\<close>

fun live_text :: "resp_frame list \<Rightarrow> string" where
  "live_text [] = []"
| "live_text (Frame n (Text_Delta oi i d) # fs) = d @ live_text fs"
| "live_text (f # fs) = live_text fs"

fun calls_done :: "resp_frame list \<Rightarrow> (string \<times> string) list" where
  "calls_done [] = []"
| "calls_done (Frame n (Item_Done oi (Item_Call i c nm a)) # fs) = (nm, a) # calls_done fs"
| "calls_done (f # fs) = calls_done fs"

lemma live_text_append [simp]: "live_text (xs @ ys) = live_text xs @ live_text ys"
  by (induction xs rule: live_text.induct) simp_all

lemma calls_done_append [simp]: "calls_done (xs @ ys) = calls_done xs @ calls_done ys"
  by (induction xs rule: calls_done.induct) simp_all

subsection \<open>The simulation\<close>

text \<open>The states between the methods: a tool is opened, sent and closed in one burst.\<close>

definition slot_ok :: "streamer \<Rightarrow> bool" where
  "slot_ok s \<longleftrightarrow>
     (\<forall>i t. map_of (rs_tools s) i = Some t \<longrightarrow> (sl_emitted t \<longleftrightarrow> i \<in> set (rs_done s)) \<and> sl_id t \<noteq> []) \<and>
     set (rs_opened s) = set (rs_done s) \<and> set (rs_done s) \<subseteq> slot_keys s \<and> distinct (rs_done s) \<and> distinct (map fst (rs_tools s))"

definition text_ok :: "streamer \<Rightarrow> bool" where
  "text_ok s \<longleftrightarrow> (\<forall>p \<in> set (rs_parts s). p \<noteq> []) \<and> (rs_text_open s \<longrightarrow> rs_text_index s < rs_output_index s) \<and>
     (rs_parts s \<noteq> [] \<or> rs_text_open s \<longrightarrow> rs_msg_id s \<noteq> [])"

definition open_items :: "streamer \<Rightarrow> (nat \<times> item_phase) list" where
  "open_items s = (if rs_text_open s then [(rs_text_index s, Msg_Part (rs_msg_id s) (concat (rs_parts s)))] else [])"

definition slot_ids :: "streamer \<Rightarrow> string list" where
  "slot_ids s = map (\<lambda>i. sl_id (the (map_of (rs_tools s) i))) (rs_done s)"

definition done_ids :: "streamer \<Rightarrow> string list" where
  "done_ids s = (if rs_parts s \<noteq> [] \<and> \<not> rs_text_open s then [rs_msg_id s] else []) @ slot_ids s"

definition sim :: "streamer \<Rightarrow> resp_phase \<Rightarrow> bool" where
  "sim s q \<longleftrightarrow> slot_ok s \<and> text_ok s \<and>
     (if rs_closed s then rs_started s \<and> q = R_Over
      else if \<not> rs_started s then q = R_Fresh \<and> rs_seq s = 0 \<and> rs_output_index s = 0 \<and> rs_done s = [] \<and> rs_parts s = [] \<and> \<not> rs_text_open s
      else \<exists>ds. q = R_Live (rs_seq s) (rs_output_index s) (open_items s) ds \<and> mset (map item_id ds) = mset (done_ids s))"

text \<open>Arguments that may be sent: complete ones, any of a tool that requires none, and the empty object at the end.\<close>

definition sendable :: "string \<times> string \<Rightarrow> bool" where
  "sendable = (\<lambda>(name, args). name \<noteq> [] \<and>
     (args_ready name args \<or> is_complete_tool_arguments_json name args \<or> required_keys_for_tool name = [] \<or> args = ''{}''))"

text \<open>What a method may do from a state and the phase it is in.\<close>

definition outcome :: "(streamer \<Rightarrow> bool) \<Rightarrow> streamer \<Rightarrow> resp_phase \<Rightarrow> resp_frame list \<times> streamer \<Rightarrow> bool" where
  "outcome Q s q r \<longleftrightarrow> Q (snd r) \<and> (\<exists>q'. resp_run q (fst r) = Some q' \<and> sim (snd r) q') \<and>
     (\<forall>x \<in> set (calls_done (fst r)). sendable x) \<and> concat (rs_parts (snd r)) = concat (rs_parts s) @ live_text (fst r) \<and>
     length (rs_done (snd r)) = length (rs_done s) + length (calls_done (fst r))"

definition obeys :: "(streamer \<Rightarrow> bool) \<Rightarrow> (streamer \<Rightarrow> bool) \<Rightarrow> (streamer \<Rightarrow> resp_frame list \<times> streamer) \<Rightarrow> bool" where
  "obeys P Q f \<longleftrightarrow> (\<forall>s q. P s \<and> sim s q \<longrightarrow> outcome Q s q (f s))"

lemma obeysI:
  assumes "\<And>s q. P s \<Longrightarrow> sim s q \<Longrightarrow> Q (snd (f s))"
    and "\<And>s q. P s \<Longrightarrow> sim s q \<Longrightarrow> \<exists>q'. resp_run q (fst (f s)) = Some q' \<and> sim (snd (f s)) q'"
    and "\<And>s q. P s \<Longrightarrow> sim s q \<Longrightarrow> \<forall>x \<in> set (calls_done (fst (f s))). sendable x"
    and "\<And>s q. P s \<Longrightarrow> sim s q \<Longrightarrow> concat (rs_parts (snd (f s))) = concat (rs_parts s) @ live_text (fst (f s))"
    and "\<And>s q. P s \<Longrightarrow> sim s q \<Longrightarrow> length (rs_done (snd (f s))) = length (rs_done s) + length (calls_done (fst (f s)))"
  shows "obeys P Q f"
  using assms unfolding obeys_def outcome_def by blast

lemma obeysD:
  assumes "obeys P Q f" "P s" "sim s q"
  shows "outcome Q s q (f s)"
  using assms unfolding obeys_def by blast

lemma outcomeE:
  assumes "outcome Q s q r"
  obtains q' where "Q (snd r)" "resp_run q (fst r) = Some q'" "sim (snd r) q'" "\<forall>x \<in> set (calls_done (fst r)). sendable x"
    "concat (rs_parts (snd r)) = concat (rs_parts s) @ live_text (fst r)"
    "length (rs_done (snd r)) = length (rs_done s) + length (calls_done (fst r))"
  using assms unfolding outcome_def by blast

lemma outcome_stay: "Q s \<Longrightarrow> sim s q \<Longrightarrow> outcome Q s q ([], s)"
  by (simp add: outcome_def)

lemma outcome_then:
  assumes "outcome Q s q r1" "\<And>q'. Q (snd r1) \<Longrightarrow> sim (snd r1) q' \<Longrightarrow> outcome R (snd r1) q' r2"
  shows "outcome R s q (fst r1 @ fst r2, snd r2)"
proof -
  from outcomeE [OF assms(1)] obtain q1 where 1: "Q (snd r1)" "resp_run q (fst r1) = Some q1" "sim (snd r1) q1"
    "\<forall>x \<in> set (calls_done (fst r1)). sendable x" "concat (rs_parts (snd r1)) = concat (rs_parts s) @ live_text (fst r1)"
    "length (rs_done (snd r1)) = length (rs_done s) + length (calls_done (fst r1))" .
  from outcomeE [OF assms(2) [OF 1(1,3)]] obtain q2 where 2: "R (snd r2)" "resp_run q1 (fst r2) = Some q2" "sim (snd r2) q2"
    "\<forall>x \<in> set (calls_done (fst r2)). sendable x" "concat (rs_parts (snd r2)) = concat (rs_parts (snd r1)) @ live_text (fst r2)"
    "length (rs_done (snd r2)) = length (rs_done (snd r1)) + length (calls_done (fst r2))" .
  show ?thesis using 1 2 by (auto simp: outcome_def)
qed

lemma next_do_split:
  "fst (next_do f g s) = fst (f s) @ fst (g (snd (f s)))" "snd (next_do f g s) = snd (g (snd (f s)))"
  by (simp_all add: next_do_def split_beta Let_def)

lemma next_do_eq: "next_do f g s = (fst (f s) @ fst (g (snd (f s))), snd (g (snd (f s))))"
  by (simp add: next_do_def split_beta Let_def)

lemma obeys_next: "obeys P Q f \<Longrightarrow> obeys Q R g \<Longrightarrow> obeys P R (next_do f g)"
  unfolding obeys_def next_do_eq by (blast intro: outcome_then)

lemma obeys_weaken: "obeys P Q f \<Longrightarrow> (\<And>s. P' s \<Longrightarrow> P s) \<Longrightarrow> (\<And>s. Q s \<Longrightarrow> Q' s) \<Longrightarrow> obeys P' Q' f"
  unfolding obeys_def outcome_def by blast

lemma obeys_cong: "obeys P Q g \<Longrightarrow> (\<And>s. P s \<Longrightarrow> f s = g s) \<Longrightarrow> obeys P Q f"
  unfolding obeys_def by auto

lemma obeys_nothing: "(\<And>s. P s \<Longrightarrow> Q s) \<Longrightarrow> obeys P Q (\<lambda>s. ([], s))"
  unfolding obeys_def by (simp add: outcome_stay)

lemma obeys_indexed: "(\<And>x. obeys P Q (f x)) \<Longrightarrow> obeys P Q (\<lambda>s. f (h s) s)"
  unfolding obeys_def by blast

lemma obeys_if: "obeys P Q f \<Longrightarrow> obeys P Q g \<Longrightarrow> obeys P Q (\<lambda>s. if b s then f s else g s)"
  unfolding obeys_def by auto

subsection \<open>The methods\<close>

text \<open>A method between the chunks: the envelope is sent, nothing is closed, and text that was begun is still open.\<close>

definition live :: "streamer \<Rightarrow> bool" where
  "live s \<longleftrightarrow> rs_started s \<and> \<not> rs_closed s \<and> (rs_text_open s \<longleftrightarrow> rs_parts s \<noteq> [])"

definition texting :: "streamer \<Rightarrow> bool" where
  "texting s \<longleftrightarrow> rs_started s \<and> \<not> rs_closed s \<and> rs_text_open s"

definition fresh_or_live :: "streamer \<Rightarrow> bool" where
  "fresh_or_live s \<longleftrightarrow> \<not> rs_closed s \<and> (rs_started s \<longrightarrow> live s)"

lemma live_fresh: "live s \<Longrightarrow> fresh_or_live s" by (simp add: live_def fresh_or_live_def)

lemma emit_split [simp]:
  "snd (emit evs s) = s\<lparr>rs_seq := rs_seq s + length evs\<rparr>" "fst (emit [] s) = []"
  "fst (emit (e # evs) s) = Frame (rs_seq s) e # fst (emit evs (s\<lparr>rs_seq := Suc (rs_seq s)\<rparr>))"
  by (simp_all add: emit_def)

lemma slot_ok_same [simp]: "slot_ok (s\<lparr>rs_seq := n\<rparr>) = slot_ok s" "slot_ok (s\<lparr>rs_started := b\<rparr>) = slot_ok s" "slot_ok (s\<lparr>rs_closed := b\<rparr>) = slot_ok s"
    "slot_ok (s\<lparr>rs_parts := ps\<rparr>) = slot_ok s" "slot_ok (s\<lparr>rs_text_open := b\<rparr>) = slot_ok s" "slot_ok (s\<lparr>rs_msg_id := i\<rparr>) = slot_ok s"
    "slot_ok (s\<lparr>rs_output_index := n\<rparr>) = slot_ok s" "slot_ok (s\<lparr>rs_text_index := n\<rparr>) = slot_ok s"
  by (simp_all add: slot_ok_def slot_keys_def)

lemma text_ok_same [simp]: "text_ok (s\<lparr>rs_seq := n\<rparr>) = text_ok s" "text_ok (s\<lparr>rs_started := b\<rparr>) = text_ok s" "text_ok (s\<lparr>rs_closed := b\<rparr>) = text_ok s"
    "text_ok (put_slot i t s) = text_ok s" "text_ok (s\<lparr>rs_done := is\<rparr>) = text_ok s" "text_ok (s\<lparr>rs_opened := is\<rparr>) = text_ok s"
  by (simp_all add: text_ok_def)

lemma done_ids_same [simp]: "done_ids (s\<lparr>rs_seq := n\<rparr>) = done_ids s" "done_ids (s\<lparr>rs_started := b\<rparr>) = done_ids s" "done_ids (s\<lparr>rs_closed := b\<rparr>) = done_ids s"
  by (simp_all add: done_ids_def slot_ids_def)

lemma open_items_same [simp]: "open_items (s\<lparr>rs_seq := n\<rparr>) = open_items s" "open_items (s\<lparr>rs_started := b\<rparr>) = open_items s"
    "open_items (s\<lparr>rs_done := is\<rparr>) = open_items s" "open_items (s\<lparr>rs_opened := is\<rparr>) = open_items s" "open_items (put_slot i t s) = open_items s"
    "open_items (s\<lparr>rs_output_index := k\<rparr>) = open_items s"
  by (simp_all add: open_items_def)

lemma obeys_start: "obeys fresh_or_live live start_stream"
  by (rule obeysI) (auto simp: start_stream_def fresh_or_live_def live_def sim_def open_items_def done_ids_def slot_ids_def numeral_2_eq_2)

lemma obeys_fail: "obeys fresh_or_live rs_closed (fail_stream ty msg)"
proof -
  have "obeys live rs_closed (\<lambda>s. let (fs, s1) = emit [Failed ([(''id'', PStr (rs_response_id s)), (''object'', PStr ''response''), (''status'', PStr ''failed''),
               (''model'', PStr (rs_model s)), (''error'', PDict [(''type'', PStr ty), (''message'', PStr msg)])] @
               (if rs_previous s \<noteq> [] then [(''previous_response_id'', PStr (rs_previous s))] else []))] s
        in (fs @ [Done_Mark], s1\<lparr>rs_closed := True\<rparr>))"
    by (rule obeysI) (auto simp: live_def sim_def Let_def split_beta)
  from obeys_cong [OF obeys_next [OF obeys_start this]] show ?thesis by (simp add: fail_stream_def fresh_or_live_def)
qed

lemma obeys_text_open: "obeys live texting (ensure_text_open uuid)"
  by (rule obeysI) (auto simp: ensure_text_open_def texting_def live_def sim_def open_items_def done_ids_def slot_ids_def text_ok_def Let_def)

lemma obeys_text: "obeys live live (on_text_delta uuid d)"
proof (cases "d = []")
  case False
  have "obeys texting live
      (\<lambda>s. emit [Text_Delta (rs_text_index s) (rs_msg_id s) d] (s\<lparr>rs_parts := rs_parts s @ [d]\<rparr>))"
    using False by (intro obeysI) (auto simp: live_def texting_def fresh_or_live_def sim_def open_items_def done_ids_def slot_ids_def text_ok_def)
  from obeys_weaken [OF obeys_next [OF obeys_start obeys_next [OF obeys_text_open [of uuid] this]] live_fresh]
  have "obeys live live (next_do start_stream (next_do (ensure_text_open uuid)
      (\<lambda>s. emit [Text_Delta (rs_text_index s) (rs_msg_id s) d] (s\<lparr>rs_parts := rs_parts s @ [d]\<rparr>))))" by blast
  from obeys_cong [OF this] False show ?thesis by (simp add: on_text_delta_def live_def)
qed (simp add: obeys_def on_text_delta_def outcome_stay)

lemma obeys_close_text: "obeys live (\<lambda>s. rs_started s \<and> \<not> rs_closed s \<and> \<not> rs_text_open s) close_open_text"
  by (rule obeysI) (auto simp: close_open_text_def live_def sim_def open_items_def done_ids_def slot_ids_def text_ok_def Let_def)

subsection \<open>Tools\<close>

text \<open>Changing a slot without its id and marks, or adding one.\<close>

definition same_slot :: "int \<Rightarrow> tool_slot \<Rightarrow> streamer \<Rightarrow> bool" where
  "same_slot i t s \<longleftrightarrow>
     (case map_of (rs_tools s) i of
        Some t0 \<Rightarrow> sl_id t = sl_id t0 \<and> sl_emitted t = sl_emitted t0
      | None \<Rightarrow> sl_id t \<noteq> [] \<and> \<not> sl_emitted t)"

lemma put_slot_distinct: "distinct (map fst (rs_tools s)) \<Longrightarrow> distinct (map fst (rs_tools (put_slot i t s)))"
  by (simp add: put_slot_def distinct_update)

lemma put_slot_ok: "slot_ok s \<Longrightarrow> same_slot i t s \<Longrightarrow> slot_ok (put_slot i t s)"
  unfolding slot_ok_def same_slot_def by (auto simp: slot_keys_dom put_slot_distinct split: option.splits)

lemma put_slot_ids:
  assumes "slot_ok s" "same_slot i t s"
  shows "slot_ids (put_slot i t s) = slot_ids s"
proof -
  have "sl_id (the (if k = i then Some t else map_of (rs_tools s) k)) = sl_id (the (map_of (rs_tools s) k))" if "k \<in> set (rs_done s)" for k
    using assms that by (auto simp: same_slot_def slot_ok_def slot_keys_dom split: option.splits)
  then show ?thesis by (simp add: slot_ids_def)
qed

lemma put_slot_sim: "sim s q \<Longrightarrow> same_slot i t s \<Longrightarrow> sim (put_slot i t s) q"
  using put_slot_ok [of s i t] put_slot_ids [of s i t] by (auto simp: sim_def done_ids_def)

lemma live_same [simp]: "live (put_slot i t s) = live s" "fresh_or_live (put_slot i t s) = fresh_or_live s"
  by (simp_all add: live_def fresh_or_live_def)

text \<open>A tool in one burst.\<close>

lemma ship_tool_runs:
  fixes uuid :: "string \<Rightarrow> int \<Rightarrow> string"
  assumes "sim s q" "live s" "map_of (rs_tools s) i = Some t0" "i \<notin> set (rs_done s)" "sl_id t = sl_id t0" "sl_emitted t = sl_emitted t0"
    and r_def: "r = ship_tool uuid i t (put_slot i t s)"
  shows "\<exists>q'. resp_run q (fst r) = Some q' \<and> sim (snd r) q'" and "live (snd r)"
    and "calls_done (fst r) = [(sl_name t, sl_args t)]" and "live_text (fst r) = []" and "rs_parts (snd r) = rs_parts s"
    and "rs_done (snd r) = i # rs_done s"
proof -
  let ?k = "rs_output_index s"
  let ?call = "if sl_call t \<noteq> [] then sl_call t else ''call_'' @ uuid ''call'' i"
  let ?t = "t\<lparr>sl_call := ?call, sl_index := Some ?k, sl_emitted := True\<rparr>"
  have ok: "slot_ok s" "text_ok s" using assms(1) by (simp_all add: sim_def)
  then have o: "i \<notin> set (rs_opened s)" "\<not> sl_emitted t" "sl_id t \<noteq> []" using assms by (auto simp: slot_ok_def)
  obtain ds where ds: "q = R_Live (rs_seq s) ?k (open_items s) ds" "mset (map item_id ds) = mset (done_ids s)"
    using assms(1,2) by (auto simp: sim_def live_def)
  have r: "r = emit [Item_Added ?k (Item_Call (sl_id t) ?call (sl_name t) []), Args_Delta ?k (sl_id t) (sl_args t),
      Args_Done ?k (sl_id t) (sl_args t), Item_Done ?k (Item_Call (sl_id t) ?call (sl_name t) (sl_args t))]
      (put_slot i ?t ((put_slot i t s)\<lparr>rs_output_index := Suc ?k, rs_opened := i # rs_opened s, rs_done := i # rs_done s\<rparr>))"
    using o by (simp add: r_def ship_tool_def Let_def)
  have k: "rs_text_open s \<Longrightarrow> rs_text_index s \<noteq> ?k" using ok(2) by (auto simp: text_ok_def)
  have run: "resp_run q (fst r) = Some (R_Live (Suc (Suc (Suc (Suc (rs_seq s))))) (Suc ?k) (open_items s) (ds @ [Item_Call (sl_id t) ?call (sl_name t) (sl_args t)]))"
    using k by (auto simp: r ds open_items_def)
  show "\<exists>q'. resp_run q (fst r) = Some q' \<and> sim (snd r) q'"
  proof -
    let ?s = "snd r"
    have f: "rs_seq ?s = Suc (Suc (Suc (Suc (rs_seq s))))" "rs_output_index ?s = Suc ?k" "open_items ?s = open_items s"
      "rs_started ?s = rs_started s" "rs_closed ?s = rs_closed s" "rs_done ?s = i # rs_done s" "rs_opened ?s = i # rs_opened s"
      "rs_parts ?s = rs_parts s" "rs_text_open ?s = rs_text_open s" "rs_msg_id ?s = rs_msg_id s" "rs_text_index ?s = rs_text_index s"
      "map_of (rs_tools ?s) = (map_of (rs_tools s))(i \<mapsto> ?t)" "distinct (map fst (rs_tools ?s))"
      using ok(1) by (simp_all add: r put_slot_def update_conv' distinct_update open_items_def slot_ok_def)
    have "slot_ok ?s" using ok(1) o assms(3,4) by (auto simp: slot_ok_def slot_keys_dom f)
    moreover have "text_ok ?s" using ok(2) by (auto simp: text_ok_def f)
    moreover have "slot_ids ?s = sl_id t # slot_ids s"
      using assms(4) by (auto simp: slot_ids_def f intro: map_cong)
    ultimately have "sim ?s (R_Live (Suc (Suc (Suc (Suc (rs_seq s))))) (Suc ?k) (open_items s) (ds @ [Item_Call (sl_id t) ?call (sl_name t) (sl_args t)]))"
      using assms(2) ds(2) by (simp add: sim_def live_def f done_ids_def)
    with run show ?thesis by blast
  qed
  show "live (snd r)" using assms(2) by (simp add: r live_def)
  show "calls_done (fst r) = [(sl_name t, sl_args t)]" "live_text (fst r) = []" "rs_parts (snd r) = rs_parts s" "rs_done (snd r) = i # rs_done s"
    by (simp_all add: r)
qed

lemma registered_fold:
  "\<forall>a \<in> set as. a \<noteq> [] \<Longrightarrow> \<forall>x \<in> set d. snd x \<noteq> [] \<Longrightarrow>
     \<forall>x \<in> set (fold (\<lambda>a d. let k = tool_name_key a in if k \<noteq> [] \<and> k \<notin> set (map fst d) then d @ [(k, a)] else d) as d). snd x \<noteq> []"
proof (induction as arbitrary: d)
  case (Cons a as)
  let ?d = "let k = tool_name_key a in if k \<noteq> [] \<and> k \<notin> set (map fst d) then d @ [(k, a)] else d"
  have "\<forall>x \<in> set ?d. snd x \<noteq> []" using Cons.prems by (simp add: Let_def)
  from Cons.IH [OF _ this] Cons.prems(1) show ?case by simp
qed simp

lemma registered_nonempty: "map_of (allowed_by_key allowed) k = Some a \<Longrightarrow> a \<noteq> []"
  using registered_fold [of "filter (\<lambda>a. a \<noteq> []) (map strip allowed)" "[]"]
  by (fastforce simp: allowed_by_key_def dest: map_of_SomeD)

lemma first_registered_nonempty: "first_registered (allowed_by_key allowed) ks = Some a \<Longrightarrow> a \<noteq> []"
  by (cases "filter (\<lambda>k. map_of (allowed_by_key allowed) k \<noteq> None) ks") (auto simp: first_registered_def dest: registered_nonempty)

lemma canonical_nonempty:
  assumes "strip name \<noteq> []"
  shows "canonical_outbound_tool_name allowed name \<noteq> []"
proof -
  have 1: "x \<noteq> []" if "(case map_of (allowed_by_key allowed) k of Some a \<Rightarrow> a | None \<Rightarrow> y) = x" "y \<noteq> []" for k x y
    using that registered_nonempty [of allowed k] by (cases "map_of (allowed_by_key allowed) k") auto
  have 2: "(case first_registered (allowed_by_key allowed) ks of Some a \<Rightarrow> if b then a else ''Edit'' | None \<Rightarrow> ''Edit'') \<noteq> []" for ks b
    using first_registered_nonempty [of allowed ks] by (cases "first_registered (allowed_by_key allowed) ks") auto
  show ?thesis
    unfolding canonical_outbound_tool_name_def Let_def
    using assms by (auto intro!: 1 [OF refl] 2 simp del: not_Cons_self)
qed

lemma terminal_sendable: "name \<noteq> [] \<Longrightarrow> terminal_args name args = Some a \<Longrightarrow> sendable (name, a)"
  by (auto simp: terminal_args_def sendable_def Let_def split: if_splits option.splits)

lemma same_slot_renamed: "map_of (rs_tools s) i = Some t \<Longrightarrow> same_slot i (t\<lparr>sl_name := n, sl_args := a\<rparr>) s"
  by (simp add: same_slot_def)

lemma outcome_ship:
  fixes uuid :: "string \<Rightarrow> int \<Rightarrow> string"
  assumes "sim s q" "live s" "map_of (rs_tools s) i = Some t0" "i \<notin> set (rs_done s)" "sl_id t = sl_id t0" "sl_emitted t = sl_emitted t0"
    "sendable (sl_name t, sl_args t)"
  shows "outcome live s q (ship_tool uuid i t (put_slot i t s))"
  using ship_tool_runs [OF assms(1-6) refl, of uuid] assms(7) by (simp add: outcome_def)

lemma outcome_put: "sim s q \<Longrightarrow> live s \<Longrightarrow> same_slot i t s \<Longrightarrow> outcome live s q ([], put_slot i t s)"
  using put_slot_sim [of s q i t] by (simp add: outcome_def)

lemma obeys_emit_ready: "obeys live live (emit_ready uuid is)"
proof (induction "is")
  case (Cons i "is")
  show ?case
    unfolding obeys_def
  proof (intro allI impI, elim conjE)
    fix s q
    assume s: "live s" "sim s q"
    have g: "outcome live s q ([], s)" "outcome live s q (emit_ready uuid is s)" using s Cons by (simp_all add: outcome_stay obeys_def)
    show "outcome live s q (emit_ready uuid (i # is) s)"
    proof (cases "i \<in> set (rs_done s) \<or> map_of (rs_tools s) i = None")
      case True
      with g show ?thesis by auto
    next
      case False
      then obtain t where t: "i \<notin> set (rs_done s)" "map_of (rs_tools s) i = Some t" by auto
      let ?name = "canonical_outbound_tool_name (rs_allowed s) (strip (sl_name t))"
      let ?args = "normalize_tool_arguments_json ?name (PStr (sl_args t))"
      let ?t = "t\<lparr>sl_name := ?name, sl_args := ?args\<rparr>"
      have p: "outcome live s q ([], put_slot i ?t s)" using outcome_put [OF s(2,1) same_slot_renamed [OF t(2)]] .
      have h: "outcome live s q (ship_tool uuid i ?t (put_slot i ?t s))" if "strip (sl_name t) \<noteq> []" "args_ready ?name ?args"
        using that by (intro outcome_ship [OF s(2,1) t(2,1)]) (simp_all add: sendable_def canonical_nonempty)
      show ?thesis using g p h t by (simp add: Let_def)
    qed
  qed
qed (simp add: obeys_nothing)

lemma obeys_drain: "obeys live live (drain_ready uuid)"
  unfolding obeys_def
proof (intro allI impI, elim conjE)
  fix s q
  assume "live s" "sim s q"
  then show "outcome live s q (drain_ready uuid s)"
  proof (induction uuid s arbitrary: q rule: drain_ready.induct)
    case (1 uuid s)
    obtain fs s1 where r: "emit_ready_tools uuid s = (fs, s1)" by fastforce
    have o: "outcome live s q (fs, s1)"
      using obeysD [OF obeys_emit_ready 1(2,3), of uuid "sort (map fst (rs_tools s))"] r by (simp add: emit_ready_tools_def)
    show ?case
    proof (cases "fs = []")
      case True
      with o show ?thesis by (simp add: drain_ready.simps [of uuid s] r)
    next
      case False
      from outcome_then [OF o, of live "drain_ready uuid s1"] 1(1) [OF r [symmetric] refl False] False show ?thesis
        by (simp add: drain_ready.simps [of uuid s] r split_beta Let_def)
    qed
  qed
qed

lemma obeys_flush: "obeys live live (flush_tool uuid i)"
  unfolding obeys_def
proof (intro allI impI, elim conjE)
  fix s q
  assume s: "live s" "sim s q"
  have g: "outcome live s q ([], s)" using s by (simp add: outcome_stay)
  show "outcome live s q (flush_tool uuid i s)"
  proof (cases "i \<in> set (rs_done s) \<or> map_of (rs_tools s) i = None")
    case True
    with g show ?thesis by (auto simp: flush_tool_def)
  next
    case False
    then obtain t where t: "i \<notin> set (rs_done s)" "map_of (rs_tools s) i = Some t" by auto
    let ?name = "canonical_outbound_tool_name (rs_allowed s) (strip (sl_name t))"
    let ?args = "if strip (sl_args t) \<noteq> [] then normalize_tool_arguments_json ?name (PStr (sl_args t)) else sl_args t"
    have p: "outcome live s q ([], put_slot i (t\<lparr>sl_name := n, sl_args := a\<rparr>) s)" for n a
      using outcome_put [OF s(2,1) same_slot_renamed [OF t(2)]] .
    have h: "outcome live s q (ship_tool uuid i (t\<lparr>sl_name := ?name, sl_args := a\<rparr>) (put_slot i (t\<lparr>sl_name := ?name, sl_args := a\<rparr>) s))"
      if "strip (sl_name t) \<noteq> []" "terminal_args ?name ?args = Some a" for a
      using that by (intro outcome_ship [OF s(2,1) t(2,1)]) (simp_all add: terminal_sendable canonical_nonempty)
    show ?thesis
    proof (cases "strip (sl_name t) = []")
      case True
      with g t show ?thesis by (simp add: flush_tool_def)
    next
      case False
      with g p h t show ?thesis
        by (cases "terminal_args ?name ?args") (simp_all add: flush_tool_def Let_def)
    qed
  qed
qed

lemma obeys_flush_tools: "obeys live live (flush_tools uuid is)"
proof (induction "is")
  case (Cons i "is")
  have "flush_tools uuid (i # is) = next_do (flush_tool uuid i) (flush_tools uuid is)" by (simp add: fun_eq_iff)
  then show ?case using obeys_next [OF obeys_flush Cons] by simp
qed (simp add: obeys_nothing)

lemma obeys_close_tools: "obeys live live (close_open_tools uuid)"
proof -
  from obeys_next [OF obeys_drain obeys_indexed [OF obeys_flush_tools]] show ?thesis by (simp add: close_open_tools_def)
qed

lemma absorb_sim: "sim s q \<Longrightarrow> sim (absorb_live uuid tc s) q"
proof (cases tc)
  case (PDict d)
  assume "sim s q"
  moreover have "same_slot (live_index d) (merge_slot al d (case map_of (rs_tools s) (live_index d) of Some t \<Rightarrow> t | None \<Rightarrow> new_slot uuid (live_index d))) s" for al
    by (simp add: same_slot_def merge_slot_def new_slot_def Let_def split: option.splits)
  ultimately show ?thesis by (simp add: absorb_live_def PDict Let_def put_slot_sim)
qed (simp_all add: absorb_live_def)

lemma absorb_all:
  "sim s q \<Longrightarrow> sim (fold (absorb_live uuid) calls s) q"
  "live (fold (absorb_live uuid) calls s) = live s" "rs_parts (fold (absorb_live uuid) calls s) = rs_parts s"
  "rs_done (fold (absorb_live uuid) calls s) = rs_done s"
proof -
  show "sim s q \<Longrightarrow> sim (fold (absorb_live uuid) calls s) q" by (induction calls arbitrary: s) (simp_all add: absorb_sim)
  have 1: "live (absorb_live uuid c s) = live s" "rs_parts (absorb_live uuid c s) = rs_parts s"
    "rs_done (absorb_live uuid c s) = rs_done s" for c s
    by (simp_all add: absorb_live_def Let_def split: pyval.splits)
  then show "live (fold (absorb_live uuid) calls s) = live s" "rs_parts (fold (absorb_live uuid) calls s) = rs_parts s"
    "rs_done (fold (absorb_live uuid) calls s) = rs_done s"
    by (induction calls arbitrary: s) simp_all
qed

lemma obeys_tools: "obeys live live (on_tool_delta uuid calls)"
proof (cases "calls = []")
  case True
  then show ?thesis by (simp add: obeys_def on_tool_delta_def outcome_stay)
next
  case False
  have a: "obeys live live (\<lambda>s. ([], fold (absorb_live uuid) calls s))"
    by (rule obeysI) (auto simp: absorb_all)
  have e: "obeys live live (emit_ready_tools uuid)"
    using obeys_indexed [where f = "emit_ready uuid" and h = "\<lambda>s. sort (map fst (rs_tools s))", OF obeys_emit_ready] by (simp add: emit_ready_tools_def [abs_def])
  have "obeys live live (\<lambda>s. if \<not> any_shipable_tool False s then ([], s) else next_do start_stream (emit_ready_tools uuid) s)"
    by (rule obeys_if [OF obeys_nothing obeys_weaken [OF obeys_next [OF obeys_start e]]]) (simp_all add: live_fresh)
  from obeys_next [OF a this] False show ?thesis
    by (elim obeys_cong) (auto simp: on_tool_delta_def next_do_def live_def Let_def split_beta)
qed

lemma obeys_chunks: "obeys live live (live_chunks uuid chunks)"
proof (induction chunks)
  case (Cons x chunks)
  obtain c calls where x: "x = (c, calls)" by (cases x)
  have "live_chunks uuid (x # chunks) = next_do (on_text_delta uuid c) (next_do (on_tool_delta uuid calls) (live_chunks uuid chunks))"
    by (simp add: fun_eq_iff x)
  then show ?case using obeys_next [OF obeys_text obeys_next [OF obeys_tools Cons]] by simp
next
  case Nil
  have "live_chunks uuid [] = (\<lambda>s. ([], s))" by (simp add: fun_eq_iff)
  then show ?case by (simp add: obeys_nothing)
qed

subsection \<open>The end\<close>

text \<open>A method on tools: it keeps the text, and frames mean that a tool is done.\<close>

definition on_tools :: "(streamer \<Rightarrow> resp_frame list \<times> streamer) \<Rightarrow> bool" where
  "on_tools f \<longleftrightarrow> (\<forall>s. rs_parts (snd (f s)) = rs_parts s \<and> (fst (f s) \<noteq> [] \<or> rs_done s \<noteq> [] \<longrightarrow> rs_done (snd (f s)) \<noteq> []))"

lemma on_tools_next: "on_tools f \<Longrightarrow> on_tools g \<Longrightarrow> on_tools (next_do f g)"
  unfolding on_tools_def by (auto simp: next_do_split)

lemma ship_parts [simp]: "rs_parts (snd (ship_tool uuid i t s)) = rs_parts s"
  by (simp add: ship_tool_def Let_def)

lemma on_tools_ready: "on_tools (emit_ready uuid is)"
proof (induction "is")
  case (Cons i "is")
  then show ?case unfolding on_tools_def by (auto simp: Let_def split: option.splits)
qed (simp add: on_tools_def)

lemma on_tools_drain: "on_tools (drain_ready uuid)"
proof -
  have "rs_parts (snd (drain_ready uuid s)) = rs_parts s \<and>
      (fst (drain_ready uuid s) \<noteq> [] \<or> rs_done s \<noteq> [] \<longrightarrow> rs_done (snd (drain_ready uuid s)) \<noteq> [])" for s
  proof (induction uuid s rule: drain_ready.induct)
    case (1 uuid s)
    obtain fs s1 where r: "emit_ready_tools uuid s = (fs, s1)" by fastforce
    then have s1: "rs_parts s1 = rs_parts s \<and> (fs \<noteq> [] \<or> rs_done s \<noteq> [] \<longrightarrow> rs_done s1 \<noteq> [])"
      using on_tools_ready [unfolded on_tools_def, rule_format, of uuid "sort (map fst (rs_tools s))" s] by (simp add: emit_ready_tools_def)
    show ?case
    proof (cases "fs = []")
      case True
      with s1 show ?thesis by (simp add: drain_ready.simps [of uuid s] r)
    next
      case False
      from 1 [OF r [symmetric] refl False] s1 False show ?thesis
        by (auto simp: drain_ready.simps [of uuid s] r split_beta Let_def)
    qed
  qed
  then show ?thesis by (simp add: on_tools_def)
qed

lemma on_tools_flush: "on_tools (flush_tool uuid i)"
  unfolding on_tools_def by (auto simp: flush_tool_def Let_def split: option.splits)

lemma on_tools_flush_all: "on_tools (flush_tools uuid is)"
proof (induction "is")
  case (Cons i "is")
  have "flush_tools uuid (i # is) = next_do (flush_tool uuid i) (flush_tools uuid is)" by (simp add: fun_eq_iff)
  then show ?case using on_tools_next [OF on_tools_flush Cons] by simp
qed (simp add: on_tools_def)

lemma on_tools_close: "on_tools (close_open_tools uuid)"
proof -
  have "on_tools (\<lambda>s. flush_tools uuid (sort (map fst (rs_tools s))) s)" using on_tools_flush_all unfolding on_tools_def by blast
  from on_tools_next [OF on_tools_drain this] show ?thesis by (simp add: close_open_tools_def)
qed

text \<open>The steps of \<open>complete\<close> before it decides, for a live streamer.\<close>

definition wind_up :: "(string \<Rightarrow> int \<Rightarrow> string) \<Rightarrow> bool \<Rightarrow> streamer \<Rightarrow> resp_frame list \<times> streamer" where
  "wind_up uuid force = next_do (drain_ready uuid) (next_do (if force then close_open_tools uuid else (\<lambda>s. ([], s))) close_open_text)"

definition wound_up :: "streamer \<Rightarrow> bool" where
  "wound_up s \<longleftrightarrow> rs_started s \<and> \<not> rs_closed s \<and> \<not> rs_text_open s"

lemma obeys_wind_up: "obeys live wound_up (wind_up uuid force)"
proof -
  have "obeys live live (if force then close_open_tools uuid else (\<lambda>s. ([], s)))" by (simp add: obeys_close_tools obeys_nothing)
  from obeys_next [OF obeys_drain obeys_next [OF this obeys_close_text]] show ?thesis by (simp add: wind_up_def wound_up_def [abs_def])
qed

lemma wind_up_silent:
  assumes "live s" "sim s q" "rs_done (snd (wind_up uuid force s)) = []" "rs_parts (snd (wind_up uuid force s)) = []"
  shows "fst (wind_up uuid force s) = []"
proof -
  let ?f = "next_do (drain_ready uuid) (if force then close_open_tools uuid else (\<lambda>s. ([], s)))"
  have t: "on_tools ?f" using on_tools_close by (intro on_tools_next on_tools_drain) (simp add: on_tools_def)
  have o: "obeys live live ?f" by (intro obeys_next [OF obeys_drain]) (simp add: obeys_close_tools obeys_nothing)
  have w: "wind_up uuid force s = next_do ?f close_open_text s" by (simp add: wind_up_def next_do_def split_beta Let_def)
  let ?s = "snd (?f s)"
  have c: "rs_done (snd (close_open_text a)) = rs_done a" "rs_parts (snd (close_open_text a)) = rs_parts a" for a
    by (simp_all add: close_open_text_def Let_def)
  have p: "rs_done ?s = []" "rs_parts ?s = []" using assms(3,4) by (simp_all add: w next_do_split c)
  then have "fst (?f s) = []" using t by (auto simp: on_tools_def)
  moreover have "\<not> rs_text_open ?s" using obeysD [OF o assms(1,2)] p(2) by (auto simp: outcome_def live_def)
  ultimately show ?thesis by (simp add: w next_do_split [of ?f] close_open_text_def)
qed

lemma payload_of:
  assumes "sim s q"
  shows "has_client_payload s \<longleftrightarrow> rs_parts s \<noteq> [] \<or> rs_done s \<noteq> []"
proof -
  have ok: "slot_ok s" "text_ok s" using assms by (simp_all add: sim_def)
  have "i \<in> set (rs_done s)" if "(i, t) \<in> set (rs_tools s)" "i \<in> set (rs_done s) \<or> sl_emitted t" for i t
    using ok(1) that map_of_is_SomeI [of "rs_tools s" i t] unfolding slot_ok_def by blast
  then have "list_ex (\<lambda>(i, t). i \<in> set (rs_done s) \<or> (sl_emitted t \<and> strip (sl_name t) \<noteq> [])) (rs_tools s) \<Longrightarrow> rs_done s \<noteq> []"
    by (fastforce simp: list_ex_iff)
  moreover have "list_ex (\<lambda>p. p \<noteq> []) (rs_parts s) \<longleftrightarrow> rs_parts s \<noteq> []"
    using ok(2) by (cases "rs_parts s") (auto simp: text_ok_def)
  ultimately show ?thesis by (auto simp: has_client_payload_def)
qed

lemma mset_filtered: "distinct xs \<Longrightarrow> distinct ys \<Longrightarrow> set ys \<subseteq> set xs \<Longrightarrow> mset (filter (\<lambda>x. x \<in> set ys) xs) = mset ys"
  using set_eq_iff_mset_eq_distinct [of "filter (\<lambda>x. x \<in> set ys) xs" ys] by auto

lemma final_ids:
  assumes "sim s q" "wound_up s"
  shows "mset (map item_id (final_items uuid s)) = mset (done_ids s)"
proof -
  let ?g = "\<lambda>i. case map_of (rs_tools s) i of Some t \<Rightarrow> if i \<in> set (rs_done s) then [slot_item uuid i t] else [] | None \<Rightarrow> []"
  have ok: "slot_ok s" "text_ok s" using assms(1) by (simp_all add: sim_def)
  have "map item_id (concat (map ?g ks)) = map (\<lambda>i. sl_id (the (map_of (rs_tools s) i))) (filter (\<lambda>i. i \<in> set (rs_done s)) ks)" for ks
    using ok(1) by (induction ks) (auto simp: slot_ok_def slot_keys_dom slot_item_def split: option.splits)
  moreover have "mset (filter (\<lambda>i. i \<in> set (rs_done s)) (sort (map fst (rs_tools s)))) = mset (rs_done s)"
    using ok(1) by (intro mset_filtered) (auto simp: slot_ok_def slot_keys_def)
  ultimately have "mset (map item_id (concat (map ?g (sort (map fst (rs_tools s)))))) = mset (slot_ids s)"
    by (simp add: slot_ids_def)
  moreover have "concat (rs_parts s) \<noteq> [] \<longleftrightarrow> rs_parts s \<noteq> []" using ok(2) by (cases "rs_parts s") (auto simp: text_ok_def)
  ultimately show ?thesis using ok(2) assms(2) by (auto simp: final_items_def done_ids_def text_ok_def wound_up_def)
qed

lemma output_of_completed:
  "output_ids (build_completed_response uuid usage reasoning s) = map (PStr \<circ> item_id) (final_items uuid s)"
proof -
  have "dget (done_json x) ''id'' = PStr (item_id x)" for x by (cases x) simp_all
  then show ?thesis by (simp add: output_ids_def build_completed_response_def response_head_def comp_def)
qed

lemma complete_live:
  fixes uuid :: "string \<Rightarrow> int \<Rightarrow> string"
  assumes "live s" "sim s q" and w: "w = wind_up uuid force s"
  shows "(rs_parts s = [] \<and> rs_done s = [] \<and> complete_stream uuid usage reasoning force s = ([], s)) \<or>
    (fst w = [] \<and> live (snd w) \<and> rs_parts (snd w) = [] \<and> rs_done (snd w) = [] \<and> complete_stream uuid usage reasoning force s = ([], snd w)) \<or>
    ((rs_parts (snd w) \<noteq> [] \<or> rs_done (snd w) \<noteq> []) \<and> complete_stream uuid usage reasoning force s =
      (fst w @ [Frame (rs_seq (snd w)) (Completed (build_completed_response uuid usage reasoning (snd w))), Done_Mark],
       (snd w)\<lparr>rs_seq := Suc (rs_seq (snd w)), rs_closed := True\<rparr>))"
proof -
  from obeysD [OF obeys_wind_up assms(1,2), of uuid force] w obtain q1 where q1: "wound_up (snd w)" "sim (snd w) q1"
    by (auto elim: outcomeE)
  let ?none = "rs_parts (snd w) = [] \<and> rs_done (snd w) = []"
  have silent: "fst w = [] \<and> live (snd w)" if ?none
    using wind_up_silent [OF assms(1,2), of uuid force] that w q1(1) by (simp add: wound_up_def live_def)
  have 0: "rs_parts s = [] \<and> rs_done s = []" if "\<not> (has_client_payload s \<or> list_ex (\<lambda>p. p \<noteq> []) (rs_parts s))"
    using that payload_of [OF assms(2)] by simp
  have 1: "has_client_payload (snd w) \<longleftrightarrow> \<not> ?none" using payload_of [OF q1(2)] by blast
  have 2: "final_items uuid (snd w) = [] \<longleftrightarrow> ?none"
    using final_ids [OF q1(2,1), of uuid] q1(1) by (auto simp: done_ids_def slot_ids_def wound_up_def split: if_splits)
  have txt1: "list_ex (\<lambda>p. p \<noteq> []) (rs_parts s) \<Longrightarrow> rs_parts (snd w) \<noteq> []"
    using on_tools_drain on_tools_close by (auto simp: w wind_up_def next_do_split close_open_text_def on_tools_def Let_def)
  have start: "next_do start_stream f s = f s" for f using assms(1) by (simp add: next_do_def start_stream_def live_def)
  obtain fs s1 where fs: "w = (fs, s1)" by fastforce
  have nc: "\<not> rs_closed s" using assms(1) by (simp add: live_def)
  have e: "emit [x] s1 = ([Frame (rs_seq s1) x], s1\<lparr>rs_seq := Suc (rs_seq s1)\<rparr>)" for x by (simp add: prod_eq_iff)
  show ?thesis
    using 0 1 2 nc silent txt1 unfolding e complete_stream_def Let_def start wind_up_def [symmetric] w [symmetric] fs prod.case fst_conv snd_conv
    by (cases "rs_parts s1 = [] \<and> rs_done s1 = []") (auto split: if_splits)
qed

text \<open>A completed or still live streamer, told apart by whether \<open>complete\<close> sent anything.\<close>

lemma obeys_complete: "obeys live (\<lambda>s. rs_closed s \<or> live s) (complete_stream uuid usage reasoning force)"
  unfolding obeys_def
proof (intro allI impI, elim conjE)
  fix s q
  assume s: "live s" "sim s q"
  define w where "w = wind_up uuid force s"
  let ?r = "complete_stream uuid usage reasoning force s"
  let ?e = "Completed (build_completed_response uuid usage reasoning (snd w))"
  have o: "outcome wound_up s q w" using obeysD [OF obeys_wind_up s] by (simp add: w_def)
  have e: "outcome rs_closed (snd w) q1 ([Frame (rs_seq (snd w)) ?e, Done_Mark], (snd w)\<lparr>rs_seq := Suc (rs_seq (snd w)), rs_closed := True\<rparr>)"
    if q1: "wound_up (snd w)" "sim (snd w) q1" for q1
  proof -
    obtain ds where ds: "q1 = R_Live (rs_seq (snd w)) (rs_output_index (snd w)) [] ds" "mset (map item_id ds) = mset (done_ids (snd w))"
      using q1 by (auto simp: sim_def wound_up_def open_items_def)
    have "mset (map item_id (final_items uuid (snd w))) = mset (map item_id ds)" using final_ids [OF q1(2,1)] ds(2) by simp
    then have "mset (map PStr (map item_id (final_items uuid (snd w)))) = mset (map PStr (map item_id ds))" by (metis mset_map)
    then have m: "mset (output_ids (build_completed_response uuid usage reasoning (snd w))) = mset (map (PStr \<circ> item_id) ds)"
      by (simp only: output_of_completed map_map)
    have "sim ((snd w)\<lparr>rs_seq := Suc (rs_seq (snd w)), rs_closed := True\<rparr>) R_Over" using q1 by (simp add: sim_def wound_up_def)
    then show ?thesis by (simp add: outcome_def ds(1) m del: mset_map)
  qed
  consider "?r = ([], s)" | "fst w = []" "live (snd w)" "?r = ([], snd w)"
    | "?r = (fst w @ [Frame (rs_seq (snd w)) ?e, Done_Mark], (snd w)\<lparr>rs_seq := Suc (rs_seq (snd w)), rs_closed := True\<rparr>)"
    using complete_live [OF s w_def, of usage reasoning] by blast
  then show "outcome (\<lambda>s. rs_closed s \<or> live s) s q ?r"
  proof cases
    case 1
    then show ?thesis using s by (simp add: outcome_stay)
  next
    case 2
    then show ?thesis using o by (simp add: outcome_def)
  next
    case 3
    from outcome_then [OF o e] show ?thesis by (simp add: 3 outcome_def)
  qed
qed

lemma complete_sent:
  assumes "live s" "sim s q"
  shows "fst (complete_stream uuid usage reasoning force s) = [] \<longleftrightarrow> live (snd (complete_stream uuid usage reasoning force s))"
  using complete_live [OF assms refl, of uuid usage reasoning force] assms(1) by (auto simp: live_def)

lemma obeys_live_end: "obeys live rs_closed (live_end uuid usage reasoning joined)"
  unfolding obeys_def
proof (intro allI impI, elim conjE)
  fix s q
  assume s: "live s" "sim s q"
  let ?c = "complete_stream uuid usage reasoning True"
  have o: "outcome (\<lambda>s. rs_closed s \<or> live s) s q (?c s)" using obeysD [OF obeys_complete s] .
  have f: "outcome rs_closed s q (fail_stream ty m s)" for ty m using obeysD [OF obeys_fail live_fresh [OF s(1)] s(2)] .
  have c: "outcome rs_closed s q (?c s)" if "fst (?c s) \<noteq> []"
    using o that complete_sent [OF s, of uuid usage reasoning True] by (auto simp: outcome_def)
  have cf: "outcome rs_closed s q (fail_stream ty m (snd (?c s)))" if "fst (?c s) = []" for ty m
  proof -
    have l: "fresh_or_live (snd (?c s))" using that complete_sent [OF s] live_fresh by blast
    from outcome_then [OF o, of rs_closed "fail_stream ty m (snd (?c s))"] obeysD [OF obeys_fail l] that show ?thesis by simp
  qed
  have n: "\<not> rs_closed (snd (?c s))" if "fst (?c s) = []" using that complete_sent [OF s] by (auto simp: live_def)
  show "outcome rs_closed s q (live_end uuid usage reasoning joined s)"
    unfolding live_end_def Let_def using f c cf n by (cases "?c s") (simp split: if_split)
qed

text \<open>The state a streamer is made in.\<close>

lemma new_streamer_sim: "sim (new_streamer rid model created previous metadata allowed) R_Fresh" "fresh_or_live (new_streamer rid model created previous metadata allowed)"
  by (simp_all add: sim_def new_streamer_def slot_ok_def text_ok_def fresh_or_live_def slot_keys_def)

lemma obeys_answer: "obeys fresh_or_live rs_closed (live_answer uuid chunks usage reasoning)"
  using obeys_next [OF obeys_start obeys_next [OF obeys_chunks obeys_live_end]] by (simp add: live_answer_def)

end
