(* ===== verification/Responses_Request.thy ===== *)
theory Responses_Request
  imports Responses_Stream
begin

text \<open>
  Requests and collected answers of \<open>grok2api/protocol/openai_responses.py\<close>: a Responses request as a chat body, the
  response object of a finished answer, the frames such an answer is replayed in, and the frames of a failure.
  \<open>None\<close> is an exception of the code, raised by \<open>.strip()\<close> on a value that is no text.
\<close>

subsection \<open>Input\<close>

definition content_parts_to_text :: "pyval \<Rightarrow> string" where
  "content_parts_to_text content =
     (case content of
        PNone \<Rightarrow> []
      | PStr s \<Rightarrow> s
      | PDict d \<Rightarrow> (if dget d ''text'' \<noteq> PNone then str_of (dget d ''text'') else stringify content)
      | PList ps \<Rightarrow> concat (map (\<lambda>p. case p of
            PStr s \<Rightarrow> s
          | PDict d \<Rightarrow> (if dget d ''text'' \<noteq> PNone then str_of (dget d ''text'') else [])
          | _ \<Rightarrow> []) ps)
      | v \<Rightarrow> py_str v)"

text \<open>What a part adds: whether it is more than text, its text, its parts.\<close>

definition response_part :: "pyval \<Rightarrow> bool \<times> string \<times> pyval list" where
  "response_part p =
     (case p of
        PStr s \<Rightarrow> (False, s, if s \<noteq> [] then [text_part (PStr s)] else [])
      | PDict d \<Rightarrow>
          (let ptype = lower (str_of (dget d ''type'')); t = str_of (dget d ''text'')
           in (if ptype \<in> {''input_text'', ''output_text'', ''text''} then (False, t, [text_part (PStr t)])
               else if ptype \<in> {''input_image'', ''image'', ''image_url''} then
                 (True, [], [case py_or (py_or (dget d ''image_url'') (dget d ''url'')) (dget d ''image'') of
                    PStr u \<Rightarrow> image_part u
                  | PDict u \<Rightarrow> PDict [(''type'', PStr ''image_url''), (''image_url'', PDict u)]
                  | _ \<Rightarrow> PDict d])
               else if dget d ''text'' \<noteq> PNone then (False, t, [text_part (PStr t)])
               else (False, [], [])))
      | _ \<Rightarrow> (False, [], []))"

definition multimodal_content_from_parts :: "pyval list \<Rightarrow> pyval" where
  "multimodal_content_from_parts parts =
     (let rs = map response_part parts
      in (if \<not> list_ex fst rs then PStr (concat (map (fst \<circ> snd) rs)) else PList (concat (map (snd \<circ> snd) rs))))"

definition tool_output_msg :: "string \<Rightarrow> pydict \<Rightarrow> pyval" where
  "tool_output_msg fresh d =
     (let call_id = strip (str_of (py_or (dget d ''call_id'') (dget d ''tool_call_id'')))
      in PDict [(''role'', PStr ''tool''), (''tool_call_id'', PStr (if call_id \<noteq> [] then call_id else ''call_'' @ fresh)),
           (''content'', PStr (stringify (if dget d ''output'' \<noteq> PNone then dget d ''output'' else dget d ''content'')))])"

definition input_call :: "string \<Rightarrow> pydict \<Rightarrow> pyval" where
  "input_call fresh d =
     (let call_id = strip (str_of (py_or (dget d ''call_id'') (dget d ''id'')));
          args = stringify (dget d ''arguments'')
      in PDict [(''id'', PStr (if call_id \<noteq> [] then call_id else ''call_'' @ fresh)), (''type'', PStr ''function''),
           (''function'', PDict [(''name'', PStr (strip (str_of (dget d ''name'')))), (''arguments'', PStr (if args \<noteq> [] then args else ''{}''))])])"

text \<open>Whether the last message is an assistant message of calls only, to which a call is added.\<close>

definition takes_calls :: "pyval list \<Rightarrow> bool option" where
  "takes_calls messages =
     (if messages = [] then Some False
      else let m = dict_of (last messages)
           in (if dget m ''role'' = PStr ''assistant'' \<and> truthy (dget m ''tool_calls'')
               then map_option (\<lambda>s. strip s = []) (text_field (dget m ''content'')) else Some False))"

definition add_call :: "pyval \<Rightarrow> pyval list \<Rightarrow> pyval list option" where
  "add_call tc messages =
     map_option (\<lambda>takes.
       if takes then butlast messages @ [PDict (let m = dict_of (last messages) in dset m ''tool_calls'' (PList (list_of (dget m ''tool_calls'') @ [tc])))]
       else messages @ [PDict [(''role'', PStr ''assistant''), (''content'', PNone), (''tool_calls'', PList [tc])]]) (takes_calls messages)"

definition input_message :: "string \<Rightarrow> pydict \<Rightarrow> pyval" where
  "input_message role d =
     (let content = (case dget d ''content'' of
            PList ps \<Rightarrow> multimodal_content_from_parts ps
          | PNone \<Rightarrow> (if dget d ''text'' \<noteq> PNone then PStr (str_of (dget d ''text'')) else PNone)
          | PStr s \<Rightarrow> PStr s
          | PDict e \<Rightarrow> PDict e
          | v \<Rightarrow> PStr (py_str v));
          tcs = list_of (dget d ''tool_calls'')
      in PDict (if tcs \<noteq> [] then [(''role'', PStr role), (''content'', if content = PStr [] then PNone else content), (''tool_calls'', PList tcs)]
                else [(''role'', PStr role), (''content'', content)]))"

definition input_item :: "string \<Rightarrow> pyval \<Rightarrow> pyval list \<Rightarrow> pyval list option" where
  "input_item fresh item messages =
     (case item of
        PStr s \<Rightarrow> Some (if strip s \<noteq> [] then messages @ [chat_msg ''user'' (PStr s)] else messages)
      | PDict d \<Rightarrow>
          (let typ = lower (str_of (dget d ''type'')); role = lower (str_of (dget d ''role'')); text = str_of (dget d ''text'')
           in (if typ \<in> {''function_call_output'', ''tool_result''} then Some (messages @ [tool_output_msg fresh d])
               else if typ = ''function_call'' then add_call (input_call fresh d) messages
               else if typ \<in> {''input_text'', ''text''} \<and> role = [] then
                 Some (if text \<noteq> [] then messages @ [chat_msg ''user'' (PStr text)] else messages)
               else if typ = ''output_text'' \<and> role = [] then
                 Some (if text \<noteq> [] then messages @ [chat_msg ''assistant'' (PStr text)] else messages)
               else if typ = ''message'' \<or> role \<noteq> [] then
                 Some (messages @ [input_message (if role \<noteq> [] then role else ''user'') d])
               else Some messages))
      | _ \<Rightarrow> Some messages)"

fun input_items :: "(string \<Rightarrow> int \<Rightarrow> string) \<Rightarrow> nat \<Rightarrow> pyval list \<Rightarrow> pyval list \<Rightarrow> pyval list option" where
  "input_items uuid n [] messages = Some messages"
| "input_items uuid n (x # xs) messages =
     Option.bind (input_item (uuid ''call'' (int n)) x messages) (input_items uuid (Suc n) xs)"

definition convert_responses_input_to_messages :: "(string \<Rightarrow> int \<Rightarrow> string) \<Rightarrow> pyval \<Rightarrow> string \<Rightarrow> pyval list option" where
  "convert_responses_input_to_messages uuid raw instructions =
     (let instr = strip instructions;
          messages = (if instr \<noteq> [] then [chat_msg ''system'' (PStr instr)] else [])
      in (case raw of
            PStr s \<Rightarrow> Some (if strip s \<noteq> [] then messages @ [chat_msg ''user'' (PStr (strip s))] else messages)
          | PDict d \<Rightarrow> input_items uuid 0 [PDict d] messages
          | PList xs \<Rightarrow> input_items uuid 0 xs messages
          | _ \<Rightarrow> Some messages))"

subsection \<open>Tools and body\<close>

definition responses_tool :: "pyval \<Rightarrow> pyval list" where
  "responses_tool t =
     (case t of
        PDict d \<Rightarrow>
          (let params = first_given [dget d ''parameters'', dget d ''input_schema'', PDict empty_tool_parameters]
           in (if lower (py_str (py_or (dget d ''type'') (PStr ''function''))) \<noteq> ''function'' then []
               else if is_dict (dget d ''function'') then [t]
               else if \<not> truthy (dget d ''name'') then []
               else [openai_tool ([(''name'', dget d ''name'')] @ opt_field ''description'' (dget d ''description'') @
                       [(''parameters'', params)] @
                       (if dget d ''strict'' \<noteq> PNone then [(''strict'', PBool (truthy (dget d ''strict'')))] else []))]))
      | _ \<Rightarrow> [])"

definition convert_responses_tools :: "pyval \<Rightarrow> pyval list" where
  "convert_responses_tools tools = concat (map responses_tool (list_of tools))"

definition extract_reasoning_effort :: "pydict \<Rightarrow> string option" where
  "extract_reasoning_effort req =
     (let given = (\<lambda>v. case v of PStr s \<Rightarrow> if strip s \<noteq> [] then Some (strip s) else None | _ \<Rightarrow> None)
      in (case given (dget req ''reasoning_effort'') of
            Some e \<Rightarrow> Some e
          | None \<Rightarrow> given (dget (dict_of (dget req ''reasoning'')) ''effort'')))"

definition max_tokens_field :: "pydict \<Rightarrow> pydict" where
  "max_tokens_field req =
     (let raw = (if dget req ''max_output_tokens'' \<noteq> PNone then dget req ''max_output_tokens'' else dget req ''max_tokens'')
      in (case (if raw = PNone then None else py_int raw) of Some n \<Rightarrow> [(''max_tokens'', PInt n)] | None \<Rightarrow> []))"

definition sticky_hints :: "pydict \<Rightarrow> pydict \<Rightarrow> pydict" where
  "sticky_hints meta body =
     (let b1 = (if truthy (dget meta ''user'') \<and> \<not> truthy (dget body ''user'') then dset body ''user'' (dget meta ''user'') else body);
          b2 = (if dget b1 ''prompt_cache_key'' \<in> {PNone, PStr []} \<and> truthy (dget meta ''prompt_cache_key'')
                then dset b1 ''prompt_cache_key'' (dget meta ''prompt_cache_key'') else b1)
      in (if dget b2 ''prompt_cache_retention'' = PNone \<and> dget meta ''prompt_cache_retention'' \<noteq> PNone
          then dset b2 ''prompt_cache_retention'' (dget meta ''prompt_cache_retention'') else b2))"

definition responses_request_to_chat_body :: "(string \<Rightarrow> int \<Rightarrow> string) \<Rightarrow> pydict \<Rightarrow> string \<Rightarrow> pydict option" where
  "responses_request_to_chat_body uuid req model =
     map_option (\<lambda>messages.
       let tools = convert_responses_tools (dget req ''tools'');
           body = [(''model'', PStr model), (''messages'', PList messages), (''stream'', PBool (truthy (dget req ''stream'')))] @
             max_tokens_field req @
             (if tools \<noteq> [] then [(''tools'', PList tools)] @ opt_field ''tool_choice'' (dget req ''tool_choice'') @
                (if dget req ''parallel_tool_calls'' \<noteq> PNone
                 then [(''parallel_tool_calls'', PBool (truthy (dget req ''parallel_tool_calls'')))] else []) else []) @
             opt_field ''temperature'' (dget req ''temperature'') @ opt_field ''top_p'' (dget req ''top_p'') @
             opt_field ''user'' (dget req ''user'') @ opt_field ''reasoning_effort'' (of_opt PStr (extract_reasoning_effort req)) @
             opt_field ''prompt_cache_key'' (dget req ''prompt_cache_key'') @
             opt_field ''prompt_cache_retention'' (dget req ''prompt_cache_retention'')
       in (case dget req ''metadata'' of PDict meta \<Rightarrow> sticky_hints meta body | _ \<Rightarrow> body))
     (convert_responses_input_to_messages uuid (dget req ''input'') (case dget req ''instructions'' of PStr s \<Rightarrow> s | _ \<Rightarrow> []))"

subsection \<open>Collected answers\<close>

text \<open>A call of a finished answer: its id, name and arguments.\<close>

definition call_parts :: "string list \<Rightarrow> string \<Rightarrow> pyval \<Rightarrow> (string \<times> string \<times> string) list option" where
  "call_parts allowed fresh tc =
     (case tc of
        PDict d \<Rightarrow>
          (let fn = dict_of (dget d ''function'')
           in Option.bind (text_field (py_or (dget fn ''name'') (dget d ''name''))) (\<lambda>raw_name.
                if strip raw_name = [] then Some []
                else
                  let name = canonical_outbound_tool_name allowed (strip raw_name);
                      raw = (if fn \<noteq> [] then dget fn ''arguments'' else dget d ''arguments'');
                      args = normalize_tool_arguments_json name (PStr (if raw = PNone then ''{}'' else stringify raw))
                  in map_option (\<lambda>cid. [(if strip cid \<noteq> [] then strip cid else ''call_'' @ fresh, name, if args \<noteq> [] then args else ''{}'')])
                       (text_field (py_or (dget d ''id'') (dget d ''call_id'')))))
      | _ \<Rightarrow> Some [])"

definition all_call_parts :: "string list \<Rightarrow> (nat \<Rightarrow> string) \<Rightarrow> pyval list \<Rightarrow> (string \<times> string \<times> string) list option" where
  "all_call_parts allowed fresh calls = map_option concat (those (map (\<lambda>(i, tc). call_parts allowed (fresh i) tc) (enumerate 0 calls)))"

definition build_responses_object ::
  "(string \<Rightarrow> int \<Rightarrow> string) \<Rightarrow> string \<Rightarrow> string \<Rightarrow> string \<Rightarrow> string \<Rightarrow> pyval list \<Rightarrow> pyval \<Rightarrow> string \<Rightarrow> int \<Rightarrow> string \<Rightarrow> pydict \<Rightarrow> string list \<Rightarrow> pydict option" where
  "build_responses_object uuid rid model content reasoning calls usage status created previous metadata allowed =
     map_option (\<lambda>parts.
       let items = (if content \<noteq> [] \<or> calls = [] then [Item_Message (''msg_'' @ uuid ''final msg'' 0) content] else []) @
             map (\<lambda>(i, c, n, a). Item_Call (''fc_'' @ uuid ''final fc'' (int i)) c n a) (enumerate 0 parts)
       in response_head rid created status model (map (PDict \<circ> done_json) items) usage @ response_extras previous metadata @
          (if reasoning \<noteq> [] then [(''x_grok2api_reasoning'', PStr reasoning)] else []))
     (all_call_parts allowed (\<lambda>i. uuid ''final call'' (int i)) calls)"

text \<open>The text in pieces.\<close>

fun pieces_of :: "nat \<Rightarrow> string \<Rightarrow> string list" where
  "pieces_of n [] = []"
| "pieces_of n (c # s) = (c # take n s) # pieces_of n (drop n s)"

definition message_events :: "string \<Rightarrow> int \<Rightarrow> string \<Rightarrow> resp_event list" where
  "message_events mid chunk_chars text =
     [Item_Added 0 (Item_Message mid []), Part_Added 0 mid] @
     map (Text_Delta 0 mid) (pieces_of (nat (max 8 (if chunk_chars \<noteq> 0 then chunk_chars else 48)) - 1) text) @
     [Text_Done 0 mid text, Part_Done 0 mid text, Item_Done 0 (Item_Message mid text)]"

definition call_events :: "nat \<Rightarrow> string \<Rightarrow> string \<times> string \<times> string \<Rightarrow> resp_event list" where
  "call_events oi i = (\<lambda>(c, n, a).
     [Item_Added oi (Item_Call i c n []), Args_Delta oi i a, Args_Done oi i a, Item_Done oi (Item_Call i c n a)])"

definition iter_responses_sse_from_completion ::
  "(string \<Rightarrow> int \<Rightarrow> string) \<Rightarrow> string \<Rightarrow> string \<Rightarrow> string \<Rightarrow> string \<Rightarrow> pyval list \<Rightarrow> pyval \<Rightarrow> int \<Rightarrow> string \<Rightarrow> pydict \<Rightarrow> int \<Rightarrow> string list \<Rightarrow> resp_frame list option" where
  "iter_responses_sse_from_completion uuid rid model content reasoning calls usage created previous metadata chunk_chars allowed =
     (let initial = response_head rid created ''in_progress'' model [] PNone @ response_extras previous metadata;
          first = (if content \<noteq> [] then 1 else 0)
      in Option.bind (all_call_parts allowed (\<lambda>i. uuid ''call'' (int i)) calls) (\<lambda>parts.
         map_option (\<lambda>final.
           map (\<lambda>(n, e). Frame n e) (enumerate 0
             ([Created initial, In_Progress initial] @
              (if content \<noteq> [] then message_events (''msg_'' @ uuid ''msg'' 0) chunk_chars content else []) @
              concat (map (\<lambda>(i, p). call_events (first + i) (''fc_'' @ uuid ''fc'' (int i)) p) (enumerate 0 parts)) @
              [Completed final])) @ [Done_Mark])
         (build_responses_object uuid rid model content reasoning calls usage ''completed'' created previous metadata allowed)))"

definition failed_responses_sse :: "int \<Rightarrow> string \<Rightarrow> string \<Rightarrow> string \<Rightarrow> string \<Rightarrow> nat option \<Rightarrow> bool \<Rightarrow> resp_frame list" where
  "failed_responses_sse now rid message err_type model sequence_number open_envelope =
     (let initial = response_head rid now ''in_progress'' model [] PNone;
          envelope = (if sequence_number = None \<and> open_envelope then [Frame 0 (Created initial), Frame 1 (In_Progress initial)] else []);
          n = (case sequence_number of Some n \<Rightarrow> n | None \<Rightarrow> length envelope)
      in envelope @ [Frame n (Failed ([(''id'', PStr rid), (''object'', PStr ''response''), (''status'', PStr ''failed''),
           (''error'', PDict [(''type'', PStr err_type), (''message'', PStr message)])] @
           (if model \<noteq> [] then [(''model'', PStr model)] else []))), Done_Mark])"

end
