(* ===== verification/Responses_Theorems.thy ===== *)
theory Responses_Theorems
  imports Responses_Protocol Responses_Request
begin

text \<open>What a client of \<open>/v1/responses\<close> may rely on, and where it may not.\<close>

subsection \<open>Live answers\<close>

lemma answer_outcome:
  "outcome rs_closed (new_streamer rid model created previous metadata allowed) R_Fresh
     (live_answer uuid chunks usage reasoning (new_streamer rid model created previous metadata allowed))"
  by (rule obeysD [OF obeys_answer new_streamer_sim(2,1)])

lemma start_outcome:
  "outcome live (new_streamer rid model created previous metadata allowed) R_Fresh (start_stream (new_streamer rid model created previous metadata allowed))"
  by (rule obeysD [OF obeys_start new_streamer_sim(2,1)])

text \<open>
  C20: whatever chunks arrive, the frames of a live answer form one response: numbered from 0 without a gap, its
  envelope first, every item added at the next index and done before the response completes, a message told by its
  text and a call by its arguments; a completed response lists the ids of exactly the items done; then the
  terminal mark, and nothing after it.
\<close>

theorem response_well_formed:
  "resp_run R_Fresh (fst (live_answer uuid chunks usage reasoning (new_streamer rid model created previous metadata allowed))) = Some R_Over"
  using answer_outcome [of rid model created previous metadata allowed uuid chunks usage reasoning]
  by (auto simp: outcome_def sim_def)


text \<open>The text the streamer keeps.\<close>

lemma text_parts: "live s \<Longrightarrow> concat (rs_parts (snd (on_text_delta uuid d s))) = concat (rs_parts s) @ d"
  by (auto simp: on_text_delta_def live_def next_do_split start_stream_def ensure_text_open_def Let_def)

lemma tool_parts: "rs_parts (snd (on_tool_delta uuid calls s)) = rs_parts s"
proof -
  have e: "rs_parts (snd (emit_ready_tools uuid a)) = rs_parts a" for a
    using on_tools_ready by (simp add: emit_ready_tools_def on_tools_def)
  have st: "rs_parts (snd (start_stream a)) = rs_parts a" for a by (simp add: start_stream_def)
  show ?thesis by (simp add: on_tool_delta_def Let_def next_do_split e st absorb_all(3))
qed

lemma chunk_parts: "live s \<Longrightarrow> sim s q \<Longrightarrow> concat (rs_parts (snd (live_chunks uuid chunks s))) = concat (rs_parts s) @ concat (map fst chunks)"
proof (induction chunks arbitrary: s q)
  case (Cons x chunks)
  obtain d calls where x: "x = (d, calls)" by (cases x)
  from obeysD [OF obeys_text Cons.prems, of uuid d] obtain q1 where q1: "live (snd (on_text_delta uuid d s))" "sim (snd (on_text_delta uuid d s)) q1"
    by (elim outcomeE)
  from obeysD [OF obeys_tools q1, of uuid calls] obtain q2 where
    "live (snd (on_tool_delta uuid calls (snd (on_text_delta uuid d s))))" "sim (snd (on_tool_delta uuid calls (snd (on_text_delta uuid d s)))) q2"
    by (elim outcomeE)
  from Cons.IH [OF this] text_parts [OF Cons.prems(1)] show ?case by (simp add: x next_do_split tool_parts)
qed simp

lemma fail_parts [simp]: "rs_parts (snd (fail_stream ty m s)) = rs_parts s"
  by (simp add: fail_stream_def next_do_split start_stream_def Let_def split_beta)

lemma wind_up_parts: "rs_parts (snd (wind_up uuid force s)) = rs_parts s"
  using on_tools_drain on_tools_close by (simp add: wind_up_def next_do_split close_open_text_def on_tools_def Let_def)

lemma complete_parts: "live s \<Longrightarrow> sim s q \<Longrightarrow> rs_parts (snd (complete_stream uuid usage reasoning force s)) = rs_parts s"
  using complete_live [of s q _ uuid force, OF _ _ refl, of usage reasoning] wind_up_parts [of uuid force s] by auto

lemma end_parts: "live s \<Longrightarrow> sim s q \<Longrightarrow> rs_parts (snd (live_end uuid usage reasoning joined s)) = rs_parts s"
  using complete_parts [of s q uuid usage reasoning True]
  by (cases "complete_stream uuid usage reasoning True s") (simp add: live_end_def Let_def)

text \<open>
  C22: the text of a live answer arrives whole and in order, whatever tools come between.
\<close>

theorem response_text_whole:
  "live_text (fst (live_answer uuid chunks usage reasoning (new_streamer rid model created previous metadata allowed))) = concat (map fst chunks)"
proof -
  let ?s = "new_streamer rid model created previous metadata allowed"
  obtain q1 where 1: "live (snd (start_stream ?s))" "sim (snd (start_stream ?s)) q1"
    using start_outcome [of rid model created previous metadata allowed] by (elim outcomeE)
  from obeysD [OF obeys_chunks this, of uuid chunks] obtain q2 where
    2: "live (snd (live_chunks uuid chunks (snd (start_stream ?s))))" "sim (snd (live_chunks uuid chunks (snd (start_stream ?s)))) q2" by (elim outcomeE)
  have "rs_parts (snd (start_stream ?s)) = []" by (simp add: start_stream_def new_streamer_def)
  then have "concat (rs_parts (snd (live_answer uuid chunks usage reasoning ?s))) = concat (map fst chunks)"
    using chunk_parts [OF 1, of uuid chunks] by (simp add: live_answer_def next_do_split end_parts [OF 2])
  then show ?thesis
    using answer_outcome [of rid model created previous metadata allowed uuid chunks usage reasoning] by (simp add: outcome_def new_streamer_def)
qed

text \<open>The responses completed in an answer.\<close>

fun completions :: "resp_frame list \<Rightarrow> pydict list" where
  "completions [] = []"
| "completions (Frame n (Completed r) # fs) = r # completions fs"
| "completions (f # fs) = completions fs"

lemma completions_append [simp]: "completions (xs @ ys) = completions xs @ completions ys"
  by (induction xs rule: completions.induct) simp_all

lemma completed_stays: "resp_next p (Frame n (Completed r)) \<noteq> Some (R_Live m k os ds)"
  by (cases "(p, Frame n (Completed r))" rule: resp_next.cases) (auto split: if_splits)









subsection \<open>Late fragments\<close>

definition example_uuid :: "string \<Rightarrow> int \<Rightarrow> string" where
  "example_uuid kind n = kind"

definition call_delta :: "string \<Rightarrow> string \<Rightarrow> string \<Rightarrow> pyval" where
  "call_delta call name args =
     PDict [(''index'', PInt 0), (''id'', PStr call), (''function'', PDict [(''name'', PStr name), (''arguments'', PStr args)])]"

definition small_answer :: "(string \<times> pyval list) list \<Rightarrow> resp_frame list" where
  "small_answer chunks = fst (live_answer example_uuid chunks PNone [] (new_streamer ''r'' ''m'' 0 [] [] []))"


text \<open>The calls told done, and those a completed response lists: call id and name.\<close>

definition told_calls :: "resp_frame list \<Rightarrow> (string \<times> string) list" where
  "told_calls fs = concat (map (\<lambda>f. case f of Frame n (Item_Done oi (Item_Call i c nm a)) \<Rightarrow> [(c, nm)] | _ \<Rightarrow> []) fs)"

definition listed_calls :: "pydict \<Rightarrow> (pyval \<times> pyval) list" where
  "listed_calls r = map (\<lambda>v. (dget (dict_of v) ''call_id'', dget (dict_of v) ''name'')) (list_of (dget r ''output''))"

text \<open>
  A fragment that arrives for a call already sent still changes it: the client was told one call id and name when
  the call was done, and the completed response lists others for the same item.
\<close>

lemma late_fragment_disagrees:
  "let fs = small_answer [([], [call_delta ''c'' ''t'' ''[1]'']), ([], [PDict [(''index'', PInt 0), (''id'', PStr ''d'')]])]
   in told_calls fs = [(''c'', ''t'')] \<and> map listed_calls (completions fs) = [[(PStr ''d'', PStr ''t'')]]"
  by code_simp

text \<open>The ids of the items added.\<close>

definition added_ids :: "resp_frame list \<Rightarrow> pyval list" where
  "added_ids fs = concat (map (\<lambda>f. case f of Frame n (Item_Added oi x) \<Rightarrow> [PStr (item_id x)] | _ \<Rightarrow> []) fs)"

text \<open>
  Text after a call: the call is the item of index 0 of the stream and the message the one of index 1, but the
  completed response lists the message first.
\<close>

lemma completed_reorders:
  "let fs = small_answer [([], [call_delta ''c'' ''t'' ''[1]'']), (''done'', [])]
   in added_ids fs = [PStr ''fc_fc'', PStr ''msg_msg''] \<and> map output_ids (completions fs) = [[PStr ''msg_msg'', PStr ''fc_fc'']]"
  by code_simp

subsection \<open>The end of a drain\<close>

lemma round_frames: "length (fst (emit_ready uuid is s)) \<le> 4"
  by (induction uuid "is" s rule: emit_ready.induct) (auto simp: Let_def ship_tool_def emit_def split: option.splits)

lemma finite_unsent [simp]: "finite (unsent s)"
  by (simp add: unsent_def slot_keys_def)

text \<open>
  C25: draining the ready calls ends, and sends every call not sent before at most once: it takes away from the
  unsent ones, with at most four frames for each.
\<close>

theorem drain_bounded:
  "unsent (snd (drain_ready uuid s)) \<subseteq> unsent s \<and>
   length (fst (drain_ready uuid s)) + 4 * card (unsent (snd (drain_ready uuid s))) \<le> 4 * card (unsent s)"
proof (induction uuid s rule: drain_ready.induct)
  case (1 uuid s)
  obtain fs s1 where r: "emit_ready_tools uuid s = (fs, s1)" by fastforce
  let ?is = "sort (map fst (rs_tools s))"
  have e: "emit_ready uuid ?is s = (fs, s1)" using r by (simp add: emit_ready_tools_def)
  show ?case
  proof (cases "fs = []")
    case True
    have "rs_done (snd (emit_ready uuid xs s)) = rs_done s \<and> slot_keys (snd (emit_ready uuid xs s)) = slot_keys s"
      if "fst (emit_ready uuid xs s) = []" for xs
      using that by (induction uuid xs s rule: emit_ready.induct) (auto simp: Let_def slot_keys_dom insert_absorb domI split: option.splits if_splits)
    then have "unsent s1 = unsent s" using e True by (metis fst_conv snd_conv unsent_def)
    then show ?thesis using True by (simp add: drain_ready.simps [of uuid s] r)
  next
    case False
    obtain i where i: "i \<in> unsent s" "rs_done s1 = i # rs_done s" "slot_keys s1 = slot_keys s"
      using emit_ready_progress [of uuid ?is s] e False by auto
    then have u: "unsent s1 = unsent s - {i}" by (auto simp: unsent_def)
    have "Suc (card (unsent s1)) = card (unsent s)" by (simp only: u card_Suc_Diff1 [OF finite_unsent i(1)])
    moreover have "length fs \<le> 4" using round_frames [of uuid ?is s] e by simp
    ultimately show ?thesis using 1 [OF r [symmetric] refl False] u False
      by (auto simp: drain_ready.simps [of uuid s] r split_beta Let_def)
  qed
qed
subsection \<open>Requests\<close>

text \<open>The calls and the tool results of chat messages, in order.\<close>

definition message_calls :: "pyval list \<Rightarrow> pyval list" where
  "message_calls ms = concat (map (\<lambda>m. list_of (dget (dict_of m) ''tool_calls'')) ms)"

definition message_results :: "pyval list \<Rightarrow> (pyval \<times> pyval) list" where
  "message_results ms = concat (map (\<lambda>m. let d = dict_of m in
     if dget d ''role'' = PStr ''tool'' \<and> dget d ''tool_call_id'' \<noteq> PNone then [(dget d ''tool_call_id'', dget d ''content'')] else []) ms)"

text \<open>The calls and the results of the input items.\<close>

definition item_calls :: "string \<Rightarrow> pyval \<Rightarrow> pyval list" where
  "item_calls fresh item =
     (case item of
        PDict d \<Rightarrow>
          (let typ = lower (str_of (dget d ''type'')); role = lower (str_of (dget d ''role''))
           in (if typ = ''function_call'' then [input_call fresh d]
               else if typ \<in> {''function_call_output'', ''tool_result''} then []
               else if role \<noteq> [] \<or> typ = ''message'' then list_of (dget d ''tool_calls'')
               else []))
      | _ \<Rightarrow> [])"

definition item_results :: "string \<Rightarrow> pyval \<Rightarrow> (pyval \<times> pyval) list" where
  "item_results fresh item =
     (case item of
        PDict d \<Rightarrow>
          (if lower (str_of (dget d ''type'')) \<in> {''function_call_output'', ''tool_result''}
           then let m = dict_of (tool_output_msg fresh d) in [(dget m ''tool_call_id'', dget m ''content'')] else [])
      | _ \<Rightarrow> [])"

lemma message_calls_simps [simp]: "message_calls [] = []" "message_calls (ms @ ns) = message_calls ms @ message_calls ns"
    "message_calls [PDict d] = list_of (dget d ''tool_calls'')"
  by (simp_all add: message_calls_def)

lemma message_results_simps [simp]: "message_results [] = []" "message_results (ms @ ns) = message_results ms @ message_results ns"
    "message_results [PDict d] = (if dget d ''role'' = PStr ''tool'' \<and> dget d ''tool_call_id'' \<noteq> PNone then [(dget d ''tool_call_id'', dget d ''content'')] else [])"
  by (simp_all add: message_results_def Let_def)

lemma split_last: "ms \<noteq> [] \<Longrightarrow> message_calls ms = message_calls (butlast ms) @ list_of (dget (dict_of (last ms)) ''tool_calls'')"
  by (cases ms rule: rev_cases) (simp_all add: message_calls_def)

lemma last_role: "ms \<noteq> [] \<Longrightarrow> dget (dict_of (last ms)) ''role'' = PStr ''assistant'' \<Longrightarrow> message_results (butlast ms) = message_results ms"
  by (cases ms rule: rev_cases) (simp_all add: message_results_def Let_def)

lemma add_call_keeps:
  assumes "add_call tc ms = Some ns"
  shows "message_calls ns = message_calls ms @ [tc] \<and> message_results ns = message_results ms"
proof -
  obtain takes where takes: "takes_calls ms = Some takes" using assms by (auto simp: add_call_def)
  show ?thesis
  proof (cases takes)
    case True
    then have "ms \<noteq> []" "dget (dict_of (last ms)) ''role'' = PStr ''assistant''"
      using takes by (auto simp: takes_calls_def Let_def split: if_splits)
    then show ?thesis using assms takes True split_last [of ms] last_role [of ms] by (auto simp: add_call_def Let_def)
  next
    case False
    then show ?thesis using assms takes by (auto simp: add_call_def)
  qed
qed

lemma input_message_keeps:
  "message_calls [input_message role d] = list_of (dget d ''tool_calls'')" "message_results [input_message role d] = []"
  by (simp_all add: input_message_def Let_def)

lemma result_message:
  "message_calls [tool_output_msg fresh d] = []"
  "message_results [tool_output_msg fresh d] =
     (let m = dict_of (tool_output_msg fresh d) in [(dget m ''tool_call_id'', dget m ''content'')])"
  by (simp_all add: tool_output_msg_def Let_def)

lemma text_item:
  assumes "(if a then x else if b then y else if c \<and> e then Some (if t then ms @ [m] else ms)
      else if c' \<and> e then Some (if t then ms @ [m'] else ms) else z) = Some ns"
    and "\<not> a" "\<not> b" "(c \<or> c') \<and> e"
  shows "ns = ms \<or> ns = ms @ [m] \<or> ns = ms @ [m']"
  using assms by (auto split: if_splits)

lemma input_item_keeps:
  assumes "input_item fresh x ms = Some ns"
  shows "message_calls ns = message_calls ms @ item_calls fresh x \<and> message_results ns = message_results ms @ item_results fresh x"
proof (cases x)
  case (PDict d)
  define ty ro where "ty = lower (str_of (dget d ''type''))" and "ro = lower (str_of (dget d ''role''))"
  note item_simps = PDict input_item_def item_calls_def item_results_def Let_def ty_def [symmetric] ro_def [symmetric]
  consider "ty \<in> {''function_call_output'', ''tool_result''}" | "ty = ''function_call''"
    | "ty \<in> {''input_text'', ''text'', ''output_text''}" "ro = []"
    | "\<not> ty \<in> {''function_call_output'', ''tool_result''}" "ty \<noteq> ''function_call''"
      "\<not> (ty \<in> {''input_text'', ''text'', ''output_text''} \<and> ro = [])" by satx
  then show ?thesis
  proof cases
    case 1
    then have "ty \<noteq> ''function_call''" by auto
    with 1 have "item_calls fresh x = []" "item_results fresh x = message_results [tool_output_msg fresh d]"
      by (simp_all only: PDict item_calls_def item_results_def Let_def ty_def [symmetric] pyval.case if_True if_False result_message)
    moreover from 1 have "input_item fresh x ms = Some (ms @ [tool_output_msg fresh d])"
      by (simp only: PDict input_item_def Let_def ty_def [symmetric] pyval.case if_True)
    ultimately show ?thesis using assms by (simp add: result_message)
  next
    case 2
    then show ?thesis using assms add_call_keeps by (simp add: item_simps)
  next
    case 3
    have t: "message_calls [chat_msg r (PStr c)] = []" "message_results [chat_msg r (PStr c)] = []" for r c
      by (simp_all add: chat_msg_def)
    from 3 have "ty \<notin> {''function_call_output'', ''tool_result''}" "ty \<noteq> ''function_call''" "ty \<noteq> ''message''" by auto
    then have "item_calls fresh x = []" "item_results fresh x = []"
      using 3(2) by (simp_all only: PDict item_calls_def item_results_def Let_def ty_def [symmetric] ro_def [symmetric] pyval.case if_False simp_thms)
    moreover have "ns = ms \<or> ns = ms @ [chat_msg ''user'' (PStr (str_of (dget d ''text'')))] \<or> ns = ms @ [chat_msg ''assistant'' (PStr (str_of (dget d ''text'')))]"
      using text_item [OF assms [unfolded PDict input_item_def Let_def ty_def [symmetric] ro_def [symmetric] pyval.case]] 3
        \<open>ty \<notin> _\<close> \<open>ty \<noteq> ''function_call''\<close> by blast
    ultimately show ?thesis by (auto simp: t)
  next
    case 4
    then show ?thesis using assms by (simp add: item_simps split: if_splits) (auto simp: input_message_keeps)
  qed
qed (use assms in \<open>auto simp: input_item_def item_calls_def item_results_def chat_msg_def split: if_splits\<close>)

definition items_calls :: "(string \<Rightarrow> int \<Rightarrow> string) \<Rightarrow> nat \<Rightarrow> pyval list \<Rightarrow> pyval list" where
  "items_calls uuid n xs = concat (map (\<lambda>(i, x). item_calls (uuid ''call'' (int i)) x) (enumerate n xs))"

definition items_results :: "(string \<Rightarrow> int \<Rightarrow> string) \<Rightarrow> nat \<Rightarrow> pyval list \<Rightarrow> (pyval \<times> pyval) list" where
  "items_results uuid n xs = concat (map (\<lambda>(i, x). item_results (uuid ''call'' (int i)) x) (enumerate n xs))"

lemma input_items_keep:
  "input_items uuid n xs ms = Some ns \<Longrightarrow>
     message_calls ns = message_calls ms @ items_calls uuid n xs \<and> message_results ns = message_results ms @ items_results uuid n xs"
proof (induction xs arbitrary: n ms)
  case (Cons x xs)
  then obtain m1 where m1: "input_item (uuid ''call'' (int n)) x ms = Some m1" "input_items uuid (Suc n) xs m1 = Some ns"
    by (auto simp: bind_eq_Some_conv)
  from input_item_keeps [OF m1(1)] Cons.IH [OF m1(2)] show ?case by (simp add: items_calls_def items_results_def)
qed (simp add: items_calls_def items_results_def)

text \<open>
  C24: a Responses conversation becomes a chat in which no call and no tool result is lost, doubled or moved: the calls
  of the messages, those of consecutive items gathered in one message, are the calls of the items in order, and the
  tool messages carry the outputs of the items under their call ids in order.
\<close>

theorem response_input_kept:
  assumes "convert_responses_input_to_messages uuid (PList items) instructions = Some ms"
  shows "message_calls ms = items_calls uuid 0 items \<and> message_results ms = items_results uuid 0 items"
proof -
  define start where "start = (if strip instructions \<noteq> [] then [chat_msg ''system'' (PStr (strip instructions))] else [])"
  have "input_items uuid 0 items start = Some ms" using assms by (simp add: convert_responses_input_to_messages_def Let_def start_def)
  then show ?thesis using input_items_keep [of uuid 0 items start ms] by (simp add: start_def chat_msg_def split: if_splits)
qed

theorem response_input_kept_witness:
  "message_results [PDict [(''role'', PStr ''assistant''), (''content'', PNone), (''tool_calls'', PList [input_call ''call'' [(''type'', PStr ''function_call''), (''call_id'', PStr ''c''), (''name'', PStr ''Read'')]])],
      PDict [(''role'', PStr ''tool''), (''tool_call_id'', PStr ''c''), (''content'', PStr ''ok'')]] =
    items_results example_uuid 0 [PDict [(''type'', PStr ''function_call''), (''call_id'', PStr ''c''), (''name'', PStr ''Read'')],
      PDict [(''type'', PStr ''function_call_output''), (''call_id'', PStr ''c''), (''output'', PStr ''ok'')]]"
proof -
  have "convert_responses_input_to_messages example_uuid (PList [PDict [(''type'', PStr ''function_call''), (''call_id'', PStr ''c''), (''name'', PStr ''Read'')],
      PDict [(''type'', PStr ''function_call_output''), (''call_id'', PStr ''c''), (''output'', PStr ''ok'')]]) [] =
    Some [PDict [(''role'', PStr ''assistant''), (''content'', PNone), (''tool_calls'', PList [input_call ''call'' [(''type'', PStr ''function_call''), (''call_id'', PStr ''c''), (''name'', PStr ''Read'')]])],
      PDict [(''role'', PStr ''tool''), (''tool_call_id'', PStr ''c''), (''content'', PStr ''ok'')]]"
    by code_simp
  from response_input_kept [OF this] show ?thesis by simp
qed

subsection \<open>Replayed answers\<close>

lemma pieces_whole: "concat (pieces_of n s) = s"
  by (induction n s rule: pieces_of.induct) simp_all

text \<open>The envelope, a message and a call of a replayed answer, run from a state with no item open.\<close>

definition numbered :: "nat \<Rightarrow> resp_event list \<Rightarrow> resp_frame list" where
  "numbered n es = map (\<lambda>(m, e). Frame m e) (enumerate n es)"

lemma numbered_simps [simp]: "numbered n [] = []" "numbered n (e # es) = Frame n e # numbered (Suc n) es"
    "numbered n (es @ fs) = numbered n es @ numbered (n + length es) fs"
  by (simp_all add: numbered_def enumerate_append_eq)

lemma deltas_run:
  "resp_run (R_Live n k [(oi, Msg_Part mid t)] ds) (numbered n (map (Text_Delta oi mid) ps)) =
     Some (R_Live (n + length ps) k [(oi, Msg_Part mid (t @ concat ps))] ds)"
  by (induction ps arbitrary: n t) simp_all

lemma message_run:
  "resp_run (R_Live n 0 [] ds) (numbered n (message_events mid chunk text)) =
     Some (R_Live (n + length (message_events mid chunk text)) 1 [] (ds @ [Item_Message mid text]))"
  by (simp add: message_events_def deltas_run pieces_whole)

definition parts_events :: "nat \<Rightarrow> (nat \<Rightarrow> string) \<Rightarrow> nat \<Rightarrow> (string \<times> string \<times> string) list \<Rightarrow> resp_event list" where
  "parts_events first f m parts = concat (map (\<lambda>(j, p). call_events (first + j) (f j) p) (enumerate m parts))"

lemma calls_run:
  "\<exists>ds'. resp_run (R_Live n (first + m) [] ds) (numbered n (parts_events first f m parts)) =
     Some (R_Live (n + length (parts_events first f m parts)) (first + m + length parts) [] (ds @ ds')) \<and> length ds' = length parts"
proof (induction parts arbitrary: n m ds)
  case (Cons p parts)
  obtain c nm a where p: "p = (c, nm, a)" by (cases p)
  from Cons.IH [of "n + 4" "Suc m" "ds @ [Item_Call (f m) c nm a]"]
  show ?case by (auto simp: parts_events_def p call_events_def eval_nat_numeral)
qed (simp add: parts_events_def)

lemma numbered_silent: "list_all (\<lambda>e. case e of Text_Delta _ _ _ \<Rightarrow> False | _ \<Rightarrow> True) es \<Longrightarrow> live_text (numbered n es) = []"
  by (induction es arbitrary: n) (auto split: resp_event.splits)

lemma message_reads:
  "live_text (numbered n (message_events mid chunk text)) = text" "calls_done (numbered n (message_events mid chunk text)) = []"
  "completions (numbered n (message_events mid chunk text)) = []"
proof -
  have t: "live_text (numbered n (map (Text_Delta oi mid) ps)) = concat ps" for n oi ps by (induction ps arbitrary: n) simp_all
  have c: "calls_done (numbered n (map (Text_Delta oi mid) ps)) = []" for n oi ps by (induction ps arbitrary: n) simp_all
  have r: "completions (numbered n (map (Text_Delta oi mid) ps)) = []" for n oi ps by (induction ps arbitrary: n) simp_all
  show "live_text (numbered n (message_events mid chunk text)) = text" "calls_done (numbered n (message_events mid chunk text)) = []"
    "completions (numbered n (message_events mid chunk text)) = []"
    by (simp_all add: message_events_def t c r pieces_whole)
qed

lemma parts_reads:
  "live_text (numbered n (parts_events first f m parts)) = []" "calls_done (numbered n (parts_events first f m parts)) = map snd parts"
  "completions (numbered n (parts_events first f m parts)) = []"
  by (induction parts arbitrary: n m) (auto simp: parts_events_def call_events_def)

text \<open>
  An answer that was collected first is replayed as one response: its frames are numbered from 0, every item is
  added at the next index and done, the text is the answer's text in whole pieces, the calls are the answer's named
  calls, and one completed response and the terminal mark end it.
\<close>

lemma replay_well_formed:
  assumes "iter_responses_sse_from_completion uuid rid model content reasoning calls usage created previous metadata chunk allowed = Some fs"
  shows "\<exists>parts body ds r. all_call_parts allowed (\<lambda>i. uuid ''call'' (int i)) calls = Some parts \<and>
    fs = body @ [Frame (length body) (Completed r), Done_Mark] \<and>
    resp_run R_Fresh body = Some (R_Live (length body) (length ds) [] ds) \<and>
    live_text fs = content \<and> calls_done fs = map snd parts"
proof -
  let ?msg = "if content \<noteq> [] then message_events (''msg_'' @ uuid ''msg'' 0) chunk content else []"
  let ?first = "if content \<noteq> [] then 1 else 0 :: nat"
  let ?initial = "response_head rid created ''in_progress'' model [] PNone @ response_extras previous metadata"
  let ?f = "\<lambda>i. ''fc_'' @ uuid ''fc'' (int i)"
  from assms obtain parts r where parts: "all_call_parts allowed (\<lambda>i. uuid ''call'' (int i)) calls = Some parts"
    and fs: "fs = numbered 0 ([Created ?initial, In_Progress ?initial] @ ?msg @ parts_events ?first ?f 0 parts @ [Completed r]) @ [Done_Mark]"
    unfolding iter_responses_sse_from_completion_def Let_def bind_eq_Some_conv map_option_eq_Some numbered_def parts_events_def by blast
  let ?es = "[Created ?initial, In_Progress ?initial] @ ?msg @ parts_events ?first ?f 0 parts"
  let ?body = "numbered 0 ?es"
  have len: "length (numbered n es) = length es" for n es by (simp add: numbered_def)
  have msg: "\<exists>ds. resp_run (R_Live 2 0 [] []) (numbered 2 ?msg) = Some (R_Live (2 + length ?msg) ?first [] ds) \<and> length ds = ?first"
    using message_run [of 2 "[]"] by auto
  then obtain ds where ds: "resp_run (R_Live 2 0 [] []) (numbered 2 ?msg) = Some (R_Live (2 + length ?msg) ?first [] ds)" "length ds = ?first" by blast
  from calls_run [of "2 + length ?msg" ?first 0 ds ?f parts] obtain ds' where
    ds': "resp_run (R_Live (2 + length ?msg) ?first [] ds) (numbered (2 + length ?msg) (parts_events ?first ?f 0 parts)) =
      Some (R_Live (2 + length ?msg + length (parts_events ?first ?f 0 parts)) (?first + length parts) [] (ds @ ds'))" "length ds' = length parts"
    by (auto simp del: One_nat_def)
  have "resp_run R_Fresh ?body = resp_run (R_Live 2 0 [] []) (numbered 2 (?msg @ parts_events ?first ?f 0 parts))"
    by (simp add: eval_nat_numeral)
  also have "\<dots> = Some (R_Live (length ?body) (length (ds @ ds')) [] (ds @ ds'))"
    unfolding numbered_simps(3) resp_run_append ds(1) option.case ds'(1) by (simp add: len ds(2) ds'(2))
  finally have run: "resp_run R_Fresh ?body = Some (R_Live (length ?body) (length (ds @ ds')) [] (ds @ ds'))" .
  have split: "fs = ?body @ [Frame (length ?body) (Completed r), Done_Mark]" using fs by (simp add: len)
  have "live_text fs = content" "calls_done fs = map snd parts"
    unfolding fs by (simp_all add: message_reads parts_reads)
  with parts run split show ?thesis by blast
qed

lemma replay_well_formed_witness:
  "\<exists>parts body ds r. all_call_parts [] (\<lambda>i. example_uuid ''call'' (int i)) [] = Some parts \<and>
    the (iter_responses_sse_from_completion example_uuid ''r'' ''m'' ''hi'' [] [] PNone 0 [] [] 48 []) = body @ [Frame (length body) (Completed r), Done_Mark] \<and>
    resp_run R_Fresh body = Some (R_Live (length body) (length ds) [] ds) \<and>
    live_text (the (iter_responses_sse_from_completion example_uuid ''r'' ''m'' ''hi'' [] [] PNone 0 [] [] 48 [])) = ''hi'' \<and>
    calls_done (the (iter_responses_sse_from_completion example_uuid ''r'' ''m'' ''hi'' [] [] PNone 0 [] [] 48 [])) = map snd parts"
proof (rule replay_well_formed)
  show "iter_responses_sse_from_completion example_uuid ''r'' ''m'' ''hi'' [] [] PNone 0 [] [] 48 [] =
    Some (the (iter_responses_sse_from_completion example_uuid ''r'' ''m'' ''hi'' [] [] PNone 0 [] [] 48 []))"
    by code_simp
qed

text \<open>
  The completed response of a replayed answer is built with ids drawn anew, so that it lists none of the items
  the stream told: the protocol the live streamer keeps does not hold of it.
\<close>

lemma replay_fresh_ids:
  "map_option (\<lambda>fs. (added_ids fs, map output_ids (completions fs), resp_run R_Fresh fs))
     (iter_responses_sse_from_completion example_uuid ''r'' ''m'' ''hi'' [] [] PNone 0 [] [] 48 []) =
   Some ([PStr ''msg_msg''], [[PStr ''msg_final msg'']], None)"
  by code_simp
end
