(* ===== verification/Api_Keys.thy ===== *)
theory Api_Keys
  imports Py_Values
begin

text \<open>
  The API keys handed to clients: \<open>grok2api/admin/apikeys.py\<close> over its two stores, \<open>keys.json\<close> and the PostgreSQL
  table of \<open>grok2api/store/keys_pg.py\<close>, with the verification cache of the process, the usage counters in Redis, the
  encryption of secrets at rest (\<open>grok2api/store/crypto.py\<close>) and the gate in front of \<open>/v1\<close> (\<open>require_api_key\<close>
  in \<open>app.py\<close>).

  A PostgreSQL transaction either happens or raises; \<open>kw_faults\<close> says which of those to come raise, and when it is
  used up the rest succeed. \<open>keys.json\<close> holds a list of objects under \<open>keys\<close>, or is missing or unreadable. SHA-256,
  Fernet and ISO dates are parameters. A result \<open>None\<close> of a function means that it raises.
\<close>

subsection \<open>Stores\<close>

record key_row =
  kr_id :: string
  kr_name :: string
  kr_prefix :: string
  kr_hash :: string
  kr_secret :: "string option"
  kr_enabled :: bool
  kr_note :: string
  kr_created :: rat
  kr_last :: "rat option"
  kr_count :: int

record key_env =
  ke_api_key :: string
  ke_require :: string
  ke_ttl :: rat
  ke_sha :: "string \<Rightarrow> string"
  ke_passphrase :: string
  ke_enc :: "string \<Rightarrow> string"
  ke_dec :: "string \<Rightarrow> string option"
  ke_iso :: "string \<Rightarrow> rat option"

record key_world =
  kw_pg :: bool
  kw_redis :: bool
  kw_faults :: "bool list"
  kw_table :: "key_row list"
  kw_file :: "pydict list option"
  kw_cache :: "(string \<times> pydict \<times> rat) list"
  kw_stats :: "(pyval \<times> int \<times> rat) list"

definition encrypt_secret :: "key_env \<Rightarrow> string \<Rightarrow> string" where
  "encrypt_secret env plain = (if plain = [] \<or> strip (ke_passphrase env) = [] then plain else ''enc:v1:'' @ ke_enc env plain)"

definition decrypt_secret :: "key_env \<Rightarrow> string \<Rightarrow> string option" where
  "decrypt_secret env v =
     (if \<not> starts_with v ''enc:v1:'' then Some v
      else if strip (ke_passphrase env) = [] then None
      else ke_dec env (drop 7 v))"

definition secret_text :: "pyval \<Rightarrow> string" where
  "secret_text v = (case v of PStr s \<Rightarrow> s | w \<Rightarrow> str_or_empty w)"

definition maybe_encrypt_key_record :: "key_env \<Rightarrow> pydict \<Rightarrow> pydict" where
  "maybe_encrypt_key_record env d =
     (if truthy (dget d ''secret'') then dset d ''secret'' (PStr (encrypt_secret env (secret_text (dget d ''secret'')))) else d)"

definition maybe_decrypt_key_record :: "key_env \<Rightarrow> pydict \<Rightarrow> pydict" where
  "maybe_decrypt_key_record env d =
     (if truthy (dget d ''secret'')
      then (case decrypt_secret env (secret_text (dget d ''secret'')) of Some s \<Rightarrow> dset d ''secret'' (PStr s) | None \<Rightarrow> d) else d)"

subsubsection \<open>PostgreSQL\<close>

text \<open>A transaction on the table: a failing connection, or an error that rolls it back, leaves the table as it was.\<close>

definition pg_call :: "(key_row list \<Rightarrow> ('a \<times> key_row list) option) \<Rightarrow> key_world \<Rightarrow> 'a option \<times> key_world" where
  "pg_call f w =
     (let w1 = w\<lparr>kw_faults := tl (kw_faults w)\<rparr>
      in (if kw_faults w \<noteq> [] \<and> hd (kw_faults w) then (None, w1)
          else case f (kw_table w) of None \<Rightarrow> (None, w1) | Some (a, t) \<Rightarrow> (Some a, w1\<lparr>kw_table := t\<rparr>)))"

definition key_dict :: "key_row \<Rightarrow> pydict" where
  "key_dict r =
     [(''id'', PStr (kr_id r)), (''name'', PStr (kr_name r)), (''prefix'', PStr (kr_prefix r)), (''key_hash'', PStr (kr_hash r)),
      (''secret'', of_opt PStr (kr_secret r)), (''enabled'', PBool (kr_enabled r)), (''note'', PStr (kr_note r)),
      (''created_at'', PFloat (kr_created r)), (''last_used_at'', of_opt PFloat (kr_last r)), (''request_count'', PInt (kr_count r))]"

definition list_raw :: "key_env \<Rightarrow> key_row list \<Rightarrow> pydict list" where
  "list_raw env table = map (\<lambda>r. maybe_decrypt_key_record env (key_dict r)) (sort_key kr_created table)"

text \<open>A timestamp column; \<open>None\<close> is NULL.\<close>

definition key_ts :: "key_env \<Rightarrow> pyval \<Rightarrow> rat option" where
  "key_ts env v = (case v of PStr s \<Rightarrow> (if strip s = [] then None else ke_iso env (strip s)) | w \<Rightarrow> py_float w)"

definition text_col :: "pyval \<Rightarrow> string \<Rightarrow> string option" where
  "text_col v dflt = (case py_or v (PStr dflt) of PStr s \<Rightarrow> Some s | _ \<Rightarrow> None)"

definition opt_text_col :: "pyval \<Rightarrow> string option option" where
  "opt_text_col v = (case v of PNone \<Rightarrow> Some None | PStr s \<Rightarrow> Some (Some s) | _ \<Rightarrow> None)"

definition strict_text_col :: "pyval \<Rightarrow> string option" where
  "strict_text_col v = (case v of PStr s \<Rightarrow> Some s | _ \<Rightarrow> None)"

definition row_of_key :: "key_env \<Rightarrow> rat \<Rightarrow> pydict \<Rightarrow> key_row option" where
  "row_of_key env now d =
     do {
       i \<leftarrow> strict_text_col (dget d ''id'');
       n \<leftarrow> text_col (dget d ''name'') ''unnamed'';
       p \<leftarrow> text_col (dget d ''prefix'') [];
       h \<leftarrow> strict_text_col (dget d ''key_hash'');
       s \<leftarrow> opt_text_col (dget d ''secret'');
       t \<leftarrow> text_col (dget d ''note'') [];
       c \<leftarrow> key_ts env (py_or (dget d ''created_at'') (PFloat now));
       m \<leftarrow> int_or0 (dget d ''request_count'');
       Some \<lparr>kr_id = i, kr_name = n, kr_prefix = p, kr_hash = h, kr_secret = s, kr_enabled = truthy (dget_or d ''enabled'' (PBool True)),
             kr_note = t, kr_created = c, kr_last = key_ts env (dget d ''last_used_at''), kr_count = m\<rparr>
     }"

text \<open>\<open>_upsert\<close>: another row with the hash violates its constraint; a known id keeps its creation time.\<close>

definition upsert_key :: "key_env \<Rightarrow> rat \<Rightarrow> pydict \<Rightarrow> key_row list \<Rightarrow> key_row list option" where
  "upsert_key env now d table =
     Option.bind (row_of_key env now (maybe_encrypt_key_record env d)) (\<lambda>r.
       if list_ex (\<lambda>q. kr_id q \<noteq> kr_id r \<and> kr_hash q = kr_hash r) table then None
       else if list_ex (\<lambda>q. kr_id q = kr_id r) table
       then Some (map (\<lambda>q. if kr_id q = kr_id r then r\<lparr>kr_created := kr_created q\<rparr> else q) table)
       else Some (table @ [r]))"

fun upsert_keys :: "key_env \<Rightarrow> rat \<Rightarrow> pydict list \<Rightarrow> key_row list \<Rightarrow> key_row list option" where
  "upsert_keys env now [] table = Some table"
| "upsert_keys env now (d # ds) table = Option.bind (upsert_key env now d table) (upsert_keys env now ds)"

definition replace_keys :: "key_env \<Rightarrow> rat \<Rightarrow> pydict list \<Rightarrow> key_world \<Rightarrow> unit option \<times> key_world" where
  "replace_keys env now ds = pg_call (\<lambda>_. map_option (\<lambda>t. ((), t)) (upsert_keys env now ds []))"

definition delete_row :: "string \<Rightarrow> key_world \<Rightarrow> bool option \<times> key_world" where
  "delete_row key_id w =
     (if key_id = [] then (Some False, w)
      else pg_call (\<lambda>t. Some (list_ex (\<lambda>r. kr_id r = key_id) t, filter (\<lambda>r. kr_id r \<noteq> key_id) t)) w)"

definition touch_usage :: "rat \<Rightarrow> string \<Rightarrow> key_world \<Rightarrow> unit option \<times> key_world" where
  "touch_usage now key_id =
     pg_call (\<lambda>t. Some ((), map (\<lambda>r. if kr_id r = key_id then r\<lparr>kr_count := kr_count r + 1, kr_last := Some now\<rparr> else r) t))"

definition find_by_hash :: "string \<Rightarrow> key_world \<Rightarrow> pydict option option \<times> key_world" where
  "find_by_hash h w =
     (if h = [] then (Some None, w) else pg_call (\<lambda>t. Some (map_option key_dict (find (\<lambda>r. kr_hash r = h) t), t)) w)"

subsubsection \<open>Either store\<close>

definition file_keys :: "key_world \<Rightarrow> pydict list" where
  "file_keys w = (case kw_file w of Some ks \<Rightarrow> ks | None \<Rightarrow> [])"

definition load_keys :: "key_env \<Rightarrow> key_world \<Rightarrow> pydict list \<times> key_world" where
  "load_keys env w =
     (if kw_pg w
      then (case pg_call (\<lambda>t. Some (list_raw env t, t)) w of (Some ks, w1) \<Rightarrow> (ks, w1) | (None, w1) \<Rightarrow> (file_keys w1, w1))
      else (file_keys w, w))"

definition save_keys :: "key_env \<Rightarrow> rat \<Rightarrow> pydict list \<Rightarrow> key_world \<Rightarrow> key_world" where
  "save_keys env now ks w =
     (if kw_pg w
      then (case replace_keys env now ks w of (Some u, w1) \<Rightarrow> w1 | (None, w1) \<Rightarrow> w1\<lparr>kw_file := Some ks\<rparr>)
      else w\<lparr>kw_file := Some ks\<rparr>)"

subsection \<open>Records and the cache\<close>

record api_key =
  ak_id :: pyval
  ak_name :: pyval
  ak_prefix :: pyval
  ak_hash :: pyval
  ak_created :: rat
  ak_enabled :: bool
  ak_note :: pyval
  ak_last :: pyval
  ak_count :: int
  ak_secret :: "string option"

definition key_secret :: "pydict \<Rightarrow> string option" where
  "key_secret d = (case py_or (dget d ''secret'') (dget d ''key'') of PStr s \<Rightarrow> (if strip s = [] then None else Some (strip s)) | _ \<Rightarrow> None)"

definition key_of_dict :: "rat \<Rightarrow> pydict \<Rightarrow> api_key option" where
  "key_of_dict now d =
     (if \<not> dhas d ''id'' \<or> \<not> dhas d ''key_hash'' then None
      else
        do {
          c \<leftarrow> py_float (py_or (dget d ''created_at'') (PFloat now));
          n \<leftarrow> int_or0 (dget d ''request_count'');
          Some \<lparr>ak_id = dget d ''id'', ak_name = py_or (dget d ''name'') (PStr ''unnamed''), ak_prefix = py_or (dget d ''prefix'') (PStr []),
                ak_hash = dget d ''key_hash'', ak_created = c, ak_enabled = truthy (dget_or d ''enabled'' (PBool True)),
                ak_note = py_or (dget d ''note'') (PStr []), ak_last = dget d ''last_used_at'', ak_count = n, ak_secret = key_secret d\<rparr>
        })"

definition public_dict :: "api_key \<Rightarrow> pydict" where
  "public_dict r =
     [(''id'', ak_id r), (''name'', ak_name r), (''prefix'', ak_prefix r), (''created_at'', PFloat (ak_created r)), (''enabled'', PBool (ak_enabled r)),
      (''note'', ak_note r), (''last_used_at'', ak_last r), (''request_count'', PInt (ak_count r)),
      (''key_hint'', PStr (secret_text (ak_prefix r) @ ''...****'')), (''has_secret'', PBool (ak_secret r \<noteq> None))] @
     (case ak_secret r of Some s \<Rightarrow> [(''secret'', PStr s)] | None \<Rightarrow> [])"

definition cache_get :: "rat \<Rightarrow> string \<Rightarrow> key_world \<Rightarrow> pydict option \<times> key_world" where
  "cache_get now h w =
     (case map_of (kw_cache w) h of
        None \<Rightarrow> (None, w)
      | Some (d, expiry) \<Rightarrow> (if expiry < now then (None, w\<lparr>kw_cache := AList.delete h (kw_cache w)\<rparr>) else (Some d, w)))"

definition cache_put :: "key_env \<Rightarrow> rat \<Rightarrow> string \<Rightarrow> pydict \<Rightarrow> key_world \<Rightarrow> key_world" where
  "cache_put env now h d w =
     (let c = (if 2048 \<le> length (kw_cache w) then drop 64 (kw_cache w) else kw_cache w)
      in w\<lparr>kw_cache := AList.update h (d, now + max (1/2) (ke_ttl env)) c\<rparr>)"

definition cache_invalidate :: "key_world \<Rightarrow> key_world" where
  "cache_invalidate w = w\<lparr>kw_cache := []\<rparr>"

subsection \<open>Administration\<close>

definition list_keys :: "key_env \<Rightarrow> rat \<Rightarrow> key_world \<Rightarrow> pydict list option \<times> key_world" where
  "list_keys env now w = (let (ks, w1) = load_keys env w in (those (map (\<lambda>d. map_option public_dict (key_of_dict now d)) ks), w1))"

text \<open>The object of a new key: \<open>raw\<close> is the drawn key, \<open>uid\<close> its drawn id.\<close>

definition new_key :: "key_env \<Rightarrow> rat \<Rightarrow> string \<Rightarrow> string \<Rightarrow> string \<Rightarrow> string \<Rightarrow> pydict" where
  "new_key env now uid raw name note =
     [(''id'', PStr uid), (''name'', PStr (let n = strip (if name \<noteq> [] then name else ''default'') in if n \<noteq> [] then n else ''default'')),
      (''prefix'', PStr (take 12 raw)), (''key_hash'', PStr (ke_sha env raw)), (''created_at'', PFloat now), (''enabled'', PBool True),
      (''note'', PStr (strip note)), (''last_used_at'', PNone), (''request_count'', PInt 0), (''secret'', PStr raw)]"

definition create_key :: "key_env \<Rightarrow> rat \<Rightarrow> string \<Rightarrow> string \<Rightarrow> string \<Rightarrow> string \<Rightarrow> key_world \<Rightarrow> pydict option \<times> key_world" where
  "create_key env now uid raw name note w =
     (let d = new_key env now uid raw name note;
          (ks, w1) = load_keys env w;
          w2 = cache_invalidate (save_keys env now (ks @ [d]) w1)
      in (map_option (\<lambda>r. public_dict r @ [(''key'', PStr raw)]) (key_of_dict now d), w2))"

text \<open>
  The shape of \<open>regenerate_key\<close>, \<open>set_enabled\<close> and \<open>update_key\<close>: the first key of the id is changed in place, sent to
  the table, and all keys are saved.
\<close>

definition first_index :: "('a \<Rightarrow> bool) \<Rightarrow> 'a list \<Rightarrow> nat option" where
  "first_index P xs = (let n = length (takeWhile (\<lambda>x. \<not> P x) xs) in if n < length xs then Some n else None)"

definition edit_key ::
  "key_env \<Rightarrow> rat \<Rightarrow> string \<Rightarrow> (pydict \<Rightarrow> pydict option) \<Rightarrow> (pydict \<Rightarrow> pydict) \<Rightarrow> key_world \<Rightarrow> pydict option option \<times> key_world" where
  "edit_key env now key_id change finish w =
     (let (ks, w1) = load_keys env w
      in (case first_index (\<lambda>d. dget d ''id'' = PStr key_id) ks of
            None \<Rightarrow> (Some None, w1)
          | Some i \<Rightarrow>
              (case change (ks ! i) of None \<Rightarrow> (None, w1) | Some d \<Rightarrow>
               let w2 = (if kw_pg w1 then snd (pg_call (\<lambda>t. map_option (\<lambda>t'. ((), t')) (upsert_key env now d t)) w1) else w1);
                   w3 = cache_invalidate (save_keys env now (ks[i := d]) w2)
               in (map_option (\<lambda>r. Some (finish (public_dict r))) (key_of_dict now d), w3))))"

definition regenerate_key :: "key_env \<Rightarrow> rat \<Rightarrow> string \<Rightarrow> string \<Rightarrow> key_world \<Rightarrow> pydict option option \<times> key_world" where
  "regenerate_key env now raw key_id =
     edit_key env now key_id
       (\<lambda>d. Some (dset (dset (dset d ''prefix'' (PStr (take 12 raw))) ''key_hash'' (PStr (ke_sha env raw))) ''secret'' (PStr raw)))
       (\<lambda>out. out @ [(''key'', PStr raw)])"

definition set_enabled :: "key_env \<Rightarrow> rat \<Rightarrow> string \<Rightarrow> bool \<Rightarrow> key_world \<Rightarrow> pydict option option \<times> key_world" where
  "set_enabled env now key_id enabled = edit_key env now key_id (\<lambda>d. Some (dset d ''enabled'' (PBool enabled))) (\<lambda>out. out)"

definition update_key ::
  "key_env \<Rightarrow> rat \<Rightarrow> string \<Rightarrow> string option \<Rightarrow> string option \<Rightarrow> key_world \<Rightarrow> pydict option option \<times> key_world" where
  "update_key env now key_id name note =
     edit_key env now key_id
       (\<lambda>d. map_option (\<lambda>d1. case note of Some n \<Rightarrow> dset d1 ''note'' (PStr n) | None \<Rightarrow> d1)
          (case name of
             Some n \<Rightarrow> (if strip n \<noteq> [] then Some (dset d ''name'' (PStr (strip n))) else if dhas d ''name'' then Some d else None)
           | None \<Rightarrow> Some d)) (\<lambda>out. out)"

definition delete_key :: "key_env \<Rightarrow> rat \<Rightarrow> string \<Rightarrow> key_world \<Rightarrow> bool \<times> key_world" where
  "delete_key env now key_id w =
     (let by_list = (\<lambda>w.
            let (ks, w1) = load_keys env w; rest = filter (\<lambda>d. dget d ''id'' \<noteq> PStr key_id) ks
            in (if length rest = length ks then (False, w1) else (True, cache_invalidate (save_keys env now rest w1))))
      in (if kw_pg w
          then (case delete_row key_id w of
                  (Some ok, w1) \<Rightarrow> (ok, if ok then cache_invalidate w1 else w1)
                | (None, w1) \<Rightarrow> by_list w1)
          else by_list w))"

subsection \<open>Verification\<close>

text \<open>\<open>secrets.compare_digest\<close> raises on text outside ASCII and on what is no text.\<close>

definition is_ascii :: "string \<Rightarrow> bool" where
  "is_ascii s \<longleftrightarrow> list_all (\<lambda>c. (of_char c :: nat) < 128) s"

definition compare_digest :: "pyval \<Rightarrow> string \<Rightarrow> bool option" where
  "compare_digest a b = (case a of PStr s \<Rightarrow> (if is_ascii s \<and> is_ascii b then Some (s = b) else None) | _ \<Rightarrow> None)"

definition count_use :: "rat \<Rightarrow> pyval \<Rightarrow> key_world \<Rightarrow> key_world" where
  "count_use now i w =
     w\<lparr>kw_stats := AList.update i ((case map_of (kw_stats w) i of Some (n, t) \<Rightarrow> n + 1 | None \<Rightarrow> 1), now) (kw_stats w)\<rparr>"

definition bump_key_usage :: "rat \<Rightarrow> api_key \<Rightarrow> key_world \<Rightarrow> api_key \<times> key_world" where
  "bump_key_usage now r w =
     (if kw_redis w \<and> truthy (ak_id r)
      then (r\<lparr>ak_last := PFloat now, ak_count := ak_count r + 1\<rparr>, count_use now (ak_id r) w)
      else if kw_pg w \<and> truthy (ak_id r)
      then (r, (case ak_id r of PStr i \<Rightarrow> snd (touch_usage now i w) | _ \<Rightarrow> w))
      else (r, w))"

text \<open>The scan of the keys: \<open>Some None\<close> when none matches.\<close>

fun scan_keys :: "string \<Rightarrow> nat \<Rightarrow> pydict list \<Rightarrow> (nat \<times> pydict) option option" where
  "scan_keys h i [] = Some None"
| "scan_keys h i (d # ds) =
     (if \<not> truthy (dget_or d ''enabled'' (PBool True)) then scan_keys h (Suc i) ds
      else case compare_digest (dget_or d ''key_hash'' (PStr [])) h of
        None \<Rightarrow> None
      | Some True \<Rightarrow> Some (Some (i, d))
      | Some False \<Rightarrow> scan_keys h (Suc i) ds)"

definition accept_scanned :: "key_env \<Rightarrow> rat \<Rightarrow> string \<Rightarrow> pydict list \<Rightarrow> nat \<Rightarrow> pydict \<Rightarrow> key_world \<Rightarrow> api_key option option \<times> key_world" where
  "accept_scanned env now h ks i d w =
     (case key_of_dict now d of
        None \<Rightarrow> (None, w)
      | Some r \<Rightarrow>
          (let w1 = cache_put env now h d w
           in (if kw_redis w1 then (Some (Some (r\<lparr>ak_last := PFloat now, ak_count := ak_count r + 1\<rparr>)), count_use now (ak_id r) w1)
               else (Some (Some r), save_keys env now
                 (ks[i := dset (dset d ''last_used_at'' (PFloat now)) ''request_count'' (PInt (ak_count r + 1))]) w1))))"

definition verify_stored :: "key_env \<Rightarrow> rat \<Rightarrow> string \<Rightarrow> key_world \<Rightarrow> api_key option option \<times> key_world" where
  "verify_stored env now h w =
     (let (ks, w1) = load_keys env w
      in (case scan_keys h 0 ks of
            None \<Rightarrow> (None, w1)
          | Some None \<Rightarrow> (Some None, w1)
          | Some (Some (i, d)) \<Rightarrow> accept_scanned env now h ks i d w1))"

definition verify_key :: "key_env \<Rightarrow> rat \<Rightarrow> string option \<Rightarrow> key_world \<Rightarrow> api_key option option \<times> key_world" where
  "verify_key env now token w =
     (let raw = (case token of Some t \<Rightarrow> strip t | None \<Rightarrow> []); h = ke_sha env raw
      in (if raw = [] then (Some None, w)
          else case (if ke_api_key env = [] then Some False else compare_digest (PStr raw) (ke_api_key env)) of
            None \<Rightarrow> (None, w)
          | Some True \<Rightarrow>
              (Some (Some \<lparr>ak_id = PStr ''env'', ak_name = PStr ''env:GROK2API_API_KEY'', ak_prefix = PStr (take 12 raw), ak_hash = PStr h,
                 ak_created = 0, ak_enabled = True, ak_note = PStr ''from environment'', ak_last = PNone, ak_count = 0, ak_secret = None\<rparr>), w)
          | Some False \<Rightarrow>
              (case cache_get now h w of
                 (Some d, w1) \<Rightarrow>
                   (if \<not> truthy (dget_or d ''enabled'' (PBool True)) then (Some None, w1)
                    else case key_of_dict now d of
                      None \<Rightarrow> (None, w1)
                    | Some r \<Rightarrow> (let (r1, w2) = bump_key_usage now r w1 in (Some (Some r1), w2)))
               | (None, w1) \<Rightarrow>
                   (if kw_pg w1
                    then (case find_by_hash h w1 of
                            (Some (Some d), w2) \<Rightarrow>
                              (if truthy (dget_or d ''enabled'' (PBool True))
                               then (case key_of_dict now d of
                                       None \<Rightarrow> verify_stored env now h (cache_put env now h d w2)
                                     | Some r \<Rightarrow> (let (r1, w3) = bump_key_usage now r (cache_put env now h d w2) in (Some (Some r1), w3)))
                               else (Some None, w2))
                          | (_, w2) \<Rightarrow> verify_stored env now h w2)
                    else verify_stored env now h w1))))"

definition has_any_keys :: "key_env \<Rightarrow> key_world \<Rightarrow> bool \<times> key_world" where
  "has_any_keys env w =
     (let (ks, w1) = load_keys env w
      in (ke_api_key env \<noteq> [] \<or> list_ex (\<lambda>d. truthy (dget_or d ''enabled'' (PBool True))) ks, w1))"

definition auth_required :: "key_env \<Rightarrow> key_world \<Rightarrow> bool \<times> key_world" where
  "auth_required env w =
     (let mode = lower (if ke_require env \<noteq> [] then ke_require env else ''auto'')
      in (if mode \<in> {''1'', ''true'', ''yes'', ''on''} then (True, w)
          else if mode \<in> {''0'', ''false'', ''no'', ''off''} then (False, w)
          else has_any_keys env w))"

definition key_stats :: "key_env \<Rightarrow> rat \<Rightarrow> key_world \<Rightarrow> pydict option \<times> key_world" where
  "key_stats env now w =
     (let (ks, w1) = load_keys env w
      in (case those (map (key_of_dict now) ks) of
            None \<Rightarrow> (None, w1)
          | Some rs \<Rightarrow>
              (let (needed, w2) = auth_required env w1
               in (Some [(''total'', PInt (int (length rs))), (''enabled'', PInt (int (length (filter ak_enabled rs)))),
                    (''disabled'', PInt (int (length (filter (\<lambda>r. \<not> ak_enabled r) rs)))), (''total_requests'', PInt (sum_list (map ak_count rs))),
                    (''auth_required'', PBool needed), (''legacy_env_key'', PBool (ke_api_key env \<noteq> []))], w2))))"

subsubsection \<open>The gate\<close>

text \<open>What a request meets at \<open>require_api_key\<close>: it passes with a record or without one, or is refused with 401.\<close>

datatype gate = Passes "api_key option" | Refused | Failed

definition bearer_token :: "string option \<Rightarrow> string option \<Rightarrow> string option" where
  "bearer_token authorization x_api_key =
     (case authorization of
        Some a \<Rightarrow> (if starts_with (lower a) ''bearer '' then Some (strip (drop 7 a))
                   else case x_api_key of Some k \<Rightarrow> (if k \<noteq> [] then Some (strip k) else None) | None \<Rightarrow> None)
      | None \<Rightarrow> (case x_api_key of Some k \<Rightarrow> (if k \<noteq> [] then Some (strip k) else None) | None \<Rightarrow> None))"

definition require_api_key :: "key_env \<Rightarrow> rat \<Rightarrow> string option \<Rightarrow> string option \<Rightarrow> key_world \<Rightarrow> gate \<times> key_world" where
  "require_api_key env now authorization x_api_key w =
     (let token = bearer_token authorization x_api_key; (needed, w1) = auth_required env w
      in (if \<not> needed \<and> (case token of Some t \<Rightarrow> t = [] | None \<Rightarrow> True) then (Passes None, w1)
          else (case verify_key env now token w1 of
                  (None, w2) \<Rightarrow> (Failed, w2)
                | (Some (Some r), w2) \<Rightarrow> (Passes (Some r), w2)
                | (Some None, w2) \<Rightarrow> (if needed then Refused else Passes None, w2))))"

end
