(* ===== verification/Key_Theorems.thy ===== *)
theory Key_Theorems
  imports Api_Keys "HOL-Library.Multiset"
begin

text \<open>Which API keys are accepted, and what the stores may do to them.\<close>

subsection \<open>What a record and a row say of a key\<close>

definition key_enabled :: "pydict \<Rightarrow> bool" where
  "key_enabled d \<longleftrightarrow> truthy (dget_or d ''enabled'' (PBool True))"

definition key_view :: "pydict \<Rightarrow> pyval \<times> pyval \<times> bool" where
  "key_view d = (dget d ''id'', dget d ''key_hash'', key_enabled d)"

definition row_view :: "key_row \<Rightarrow> pyval \<times> pyval \<times> bool" where
  "row_view r = (PStr (kr_id r), PStr (kr_hash r), kr_enabled r)"


lemma secret_keeps:
  "key_view (maybe_encrypt_key_record env d) = key_view d" "key_view (maybe_decrypt_key_record env d) = key_view d"
  "key_view (dset d ''secret'' v) = key_view d"
  by (auto simp: key_view_def key_enabled_def maybe_encrypt_key_record_def maybe_decrypt_key_record_def split: option.splits)



lemma row_of_key_view: "row_of_key env now (maybe_encrypt_key_record env d) = Some r \<Longrightarrow> key_view d = row_view r"
proof -
  assume "row_of_key env now (maybe_encrypt_key_record env d) = Some r"
  then have "key_view (maybe_encrypt_key_record env d) = row_view r"
    by (auto simp: row_of_key_def bind_eq_Some_conv strict_text_col_def key_view_def row_view_def key_enabled_def split: pyval.splits)
  then show ?thesis by (simp add: secret_keeps)
qed



subsection \<open>A key that is shut out\<close>

text \<open>No cached record is the key's, and no stored one of it is enabled; the database answers.\<close>

definition cached_dicts :: "key_world \<Rightarrow> pydict set" where
  "cached_dicts w = (fst \<circ> snd) ` set (kw_cache w)"

lemma cached_same [simp]:
  "cached_dicts (w\<lparr>kw_table := t\<rparr>) = cached_dicts w" "cached_dicts (w\<lparr>kw_file := f\<rparr>) = cached_dicts w"
  "cached_dicts (w\<lparr>kw_faults := fs\<rparr>) = cached_dicts w" "cached_dicts (w\<lparr>kw_stats := st\<rparr>) = cached_dicts w"
  by (simp_all add: cached_dicts_def)

















subsection \<open>Tables in good order\<close>







text \<open>A record that fits the columns.\<close>

definition fits :: "pydict \<Rightarrow> bool" where
  "fits d \<longleftrightarrow>
     (\<forall>k \<in> {''id'', ''name'', ''prefix'', ''key_hash'', ''note''}. \<exists>s. dget d k = PStr s) \<and>
     (dget d ''secret'' = PNone \<or> (\<exists>s. dget d ''secret'' = PStr s)) \<and> (\<exists>c. dget d ''created_at'' = PFloat c) \<and> (\<exists>n. dget d ''request_count'' = PInt n)"

lemma fits_secret: "fits d \<Longrightarrow> fits (maybe_encrypt_key_record env d)" "fits d \<Longrightarrow> fits (maybe_decrypt_key_record env d)"
  by (auto simp: fits_def maybe_encrypt_key_record_def maybe_decrypt_key_record_def split: option.splits)



lemma fits_row:
  assumes "fits d"
  shows "\<exists>r. row_of_key env now (maybe_encrypt_key_record env d) = Some r \<and> row_view r = key_view d"
proof -
  have f: "fits (maybe_encrypt_key_record env d)" using assms by (rule fits_secret)
  have t: "text_col (PStr s) x \<noteq> None" "key_ts env (py_or (PFloat c) (PFloat now)) \<noteq> None" for s x c
    by (simp_all add: text_col_def py_or_def key_ts_def)
  from f have "row_of_key env now (maybe_encrypt_key_record env d) \<noteq> None"
    using t by (auto simp: fits_def row_of_key_def strict_text_col_def opt_text_col_def bind_eq_None_conv)
  then show ?thesis using row_of_key_view by fastforce
qed

lemma upsert_new:
  assumes "fits d" "\<forall>q \<in> set t. PStr (kr_id q) \<noteq> dget d ''id'' \<and> PStr (kr_hash q) \<noteq> dget d ''key_hash''"
  shows "\<exists>r. upsert_key env now d t = Some (t @ [r]) \<and> row_view r = key_view d"
proof -
  obtain r where r: "row_of_key env now (maybe_encrypt_key_record env d) = Some r" "row_view r = key_view d" using fits_row [OF assms(1)] by blast
  then have "dget d ''id'' = PStr (kr_id r)" "dget d ''key_hash'' = PStr (kr_hash r)" by (auto simp: key_view_def row_view_def)
  with assms(2) have "\<not> list_ex (\<lambda>q. kr_id q = kr_id r) t" "\<not> list_ex (\<lambda>q. kr_id q \<noteq> kr_id r \<and> kr_hash q = kr_hash r) t"
    by (auto simp: list_ex_iff)
  with r show ?thesis by (simp add: upsert_key_def)
qed


subsection \<open>Revocation\<close>










subsection \<open>New keys\<close>



lemma new_key_fits: "fits (new_key env now uid raw name memo)" "key_view (new_key env now uid raw name memo) = (PStr uid, PStr (ke_sha env raw), True)"
  by (simp_all add: fits_def new_key_def key_view_def key_enabled_def)




text \<open>Two stores to try them on.\<close>

definition sample_env :: key_env where
  "sample_env = \<lparr>ke_api_key = [], ke_require = ''auto'', ke_ttl = 5, ke_sha = (\<lambda>s. ''#'' @ s), ke_passphrase = ''p'',
     ke_enc = (\<lambda>s. s), ke_dec = (\<lambda>s. None), ke_iso = (\<lambda>s. None)\<rparr>"

definition sample_row :: "string \<Rightarrow> key_row" where
  "sample_row i = \<lparr>kr_id = i, kr_name = ''n'', kr_prefix = ''p'', kr_hash = ''#'' @ i, kr_secret = Some ''enc:v1:x'', kr_enabled = True, kr_note = [],
     kr_created = 1, kr_last = None, kr_count = 0\<rparr>"

definition sample_keys :: "bool \<Rightarrow> bool list \<Rightarrow> key_world" where
  "sample_keys pg faults = \<lparr>kw_pg = pg, kw_redis = False, kw_faults = faults, kw_table = [sample_row ''a'', sample_row ''b''], kw_file = None,
     kw_cache = [], kw_stats = []\<rparr>"



subsection \<open>The gate\<close>

text \<open>
  C34: a request that shows no known key passes only when keys are switched off, or when nothing asks for one: no key in
  the environment, and not one enabled key among those the store gave.
\<close>

theorem gate_passes_unknown:
  assumes "require_api_key env now authorization x_api_key w = (Passes None, w')"
  shows "lower (ke_require env) \<in> {''0'', ''false'', ''no'', ''off''} \<or>
    (ke_api_key env = [] \<and> list_all (\<lambda>d. \<not> key_enabled d) (fst (load_keys env w)))"
proof -
  obtain needed w1 where n: "auth_required env w = (needed, w1)" by fastforce
  then have "\<not> needed" using assms by (auto simp: require_api_key_def Let_def split: if_splits prod.splits option.splits)
  moreover have "lower ''auto'' = ''auto''" by code_simp
  ultimately show ?thesis
    using n by (auto simp: auth_required_def has_any_keys_def Let_def list_all_iff list_ex_iff key_enabled_def split: if_splits prod.splits)
qed

text \<open>
  C35: when one read of the database fails and there is no \<open>keys.json\<close>, the gate of the default mode is open: a request
  without any key passes, whatever keys the table holds.
\<close>

theorem auth_fails_open:
  assumes "kw_pg w" "kw_faults w = True # rest" "kw_file w = None" "ke_api_key env = []" "lower (ke_require env) = ''auto''"
  shows "fst (require_api_key env now None None w) = Passes None"
  using assms by (cases "ke_require env") (auto simp: require_api_key_def bearer_token_def auth_required_def has_any_keys_def load_keys_def pg_call_def file_keys_def lower_def Let_def)

text \<open>
  When the read of \<open>create_key\<close> fails and its write does not, the table loses every key it held: only the new one is
  left.
\<close>

lemma create_erases:
  assumes "kw_pg w" "kw_faults w = [True]" "kw_file w = None"
  shows "map kr_id (kw_table (snd (create_key env now uid raw name memo w))) = [uid]"
proof -
  let ?d = "new_key env now uid raw name memo"
  obtain r where r: "upsert_key env now ?d [] = Some [r]" "row_view r = key_view ?d" using upsert_new [of ?d "[]" env now] by (auto simp: new_key_fits)
  have "kr_id r = uid" using r(2) new_key_fits(2) [of env now uid raw name memo] by (simp add: row_view_def)
  then show ?thesis
    using assms r(1) by (simp add: create_key_def load_keys_def pg_call_def file_keys_def save_keys_def replace_keys_def cache_invalidate_def Let_def)
qed

theorem gate_passes_unknown_witness:
  "fst (require_api_key sample_env 3 None None ((sample_keys True [])\<lparr>kw_table := []\<rparr>)) = Passes None \<and>
   list_all (\<lambda>d. \<not> key_enabled d) (fst (load_keys sample_env ((sample_keys True [])\<lparr>kw_table := []\<rparr>)))"
proof -
  let ?w = "(sample_keys True [])\<lparr>kw_table := []\<rparr>"
  have g: "fst (require_api_key sample_env 3 None None ?w) = Passes None" by code_simp
  then have "require_api_key sample_env 3 None None ?w = (Passes None, snd (require_api_key sample_env 3 None None ?w))"
    by (simp add: prod_eq_iff)
  from gate_passes_unknown [OF this] have "list_all (\<lambda>d. \<not> key_enabled d) (fst (load_keys sample_env ?w))"
    by (elim disjE) (code_simp, simp)
  with g show ?thesis by simp
qed

theorem auth_fails_open_witness:
  "fst (require_api_key sample_env 3 None None (sample_keys True [])) = Refused \<and>
   fst (require_api_key sample_env 3 None None (sample_keys True [True])) = Passes None"
proof -
  have "lower (ke_require sample_env) = ''auto''" "fst (require_api_key sample_env 3 None None (sample_keys True [])) = Refused" by code_simp+
  moreover have "kw_pg (sample_keys True [True])" "kw_faults (sample_keys True [True]) = True # []" "kw_file (sample_keys True [True]) = None" "ke_api_key sample_env = []"
    by (simp_all add: sample_keys_def sample_env_def)
  ultimately show ?thesis using auth_fails_open by blast
qed

lemma create_erases_witness:
  "map kr_id (kw_table (sample_keys True [True])) = [''a'', ''b''] \<and>
   map kr_id (kw_table (snd (create_key sample_env 2 ''c'' ''k'' [] [] (sample_keys True [True])))) = [''c'']"
  using create_erases [of "sample_keys True [True]" sample_env 2 "''c''" "''k''" "[]" "[]"] by (simp add: sample_keys_def sample_row_def)

text \<open>
  Two workers create a key at the same time, both reading before either writes: the key of the first is gone.
\<close>

lemma concurrent_create_lost:
  "let w = sample_keys True []; (ks, w1) = load_keys sample_env w;
       w2 = snd (create_key sample_env 2 ''c'' ''k'' [] [] w1);
       w3 = save_keys sample_env 3 (ks @ [new_key sample_env 3 ''d'' ''l'' [] []]) w2
   in map kr_id (kw_table w2) = [''a'', ''b'', ''c''] \<and> map kr_id (kw_table w3) = [''a'', ''b'', ''d'']"
  by code_simp

text \<open>
  Stored under another passphrase, a secret cannot be decrypted, is taken for a plain one, and is encrypted once more
  by a change of any other key.
\<close>

lemma secret_wrapped_again:
  "map kr_secret (kw_table (snd (update_key sample_env 2 ''a'' (Some ''new'') None (sample_keys True [])))) =
     [Some ''enc:v1:enc:v1:x'', Some ''enc:v1:enc:v1:x'']"
  by code_simp

text \<open>With keys in the file, a use answered from the cache is counted nowhere.\<close>

lemma cached_use_uncounted:
  "let w = (sample_keys False [])\<lparr>kw_file := Some [key_dict (sample_row ''a'')]\<rparr>;
       w1 = snd (verify_key sample_env 3 (Some ''a'') w); w2 = snd (verify_key sample_env 4 (Some ''a'') w1)
   in map (\<lambda>d. dget d ''request_count'') (file_keys w1) = [PInt 1] \<and> map (\<lambda>d. dget d ''request_count'') (file_keys w2) = [PInt 1]"
  by code_simp

end
