(* ===== verification/Event_Queue.thy ===== *)
theory Event_Queue
  imports Ready_Index Json_Text
begin

text \<open>
  The event transport between the gateway and the writer (\<open>grok2api/store/events_redis.py\<close>): building and publishing
  an event, its decoding, the dead letters.

  Redis is a parameter: the stream commands the code issues, each of which may raise, with \<open>stream_laws\<close> stating
  what Redis documents of them over a view \<open>V\<close> of the streams and of the pending list of the one consumer group. A
  command that raises may have been executed or not. A stream is named by the event kind its key is made of, and
  event ids are scalars.
\<close>

subsection \<open>Redis\<close>

definition STREAM_KINDS :: "string list" where
  "STREAM_KINDS = [''account_stats'', ''account_state'', ''usage'']"

definition stream_key :: "string \<Rightarrow> string option" where
  "stream_key kind = (if kind \<in> set STREAM_KINDS then Some kind else None)"

record dead_letter =
  dl_stream :: string
  dl_id :: nat
  dl_error :: string
  dl_event :: string

record 'q stream_cmds =
  sc_add :: "'q \<Rightarrow> string \<Rightarrow> string option \<Rightarrow> bool \<times> 'q"
  sc_read :: "rat \<Rightarrow> 'q \<Rightarrow> string \<Rightarrow> nat \<Rightarrow> (string \<times> (nat \<times> string option) list) list option \<times> 'q"
  sc_claim :: "rat \<Rightarrow> 'q \<Rightarrow> string \<Rightarrow> string \<Rightarrow> rat \<Rightarrow> nat \<Rightarrow> (nat \<times> string option) list option \<times> 'q"
  sc_ack :: "'q \<Rightarrow> string \<Rightarrow> nat list \<Rightarrow> bool \<times> 'q"
  sc_del :: "'q \<Rightarrow> string \<Rightarrow> nat list \<Rightarrow> bool \<times> 'q"
  sc_pending :: "'q \<Rightarrow> string \<Rightarrow> nat \<Rightarrow> nat option \<times> 'q"
  sc_dead :: "'q \<Rightarrow> dead_letter \<Rightarrow> bool \<times> 'q"

text \<open>
  An entry of a stream: its id, its field \<open>event\<close>, and where the consumer group has it. \<open>sv_last\<close> is the last id
  given out in a stream, \<open>sv_dead\<close> lists all dead
  letters ever written; Redis keeps at least the last 100000 of them.
\<close>

datatype delivery = Waiting | Pending string nat rat | Acked

record entry =
  se_id :: nat
  se_raw :: "string option"
  se_state :: delivery

record stream_view =
  sv_entries :: "string \<Rightarrow> entry list"
  sv_last :: "string \<Rightarrow> nat"
  sv_dead :: "dead_letter list"

definition waiting :: "stream_view \<Rightarrow> string \<Rightarrow> entry list" where
  "waiting v s = filter (\<lambda>e. se_state e = Waiting) (sv_entries v s)"

fun idle_for :: "rat \<Rightarrow> rat \<Rightarrow> entry \<Rightarrow> bool" where
  "idle_for now idle e = (case se_state e of Pending c n t \<Rightarrow> idle \<le> now - t | _ \<Rightarrow> False)"

definition change :: "string \<Rightarrow> (entry list \<Rightarrow> entry list) \<Rightarrow> stream_view \<Rightarrow> stream_view" where
  "change s f v = v\<lparr>sv_entries := (sv_entries v)(s := f (sv_entries v s))\<rparr>"

fun delivered_to :: "string \<Rightarrow> rat \<Rightarrow> entry \<Rightarrow> entry" where
  "delivered_to c now e = e\<lparr>se_state := Pending c (case se_state e of Pending _ n _ \<Rightarrow> Suc n | _ \<Rightarrow> 1) now\<rparr>"

definition deliver :: "string \<Rightarrow> rat \<Rightarrow> nat set \<Rightarrow> string \<Rightarrow> stream_view \<Rightarrow> stream_view" where
  "deliver c now ids s = change s (map (\<lambda>e. if se_id e \<in> ids \<and> se_state e \<noteq> Acked then delivered_to c now e else e))"

definition ack_ids :: "string \<Rightarrow> nat list \<Rightarrow> stream_view \<Rightarrow> stream_view" where
  "ack_ids s ids = change s (map (\<lambda>e. if se_id e \<in> set ids \<and> se_state e \<noteq> Waiting then e\<lparr>se_state := Acked\<rparr> else e))"

definition del_ids :: "string \<Rightarrow> nat list \<Rightarrow> stream_view \<Rightarrow> stream_view" where
  "del_ids s ids = change s (filter (\<lambda>e. se_id e \<notin> set ids))"

definition fields_of :: "entry \<Rightarrow> nat \<times> string option" where
  "fields_of e = (se_id e, se_raw e)"

definition append_entry :: "string \<Rightarrow> nat \<Rightarrow> string option \<Rightarrow> stream_view \<Rightarrow> stream_view" where
  "append_entry s i raw v =
     (change s (\<lambda>es. es @ [\<lparr>se_id = i, se_raw = raw, se_state = Waiting\<rparr>]) v)\<lparr>sv_last := (sv_last v)(s := i)\<rparr>"

text \<open>\<open>XREADGROUP COUNT n\<close> over the three streams: at most \<open>n\<close> new entries of each.\<close>

definition new_rows :: "stream_view \<Rightarrow> nat \<Rightarrow> (string \<times> (nat \<times> string option) list) list" where
  "new_rows v n = [(s, map fields_of (take n (waiting v s))). s \<leftarrow> STREAM_KINDS, waiting v s \<noteq> []]"

definition deliver_new :: "string \<Rightarrow> rat \<Rightarrow> nat \<Rightarrow> stream_view \<Rightarrow> stream_view" where
  "deliver_new c now n v = fold (\<lambda>s. deliver c now (se_id ` set (take n (waiting v s))) s) STREAM_KINDS v"

definition executed :: "bool \<Rightarrow> stream_view \<Rightarrow> stream_view \<Rightarrow> stream_view \<Rightarrow> bool" where
  "executed ok v v' w \<longleftrightarrow> w = v' \<or> (\<not> ok \<and> w = v)"

definition stream_laws :: "'q stream_cmds \<Rightarrow> ('q \<Rightarrow> stream_view) \<Rightarrow> bool" where
  "stream_laws Q V \<longleftrightarrow>
     (\<forall>q s raw. \<exists>i > sv_last (V q) s. executed (fst (sc_add Q q s raw)) (V q) (append_entry s i raw (V q)) (V (snd (sc_add Q q s raw)))) \<and>
     (\<forall>t q c n. case sc_read Q t q c n of
        (Some rows, q') \<Rightarrow> rows = new_rows (V q) n \<and> V q' = deliver_new c t n (V q)
      | (None, q') \<Rightarrow> V q' \<in> {V q, deliver_new c t n (V q)}) \<and>
     (\<forall>t q s c idle n. \<exists>es. length es \<le> n \<and> set es \<subseteq> set (filter (idle_for t idle) (sv_entries (V q) s)) \<and>
        (case sc_claim Q t q s c idle n of
           (Some ms, q') \<Rightarrow> ms = map fields_of es \<and> V q' = deliver c t (se_id ` set es) s (V q)
         | (None, q') \<Rightarrow> V q' \<in> {V q, deliver c t (se_id ` set es) s (V q)})) \<and>
     (\<forall>q s ids. executed (fst (sc_ack Q q s ids)) (V q) (ack_ids s ids (V q)) (V (snd (sc_ack Q q s ids)))) \<and>
     (\<forall>q s ids. executed (fst (sc_del Q q s ids)) (V q) (del_ids s ids (V q)) (V (snd (sc_del Q q s ids)))) \<and>
     (\<forall>q s i. V (snd (sc_pending Q q s i)) = V q) \<and>
     (\<forall>q d. executed (fst (sc_dead Q q d)) (V q) (V q\<lparr>sv_dead := sv_dead (V q) @ [d]\<rparr>) (V (snd (sc_dead Q q d))))"

subsection \<open>Publishing\<close>

text \<open>The two random ids are arguments; \<open>meta\<close> holds the keyword arguments that are given.\<close>

definition build_event :: "string \<Rightarrow> string \<Rightarrow> rat \<Rightarrow> string \<Rightarrow> pydict \<Rightarrow> pydict \<Rightarrow> pydict option" where
  "build_event uid1 uid2 now kind payload meta =
     (if kind \<notin> set STREAM_KINDS then None
      else do {
        occurred \<leftarrow> py_float (py_or (dget meta ''occurred_at'') (PFloat now));
        attempt \<leftarrow> (if dget meta ''attempt'' = PNone then Some 0 else py_int (dget meta ''attempt''));
        Some [(''v'', PInt 1),
          (''event_id'', py_or (dget meta ''event_id'') (PStr uid1)),
          (''request_id'', py_or (dget meta ''request_id'') (PStr uid2)),
          (''occurred_at'', PFloat occurred),
          (''kind'', PStr kind),
          (''account_id'', py_or (dget meta ''account_id'') (dget payload ''account_id'')),
          (''attempt'', PInt attempt),
          (''payload'', PDict payload)]
      })"

definition str_or :: "pyval \<Rightarrow> string \<Rightarrow> string" where
  "str_or v s = (if truthy v then py_str v else s)"

definition publish_event :: "'q stream_cmds \<Rightarrow> bool \<Rightarrow> pydict \<Rightarrow> 'q \<Rightarrow> string option \<times> 'q" where
  "publish_event Q redis event q =
     (if \<not> redis then (None, q)
      else case stream_key (str_or (dget event ''kind'') []) of
        None \<Rightarrow> (None, q)
      | Some s \<Rightarrow>
          (let (ok, q') = sc_add Q q s (Some (json_dumps True (PDict event))); i = str_or (dget event ''event_id'') []
           in (if ok \<and> i \<noteq> [] then Some i else None, q')))"

text \<open>\<open>None\<close> is a \<open>ValueError\<close> of \<open>build_event\<close>.\<close>

definition publish ::
  "'q stream_cmds \<Rightarrow> bool \<Rightarrow> string \<Rightarrow> string \<Rightarrow> rat \<Rightarrow> string \<Rightarrow> pydict \<Rightarrow> pydict \<Rightarrow> 'q \<Rightarrow> (string option \<times> 'q) option" where
  "publish Q redis uid1 uid2 now kind payload meta q =
     map_option (\<lambda>event. publish_event Q redis event q) (build_event uid1 uid2 now kind payload meta)"

text \<open>The version counters live beside the ready index, whose commands \<open>R\<close> are those of \<open>Ready_Index\<close>.\<close>

definition next_sequence :: "'r index_cmds \<Rightarrow> bool \<Rightarrow> rat \<Rightarrow> 'r \<Rightarrow> string \<Rightarrow> int option \<times> 'r" where
  "next_sequence R redis now r a =
     (if \<not> redis \<or> a = [] then (None, r) else let r' = ic_incrby R now r (Seq a) 1 in (ic_num R now r' (Seq a), r'))"

definition opt_or0 :: "int option \<Rightarrow> int" where
  "opt_or0 n = (case n of Some i \<Rightarrow> i | None \<Rightarrow> 0)"

definition stats_payload :: "string \<Rightarrow> bool \<Rightarrow> int \<Rightarrow> rat \<Rightarrow> pydict" where
  "stats_payload a success seq used =
     [(''account_id'', PStr a), (''requests'', PInt 1), (''success'', PInt (if success then 1 else 0)),
      (''fail'', PInt (if success then 0 else 1)), (''reset_consecutive_fails'', PBool success), (''state_seq'', PInt seq),
      (''last_used_at'', PFloat used)]"

definition publish_account_stats ::
  "'q stream_cmds \<Rightarrow> 'r index_cmds \<Rightarrow> bool \<Rightarrow> string \<Rightarrow> string \<Rightarrow> rat \<Rightarrow> string \<Rightarrow> bool \<Rightarrow> rat option \<Rightarrow> 'q \<Rightarrow> 'r \<Rightarrow>
     (string option \<times> 'q \<times> 'r) option" where
  "publish_account_stats Q R redis uid1 uid2 now a success occurred q r =
     (if a = [] then Some (None, q, r)
      else
        let (seq, r1) = (if success then (let (n, r') = next_sequence R redis now r a in (opt_or0 n, r')) else (0, r));
            r2 = (if seq \<noteq> 0 then (case apply_success_sequence R now r1 a seq of Some r' \<Rightarrow> r' | None \<Rightarrow> r1) else r1);
            used = (case occurred of Some t \<Rightarrow> (if t \<noteq> 0 then t else now) | None \<Rightarrow> now)
        in map_option (\<lambda>(i, q'). (i, q', r2))
             (publish Q redis uid1 uid2 now ''account_stats'' (stats_payload a success seq used)
               [(''account_id'', PStr a), (''occurred_at'', of_opt PFloat occurred)] q))"

definition publish_account_state ::
  "'q stream_cmds \<Rightarrow> 'r index_cmds \<Rightarrow> bool \<Rightarrow> string \<Rightarrow> string \<Rightarrow> rat \<Rightarrow> string \<Rightarrow> pydict \<Rightarrow> int option \<Rightarrow> 'q \<Rightarrow> 'r \<Rightarrow>
     (string option \<times> int \<times> 'q \<times> 'r) option" where
  "publish_account_state Q R redis uid1 uid2 now a patch state_seq q r =
     (if a = [] then Some (None, 0, q, r)
      else
        let (seq, r1) = (if opt_or0 state_seq \<noteq> 0 then (opt_or0 state_seq, r)
                         else (let (n, r') = next_sequence R redis now r a in (opt_or0 n, r')));
            r2 = (case apply_status_patch R now r1 a patch (Some seq) of Some r' \<Rightarrow> r' | None \<Rightarrow> r1)
        in map_option (\<lambda>(i, q'). (i, seq, q', r2))
             (publish Q redis uid1 uid2 now ''account_state''
               [(''account_id'', PStr a), (''state_seq'', PInt seq), (''patch'', PDict patch)] [(''account_id'', PStr a)] q))"

subsection \<open>Reading\<close>

definition decode_message :: "string option \<Rightarrow> pydict option" where
  "decode_message raw =
     (case raw of None \<Rightarrow> None
      | Some s \<Rightarrow> (case json_loads s of
          Some (PDict event) \<Rightarrow> (if truthy (dget event ''event_id'') then Some event else None)
        | _ \<Rightarrow> None))"

definition event_key :: "pydict \<Rightarrow> string" where
  "event_key event = str_or (dget event ''event_id'') []"

definition move_to_dlq :: "'q stream_cmds \<Rightarrow> string \<Rightarrow> nat \<Rightarrow> pydict option \<Rightarrow> string \<Rightarrow> 'q \<Rightarrow> bool \<times> 'q" where
  "move_to_dlq Q s i event error q =
     sc_dead Q q \<lparr>dl_stream = s, dl_id = i, dl_error = take 1000 error,
       dl_event = json_dumps True (PDict (case event of Some e \<Rightarrow> e | None \<Rightarrow> []))\<rparr>"

definition payload_of :: "pydict \<Rightarrow> pydict" where
  "payload_of event = dict_of (dget event ''payload'')"

end
