(* ===== verification/Writer.thy ===== *)
theory Writer
  imports Event_Queue Pool_Pg
begin

text \<open>
  The writer process (\<open>grok2api/writer.py\<close>): it reads the event streams as a member of a consumer group, applies a
  batch to PostgreSQL in one transaction guarded by an inbox of event ids, and acknowledges it.

  The database is its tables; a transaction is a function on them and \<open>None\<close> its roll-back. \<open>we_day\<close> is the UTC
  date of a timestamp, \<open>we_detail_ok\<close> whether driver and column types take a detail row. 64-bit counters do not
  overflow, and the legacy table \<open>usage_events\<close>, which the writer only prunes, is left out.
\<close>

subsection \<open>Tables\<close>

record counts =
  c_requests :: int
  c_success :: int
  c_fail :: int
  c_prompt :: int
  c_completion :: int
  c_total :: int
  c_cache_read :: int
  c_cache_creation :: int
  c_reasoning :: int
  c_cache_hits :: int

definition no_counts :: counts where
  "no_counts = \<lparr>c_requests = 0, c_success = 0, c_fail = 0, c_prompt = 0, c_completion = 0, c_total = 0, c_cache_read = 0,
     c_cache_creation = 0, c_reasoning = 0, c_cache_hits = 0\<rparr>"

definition add_counts :: "counts \<Rightarrow> counts \<Rightarrow> counts" where
  "add_counts a b = \<lparr>c_requests = c_requests a + c_requests b, c_success = c_success a + c_success b,
     c_fail = c_fail a + c_fail b, c_prompt = c_prompt a + c_prompt b, c_completion = c_completion a + c_completion b,
     c_total = c_total a + c_total b, c_cache_read = c_cache_read a + c_cache_read b,
     c_cache_creation = c_cache_creation a + c_cache_creation b, c_reasoning = c_reasoning a + c_reasoning b,
     c_cache_hits = c_cache_hits a + c_cache_hits b\<rparr>"

type_synonym bucket = "string \<times> string \<times> string"

text \<open>Token totals of a row of \<open>account_pool\<close>, and the usage columns of a row of \<open>api_keys\<close>.\<close>

record tokens =
  tk_prompt :: int
  tk_completion :: int
  tk_total :: int

record key_use =
  ku_requests :: int
  ku_last :: "rat option"
  ku_tokens :: tokens

record detail =
  dt_event_id :: string
  dt_created :: rat
  dt_ok :: bool
  dt_counts :: counts
  dt_columns :: pydict

record inbox_row =
  ib_id :: string
  ib_kind :: string
  ib_at :: rat

record wdb =
  db_inbox :: "inbox_row list"
  db_rows :: pg_rows
  db_tokens :: "(string \<times> tokens) list"
  db_keys :: "(string \<times> key_use) list"
  db_daily :: "(bucket \<times> counts) list"
  db_details :: "detail list"

record writer_env =
  we_pg :: pg_env
  we_day :: "rat \<Rightarrow> string option"
  we_detail_ok :: "detail \<Rightarrow> bool"

record writer_cfg =
  wc_batch :: nat
  wc_flush :: rat
  wc_retries :: nat
  wc_days :: nat

text \<open>\<open>setdefault\<close> and an update of the value, as of a dictionary or of a table under \<open>ON CONFLICT DO UPDATE\<close>.\<close>

definition upsert_at :: "'k \<Rightarrow> 'v \<Rightarrow> ('v \<Rightarrow> 'v) \<Rightarrow> ('k \<times> 'v) list \<Rightarrow> ('k \<times> 'v) list" where
  "upsert_at k z f xs = AList.update k (f (case map_of xs k of Some v \<Rightarrow> v | None \<Rightarrow> z)) xs"

subsection \<open>Times\<close>

definition event_ts :: "rat \<Rightarrow> pydict \<Rightarrow> rat" where
  "event_ts now event =
     (case py_float (py_or (dget event ''occurred_at'') (PFloat now)) of Some t \<Rightarrow> t | None \<Rightarrow> now)"

definition utc_day :: "writer_env \<Rightarrow> rat \<Rightarrow> pyval \<Rightarrow> string" where
  "utc_day env now ts =
     (case Option.bind (py_float ts) (we_day env) of
        Some d \<Rightarrow> d
      | None \<Rightarrow> (case we_day env now of Some d \<Rightarrow> d | None \<Rightarrow> []))"

subsection \<open>The inbox\<close>

fun insert_inbox :: "rat \<Rightarrow> pydict list \<Rightarrow> inbox_row list \<Rightarrow> pydict list \<times> inbox_row list" where
  "insert_inbox now [] inbox = ([], inbox)"
| "insert_inbox now (event # events) inbox =
     (let i = event_key event
      in (if i = [] \<or> i \<in> ib_id ` set inbox then insert_inbox now events inbox
          else let (accepted, inbox') = insert_inbox now events
                     (inbox @ [\<lparr>ib_id = i, ib_kind = str_or (dget event ''kind'') ''unknown'', ib_at = now\<rparr>])
               in (event # accepted, inbox')))"

subsection \<open>Account statistics\<close>

record stats_delta =
  sd_requests :: int
  sd_success :: int
  sd_fail :: int
  sd_reset :: bool
  sd_version :: int
  sd_last :: rat

definition no_delta :: stats_delta where
  "no_delta = \<lparr>sd_requests = 0, sd_success = 0, sd_fail = 0, sd_reset = False, sd_version = 0, sd_last = 0\<rparr>"

definition success_seq :: "pydict \<Rightarrow> int \<Rightarrow> int" where
  "success_seq p n = (if n \<noteq> 0 then (case int_or0 (dget p ''state_seq'') of Some i \<Rightarrow> i | None \<Rightarrow> 0) else 0)"

definition stats_account :: "pydict \<Rightarrow> string" where
  "stats_account event =
     strip (str_or (py_or (dget (payload_of event) ''account_id'') (dget event ''account_id'')) [])"

definition add_delta :: "rat \<Rightarrow> pydict \<Rightarrow> stats_delta \<Rightarrow> stats_delta option" where
  "add_delta now event row = do {
     let p = payload_of event;
     requests \<leftarrow> int_or0 (dget p ''requests'');
     success \<leftarrow> int_or0 (dget p ''success'');
     fail \<leftarrow> int_or0 (dget p ''fail'');
     used \<leftarrow> py_float (py_or (dget p ''last_used_at'') (PFloat (event_ts now event)));
     let seq = success_seq p success;
     let newer = sd_version row < seq;
     Some \<lparr>sd_requests = sd_requests row + requests, sd_success = sd_success row + success, sd_fail = sd_fail row + fail,
       sd_reset = (if newer then truthy (dget p ''reset_consecutive_fails'') else sd_reset row),
       sd_version = (if newer then seq else sd_version row), sd_last = max (sd_last row) used\<rparr>
   }"

fun group_stats :: "rat \<Rightarrow> pydict list \<Rightarrow> (string \<times> stats_delta) list \<Rightarrow> (string \<times> stats_delta) list option" where
  "group_stats now [] grouped = Some grouped"
| "group_stats now (event # events) grouped =
     (let aid = stats_account event
      in (if aid = [] then group_stats now events grouped
          else do {
            row \<leftarrow> add_delta now event (case map_of grouped aid of Some r \<Rightarrow> r | None \<Rightarrow> no_delta);
            group_stats now events (AList.update aid row grouped)
          }))"

text \<open>The column defaults of \<open>account_pool\<close> (\<open>store/pg.py\<close>).\<close>

definition default_row :: pool_row where
  "default_row = \<lparr>r_enabled = True, r_weight = 1, r_disabled_for_quota = False, r_disabled_reason = PNone,
     r_quota_disabled_at = None, r_quota_source = PNone, r_last_quota = PNone, r_last_probe = PNone, r_blocked_models = [],
     r_request_count = 0, r_success_count = 0, r_fail_count = 0, r_last_used_at = None, r_last_error = PNone,
     r_cooldown_until = None, r_extra = [], r_pool_status = ''normal'', r_cooldown_count = 0, r_cooldown_reason = PNone,
     r_cooldown_code = PNone, r_cooldown_model = PNone, r_tokens_actual = None, r_tokens_limit = None,
     r_last_probe_status = PNone, r_state_version = 0\<rparr>"

definition insert_delta :: "stats_delta \<Rightarrow> pool_row" where
  "insert_delta d = default_row\<lparr>r_request_count := sd_requests d, r_success_count := sd_success d, r_fail_count := sd_fail d,
     r_last_used_at := Some (sd_last d), r_extra := (if sd_reset d then [(''consecutive_fails'', PInt 0)] else []),
     r_state_version := sd_version d\<rparr>"

definition merge_delta :: "stats_delta \<Rightarrow> pool_row \<Rightarrow> pool_row" where
  "merge_delta d r = r\<lparr>r_request_count := r_request_count r + sd_requests d,
     r_success_count := r_success_count r + sd_success d, r_fail_count := r_fail_count r + sd_fail d,
     r_last_used_at := greatest (r_last_used_at r) (Some (sd_last d)),
     r_extra := (if r_state_version r < sd_version d \<and> sd_reset d then dset (r_extra r) ''consecutive_fails'' (PInt 0)
                 else r_extra r),
     r_state_version := max (r_state_version r) (sd_version d)\<rparr>"

definition upsert_delta :: "string \<times> stats_delta \<Rightarrow> pg_rows \<Rightarrow> pg_rows" where
  "upsert_delta g rows =
     AList.update (fst g) (case map_of rows (fst g) of None \<Rightarrow> insert_delta (snd g) | Some r \<Rightarrow> merge_delta (snd g) r) rows"

definition apply_account_stats :: "rat \<Rightarrow> pydict list \<Rightarrow> pg_rows \<Rightarrow> (nat \<times> pg_rows) option" where
  "apply_account_stats now events rows =
     map_option (\<lambda>grouped. (length grouped, fold upsert_delta grouped rows)) (group_stats now events [])"

subsection \<open>Account states\<close>

fun apply_states :: "pg_env \<Rightarrow> rat \<Rightarrow> pydict list \<Rightarrow> pg_rows \<Rightarrow> pg_rows option" where
  "apply_states env now [] rows = Some rows"
| "apply_states env now (event # events) rows = do {
     let p = payload_of event;
     seq \<leftarrow> int_or0 (dget p ''state_seq'');
     (done, rows') \<leftarrow> apply_pool_state_event env now rows
       (str_or (py_or (dget p ''account_id'') (dget event ''account_id'')) []) (dict_of (dget p ''patch'')) seq;
     apply_states env now events rows'
   }"

subsection \<open>Usage\<close>

text \<open>What one event adds, the buckets it adds it to, and its detail row when it is captured.\<close>

definition daily_part :: "pydict \<Rightarrow> pydict" where
  "daily_part p = (case dget p ''daily'' of PDict d \<Rightarrow> d | _ \<Rightarrow> p)"

definition usage_ok :: "pydict \<Rightarrow> bool" where
  "usage_ok p = truthy (dget_or (daily_part p) ''ok'' (dget_or p ''ok'' (PBool True)))"

definition token_count :: "bool \<Rightarrow> pyval \<Rightarrow> int option" where
  "token_count ok v = (if ok then map_option (max 0) (int_or0 v) else Some 0)"

definition usage_counts :: "pydict \<Rightarrow> counts option" where
  "usage_counts p = do {
     let d = daily_part p;
     let ok = usage_ok p;
     pt \<leftarrow> token_count ok (dget d ''prompt_tokens'');
     ct \<leftarrow> token_count ok (dget d ''completion_tokens'');
     tt \<leftarrow> token_count ok (py_or (dget d ''total_tokens'') (PInt (pt + ct)));
     cr \<leftarrow> token_count ok (dget d ''cache_read_tokens'');
     cc \<leftarrow> token_count ok (dget d ''cache_creation_tokens'');
     rt \<leftarrow> token_count ok (dget d ''reasoning_tokens'');
     Some \<lparr>c_requests = 1, c_success = (if ok then 1 else 0), c_fail = (if ok then 0 else 1), c_prompt = pt,
       c_completion = ct, c_total = tt, c_cache_read = cr, c_cache_creation = cc, c_reasoning = rt,
       c_cache_hits = (if ok \<and> cr \<noteq> 0 then 1 else 0)\<rparr>
   }"

definition usage_dims :: "pydict \<Rightarrow> (string \<times> string) list" where
  "usage_dims p =
     (''global'', []) #
     (if truthy (dget p ''api_key_id'') then [(''key'', take 256 (py_str (dget p ''api_key_id'')))] else []) @
     (if truthy (dget p ''account_id'') then [(''account'', take 256 (py_str (dget p ''account_id'')))] else []) @
     (if truthy (dget p ''model'') then [(''model'', take 120 (py_str (dget p ''model'')))] else [])"

definition detail_row :: "rat \<Rightarrow> pydict \<Rightarrow> counts \<Rightarrow> detail" where
  "detail_row now event c =
     (let p = payload_of event
      in \<lparr>dt_event_id = py_str (dget event ''event_id''), dt_created = event_ts now event, dt_ok = usage_ok p, dt_counts = c,
        dt_columns = map (\<lambda>k. (k, dget p k)) [''api_key_id'', ''account_id'', ''model'', ''protocol'', ''path'', ''stream'',
            ''client_ip'', ''user_agent'', ''status_code'', ''latency_ms'', ''ttft_ms'', ''error''] @
          [(''detail'', PDict (dict_of (dget p ''detail''))),
           (''capture_reason'', py_or (dget p ''capture_reason'') (PStr ''sample''))]\<rparr>)"

record usage_batch =
  ub_daily :: "(bucket \<times> counts) list"
  ub_keys :: "(string \<times> key_use) list"
  ub_accounts :: "(string \<times> tokens) list"
  ub_details :: "detail list"

definition no_tokens :: tokens where
  "no_tokens = \<lparr>tk_prompt = 0, tk_completion = 0, tk_total = 0\<rparr>"

definition add_tokens :: "counts \<Rightarrow> tokens \<Rightarrow> tokens" where
  "add_tokens c t = \<lparr>tk_prompt = tk_prompt t + c_prompt c, tk_completion = tk_completion t + c_completion c,
     tk_total = tk_total t + c_total c\<rparr>"

definition use_key :: "rat \<Rightarrow> counts \<Rightarrow> bool \<Rightarrow> key_use \<Rightarrow> key_use" where
  "use_key ts c ok u = \<lparr>ku_requests = ku_requests u + 1, ku_last = greatest (ku_last u) (Some (max 0 ts)),
     ku_tokens = (if ok then add_tokens c (ku_tokens u) else ku_tokens u)\<rparr>"

definition add_usage :: "writer_env \<Rightarrow> rat \<Rightarrow> pydict \<Rightarrow> usage_batch \<Rightarrow> usage_batch option" where
  "add_usage env now event b = do {
     let p = payload_of event;
     let ok = usage_ok p;
     c \<leftarrow> usage_counts p;
     let day = utc_day env now (dget event ''occurred_at'');
     Some \<lparr>ub_daily = fold (\<lambda>(dim, i). upsert_at (day, dim, i) no_counts (add_counts c)) (usage_dims p) (ub_daily b),
       ub_keys = (if truthy (dget p ''api_key_id'')
         then upsert_at (py_str (dget p ''api_key_id'')) \<lparr>ku_requests = 0, ku_last = None, ku_tokens = no_tokens\<rparr>
                (use_key (event_ts now event) c ok) (ub_keys b)
         else ub_keys b),
       ub_accounts = (if ok \<and> truthy (dget p ''account_id'')
         then upsert_at (py_str (dget p ''account_id'')) no_tokens (add_tokens c) (ub_accounts b) else ub_accounts b),
       ub_details = (if truthy (dget p ''capture'') then ub_details b @ [detail_row now event c] else ub_details b)\<rparr>
   }"

fun group_usage :: "writer_env \<Rightarrow> rat \<Rightarrow> pydict list \<Rightarrow> usage_batch \<Rightarrow> usage_batch option" where
  "group_usage env now [] b = Some b"
| "group_usage env now (event # events) b = Option.bind (add_usage env now event b) (group_usage env now events)"

definition plus_tokens :: "tokens \<Rightarrow> tokens \<Rightarrow> tokens" where
  "plus_tokens a b = \<lparr>tk_prompt = tk_prompt a + tk_prompt b, tk_completion = tk_completion a + tk_completion b,
     tk_total = tk_total a + tk_total b\<rparr>"

text \<open>An \<open>UPDATE\<close> of the row of a key, when there is one.\<close>

definition update_row :: "'k \<Rightarrow> ('v \<Rightarrow> 'v) \<Rightarrow> ('k \<times> 'v) list \<Rightarrow> ('k \<times> 'v) list" where
  "update_row k f xs = (case map_of xs k of Some v \<Rightarrow> AList.update k (f v) xs | None \<Rightarrow> xs)"

definition charge_account :: "string \<times> tokens \<Rightarrow> wdb \<Rightarrow> wdb" where
  "charge_account g db =
     (if fst g \<in> fst ` set (db_rows db) then db\<lparr>db_tokens := upsert_at (fst g) no_tokens (plus_tokens (snd g)) (db_tokens db)\<rparr> else db)"

definition charge_key :: "string \<times> key_use \<Rightarrow> wdb \<Rightarrow> wdb" where
  "charge_key g db = db\<lparr>db_keys := update_row (fst g) (\<lambda>u. \<lparr>ku_requests = ku_requests u + ku_requests (snd g),
     ku_last = greatest (ku_last u) (ku_last (snd g)), ku_tokens = plus_tokens (ku_tokens u) (ku_tokens (snd g))\<rparr>) (db_keys db)\<rparr>"

definition insert_detail :: "writer_env \<Rightarrow> detail \<Rightarrow> wdb \<Rightarrow> wdb option" where
  "insert_detail env d db =
     (if we_day env (dt_created d) = None \<or> \<not> we_detail_ok env d then None
      else if (dt_event_id d, dt_created d) \<in> (\<lambda>x. (dt_event_id x, dt_created x)) ` set (db_details db) then Some db
      else Some (db\<lparr>db_details := db_details db @ [d]\<rparr>))"

fun insert_details :: "writer_env \<Rightarrow> detail list \<Rightarrow> wdb \<Rightarrow> wdb option" where
  "insert_details env [] db = Some db"
| "insert_details env (d # ds) db = Option.bind (insert_detail env d db) (insert_details env ds)"

definition no_usage :: usage_batch where
  "no_usage = \<lparr>ub_daily = [], ub_keys = [], ub_accounts = [], ub_details = []\<rparr>"

definition apply_usage :: "writer_env \<Rightarrow> rat \<Rightarrow> pydict list \<Rightarrow> wdb \<Rightarrow> ((nat \<times> nat) \<times> wdb) option" where
  "apply_usage env now events db = do {
     b \<leftarrow> group_usage env now events no_usage;
     let db1 = db\<lparr>db_daily := fold (\<lambda>(k, c). upsert_at k no_counts (add_counts c)) (ub_daily b) (db_daily db)\<rparr>;
     let db2 = fold charge_key (ub_keys b) (fold charge_account (ub_accounts b) db1);
     db3 \<leftarrow> insert_details env (ub_details b) db2;
     Some ((length (ub_daily b), length (ub_details b)), db3)
   }"

end
