(* ===== verification/Writer_Loop.thy ===== *)
theory Writer_Loop
  imports Writer
begin

text \<open>
  The loop of the writer (\<open>grok2api/writer.py\<close>) around the tables of \<open>Writer\<close>: reclaiming and reading messages, the
  transaction of a batch, its acknowledgement, dead letters, and a step relation in which any number of writers and
  publishers share the streams and the database.
\<close>

type_synonym msg = "string \<times> nat \<times> pydict"

subsection \<open>Collecting a batch\<close>

text \<open>
  One delivered message: kept when it decodes, otherwise written to the dead letters and dropped from its stream. A
  failing \<open>XADD\<close> to the dead letters ends the round with an exception, the result \<open>None\<close>; \<open>careful\<close> is the
  \<open>try\<close> of \<open>_read\<close> around the other two commands, which \<open>_reclaim\<close> does not have.
\<close>

definition sort_message ::
  "'q stream_cmds \<Rightarrow> bool \<Rightarrow> string \<Rightarrow> string \<Rightarrow> nat \<times> string option \<Rightarrow> msg list \<times> 'q \<Rightarrow> bool \<times> msg list \<times> 'q" where
  "sort_message Q careful error s m st =
     (let (out, q) = st
      in (case decode_message (snd m) of
            Some event \<Rightarrow> (True, out @ [(s, fst m, event)], q)
          | None \<Rightarrow>
              (let (moved, q1) = move_to_dlq Q s (fst m) None error q
               in (if \<not> moved then (False, out, q1)
                   else let (acked, q2) = sc_ack Q q1 s [fst m]
                        in (if \<not> acked then (careful, out, q2)
                            else let (deleted, q3) = sc_del Q q2 s [fst m] in (careful \<or> deleted, out, q3))))))"

fun sort_messages ::
  "'q stream_cmds \<Rightarrow> bool \<Rightarrow> string \<Rightarrow> string \<Rightarrow> (nat \<times> string option) list \<Rightarrow> msg list \<times> 'q \<Rightarrow> bool \<times> msg list \<times> 'q" where
  "sort_messages Q careful error s [] st = (True, st)"
| "sort_messages Q careful error s (m # ms) st =
     (case sort_message Q careful error s m st of
        (True, st') \<Rightarrow> sort_messages Q careful error s ms st'
      | (False, st') \<Rightarrow> (False, st'))"

fun sort_rows :: "'q stream_cmds \<Rightarrow> (string \<times> (nat \<times> string option) list) list \<Rightarrow> msg list \<times> 'q \<Rightarrow> bool \<times> msg list \<times> 'q" where
  "sort_rows Q [] st = (True, st)"
| "sort_rows Q (row # rows) st =
     (case sort_messages Q True ''invalid_event'' (fst row) (snd row) st of
        (True, st') \<Rightarrow> sort_rows Q rows st'
      | (False, st') \<Rightarrow> (False, st'))"

definition read_count :: "writer_cfg \<Rightarrow> nat option \<Rightarrow> nat" where
  "read_count cfg asked =
     max 1 (min (wc_batch cfg) (case asked of Some n \<Rightarrow> (if n = 0 then wc_batch cfg else n) | None \<Rightarrow> wc_batch cfg))"

text \<open>\<open>_read\<close>: \<open>None\<close> is an exception that leaves it, after which the process ends.\<close>

definition read_streams ::
  "'q stream_cmds \<Rightarrow> writer_cfg \<Rightarrow> string \<Rightarrow> rat \<Rightarrow> nat option \<Rightarrow> 'q \<Rightarrow> msg list option \<times> 'q" where
  "read_streams Q cfg consumer now asked q =
     (case sc_read Q now q consumer (read_count cfg asked) of
        (None, q1) \<Rightarrow> (Some [], q1)
      | (Some rows, q1) \<Rightarrow>
          (let (fine, out, q2) = sort_rows Q rows ([], q1) in (if fine then Some out else None, q2)))"

text \<open>\<open>_reclaim\<close>, one stream at a time; an exception leaves the stream with what it has appended so far.\<close>

definition min_idle :: "writer_cfg \<Rightarrow> rat" where
  "min_idle cfg = of_int (max 5000 (trunc_rat (wc_flush cfg * 5000))) / 1000"

definition reclaim_stream ::
  "'q stream_cmds \<Rightarrow> writer_cfg \<Rightarrow> string \<Rightarrow> rat \<Rightarrow> string \<Rightarrow> msg list \<times> 'q \<Rightarrow> msg list \<times> 'q" where
  "reclaim_stream Q cfg consumer now s st =
     (let (out, q) = st
      in (if wc_batch cfg \<le> length out then st
          else (case sc_claim Q now q s consumer (min_idle cfg) (min 100 (wc_batch cfg - length out)) of
                  (None, q1) \<Rightarrow> (out, q1)
                | (Some ms, q1) \<Rightarrow> snd (sort_messages Q False ''invalid_reclaimed_event'' s ms (out, q1)))))"

definition reclaim :: "'q stream_cmds \<Rightarrow> writer_cfg \<Rightarrow> string \<Rightarrow> rat \<Rightarrow> 'q \<Rightarrow> msg list \<times> 'q" where
  "reclaim Q cfg consumer now q = fold (reclaim_stream Q cfg consumer now) STREAM_KINDS ([], q)"

text \<open>
  The loop of \<open>_collect_batch\<close>: \<open>ticks\<close> are the clock readings at which the flush window is still open and the writer
  is running, one for each round it allows.
\<close>

fun collect_loop ::
  "'q stream_cmds \<Rightarrow> writer_cfg \<Rightarrow> string \<Rightarrow> rat list \<Rightarrow> msg list \<times> 'q \<Rightarrow> msg list option \<times> 'q" where
  "collect_loop Q cfg consumer [] (batch, q) = (Some batch, q)"
| "collect_loop Q cfg consumer (now # ticks) (batch, q) =
     (if wc_batch cfg \<le> length batch then (Some batch, q)
      else (case read_streams Q cfg consumer now (Some (wc_batch cfg - length batch)) q of
              (None, q1) \<Rightarrow> (None, q1)
            | (Some [], q1) \<Rightarrow> (Some batch, q1)
            | (Some incoming, q1) \<Rightarrow> collect_loop Q cfg consumer ticks (batch @ incoming, q1)))"

definition collect_batch ::
  "'q stream_cmds \<Rightarrow> writer_cfg \<Rightarrow> string \<Rightarrow> rat \<Rightarrow> rat list \<Rightarrow> 'q \<Rightarrow> msg list option \<times> 'q" where
  "collect_batch Q cfg consumer now ticks q = collect_loop Q cfg consumer ticks (reclaim Q cfg consumer now q)"

subsection \<open>Processing a batch\<close>

definition of_kind :: "string \<Rightarrow> pydict list \<Rightarrow> pydict list" where
  "of_kind kind events = filter (\<lambda>e. dget e ''kind'' = PStr kind) events"

definition prune :: "writer_cfg \<Rightarrow> rat \<Rightarrow> wdb \<Rightarrow> wdb" where
  "prune cfg now db =
     (let days = of_nat (wc_days cfg) * 86400
      in db\<lparr>db_details := filter (\<lambda>d. now - days \<le> dt_created d) (db_details db),
            db_inbox := filter (\<lambda>r. now - 2 * days \<le> ib_at r) (db_inbox db)\<rparr>)"

text \<open>
  The transaction of \<open>_process\<close>: the events it accepted, the tables after it and the new \<open>_last_retention\<close>. \<open>None\<close>
  is an exception of its body, upon which the connection rolls back.
\<close>

definition transact ::
  "writer_env \<Rightarrow> writer_cfg \<Rightarrow> rat \<Rightarrow> rat \<Rightarrow> pydict list \<Rightarrow> wdb \<Rightarrow> (pydict list \<times> wdb \<times> rat) option" where
  "transact env cfg now retention events db = do {
     let (accepted, inbox) = insert_inbox now events (db_inbox db);
     (n, rows1) \<leftarrow> apply_account_stats now (of_kind ''account_stats'' accepted) (db_rows db);
     rows2 \<leftarrow> apply_states (we_pg env) now (of_kind ''account_state'' accepted) rows1;
     (m, db2) \<leftarrow> apply_usage env now (of_kind ''usage'' accepted) (db\<lparr>db_inbox := inbox, db_rows := rows2\<rparr>);
     Some (accepted, if 3600 < now - retention then (prune cfg now db2, now) else (db2, retention))
   }"

text \<open>\<open>by_stream\<close>, in order of first appearance; \<open>XACK\<close> and \<open>XDEL\<close> of each; \<open>False\<close> is an exception.\<close>

fun by_stream :: "msg list \<Rightarrow> (string \<times> nat list) list \<Rightarrow> (string \<times> nat list) list" where
  "by_stream [] acc = acc"
| "by_stream ((s, i, e) # ms) acc = by_stream ms (upsert_at s [] (\<lambda>ids. ids @ [i]) acc)"

fun ack_streams :: "'q stream_cmds \<Rightarrow> (string \<times> nat list) list \<Rightarrow> 'q \<Rightarrow> bool \<times> 'q" where
  "ack_streams Q [] q = (True, q)"
| "ack_streams Q ((s, ids) # rest) q =
     (let (acked, q1) = sc_ack Q q s ids
      in (if \<not> acked then (False, q1)
          else let (deleted, q2) = sc_del Q q1 s ids in (if \<not> deleted then (False, q2) else ack_streams Q rest q2)))"

text \<open>\<open>_dead_letter_exhausted\<close>.\<close>

definition pending_deliveries :: "'q stream_cmds \<Rightarrow> string \<Rightarrow> nat \<Rightarrow> 'q \<Rightarrow> nat \<times> 'q" where
  "pending_deliveries Q s i q = (let (n, q1) = sc_pending Q q s i in (case n of Some k \<Rightarrow> k | None \<Rightarrow> 0, q1))"

definition bury :: "'q stream_cmds \<Rightarrow> writer_cfg \<Rightarrow> string \<Rightarrow> msg \<Rightarrow> 'q \<Rightarrow> 'q" where
  "bury Q cfg error m q =
     (let (s, i, event) = m; (n, q1) = pending_deliveries Q s i q
      in (if n < wc_retries cfg then q1
          else let (moved, q2) = move_to_dlq Q s i (Some event) error q1
               in (if \<not> moved then q2
                   else let (acked, q3) = sc_ack Q q2 s [i] in (if \<not> acked then q3 else snd (sc_del Q q3 s [i])))))"

definition dead_letter_exhausted :: "'q stream_cmds \<Rightarrow> writer_cfg \<Rightarrow> string \<Rightarrow> msg list \<Rightarrow> 'q \<Rightarrow> 'q" where
  "dead_letter_exhausted Q cfg error msgs q = fold (bury Q cfg error) msgs q"

text \<open>
  What follows the transaction: after a commit the acknowledgements, whose exception leads to the dead letters as that
  of the transaction does.
\<close>

definition settle :: "'q stream_cmds \<Rightarrow> writer_cfg \<Rightarrow> string \<Rightarrow> bool \<Rightarrow> msg list \<Rightarrow> 'q \<Rightarrow> 'q" where
  "settle Q cfg error committed msgs q =
     (if committed then
        (let (fine, q1) = ack_streams Q (by_stream msgs []) q
         in (if fine then q1 else dead_letter_exhausted Q cfg error msgs q1))
      else dead_letter_exhausted Q cfg error msgs q)"

text \<open>
  The connection: off, or refused or lost in the transaction, or lost in the commit, which was applied or not. The time
  of the last retention is set before the commit.
\<close>

datatype pg_fate = Works | Off | Lost | Lost_Commit | Lost_After

record writer_state =
  ws_retention :: rat
  ws_alive :: bool

definition process ::
  "'q stream_cmds \<Rightarrow> writer_env \<Rightarrow> writer_cfg \<Rightarrow> rat \<Rightarrow> pg_fate \<Rightarrow> string \<Rightarrow> msg list \<Rightarrow> writer_state \<times> wdb \<times> 'q \<Rightarrow>
     writer_state \<times> wdb \<times> 'q" where
  "process Q env cfg now fate error msgs st =
     (let (w, db, q) = st
      in (if msgs = [] \<or> fate = Off then st
          else (case (if fate = Lost then None else transact env cfg now (ws_retention w) (map (snd \<circ> snd) msgs) db) of
                  None \<Rightarrow> (w, db, settle Q cfg error False msgs q)
                | Some (accepted, db', retention) \<Rightarrow>
                    (w\<lparr>ws_retention := retention\<rparr>, if fate = Lost_Commit then db else db',
                     settle Q cfg error (fate = Works) msgs q))))"

text \<open>One round of \<open>run\<close>, whose transaction runs at \<open>later\<close>, and the last drain after it was stopped.\<close>

definition run_round ::
  "'q stream_cmds \<Rightarrow> writer_env \<Rightarrow> writer_cfg \<Rightarrow> string \<Rightarrow> rat \<Rightarrow> rat list \<Rightarrow> rat \<Rightarrow> pg_fate \<Rightarrow> string \<Rightarrow>
     writer_state \<times> wdb \<times> 'q \<Rightarrow> writer_state \<times> wdb \<times> 'q" where
  "run_round Q env cfg consumer now ticks later fate error st =
     (let (w, db, q) = st
      in (if \<not> ws_alive w then st
          else (case collect_batch Q cfg consumer now ticks q of
                  (None, q1) \<Rightarrow> (w\<lparr>ws_alive := False\<rparr>, db, q1)
                | (Some batch, q1) \<Rightarrow> process Q env cfg later fate error batch (w, db, q1))))"

definition last_drain ::
  "'q stream_cmds \<Rightarrow> writer_env \<Rightarrow> writer_cfg \<Rightarrow> string \<Rightarrow> rat \<Rightarrow> rat \<Rightarrow> pg_fate \<Rightarrow> string \<Rightarrow> writer_state \<times> wdb \<times> 'q \<Rightarrow>
     writer_state \<times> wdb \<times> 'q" where
  "last_drain Q env cfg consumer now later fate error st =
     (let (w, db, q) = st
      in (case read_streams Q cfg consumer now None q of
            (None, q1) \<Rightarrow> (w\<lparr>ws_alive := False\<rparr>, db, q1)
          | (Some batch, q1) \<Rightarrow> process Q env cfg later fate error batch (w, db, q1)))"

subsection \<open>Writers and publishers together\<close>

text \<open>
  A consumer holds the messages it has read, then, once its transaction is over, the messages to settle. \<open>pl_log\<close> is
  a ghost, the events applied with their times, and so is \<open>pl_seen\<close>, the entries that were ever in a stream.
\<close>

datatype hand = Collecting "msg list" | Settling bool "msg list"

record 'q plant =
  pl_q :: 'q
  pl_db :: wdb
  pl_now :: rat
  pl_hands :: "string \<Rightarrow> hand"
  pl_retention :: "string \<Rightarrow> rat"
  pl_log :: "(rat \<times> pydict) list"
  pl_seen :: "(string \<times> nat \<times> string option) set"

definition live_entries :: "stream_view \<Rightarrow> (string \<times> nat \<times> string option) set" where
  "live_entries v = {(s, i, raw). \<exists>e \<in> set (sv_entries v s). se_id e = i \<and> se_raw e = raw \<and> se_state e \<noteq> Acked}"

definition grab :: "('q \<Rightarrow> stream_view) \<Rightarrow> string \<Rightarrow> hand \<Rightarrow> 'q \<Rightarrow> 'q plant \<Rightarrow> 'q plant" where
  "grab V c h q p = p\<lparr>pl_q := q, pl_hands := (pl_hands p)(c := h), pl_seen := pl_seen p \<union> live_entries (V q)\<rparr>"

inductive plant_step ::
  "'q stream_cmds \<Rightarrow> ('q \<Rightarrow> stream_view) \<Rightarrow> writer_env \<Rightarrow> writer_cfg \<Rightarrow> 'q plant \<Rightarrow> 'q plant \<Rightarrow> bool"
  for Q V env cfg where
  tick: "pl_now p \<le> t \<Longrightarrow> plant_step Q V env cfg p (p\<lparr>pl_now := t\<rparr>)"
| add: "sc_add Q (pl_q p) s raw = (ok, q) \<Longrightarrow> plant_step Q V env cfg p (grab V c (pl_hands p c) q p)"
| read_some: "pl_hands p c = Collecting ms \<Longrightarrow> read_streams Q cfg c (pl_now p) asked (pl_q p) = (Some out, q) \<Longrightarrow>
    plant_step Q V env cfg p (grab V c (Collecting (ms @ out)) q p)"
| read_raises: "pl_hands p c = Collecting ms \<Longrightarrow> read_streams Q cfg c (pl_now p) asked (pl_q p) = (None, q) \<Longrightarrow>
    plant_step Q V env cfg p (grab V c (Collecting []) q p)"
| reclaim: "pl_hands p c = Collecting ms \<Longrightarrow> reclaim_stream Q cfg c (pl_now p) s (ms, pl_q p) = (out, q) \<Longrightarrow>
    plant_step Q V env cfg p (grab V c (Collecting out) q p)"
| commit: "pl_hands p c = Collecting ms \<Longrightarrow> ms \<noteq> [] \<Longrightarrow>
    transact env cfg (pl_now p) (pl_retention p c) (map (snd \<circ> snd) ms) (pl_db p) = Some (accepted, db, retention) \<Longrightarrow>
    plant_step Q V env cfg p (p\<lparr>pl_db := db, pl_retention := (pl_retention p)(c := retention),
      pl_hands := (pl_hands p)(c := Settling acknowledged ms), pl_log := pl_log p @ map (Pair (pl_now p)) accepted\<rparr>)"
| roll_back: "pl_hands p c = Collecting ms \<Longrightarrow>
    plant_step Q V env cfg p (p\<lparr>pl_retention := (pl_retention p)(c := retention), pl_hands := (pl_hands p)(c := Settling False ms)\<rparr>)"
| settle: "pl_hands p c = Settling committed ms \<Longrightarrow>
    plant_step Q V env cfg p (grab V c (Collecting []) (settle Q cfg error committed ms (pl_q p)) p)"
| crash: "plant_step Q V env cfg p (p\<lparr>pl_hands := (pl_hands p)(c := Collecting []), pl_retention := (pl_retention p)(c := 0)\<rparr>)"

definition plant_start :: "('q \<Rightarrow> stream_view) \<Rightarrow> 'q \<Rightarrow> wdb \<Rightarrow> rat \<Rightarrow> 'q plant" where
  "plant_start V q db now = \<lparr>pl_q = q, pl_db = db, pl_now = now, pl_hands = (\<lambda>c. Collecting []), pl_retention = (\<lambda>c. 0),
     pl_log = [], pl_seen = live_entries (V q)\<rparr>"

definition sound_view :: "stream_view \<Rightarrow> bool" where
  "sound_view v \<longleftrightarrow> (\<forall>s. distinct (map se_id (sv_entries v s)) \<and> (\<forall>e \<in> set (sv_entries v s). se_id e \<le> sv_last v s))"

inductive plant_reachable ::
  "'q stream_cmds \<Rightarrow> ('q \<Rightarrow> stream_view) \<Rightarrow> writer_env \<Rightarrow> writer_cfg \<Rightarrow> wdb \<Rightarrow> 'q plant \<Rightarrow> bool"
  for Q V env cfg db where
  start: "sound_view (V q) \<Longrightarrow> plant_reachable Q V env cfg db (plant_start V q db now)"
| step: "plant_reachable Q V env cfg db p \<Longrightarrow> plant_step Q V env cfg p p' \<Longrightarrow> plant_reachable Q V env cfg db p'"

end
