(* ===== verification/Writer_Theorems.thy ===== *)
theory Writer_Theorems
  imports Writer_Loop
begin

text \<open>
  The event queue and its writer: an event is applied once, none is lost, and the usage totals count the applied events.
\<close>

subsection \<open>The inbox\<close>

definition inbox_row_of :: "rat \<Rightarrow> pydict \<Rightarrow> inbox_row" where
  "inbox_row_of now e = \<lparr>ib_id = event_key e, ib_kind = str_or (dget e ''kind'') ''unknown'', ib_at = now\<rparr>"

lemma inbox_row_of_sel [simp]: "ib_id (inbox_row_of now e) = event_key e" "ib_at (inbox_row_of now e) = now"
  by (simp_all add: inbox_row_of_def)

lemma insert_inbox_spec:
  assumes "insert_inbox now es ib = (acc, ib')"
  shows "ib' = ib @ map (inbox_row_of now) acc \<and> distinct (map event_key acc) \<and> event_key ` set acc \<inter> ib_id ` set ib = {} \<and>
    set acc \<subseteq> set es \<and> (\<forall>e \<in> set es. event_key e \<noteq> [] \<longrightarrow> event_key e \<in> ib_id ` set ib')"
  using assms
proof (induction es arbitrary: ib acc)
  case (Cons e es)
  show ?case
  proof (cases "event_key e = [] \<or> event_key e \<in> ib_id ` set ib")
    case True
    then have "insert_inbox now es ib = (acc, ib')" using Cons.prems by (auto simp: Let_def)
    from Cons.IH [OF this] True show ?thesis by auto
  next
    case False
    then obtain acc1 where a: "insert_inbox now es (ib @ [inbox_row_of now e]) = (acc1, ib')" "acc = e # acc1"
      using Cons.prems by (auto simp: Let_def inbox_row_of_def split: prod.splits)
    from Cons.IH [OF a(1)] a(2) False show ?thesis by auto
  qed
qed simp

lemma apply_usage_inbox: "apply_usage env now es db = Some (n, db') \<Longrightarrow> db_inbox db' = db_inbox db"
proof -
  have d: "insert_details env ds db = Some db' \<Longrightarrow> db_inbox db' = db_inbox db" for ds db db'
    by (induction ds arbitrary: db) (auto simp: insert_detail_def bind_eq_Some_conv split: if_splits)
  have a: "db_inbox (fold charge_account gs db) = db_inbox db" for gs db
    by (induction gs arbitrary: db) (auto simp: charge_account_def)
  have k: "db_inbox (fold charge_key gs db) = db_inbox db" for gs db
    by (induction gs arbitrary: db) (auto simp: charge_key_def)
  assume "apply_usage env now es db = Some (n, db')"
  then show ?thesis by (auto simp: apply_usage_def bind_eq_Some_conv Let_def a k dest!: d)
qed

definition kept_for :: "writer_cfg \<Rightarrow> rat" where
  "kept_for cfg = 2 * (of_nat (wc_days cfg) * 86400)"

lemma transact_inbox:
  assumes "transact env cfg now retention es db = Some (acc, db', retention')"
  shows "distinct (map event_key acc)" "event_key ` set acc \<inter> ib_id ` set (db_inbox db) = {}" "set acc \<subseteq> set es"
    "set (db_inbox db') \<subseteq> set (db_inbox db) \<union> inbox_row_of now ` set acc"
    "\<And>r. r \<in> set (db_inbox db) \<union> inbox_row_of now ` set acc \<Longrightarrow> r \<in> set (db_inbox db') \<or> ib_at r < now - kept_for cfg"
    "\<And>e. e \<in> set es \<Longrightarrow> event_key e \<noteq> [] \<Longrightarrow> event_key e \<in> ib_id ` set (db_inbox db) \<union> event_key ` set acc"
proof -
  obtain ib' where i: "insert_inbox now es (db_inbox db) = (acc, ib')"
    using assms by (auto simp: transact_def bind_eq_Some_conv Let_def split: prod.splits if_splits)
  note s = insert_inbox_spec [OF i]
  obtain db2 where d: "db_inbox db2 = ib'" "db' = db2 \<or> db' = prune cfg now db2"
    using assms i by (auto simp: transact_def bind_eq_Some_conv Let_def dest!: apply_usage_inbox split: if_splits)
  then have f: "db_inbox db' = ib' \<or> db_inbox db' = filter (\<lambda>r. now - kept_for cfg \<le> ib_at r) ib'"
    by (auto simp: prune_def Let_def kept_for_def)
  from s show "distinct (map event_key acc)" "event_key ` set acc \<inter> ib_id ` set (db_inbox db) = {}" "set acc \<subseteq> set es" by auto
  from s f show "set (db_inbox db') \<subseteq> set (db_inbox db) \<union> inbox_row_of now ` set acc" by auto
  show "r \<in> set (db_inbox db) \<union> inbox_row_of now ` set acc \<Longrightarrow> r \<in> set (db_inbox db') \<or> ib_at r < now - kept_for cfg" for r
    using s f by auto
  show "e \<in> set es \<Longrightarrow> event_key e \<noteq> [] \<Longrightarrow> event_key e \<in> ib_id ` set (db_inbox db) \<union> event_key ` set acc" for e
    using s by force
qed

subsection \<open>Applied once\<close>

definition remembered :: "writer_cfg \<Rightarrow> 'q plant \<Rightarrow> rat \<times> pydict \<Rightarrow> bool" where
  "remembered cfg p x \<longleftrightarrow> fst x \<le> pl_now p \<and>
     (fst x < pl_now p - kept_for cfg \<or> (\<exists>r \<in> set (db_inbox (pl_db p)). ib_id r = event_key (snd x) \<and> fst x \<le> ib_at r))"

definition apart :: "writer_cfg \<Rightarrow> rat \<times> pydict \<Rightarrow> rat \<times> pydict \<Rightarrow> bool" where
  "apart cfg x y \<longleftrightarrow> (event_key (snd x) = event_key (snd y) \<longrightarrow> kept_for cfg < fst y - fst x)"

definition once :: "writer_cfg \<Rightarrow> 'q plant \<Rightarrow> bool" where
  "once cfg p \<longleftrightarrow> (\<forall>x \<in> set (pl_log p). remembered cfg p x) \<and> sorted_wrt (apart cfg) (pl_log p)"

lemma grab_sel [simp]:
  "pl_log (grab V c h q p) = pl_log p" "pl_db (grab V c h q p) = pl_db p" "pl_now (grab V c h q p) = pl_now p"
  "pl_q (grab V c h q p) = q" "pl_hands (grab V c h q p) = (pl_hands p)(c := h)"
  "pl_seen (grab V c h q p) = pl_seen p \<union> live_entries (V q)"
  by (simp_all add: grab_def)

lemma once_commit:
  assumes "once cfg p" "transact env cfg (pl_now p) ret es (pl_db p) = Some (acc, db, ret')"
  shows "once cfg (p\<lparr>pl_db := db, pl_retention := rs, pl_hands := hs, pl_log := pl_log p @ map (Pair (pl_now p)) acc\<rparr>)" (is "once cfg ?p")
proof -
  note t = transact_inbox [OF assms(2)]
  have rem: "remembered cfg ?p x" if "x \<in> set (pl_log p)" for x
  proof -
    from assms(1) that have "remembered cfg p x" by (simp add: once_def)
    then consider "fst x < pl_now p - kept_for cfg" "fst x \<le> pl_now p"
      | r where "r \<in> set (db_inbox (pl_db p))" "ib_id r = event_key (snd x)" "fst x \<le> ib_at r" "fst x \<le> pl_now p"
      by (auto simp: remembered_def)
    then show ?thesis
    proof cases
      case 2
      with t(5) [of r] show ?thesis by (auto simp: remembered_def)
    qed (simp add: remembered_def)
  qed
  have new: "remembered cfg ?p (pl_now p, a)" if "a \<in> set acc" for a
    using t(5) [of "inbox_row_of (pl_now p) a"] that by (force simp: remembered_def)
  have old: "apart cfg x (pl_now p, a)" if "x \<in> set (pl_log p)" "a \<in> set acc" for x a
  proof -
    from assms(1) that(1) have "remembered cfg p x" by (simp add: once_def)
    moreover have "event_key a \<notin> ib_id ` set (db_inbox (pl_db p))" using t(2) that(2) by auto
    ultimately show ?thesis by (auto simp: remembered_def apart_def image_iff)
  qed
  have "sorted_wrt (apart cfg) (map (Pair (pl_now p)) acc)"
    using t(1) by (induction acc) (auto simp: apart_def image_iff)
  with rem new old assms(1) show ?thesis by (auto simp: once_def sorted_wrt_append)
qed

lemma once_step: "plant_step Q V env cfg p p' \<Longrightarrow> once cfg p \<Longrightarrow> once cfg p'"
proof (induction rule: plant_step.induct)
  case (tick p t)
  then show ?case by (fastforce simp: once_def remembered_def)
next
  case (commit p c ms accepted db retention acknowledged)
  then show ?case by (intro once_commit)
qed (auto simp: once_def remembered_def)

lemma once_reachable: "plant_reachable Q V env cfg db p \<Longrightarrow> once cfg p"
proof (induction rule: plant_reachable.induct)
  case (step p p')
  then show ?case by (blast intro: once_step)
qed (simp add: plant_start_def once_def)

text \<open>
  C26: an event is applied once: when two applied events carry the same id, more than twice the retention lies between
  them, whatever the writers, crashes, failed acknowledgements, redeliveries and repeated publications.
\<close>

theorem applied_once:
  assumes "plant_reachable Q V env cfg db p" "pl_log p = xs @ (t, e) # ys @ (t', e') # zs" "event_key e = event_key e'"
  shows "2 * of_nat (wc_days cfg) * 86400 < t' - t"
  using once_reachable [OF assms(1)] assms(2,3) by (auto simp: once_def sorted_wrt_append apart_def kept_for_def)


subsection \<open>What the commands leave in the streams\<close>

definition buried :: "stream_view \<Rightarrow> (string \<times> nat) set" where
  "buried v = (\<lambda>d. (dl_stream d, dl_id d)) ` set (sv_dead v)"

definition drops :: "(string \<times> nat) set \<Rightarrow> stream_view \<Rightarrow> stream_view \<Rightarrow> bool" where
  "drops S v w \<longleftrightarrow> live_entries w \<subseteq> live_entries v \<and> (\<forall>s i raw. (s, i, raw) \<in> live_entries v \<longrightarrow> (s, i, raw) \<in> live_entries w \<or> (s, i) \<in> S) \<and>
     set (sv_dead v) \<subseteq> set (sv_dead w) \<and> sv_last w = sv_last v \<and> (sound_view v \<longrightarrow> sound_view w)"

lemma drops_refl [simp]: "drops S v v"
  by (simp add: drops_def)

lemma drops_trans: "drops S v w \<Longrightarrow> drops T w u \<Longrightarrow> drops (S \<union> T) v u"
  unfolding drops_def by (simp, blast)

lemma drops_mono: "drops S v w \<Longrightarrow> S \<subseteq> T \<Longrightarrow> drops T v w"
  unfolding drops_def by blast

lemma buried_mono: "drops S v w \<Longrightarrow> buried v \<subseteq> buried w"
  unfolding drops_def buried_def by blast

lemma drops_map:
  assumes "\<And>e. se_id (f e) = se_id e \<and> se_raw (f e) = se_raw e" "\<And>e. se_state e = Acked \<Longrightarrow> se_state (f e) = Acked"
    "\<And>e. se_state e \<noteq> Acked \<Longrightarrow> se_state (f e) = Acked \<Longrightarrow> (s, se_id e) \<in> S"
  shows "drops S v (change s (map f) v)"
proof -
  have "se_id \<circ> f = se_id" using assms(1) by auto
  then have "sound_view v \<Longrightarrow> sound_view (change s (map f) v)" using assms(1) by (auto simp: sound_view_def change_def)
  moreover have "live_entries (change s (map f) v) \<subseteq> live_entries v"
    using assms(1,2) by (force simp: live_entries_def change_def split: if_splits)
  moreover have "(t, i, raw) \<in> live_entries (change s (map f) v) \<or> (t, i) \<in> S" if "(t, i, raw) \<in> live_entries v" for t i raw
  proof -
    from that obtain e where e: "e \<in> set (sv_entries v t)" "se_id e = i" "se_raw e = raw" "se_state e \<noteq> Acked" by (auto simp: live_entries_def)
    show ?thesis
    proof (cases "t = s")
      case True
      then have "f e \<in> set (sv_entries (change s (map f) v) t)" using e(1) by (simp add: change_def)
      then show ?thesis using e assms(1) [of e] assms(3) [of e] True by (auto simp: live_entries_def)
    qed (use e in \<open>auto simp: live_entries_def change_def\<close>)
  qed
  ultimately show ?thesis by (simp add: drops_def change_def)
qed

lemma drops_deliver: "drops S v (deliver c now ids s v)"
  unfolding deliver_def by (rule drops_map) (auto split: if_splits)

lemma drops_deliver_new: "drops {} v (deliver_new c now n v)"
proof -
  have "drops {} v (fold (\<lambda>s. deliver c now (ids s) s) ss v)" for ids ss v
  proof (induction ss arbitrary: v)
    case (Cons s ss)
    from drops_trans [OF drops_deliver [of "{}"] Cons.IH [of "deliver c now (ids s) s v"]] show ?case by simp
  qed simp
  then show ?thesis unfolding deliver_new_def .
qed

lemma drops_ack_ids: "drops (Pair s ` set ids) v (ack_ids s ids v)"
  unfolding ack_ids_def by (rule drops_map) (auto split: if_splits)

lemma drops_del_ids: "drops (Pair s ` set ids) v (del_ids s ids v)"
  by (auto simp: drops_def del_ids_def change_def live_entries_def sound_view_def distinct_map_filter split: if_splits)

lemma drops_dead: "drops {} v (v\<lparr>sv_dead := sv_dead v @ [d]\<rparr>)"
  by (auto simp: drops_def live_entries_def sound_view_def)

lemma executed_drops: "executed ok v v' w \<Longrightarrow> drops S v v' \<Longrightarrow> drops S v w"
  by (auto simp: executed_def)

lemma stream_law:
  assumes "stream_laws Q V"
  shows "\<exists>i > sv_last (V q) s. executed (fst (sc_add Q q s raw)) (V q) (append_entry s i raw (V q)) (V (snd (sc_add Q q s raw)))"
    "sc_read Q t q c n = (rows, q') \<Longrightarrow>
       V q' \<in> {V q, deliver_new c t n (V q)} \<and> (rows \<noteq> None \<longrightarrow> rows = Some (new_rows (V q) n) \<and> V q' = deliver_new c t n (V q))"
    "sc_claim Q t q s c idle n = (ms, q') \<Longrightarrow>
       \<exists>es. length es \<le> n \<and> set es \<subseteq> set (filter (idle_for t idle) (sv_entries (V q) s)) \<and>
         V q' \<in> {V q, deliver c t (se_id ` set es) s (V q)} \<and> (ms \<noteq> None \<longrightarrow> ms = Some (map fields_of es))"
    "sc_ack Q q s ids = (ok, q') \<Longrightarrow> executed ok (V q) (ack_ids s ids (V q)) (V q')"
    "sc_del Q q s ids = (ok, q') \<Longrightarrow> executed ok (V q) (del_ids s ids (V q)) (V q')"
    "sc_pending Q q s i = (m, q') \<Longrightarrow> V q' = V q"
    "sc_dead Q q d = (ok, q') \<Longrightarrow> executed ok (V q) (V q\<lparr>sv_dead := sv_dead (V q) @ [d]\<rparr>) (V q')"
proof -
  note l = assms [unfolded stream_laws_def]
  note l4 = conjunct2 [OF conjunct2 [OF conjunct2 [OF l]]]
  show "\<exists>i > sv_last (V q) s. executed (fst (sc_add Q q s raw)) (V q) (append_entry s i raw (V q)) (V (snd (sc_add Q q s raw)))"
    using conjunct1 [OF l] by simp
  show "sc_read Q t q c n = (rows, q') \<Longrightarrow>
       V q' \<in> {V q, deliver_new c t n (V q)} \<and> (rows \<noteq> None \<longrightarrow> rows = Some (new_rows (V q) n) \<and> V q' = deliver_new c t n (V q))"
    using conjunct1 [OF conjunct2 [OF l], THEN spec, of t, THEN spec, of q, THEN spec, of c, THEN spec, of n] by (auto split: option.splits)
  show "sc_claim Q t q s c idle n = (ms, q') \<Longrightarrow>
       \<exists>es. length es \<le> n \<and> set es \<subseteq> set (filter (idle_for t idle) (sv_entries (V q) s)) \<and>
         V q' \<in> {V q, deliver c t (se_id ` set es) s (V q)} \<and> (ms \<noteq> None \<longrightarrow> ms = Some (map fields_of es))"
    using conjunct1 [OF conjunct2 [OF conjunct2 [OF l]], THEN spec, of t, THEN spec, of q, THEN spec, of s, THEN spec, of c,
        THEN spec, of idle, THEN spec, of n] by (cases ms) fastforce+
  show "sc_ack Q q s ids = (ok, q') \<Longrightarrow> executed ok (V q) (ack_ids s ids (V q)) (V q')" using conjunct1 [OF l4] by (metis fst_conv snd_conv)
  show "sc_del Q q s ids = (ok, q') \<Longrightarrow> executed ok (V q) (del_ids s ids (V q)) (V q')" using conjunct1 [OF conjunct2 [OF l4]] by (metis fst_conv snd_conv)
  show "sc_pending Q q s i = (m, q') \<Longrightarrow> V q' = V q" using conjunct1 [OF conjunct2 [OF conjunct2 [OF l4]]] by (metis snd_conv)
  show "sc_dead Q q d = (ok, q') \<Longrightarrow> executed ok (V q) (V q\<lparr>sv_dead := sv_dead (V q) @ [d]\<rparr>) (V q')" using conjunct2 [OF conjunct2 [OF conjunct2 [OF l4]]] by (metis fst_conv snd_conv)
qed

lemma ack_drops: "stream_laws Q V \<Longrightarrow> sc_ack Q q s ids = (ok, q') \<Longrightarrow> drops (Pair s ` set ids) (V q) (V q')"
  by (metis stream_law(4) drops_ack_ids executed_drops)

lemma del_drops: "stream_laws Q V \<Longrightarrow> sc_del Q q s ids = (ok, q') \<Longrightarrow> drops (Pair s ` set ids) (V q) (V q')"
  by (metis stream_law(5) drops_del_ids executed_drops)

lemma move_drops:
  assumes "stream_laws Q V" "move_to_dlq Q s i event error q = (ok, q')"
  shows "drops {} (V q) (V q')" "ok \<Longrightarrow> (s, i) \<in> buried (V q')"
proof -
  obtain d where d: "executed ok (V q) (V q\<lparr>sv_dead := sv_dead (V q) @ [d]\<rparr>) (V q')" "dl_stream d = s" "dl_id d = i"
    using stream_law(7) [OF assms(1) assms(2) [unfolded move_to_dlq_def]] by simp
  then show "drops {} (V q) (V q')" by (metis drops_dead executed_drops)
  show "ok \<Longrightarrow> (s, i) \<in> buried (V q')" using d by (force simp: executed_def buried_def)
qed

text \<open>Nothing leaves a stream but what is among the dead letters.\<close>

definition to_dead :: "stream_view \<Rightarrow> stream_view \<Rightarrow> bool" where
  "to_dead v w \<longleftrightarrow> drops (buried w) v w"

lemma to_dead_refl [simp]: "to_dead v v"
  by (simp add: to_dead_def)

lemma to_dead_trans: "to_dead v w \<Longrightarrow> to_dead w u \<Longrightarrow> to_dead v u"
  unfolding to_dead_def by (metis buried_mono drops_trans Un_absorb1)

lemma drops_to_dead: "drops {} v w \<Longrightarrow> to_dead v w"
  unfolding to_dead_def by (blast intro: drops_mono)

lemma dropped_dead:
  assumes "stream_laws Q V" "(s, i) \<in> buried (V q1)" "sc_ack Q q1 s [i] = (b, q2)"
  shows "to_dead (V q1) (V q2)" "sc_del Q q2 s [i] = (b', q3) \<Longrightarrow> to_dead (V q1) (V q3)"
proof -
  have a: "drops {(s, i)} (V q1) (V q2)" using ack_drops [OF assms(1,3)] by simp
  then show t: "to_dead (V q1) (V q2)"
    using assms(2) buried_mono [OF a] unfolding to_dead_def by (blast intro: drops_mono)
  assume "sc_del Q q2 s [i] = (b', q3)"
  then have d: "drops {(s, i)} (V q2) (V q3)" using del_drops [OF assms(1)] by fastforce
  then have "to_dead (V q2) (V q3)"
    using assms(2) buried_mono [OF a] buried_mono [OF d] unfolding to_dead_def by (blast intro: drops_mono)
  with t show "to_dead (V q1) (V q3)" by (rule to_dead_trans)
qed

lemma sort_message_dead:
  assumes "stream_laws Q V" "sort_message Q careful error s m (out, q) = (fine, out', q')"
  shows "to_dead (V q) (V q') \<and> (\<exists>new. out' = out @ new \<and> length new \<le> 1 \<and>
    (\<forall>x \<in> set new. \<exists>e. x = (s, fst m, e) \<and> decode_message (snd m) = Some e))"
proof (cases "decode_message (snd m)")
  case None
  obtain moved q1 where m: "move_to_dlq Q s (fst m) None error q = (moved, q1)" by fastforce
  note d = move_drops [OF assms(1) m]
  obtain acked q2 where a: "sc_ack Q q1 s [fst m] = (acked, q2)" by fastforce
  obtain deleted q3 where l: "sc_del Q q2 s [fst m] = (deleted, q3)" by fastforce
  have "to_dead (V q) (V q1)" using d(1) by (rule drops_to_dead)
  moreover have "to_dead (V q1) (V q2)" "to_dead (V q1) (V q3)" if moved
    using dropped_dead [OF assms(1) d(2) [OF that] a] l by auto
  ultimately show ?thesis
    using assms(2) None m a l by (auto simp: sort_message_def split: if_splits intro: to_dead_trans)
qed (use assms(2) in \<open>auto simp: sort_message_def\<close>)

lemma sort_messages_dead:
  assumes "stream_laws Q V" "sort_messages Q careful error s ms (out, q) = (fine, out', q')"
  shows "to_dead (V q) (V q') \<and> (\<exists>new. out' = out @ new \<and> length new \<le> length ms \<and>
    (\<forall>x \<in> set new. \<exists>i raw e. x = (s, i, e) \<and> (i, raw) \<in> set ms \<and> decode_message raw = Some e))"
  using assms(2)
proof (induction ms arbitrary: out q)
  case (Cons m ms)
  obtain f1 out1 q1 where s: "sort_message Q careful error s m (out, q) = (f1, out1, q1)" by (metis prod_cases3)
  obtain n1 where n1: "out1 = out @ n1" "length n1 \<le> 1" "to_dead (V q) (V q1)"
      "\<forall>x \<in> set n1. \<exists>e. x = (s, fst m, e) \<and> decode_message (snd m) = Some e"
    using sort_message_dead [OF assms(1) s] by blast
  show ?case
  proof (cases f1)
    case True
    with Cons.prems s have "sort_messages Q careful error s ms (out1, q1) = (fine, out', q')" by simp
    from Cons.IH [OF this] obtain n2 where n2: "to_dead (V q1) (V q')" "out' = out1 @ n2" "length n2 \<le> length ms"
        "\<forall>x \<in> set n2. \<exists>i raw e. x = (s, i, e) \<and> (i, raw) \<in> set ms \<and> decode_message raw = Some e" by blast
    have "\<forall>x \<in> set (n1 @ n2). \<exists>i raw e. x = (s, i, e) \<and> (i, raw) \<in> set (m # ms) \<and> decode_message raw = Some e"
      using n1(4) n2(4) by (fastforce simp: prod_eq_iff)
    then show ?thesis using n1 n2 to_dead_trans by (intro conjI exI [of _ "n1 @ n2"]) auto
  next
    case False
    with Cons.prems s have e: "out' = out1" "q' = q1" by auto
    have "\<forall>x \<in> set n1. \<exists>i raw e. x = (s, i, e) \<and> (i, raw) \<in> set (m # ms) \<and> decode_message raw = Some e"
      using n1(4) by (fastforce simp: prod_eq_iff)
    then show ?thesis using n1 e by auto
  qed
qed simp

lemma sort_rows_dead:
  assumes "stream_laws Q V" "sort_rows Q rows (out, q) = (fine, out', q')"
  shows "to_dead (V q) (V q') \<and> (\<exists>new. out' = out @ new \<and> length new \<le> sum_list (map (\<lambda>row. length (snd row)) rows) \<and>
    (\<forall>x \<in> set new. \<exists>s i raw e ms. x = (s, i, e) \<and> (s, ms) \<in> set rows \<and> (i, raw) \<in> set ms \<and> decode_message raw = Some e))"
  using assms(2)
proof (induction rows arbitrary: out q)
  case (Cons row rows)
  obtain f1 out1 q1 where s: "sort_messages Q True ''invalid_event'' (fst row) (snd row) (out, q) = (f1, out1, q1)" by (metis prod_cases3)
  obtain n1 where n1: "out1 = out @ n1" "length n1 \<le> length (snd row)" "to_dead (V q) (V q1)"
      "\<forall>x \<in> set n1. \<exists>i raw e. x = (fst row, i, e) \<and> (i, raw) \<in> set (snd row) \<and> decode_message raw = Some e"
    using sort_messages_dead [OF assms(1) s] by blast
  have m: "\<forall>x \<in> set n1. \<exists>s i raw e ms. x = (s, i, e) \<and> (s, ms) \<in> set (row # rows) \<and> (i, raw) \<in> set ms \<and> decode_message raw = Some e"
    using n1(4) by (metis list.set_intros(1) prod.collapse)
  show ?case
  proof (cases f1)
    case True
    with Cons.prems s have "sort_rows Q rows (out1, q1) = (fine, out', q')" by simp
    from Cons.IH [OF this] obtain n2 where n2: "to_dead (V q1) (V q')" "out' = out1 @ n2"
        "length n2 \<le> sum_list (map (\<lambda>row. length (snd row)) rows)"
        "\<forall>x \<in> set n2. \<exists>s i raw e ms. x = (s, i, e) \<and> (s, ms) \<in> set rows \<and> (i, raw) \<in> set ms \<and> decode_message raw = Some e" by blast
    have "\<forall>x \<in> set (n1 @ n2). \<exists>s i raw e ms. x = (s, i, e) \<and> (s, ms) \<in> set (row # rows) \<and> (i, raw) \<in> set ms \<and> decode_message raw = Some e"
      using m n2(4) by (metis Un_iff list.set_intros(2) set_append)
    then show ?thesis using n1 n2 to_dead_trans by (intro conjI exI [of _ "n1 @ n2"]) auto
  next
    case False
    with Cons.prems s have "out' = out1" "q' = q1" by auto
    then show ?thesis using n1 m by auto
  qed
qed simp

lemma new_rows_live:
  assumes "(s, ms) \<in> set (new_rows v n)" "(i, raw) \<in> set ms" shows "(s, i, raw) \<in> live_entries v"
proof -
  from assms obtain e where e: "e \<in> set (take n (waiting v s))" "i = se_id e" "raw = se_raw e" by (auto simp: new_rows_def fields_of_def split: if_splits)
  from e(1) have "e \<in> set (waiting v s)" by (rule in_set_takeD)
  then show ?thesis unfolding live_entries_def using e(2,3) by (auto simp: waiting_def)
qed

lemma read_dead:
  assumes "stream_laws Q V" "read_streams Q cfg c now asked q = (out, q')"
  shows "to_dead (V q) (V q')" "out = Some ms \<Longrightarrow> (s, i, e) \<in> set ms \<Longrightarrow> \<exists>raw. (s, i, raw) \<in> live_entries (V q) \<and> decode_message raw = Some e"
    "out = Some ms \<Longrightarrow> length ms \<le> 3 * read_count cfg asked"
proof -
  let ?n = "read_count cfg asked"
  obtain rows q1 where r: "sc_read Q now q c ?n = (rows, q1)" by fastforce
  note l = stream_law(2) [OF assms(1) r]
  have d: "to_dead (V q) (V q1)" using l drops_deliver_new by (auto intro: drops_to_dead)
  have "to_dead (V q) (V q') \<and> (\<forall>ms s i e. out = Some ms \<longrightarrow>
      ((s, i, e) \<in> set ms \<longrightarrow> (\<exists>raw. (s, i, raw) \<in> live_entries (V q) \<and> decode_message raw = Some e)) \<and> length ms \<le> 3 * ?n)"
  proof (cases rows)
    case None
    then show ?thesis using assms(2) r d by (auto simp: read_streams_def)
  next
    case (Some rs)
    then have rs: "rs = new_rows (V q) ?n" using l by simp
    have three: "sum_list (map (\<lambda>row. length (snd row)) rs) \<le> 3 * ?n" by (auto simp: rs new_rows_def STREAM_KINDS_def)
    obtain fine out1 q2 where s: "sort_rows Q rs ([], q1) = (fine, out1, q2)" by (metis prod_cases3)
    note sd = sort_rows_dead [OF assms(1) s]
    have "q' = q2" "out = (if fine then Some out1 else None)" using assms(2) r Some s by (auto simp: read_streams_def split: if_splits)
    moreover have "\<exists>raw. (s, i, raw) \<in> live_entries (V q) \<and> decode_message raw = Some e" if "(s, i, e) \<in> set out1" for s i e
      using sd that new_rows_live unfolding rs by fastforce
    ultimately show ?thesis using sd three d to_dead_trans by (auto split: if_splits)
  qed
  then show "to_dead (V q) (V q')" "out = Some ms \<Longrightarrow> (s, i, e) \<in> set ms \<Longrightarrow> \<exists>raw. (s, i, raw) \<in> live_entries (V q) \<and> decode_message raw = Some e"
    "out = Some ms \<Longrightarrow> length ms \<le> 3 * read_count cfg asked" by blast+
qed

lemma reclaim_dead:
  assumes "stream_laws Q V" "reclaim_stream Q cfg c now s (out, q) = (out', q')"
  shows "to_dead (V q) (V q') \<and> (\<exists>new. out' = out @ new \<and> length out' \<le> max (length out) (wc_batch cfg) \<and>
    (\<forall>(t, i, e) \<in> set new. \<exists>raw. (t, i, raw) \<in> live_entries (V q) \<and> decode_message raw = Some e))"
proof (cases "wc_batch cfg \<le> length out")
  case False
  let ?n = "min 100 (wc_batch cfg - length out)"
  obtain ms q1 where r: "sc_claim Q now q s c (min_idle cfg) ?n = (ms, q1)" by fastforce
  obtain es where es: "length es \<le> ?n" "set es \<subseteq> set (filter (idle_for now (min_idle cfg)) (sv_entries (V q) s))"
      "V q1 \<in> {V q, deliver c now (se_id ` set es) s (V q)}" "ms \<noteq> None \<longrightarrow> ms = Some (map fields_of es)"
    using stream_law(3) [OF assms(1) r] by blast
  have d: "to_dead (V q) (V q1)" using es(3) drops_deliver by (auto intro: drops_to_dead)
  show ?thesis
  proof (cases ms)
    case None
    then show ?thesis using assms(2) r d False by (auto simp: reclaim_stream_def)
  next
    case (Some m)
    then have m: "m = map fields_of es" using es(4) by simp
    obtain fine out1 q2 where t: "sort_messages Q False ''invalid_reclaimed_event'' s m (out, q1) = (fine, out1, q2)" by (metis prod_cases3)
    have o: "out' = out1" "q' = q2" using assms(2) r Some t False by (auto simp: reclaim_stream_def)
    obtain new where new: "out1 = out @ new" "length new \<le> length m" "to_dead (V q1) (V q2)"
        "\<forall>x \<in> set new. \<exists>i raw e. x = (s, i, e) \<and> (i, raw) \<in> set m \<and> decode_message raw = Some e"
      using sort_messages_dead [OF assms(1) t] by blast
    have live_entries: "(s, i, raw) \<in> live_entries (V q)" if "(i, raw) \<in> set m" for i raw
    proof -
      from that obtain e where e: "e \<in> set es" "i = se_id e" "raw = se_raw e" by (auto simp: m fields_of_def)
      with es(2) have "e \<in> set (filter (idle_for now (min_idle cfg)) (sv_entries (V q) s))" by blast
      then have "e \<in> set (sv_entries (V q) s)" "se_state e \<noteq> Acked" by (auto split: delivery.splits)
      then show ?thesis unfolding live_entries_def using e by auto
    qed
    have "\<forall>(t, i, e) \<in> set new. \<exists>raw. (t, i, raw) \<in> live_entries (V q) \<and> decode_message raw = Some e"
    proof (clarify)
      fix t i e
      assume "(t, i, e) \<in> set new"
      with new(4) obtain i' raw e' where "(t, i, e) = (s, i', e')" "(i', raw) \<in> set m" "decode_message raw = Some e'" by blast
      then show "\<exists>raw. (t, i, raw) \<in> live_entries (V q) \<and> decode_message raw = Some e" using live_entries by blast
    qed
    moreover have "length out' \<le> max (length out) (wc_batch cfg)" using new(1,2) m es(1) False o by (auto simp: le_max_iff_disj)
    ultimately show ?thesis using new(1) o to_dead_trans [OF d new(3)] by blast
  qed
qed (use assms(2) in \<open>simp add: reclaim_stream_def\<close>)

subsection \<open>Settling\<close>

lemma bury_dead: "stream_laws Q V \<Longrightarrow> to_dead (V q) (V (bury Q cfg error m q))"
proof -
  assume l: "stream_laws Q V"
  obtain s i e where m: "m = (s, i, e)" by (metis prod_cases3)
  obtain n q1 where p: "pending_deliveries Q s i q = (n, q1)" by fastforce
  then have q1: "V q1 = V q" using stream_law(6) [OF l] by (auto simp: pending_deliveries_def split: prod.splits)
  obtain moved q2 where d: "move_to_dlq Q s i (Some e) error q1 = (moved, q2)" by fastforce
  obtain acked q3 where a: "sc_ack Q q2 s [i] = (acked, q3)" by fastforce
  obtain deleted q4 where k: "sc_del Q q3 s [i] = (deleted, q4)" by fastforce
  have "to_dead (V q) (V q2)" using move_drops(1) [OF l d] q1 by (auto intro: drops_to_dead)
  moreover have "to_dead (V q2) (V q3)" "to_dead (V q2) (V q4)" if moved
    using dropped_dead [OF l move_drops(2) [OF l d that] a] k by auto
  ultimately show ?thesis using m p d a k q1 by (auto simp: bury_def Let_def intro: to_dead_trans)
qed

lemma exhausted_dead: "stream_laws Q V \<Longrightarrow> to_dead (V q) (V (dead_letter_exhausted Q cfg error ms q))"
  unfolding dead_letter_exhausted_def
  by (induction ms arbitrary: q) (auto intro: to_dead_trans bury_dead)

lemma ack_streams_drops:
  "stream_laws Q V \<Longrightarrow> ack_streams Q gs q = (fine, q') \<Longrightarrow> drops {(s, i). \<exists>ids. (s, ids) \<in> set gs \<and> i \<in> set ids} (V q) (V q')"
proof (induction gs arbitrary: q)
  case (Cons g gs)
  obtain s ids where g: "g = (s, ids)" by fastforce
  obtain acked q1 where a: "sc_ack Q q s ids = (acked, q1)" by fastforce
  obtain deleted q2 where d: "sc_del Q q1 s ids = (deleted, q2)" by fastforce
  note ad = ack_drops [OF Cons.prems(1) a] and dd = del_drops [OF Cons.prems(1) d]
  consider "q' = q1" | "q' = q2" | "ack_streams Q gs q2 = (fine, q')" using Cons.prems(2) g a d by (auto split: if_splits)
  then show ?case
  proof cases
    case 3
    show ?thesis by (rule drops_mono [OF drops_trans [OF ad drops_trans [OF dd Cons.IH [OF Cons.prems(1) 3]]]]) (auto simp: g)
  next
    case 2
    show ?thesis using drops_trans [OF ad dd] unfolding 2 by (rule drops_mono) (auto simp: g)
  next
    case 1
    show ?thesis using ad unfolding 1 by (rule drops_mono) (auto simp: g)
  qed
qed simp

lemma upsert_at_keys: "(k', v') \<in> set (upsert_at k z f xs) \<Longrightarrow> (k', v') \<in> set xs \<or> (k' = k \<and> v' = f (case map_of xs k of Some v \<Rightarrow> v | None \<Rightarrow> z))"
  unfolding upsert_at_def by (induction xs) (auto split: if_splits)

lemma by_stream_ids: "(s, ids) \<in> set (by_stream ms acc) \<Longrightarrow> i \<in> set ids \<Longrightarrow> (\<exists>e. (s, i, e) \<in> set ms) \<or> (\<exists>ids. (s, ids) \<in> set acc \<and> i \<in> set ids)"
proof (induction ms acc rule: by_stream.induct)
  case (2 s' i' e' ms acc)
  from 2 consider e where "(s, i, e) \<in> set ms" | ids' where "(s, ids') \<in> set (upsert_at s' [] (\<lambda>ids. ids @ [i']) acc)" "i \<in> set ids'" by fastforce
  then show ?case
  proof cases
    case 2
    from upsert_at_keys [OF this(1)] this(2) show ?thesis by (cases "map_of acc s'") (force dest: map_of_SomeD)+
  qed auto
qed auto

definition msg_ids :: "msg list \<Rightarrow> (string \<times> nat) set" where
  "msg_ids ms = (\<lambda>(s, i, e). (s, i)) ` set ms"

lemma settle_drops:
  assumes "stream_laws Q V"
  shows "drops (buried (V (settle Q cfg error b ms q)) \<union> (if b then msg_ids ms else {})) (V q) (V (settle Q cfg error b ms q))"
proof (cases b)
  case True
  obtain fine q1 where a: "ack_streams Q (by_stream ms []) q = (fine, q1)" by fastforce
  have "drops (msg_ids ms) (V q) (V q1)"
    by (rule drops_mono [OF ack_streams_drops [OF assms a]]) (force simp: msg_ids_def dest: by_stream_ids)
  moreover have "settle Q cfg error b ms q = (if fine then q1 else dead_letter_exhausted Q cfg error ms q1)"
    using a True by (simp add: settle_def)
  ultimately show ?thesis
    using drops_trans [OF _ exhausted_dead [OF assms, of q1 cfg error ms, unfolded to_dead_def]] True
    by (auto simp: Un_commute intro: drops_mono)
next
  case False
  then show ?thesis using exhausted_dead [OF assms, of q cfg error ms] by (simp add: settle_def to_dead_def)
qed

subsection \<open>Nothing is lost\<close>

text \<open>The ids applied, or in the inbox before the start; an entry that is dealt with; the messages of a consumer.\<close>

definition known :: "wdb \<Rightarrow> 'q plant \<Rightarrow> string set" where
  "known db p = ib_id ` set (db_inbox db) \<union> (event_key \<circ> snd) ` set (pl_log p)"

definition dealt_with :: "('q \<Rightarrow> stream_view) \<Rightarrow> wdb \<Rightarrow> 'q plant \<Rightarrow> string \<times> nat \<times> string option \<Rightarrow> bool" where
  "dealt_with V db p x \<longleftrightarrow> x \<in> live_entries (V (pl_q p)) \<or> (fst x, fst (snd x)) \<in> buried (V (pl_q p)) \<or>
     (\<exists>e. decode_message (snd (snd x)) = Some e \<and> event_key e \<in> known db p)"

fun hand_msgs :: "hand \<Rightarrow> msg list" where
  "hand_msgs (Collecting ms) = ms"
| "hand_msgs (Settling b ms) = ms"

definition held_ok :: "string set \<Rightarrow> (string \<times> nat \<times> string option) set \<Rightarrow> hand \<Rightarrow> bool" where
  "held_ok K S h \<longleftrightarrow>
     (\<forall>(s, i, e) \<in> set (hand_msgs h). \<exists>raw. (s, i, raw) \<in> S \<and> decode_message raw = Some e) \<and>
     (case h of Settling True ms \<Rightarrow> (\<forall>(s, i, e) \<in> set ms. event_key e \<in> K) | _ \<Rightarrow> True)"

lemma held_ok_simps:
  "held_ok K S (Collecting ms) \<longleftrightarrow> (\<forall>(s, i, e) \<in> set ms. \<exists>raw. (s, i, raw) \<in> S \<and> decode_message raw = Some e)"
  "held_ok K S (Settling b ms) \<longleftrightarrow> held_ok K S (Collecting ms) \<and> (b \<longrightarrow> (\<forall>(s, i, e) \<in> set ms. event_key e \<in> K))"
  by (auto simp: held_ok_def split: bool.splits)

lemma held_ok_mono: "held_ok K S h \<Longrightarrow> K \<subseteq> K' \<Longrightarrow> S \<subseteq> S' \<Longrightarrow> held_ok K' S' h"
  by (cases h) (fastforce simp: held_ok_simps)+

definition tracked :: "('q \<Rightarrow> stream_view) \<Rightarrow> wdb \<Rightarrow> 'q plant \<Rightarrow> bool" where
  "tracked V db p \<longleftrightarrow> sound_view (V (pl_q p)) \<and> live_entries (V (pl_q p)) \<subseteq> pl_seen p \<and>
     (\<forall>s i raw. (s, i, raw) \<in> pl_seen p \<longrightarrow> i \<le> sv_last (V (pl_q p)) s) \<and>
     (\<forall>s i raw raw'. (s, i, raw) \<in> pl_seen p \<longrightarrow> (s, i, raw') \<in> pl_seen p \<longrightarrow> raw = raw') \<and>
     (\<forall>x \<in> pl_seen p. dealt_with V db p x) \<and> (\<forall>c. held_ok (known db p) (pl_seen p) (pl_hands p c)) \<and>
     ib_id ` set (db_inbox (pl_db p)) \<subseteq> known db p"

lemma trackedD:
  assumes "tracked V db p"
  shows "held_ok (known db p) (pl_seen p) (pl_hands p c)" "live_entries (V (pl_q p)) \<subseteq> pl_seen p"
    "ib_id ` set (db_inbox (pl_db p)) \<subseteq> known db p" "x \<in> pl_seen p \<Longrightarrow> dealt_with V db p x"
  using assms by (simp_all add: tracked_def)

lemma decoded_key: "decode_message raw = Some e \<Longrightarrow> event_key e \<noteq> []"
proof -
  assume "decode_message raw = Some e"
  then have t: "truthy (dget e ''event_id'')" by (auto simp: decode_message_def split: option.splits pyval.splits if_splits)
  have "py_str v \<noteq> []" if "truthy v" for v
    using that str_nat.simps by (cases v) (auto simp: str_int_def float_repr_def Let_def)
  with t show ?thesis by (simp add: event_key_def str_or_def)
qed

lemma tracked_grab:
  assumes "tracked V db p" "drops (buried (V q) \<union> S) (V (pl_q p)) (V q)" "held_ok (known db p) (pl_seen p) h"
    "\<forall>(s, i) \<in> S. \<exists>raw e. (s, i, raw) \<in> pl_seen p \<and> decode_message raw = Some e \<and> event_key e \<in> known db p"
  shows "tracked V db (grab V c h q p)"
proof -
  note t = assms(1) [unfolded tracked_def]
  have sub: "live_entries (V q) \<subseteq> live_entries (V (pl_q p))" and last: "sv_last (V q) = sv_last (V (pl_q p))" using assms(2) by (auto simp: drops_def)
  then have seen: "pl_seen (grab V c h q p) = pl_seen p" using t by auto
  have k: "known db (grab V c h q p) = known db p" by (simp add: known_def)
  have d: "dealt_with V db (grab V c h q p) (s, i, raw)" if x: "(s, i, raw) \<in> pl_seen p" for s i raw
  proof -
    from t x have "dealt_with V db p (s, i, raw)" by blast
    moreover have "dealt_with V db (grab V c h q p) (s, i, raw)" if "(s, i, raw) \<in> live_entries (V (pl_q p))"
    proof -
      from that assms(2) consider "(s, i, raw) \<in> live_entries (V q)" | "(s, i) \<in> buried (V q)" | "(s, i) \<in> S" unfolding drops_def by blast
      then show ?thesis
      proof cases
        case 3
        then obtain raw' e where "(s, i, raw') \<in> pl_seen p" "decode_message raw' = Some e" "event_key e \<in> known db p" using assms(4) by blast
        moreover from this x t have "raw' = raw" by blast
        ultimately show ?thesis by (auto simp: dealt_with_def k)
      qed (simp_all add: dealt_with_def)
    qed
    ultimately show ?thesis using buried_mono [OF assms(2)] unfolding dealt_with_def k by auto
  qed
  have "\<forall>x \<in> pl_seen p. dealt_with V db (grab V c h q p) x" using d by (metis prod_cases3)
  moreover have "sound_view (V q)" using assms(2) t by (simp add: drops_def)
  moreover have "held_ok (known db p) (pl_seen p) (((pl_hands p)(c := h)) c')" for c' using assms(3) t by simp
  ultimately show ?thesis using t sub seen last k unfolding tracked_def by (simp add: subset_iff)
qed

lemma tracked_add:
  assumes "stream_laws Q V" "tracked V db p" "sc_add Q (pl_q p) s raw = (ok, q)"
  shows "tracked V db (grab V c (pl_hands p c) q p)"
proof -
  note t = assms(2) [unfolded tracked_def]
  obtain i where i: "i > sv_last (V (pl_q p)) s" "executed ok (V (pl_q p)) (append_entry s i raw (V (pl_q p))) (V q)"
    using stream_law(1) [OF assms(1), of "pl_q p" s raw] assms(3) by auto
  show ?thesis
  proof (cases "V q = V (pl_q p)")
    case True
    then show ?thesis using assms(2) t by (intro tracked_grab [of V db p q "{}"]) (simp_all add: trackedD)
  next
    case False
    let ?p = "grab V c (pl_hands p c) q p"
    from False i(2) have q: "V q = append_entry s i raw (V (pl_q p))" by (auto simp: executed_def)
    have live_entries: "live_entries (V q) = insert (s, i, raw) (live_entries (V (pl_q p)))"
      by (auto simp: q live_entries_def append_entry_def change_def split: if_splits)
    have last: "sv_last (V q) = (sv_last (V (pl_q p)))(s := i)" and dead: "buried (V q) = buried (V (pl_q p))"
      by (simp_all add: q append_entry_def change_def buried_def)
    have sound: "sound_view (V q)"
      using t i(1) unfolding sound_view_def q append_entry_def change_def by (fastforce dest: leD)
    have seen: "pl_seen ?p = insert (s, i, raw) (pl_seen p)" using t live_entries by auto
    have fresh: "(s, i, raw') \<notin> pl_seen p" for raw' using t i(1) by (meson leD)
    have k: "known db ?p = known db p" by (simp add: known_def)
    have held: "held_ok (known db ?p) (pl_seen ?p) g" if "held_ok (known db p) (pl_seen p) g" for g
      using that unfolding k seen by (rule held_ok_mono) auto
    have dw: "dealt_with V db ?p x" if "dealt_with V db p x" for x
      using that by (auto simp: dealt_with_def k live_entries dead)
    have new: "dealt_with V db ?p (s, i, raw)" by (simp add: dealt_with_def live_entries)
    have old: "\<forall>s i raw. (s, i, raw) \<in> pl_seen p \<longrightarrow> i \<le> sv_last (V (pl_q p)) s"
      and same: "\<forall>s i raw raw'. (s, i, raw) \<in> pl_seen p \<longrightarrow> (s, i, raw') \<in> pl_seen p \<longrightarrow> raw = raw'"
      and dealt: "\<forall>x \<in> pl_seen p. dealt_with V db p x" using t by simp_all
    have "(t, j, r) \<in> pl_seen ?p \<Longrightarrow> j \<le> sv_last (V q) t" for t j r
      using old [rule_format, of t j r] i(1) unfolding seen last by (cases "t = s") auto
    moreover have "(t, j, r) \<in> pl_seen ?p \<Longrightarrow> (t, j, r') \<in> pl_seen ?p \<Longrightarrow> r = r'" for t j r r'
      using same fresh unfolding seen by blast
    moreover have "live_entries (V q) \<subseteq> pl_seen ?p" by simp
    moreover have "x \<in> pl_seen ?p \<Longrightarrow> dealt_with V db ?p x" for x using dealt dw new unfolding seen by blast
    moreover have "held_ok (known db ?p) (pl_seen ?p) (pl_hands ?p c')" for c' using t held by simp
    ultimately show ?thesis using sound t unfolding tracked_def k by simp
  qed
qed

lemma tracked_log:
  assumes "tracked V db p" "pl_q p' = pl_q p" "pl_seen p' = pl_seen p" "known db p \<subseteq> known db p'"
    "ib_id ` set (db_inbox (pl_db p')) \<subseteq> known db p'" "\<And>c. held_ok (known db p') (pl_seen p) (pl_hands p' c)"
  shows "tracked V db p'"
proof -
  have "dealt_with V db p x \<Longrightarrow> dealt_with V db p' x" for x using assms(2,4) unfolding dealt_with_def by auto
  then show ?thesis using assms unfolding tracked_def by simp
qed

lemma known_same [simp]:
  "known db (p\<lparr>pl_now := t\<rparr>) = known db p" "known db (p\<lparr>pl_retention := r, pl_hands := h\<rparr>) = known db p"
  "known db (p\<lparr>pl_hands := h, pl_retention := r\<rparr>) = known db p" "known db (grab V c g q p) = known db p"
  by (simp_all add: known_def)

lemma tracked_step: "plant_step Q V env cfg p p' \<Longrightarrow> stream_laws Q V \<Longrightarrow> tracked V db p \<Longrightarrow> tracked V db p'"
proof (induction rule: plant_step.induct)
  case (tick p t)
  then show ?case by (intro tracked_log [OF tick(3)]) (simp_all add: trackedD held_ok_simps)
next
  case (add p s raw ok q c)
  then show ?case by (intro tracked_add)
next
  case (read_some p c ms asked out q)
  note d = read_dead [OF read_some.prems(1) read_some.hyps(2)]
  have "held_ok (known db p) (pl_seen p) (Collecting ms)" using read_some by (metis tracked_def)
  moreover have "live_entries (V (pl_q p)) \<subseteq> pl_seen p" using read_some.prems by (simp add: tracked_def)
  ultimately have "held_ok (known db p) (pl_seen p) (Collecting (ms @ out))" using d(2) by (fastforce simp: held_ok_simps)
  then show ?case using read_some.prems d(1) by (intro tracked_grab [of V db p q "{}"]) (simp_all add: to_dead_def)
next
  case (read_raises p c ms asked q)
  then show ?case using read_dead(1) [OF read_raises.prems(1) read_raises.hyps(2)]
    by (intro tracked_grab [of V db p q "{}"]) (simp_all add: to_dead_def held_ok_simps)
next
  case (reclaim p c ms s out q)
  obtain new where d: "to_dead (V (pl_q p)) (V q)" "out = ms @ new"
      "\<forall>(t, i, e) \<in> set new. \<exists>raw. (t, i, raw) \<in> live_entries (V (pl_q p)) \<and> decode_message raw = Some e"
    using reclaim_dead [OF reclaim.prems(1) reclaim.hyps(2)] by blast
  have "held_ok (known db p) (pl_seen p) (Collecting ms)" using reclaim by (metis tracked_def)
  moreover have "live_entries (V (pl_q p)) \<subseteq> pl_seen p" using reclaim.prems by (simp add: tracked_def)
  ultimately have "held_ok (known db p) (pl_seen p) (Collecting out)" using d(2,3) by (fastforce simp: held_ok_simps)
  then show ?case using reclaim.prems d(1) by (intro tracked_grab [of V db p q "{}"]) (simp_all add: to_dead_def)
next
  case (commit p c ms accepted db' retention acknowledged)
  note t = transact_inbox [OF commit.hyps(3)]
  let ?p = "p\<lparr>pl_db := db', pl_retention := (pl_retention p)(c := retention), pl_hands := (pl_hands p)(c := Settling acknowledged ms),
      pl_log := pl_log p @ map (Pair (pl_now p)) accepted\<rparr>"
  have k: "known db ?p = known db p \<union> event_key ` set accepted" by (auto simp: known_def image_Un image_image)
  have ib: "ib_id ` set (db_inbox (pl_db p)) \<subseteq> known db p" using commit.prems(2) by (simp add: tracked_def)
  have held: "held_ok (known db p) (pl_seen p) (pl_hands p c')" for c' using commit.prems(2) by (simp add: tracked_def)
  have "event_key e \<in> known db ?p" if "(s, i, e) \<in> set ms" for s i e
  proof -
    from held [of c] that commit.hyps(1) obtain raw where d: "decode_message raw = Some e" by (auto simp: held_ok_simps)
    have "e \<in> set (map (snd \<circ> snd) ms)" using that by force
    from t(6) [OF this decoded_key [OF d]] show ?thesis using ib unfolding k by auto
  qed
  then have "held_ok (known db ?p) (pl_seen ?p) (Settling acknowledged ms)" using held [of c] commit.hyps(1) by (fastforce simp: held_ok_simps)
  moreover have "held_ok (known db ?p) (pl_seen ?p) (pl_hands p c')" for c' using held by (rule held_ok_mono) (auto simp: k)
  ultimately have h: "held_ok (known db ?p) (pl_seen ?p) (pl_hands ?p c')" for c' by simp
  have "ib_id ` set (db_inbox db') \<subseteq> known db ?p"
  proof
    fix x
    assume "x \<in> ib_id ` set (db_inbox db')"
    then obtain r where "r \<in> set (db_inbox (pl_db p)) \<or> r \<in> inbox_row_of (pl_now p) ` set accepted" "x = ib_id r" using t(4) by blast
    then show "x \<in> known db ?p" using ib unfolding k by auto
  qed
  then show ?case using h by (intro tracked_log [OF commit.prems(2)]) (auto simp: k)
next
  case (roll_back p c ms retention)
  have held: "held_ok (known db p) (pl_seen p) (pl_hands p c')" for c' using roll_back.prems(2) by (simp add: tracked_def)
  then have "held_ok (known db p) (pl_seen p) (Settling False ms)" using held_ok_simps(2) roll_back.hyps by metis
  then show ?case using held roll_back.prems(2) by (intro tracked_log [OF roll_back.prems(2)]) (simp_all add: trackedD held_ok_simps)
next
  case (settle p c committed ms error)
  have "held_ok (known db p) (pl_seen p) (Settling committed ms)" using settle by (metis tracked_def)
  then have "\<forall>(s, i) \<in> (if committed then msg_ids ms else {}).
      \<exists>raw e. (s, i, raw) \<in> pl_seen p \<and> decode_message raw = Some e \<and> event_key e \<in> known db p"
    by (fastforce simp: held_ok_simps msg_ids_def split: if_splits)
  then show ?case using settle.prems settle_drops [OF settle.prems(1)]
    by (intro tracked_grab [of V db p _ "if committed then msg_ids ms else {}"]) (simp_all add: held_ok_simps)
next
  case (crash p c)
  then show ?case by (intro tracked_log [OF crash(2)]) (simp_all add: trackedD held_ok_simps)
qed

lemma tracked_reachable: "plant_reachable Q V env cfg db p \<Longrightarrow> stream_laws Q V \<Longrightarrow> tracked V db p"
proof (induction rule: plant_reachable.induct)
  case (start q now)
  have "raw = raw'" if "(s, i, raw) \<in> live_entries (V q)" "(s, i, raw') \<in> live_entries (V q)" for s i raw raw'
    using that start(1) unfolding live_entries_def sound_view_def by (auto simp: distinct_map inj_on_def)
  moreover have "i \<le> sv_last (V q) s" if "(s, i, raw) \<in> live_entries (V q)" for s i raw using that start(1) by (auto simp: live_entries_def sound_view_def)
  ultimately show ?case using start(1) by (auto simp: tracked_def plant_start_def dealt_with_def held_ok_simps known_def)
next
  case (step p p')
  then show ?case by (blast intro: tracked_step)
qed

text \<open>
  C27: no event is lost: every entry that was ever in a stream is still there to be delivered, or is among the dead
  letters, or carries an event whose id was applied, whichever commands raised and whichever writers crashed.
\<close>

theorem nothing_lost:
  assumes "stream_laws Q V" "plant_reachable Q V env cfg db p" "(s, i, raw) \<in> pl_seen p"
  shows "(s, i, raw) \<in> live_entries (V (pl_q p)) \<or> (\<exists>d \<in> set (sv_dead (V (pl_q p))). dl_stream d = s \<and> dl_id d = i) \<or>
    (\<exists>e. decode_message raw = Some e \<and>
       (event_key e \<in> ib_id ` set (db_inbox db) \<or> (\<exists>(t, e') \<in> set (pl_log p). event_key e' = event_key e)))"
proof -
  have "dealt_with V db p (s, i, raw)" using tracked_reachable [OF assms(2,1)] assms(3) by (auto simp: tracked_def)
  then show ?thesis by (fastforce simp: dealt_with_def buried_def known_def)
qed

text \<open>A publication that returned an id left its event in its stream.\<close>

lemma published_live:
  assumes "stream_laws Q V" "publish_event Q redis event q = (Some i, q')"
  shows "\<exists>s n. stream_key (str_or (dget event ''kind'') []) = Some s \<and> (s, n, Some (json_dumps True (PDict event))) \<in> live_entries (V q')"
proof -
  obtain s where s: "stream_key (str_or (dget event ''kind'') []) = Some s" and
      q: "sc_add Q q s (Some (json_dumps True (PDict event))) = (True, q')"
    using assms(2) by (auto simp: publish_event_def Let_def split: if_splits option.splits prod.splits)
  from stream_law(1) [OF assms(1), of q s "Some (json_dumps True (PDict event))"] q
  obtain n where "V q' = append_entry s n (Some (json_dumps True (PDict event))) (V q)" by (auto simp: executed_def)
  then have "(s, n, Some (json_dumps True (PDict event))) \<in> live_entries (V q')" by (auto simp: live_entries_def append_entry_def change_def)
  with s show ?thesis by blast
qed

subsection \<open>Usage totals\<close>

lemma counts_eq: "a = b \<longleftrightarrow> c_requests a = c_requests b \<and> c_success a = c_success b \<and> c_fail a = c_fail b \<and> c_prompt a = c_prompt b \<and>
    c_completion a = c_completion b \<and> c_total a = c_total b \<and> c_cache_read a = c_cache_read b \<and>
    c_cache_creation a = c_cache_creation b \<and> c_reasoning a = c_reasoning b \<and> c_cache_hits a = c_cache_hits (b :: counts)"
  by (cases a; cases b) simp

lemma add_counts_ac:
  "add_counts a b = add_counts b a" "add_counts (add_counts a b) c = add_counts a (add_counts b c)"
  "add_counts a (add_counts b c) = add_counts b (add_counts a c)"
  by (simp_all add: counts_eq add_counts_def)

lemma add_no_counts [simp]: "add_counts no_counts c = c" "add_counts c no_counts = c"
  by (simp_all add: counts_eq add_counts_def no_counts_def)

definition sum_counts :: "counts list \<Rightarrow> counts" where
  "sum_counts cs = foldr add_counts cs no_counts"

lemma sum_counts_simps [simp]: "sum_counts [] = no_counts" "sum_counts (c # cs) = add_counts c (sum_counts cs)"
  by (simp_all add: sum_counts_def)

lemma sum_counts_append [simp]: "sum_counts (xs @ ys) = add_counts (sum_counts xs) (sum_counts ys)"
  by (induction xs) (simp_all add: add_counts_ac(2))

definition entry_of :: "(bucket \<times> counts) list \<Rightarrow> bucket \<Rightarrow> counts" where
  "entry_of d k = (case map_of d k of Some c \<Rightarrow> c | None \<Rightarrow> no_counts)"

definition add_at :: "bucket \<Rightarrow> counts \<Rightarrow> (bucket \<times> counts) list \<Rightarrow> (bucket \<times> counts) list" where
  "add_at k c = upsert_at k no_counts (add_counts c)"

lemma entry_add_at: "entry_of (add_at k c d) k' = (if k' = k then add_counts c (entry_of d k') else entry_of d k')"
  by (auto simp: entry_of_def add_at_def upsert_at_def update_conv' split: option.splits)

lemma distinct_upsert_at: "distinct (map fst d) \<Longrightarrow> distinct (map fst (upsert_at k z f d))"
  by (simp add: upsert_at_def distinct_update)

text \<open>The buckets of an event, and what it adds to a bucket.\<close>

definition usage_buckets :: "writer_env \<Rightarrow> rat \<Rightarrow> pydict \<Rightarrow> bucket list" where
  "usage_buckets env now event = map (\<lambda>(dim, i). (utc_day env now (dget event ''occurred_at''), dim, i)) (usage_dims (payload_of event))"

definition daily_counts :: "writer_env \<Rightarrow> rat \<times> pydict \<Rightarrow> bucket \<Rightarrow> counts" where
  "daily_counts env x k =
     (if dget (snd x) ''kind'' = PStr ''usage'' \<and> k \<in> set (usage_buckets env (fst x) (snd x))
      then (case usage_counts (payload_of (snd x)) of Some c \<Rightarrow> c | None \<Rightarrow> no_counts) else no_counts)"

lemma distinct_buckets: "distinct (usage_buckets env now event)"
  by (auto simp: usage_buckets_def usage_dims_def)

lemma fold_add_at: "distinct ks \<Longrightarrow> entry_of (fold (\<lambda>k. add_at k c) ks d) k' = (if k' \<in> set ks then add_counts c (entry_of d k') else entry_of d k')"
  by (induction ks arbitrary: d) (auto simp: entry_add_at)

lemma fold_groups:
  "distinct (map fst g) \<Longrightarrow> entry_of (fold (\<lambda>(k, c). upsert_at k no_counts (add_counts c)) g d) k' = add_counts (entry_of g k') (entry_of d k')"
proof (induction g arbitrary: d)
  case (Cons x g)
  obtain k c where x: "x = (k, c)" by fastforce
  have "entry_of (fold (\<lambda>(k, c). upsert_at k no_counts (add_counts c)) (x # g) d) k' = add_counts (entry_of g k') (entry_of (add_at k c d) k')"
    using Cons by (simp add: x add_at_def)
  moreover have "entry_of (x # g) k' = (if k' = k then c else entry_of g k')" "entry_of g k = no_counts"
    using Cons.prems by (simp_all add: x entry_of_def) (metis map_of_eq_None_iff option.case(1))
  ultimately show ?case by (simp add: entry_add_at)
qed (simp add: entry_of_def)

lemma add_usage_daily:
  assumes "add_usage env now event b = Some b'" "distinct (map fst (ub_daily b))" "dget event ''kind'' = PStr ''usage''"
  shows "entry_of (ub_daily b') k = add_counts (daily_counts env (now, event) k) (entry_of (ub_daily b) k)" "distinct (map fst (ub_daily b'))"
proof -
  let ?day = "utc_day env now (dget event ''occurred_at'')"
  obtain c where c: "usage_counts (payload_of event) = Some c"
      "ub_daily b' = fold (\<lambda>(dim, i). upsert_at (?day, dim, i) no_counts (add_counts c)) (usage_dims (payload_of event)) (ub_daily b)"
    using assms(1) by (auto simp: add_usage_def bind_eq_Some_conv Let_def)
  have d: "fold (\<lambda>(dim, i). upsert_at (?day, dim, i) no_counts (add_counts c)) ds x =
      fold (\<lambda>k. add_at k c) (map (\<lambda>(dim, i). (?day, dim, i)) ds) x" for ds x
    by (induction ds arbitrary: x) (auto simp: add_at_def)
  then show "entry_of (ub_daily b') k = add_counts (daily_counts env (now, event) k) (entry_of (ub_daily b) k)"
    using fold_add_at [OF distinct_buckets [of env now event], of c "ub_daily b" k] c assms(3) by (simp add: daily_counts_def usage_buckets_def)
  have "distinct (map fst x) \<Longrightarrow> distinct (map fst (fold (\<lambda>(dim, i). upsert_at (?day, dim, i) no_counts (add_counts c)) ds x))" for ds x
    by (induction ds arbitrary: x) (auto simp: distinct_upsert_at)
  then show "distinct (map fst (ub_daily b'))" using assms(2) c(2) by simp
qed

lemma group_usage_daily:
  "group_usage env now es b = Some b' \<Longrightarrow> distinct (map fst (ub_daily b)) \<Longrightarrow> \<forall>e \<in> set es. dget e ''kind'' = PStr ''usage'' \<Longrightarrow>
     entry_of (ub_daily b') k = add_counts (sum_counts (map (\<lambda>e. daily_counts env (now, e) k) es)) (entry_of (ub_daily b) k) \<and>
     distinct (map fst (ub_daily b'))"
proof (induction es arbitrary: b)
  case (Cons e es)
  then obtain b1 where b1: "add_usage env now e b = Some b1" "group_usage env now es b1 = Some b'" by (auto simp: bind_eq_Some_conv)
  have e: "dget e ''kind'' = PStr ''usage''" using Cons.prems(3) by simp
  note a = add_usage_daily [OF b1(1) Cons.prems(2) e]
  show ?case using Cons.IH [OF b1(2) a(2)] Cons.prems(3) a(1) [of k] by (simp add: add_counts_ac(2,3))
qed simp

lemma insert_details_daily: "insert_details env ds db = Some db' \<Longrightarrow> db_daily db' = db_daily db"
  by (induction ds arbitrary: db) (auto simp: insert_detail_def bind_eq_Some_conv split: if_splits)

lemma charge_daily [simp]: "db_daily (fold charge_account gs db) = db_daily db" "db_daily (fold charge_key ks db) = db_daily db"
proof -
  show "db_daily (fold charge_account gs db) = db_daily db" by (induction gs arbitrary: db) (auto simp: charge_account_def)
  show "db_daily (fold charge_key ks db) = db_daily db" by (induction ks arbitrary: db) (auto simp: charge_key_def)
qed

definition daily_of :: "wdb \<Rightarrow> bucket \<Rightarrow> counts" where
  "daily_of db k = entry_of (db_daily db) k"

lemma apply_usage_daily:
  assumes "apply_usage env now es db = Some (n, db')" "\<forall>e \<in> set es. dget e ''kind'' = PStr ''usage''"
  shows "daily_of db' k = add_counts (sum_counts (map (\<lambda>e. daily_counts env (now, e) k) es)) (daily_of db k)"
proof -
  obtain b where b: "group_usage env now es no_usage = Some b"
      "db_daily db' = fold (\<lambda>(k, c). upsert_at k no_counts (add_counts c)) (ub_daily b) (db_daily db)"
    using assms(1) by (auto simp: apply_usage_def bind_eq_Some_conv Let_def dest!: insert_details_daily)
  have "distinct (map fst (ub_daily b)) \<and> entry_of (ub_daily b) k = sum_counts (map (\<lambda>e. daily_counts env (now, e) k) es)"
    using group_usage_daily [OF b(1) _ assms(2), of k] by (simp add: no_usage_def entry_of_def)
  then show ?thesis using fold_groups [of "ub_daily b" "db_daily db" k] by (simp add: daily_of_def b(2))
qed

lemma sum_of_kind:
  "sum_counts (map (\<lambda>e. daily_counts env (now, e) k) (of_kind ''usage'' es)) = sum_counts (map (\<lambda>e. daily_counts env (now, e) k) es)"
  by (induction es) (auto simp: of_kind_def daily_counts_def)

lemma transact_daily:
  assumes "transact env cfg now retention es db = Some (acc, db', retention')"
  shows "daily_of db' k = add_counts (daily_of db k) (sum_counts (map (\<lambda>x. daily_counts env x k) (map (Pair now) acc)))"
proof -
  obtain ib rows m db2 where d: "apply_usage env now (of_kind ''usage'' acc) (db\<lparr>db_inbox := ib, db_rows := rows\<rparr>) = Some (m, db2)"
      "db' = db2 \<or> db' = prune cfg now db2"
    using assms by (auto simp: transact_def bind_eq_Some_conv Let_def split: prod.splits if_splits)
  have "\<forall>e \<in> set (of_kind ''usage'' acc). dget e ''kind'' = PStr ''usage''" by (simp add: of_kind_def)
  from apply_usage_daily [OF d(1) this, of k] have "daily_of db2 k = add_counts (sum_counts (map (\<lambda>e. daily_counts env (now, e) k) acc)) (daily_of db k)"
    by (simp add: sum_of_kind daily_of_def)
  moreover have "daily_of db' k = daily_of db2 k" using d(2) by (auto simp: prune_def Let_def daily_of_def)
  ultimately show ?thesis by (simp add: comp_def add_counts_ac(1))
qed

lemma daily_step:
  "plant_step Q V env cfg p p' \<Longrightarrow> daily_of (pl_db p) k = add_counts d (sum_counts (map (\<lambda>x. daily_counts env x k) (pl_log p))) \<Longrightarrow>
     daily_of (pl_db p') k = add_counts d (sum_counts (map (\<lambda>x. daily_counts env x k) (pl_log p')))"
proof (induction rule: plant_step.induct)
  case (commit p c ms accepted db retention acknowledged)
  from transact_daily [OF commit.hyps(3), of k] commit.prems show ?case by (simp add: add_counts_ac(2))
qed simp_all

lemma daily_reachable:
  "plant_reachable Q V env cfg db p \<Longrightarrow> daily_of (pl_db p) k = add_counts (daily_of db k) (sum_counts (map (\<lambda>x. daily_counts env x k) (pl_log p)))"
proof (induction rule: plant_reachable.induct)
  case (step p p')
  then show ?case by (blast intro: daily_step)
qed (simp add: plant_start_def)

definition balanced :: "counts \<Rightarrow> bool" where
  "balanced c \<longleftrightarrow> c_requests c = c_success c + c_fail c \<and> c_cache_hits c \<le> c_success c \<and> 0 \<le> c_success c \<and> 0 \<le> c_fail c \<and>
     0 \<le> c_prompt c \<and> 0 \<le> c_completion c \<and> 0 \<le> c_total c"

lemma balanced_add: "balanced a \<Longrightarrow> balanced b \<Longrightarrow> balanced (add_counts a b)"
  by (simp add: balanced_def add_counts_def)

lemma token_count_nonneg: "token_count ok v = Some n \<Longrightarrow> 0 \<le> n"
  by (auto simp: token_count_def split: if_splits)

lemma balanced_event: "balanced (daily_counts env x k)"
proof (cases "usage_counts (payload_of (snd x))")
  case (Some c)
  then have "balanced c" by (auto simp: usage_counts_def balanced_def bind_eq_Some_conv Let_def token_count_nonneg)
  with Some show ?thesis by (simp add: daily_counts_def balanced_def no_counts_def)
qed (simp add: daily_counts_def balanced_def no_counts_def)

lemma balanced_sum: "balanced (sum_counts (map (\<lambda>x. daily_counts env x k) xs))"
  by (induction xs) (simp_all add: balanced_add balanced_event, simp add: balanced_def no_counts_def)

text \<open>
  C28: in every reachable state a bucket of the daily usage holds what it held at the start and the sum over the applied
  events, each counted once; its requests are its successes and failures, and its cache hits are among the successes.
\<close>

theorem usage_counted:
  assumes "plant_reachable Q V env cfg db p"
  shows "daily_of (pl_db p) k = add_counts (daily_of db k) (sum_counts (map (\<lambda>x. daily_counts env x k) (pl_log p))) \<and>
    (balanced (daily_of db k) \<longrightarrow> balanced (daily_of (pl_db p) k))"
  using daily_reachable [OF assms] by (simp add: balanced_add balanced_sum)

end
