(* ===== verification/Writer_Batches.thy ===== *)
theory Writer_Batches
  imports Writer_Theorems
begin

text \<open>
  Batches of the writer: how large they grow, that account statistics do not depend on how events are cut into batches,
  and that a round of the loop is a run of steps.
\<close>

subsection \<open>The size of a batch\<close>

lemma reclaim_length:
  assumes "stream_laws Q V" shows "length (fst (reclaim Q cfg c now q)) \<le> wc_batch cfg"
proof -
  have "length (fst st) \<le> wc_batch cfg \<Longrightarrow> length (fst (reclaim_stream Q cfg c now s st)) \<le> wc_batch cfg" for s st
    using reclaim_dead [OF assms, of cfg c now s "fst st" "snd st"] by (cases "reclaim_stream Q cfg c now s st") auto
  then have "length (fst st) \<le> wc_batch cfg \<Longrightarrow> length (fst (fold (reclaim_stream Q cfg c now) ss st)) \<le> wc_batch cfg" for ss st
    by (induction ss arbitrary: st) auto
  then show ?thesis by (simp add: reclaim_def)
qed

lemma read_length:
  assumes "stream_laws Q V" "read_streams Q cfg c now (Some n) q = (Some out, q')" "0 < n" "n \<le> wc_batch cfg"
  shows "length out \<le> 3 * n"
  using read_dead(3) [OF assms(1,2) refl] assms(3,4) by (simp add: read_count_def max_def)

lemma collect_loop_length:
  assumes "stream_laws Q V"
  shows "collect_loop Q cfg c ticks (batch, q) = (Some out, q') \<Longrightarrow> length batch \<le> 3 * wc_batch cfg \<Longrightarrow> length out \<le> 3 * wc_batch cfg"
proof (induction ticks arbitrary: batch q)
  case (Cons now ticks)
  show ?case
  proof (cases "wc_batch cfg \<le> length batch")
    case False
    obtain r q1 where r: "read_streams Q cfg c now (Some (wc_batch cfg - length batch)) q = (r, q1)" by fastforce
    show ?thesis
    proof (cases "\<exists>m ms. r = Some (m # ms)")
      case True
      then obtain m ms where m: "r = Some (m # ms)" by blast
      have "length (m # ms) \<le> 3 * (wc_batch cfg - length batch)" using read_length [OF assms r [unfolded m]] False by simp
      then have "length (batch @ m # ms) \<le> 3 * wc_batch cfg" using False by simp
      then show ?thesis using Cons False r m by simp
    next
      case no: False
      then show ?thesis using Cons.prems False r by (auto split: option.splits list.splits)
    qed
  qed (use Cons.prems in simp)
qed simp

lemma collect_loop_enough:
  "wc_batch cfg - length batch \<le> length ticks \<Longrightarrow> collect_loop Q cfg c (ticks @ extra) (batch, q) = collect_loop Q cfg c ticks (batch, q)"
proof (induction ticks arbitrary: batch q)
  case Nil
  then show ?case by (cases extra) auto
next
  case (Cons now ticks)
  then show ?case by (auto split: option.splits list.splits prod.splits)
qed

text \<open>
  C30: collecting ends: a batch is complete after at most \<open>WRITER_BATCH_SIZE\<close> reads, however long the flush window stays
  open; and it holds at most three times that many messages.
\<close>

theorem collect_ends:
  assumes "stream_laws Q V" "wc_batch cfg \<le> length ticks"
  shows "collect_batch Q cfg c now (ticks @ extra) q = collect_batch Q cfg c now ticks q \<and>
    (case fst (collect_batch Q cfg c now ticks q) of None \<Rightarrow> True | Some batch \<Rightarrow> length batch \<le> 3 * wc_batch cfg)"
proof -
  obtain batch q1 where r: "reclaim Q cfg c now q = (batch, q1)" by fastforce
  then have "length batch \<le> wc_batch cfg" using reclaim_length [OF assms(1), of cfg c now q] by simp
  then show ?thesis
    using collect_loop_enough [of cfg batch ticks Q c extra q1] collect_loop_length [OF assms(1), of cfg c ticks batch q1] assms(2) r
    by (cases "collect_loop Q cfg c ticks (batch, q1)") (auto simp: collect_batch_def split: option.splits)
qed

subsection \<open>Statistics do not depend on the batches\<close>

definition delta_of :: "rat \<Rightarrow> pydict \<Rightarrow> stats_delta option" where
  "delta_of now e = add_delta now e no_delta"

definition plus_delta :: "stats_delta \<Rightarrow> stats_delta \<Rightarrow> stats_delta" where
  "plus_delta a b = \<lparr>sd_requests = sd_requests a + sd_requests b, sd_success = sd_success a + sd_success b,
     sd_fail = sd_fail a + sd_fail b, sd_reset = (if sd_version a < sd_version b then sd_reset b else sd_reset a),
     sd_version = max (sd_version a) (sd_version b), sd_last = max (sd_last a) (sd_last b)\<rparr>"

lemma add_delta_plus:
  "0 \<le> sd_version row \<Longrightarrow> 0 \<le> sd_last row \<Longrightarrow> add_delta now e row = map_option (plus_delta row) (delta_of now e)"
  by (auto simp: add_delta_def delta_of_def no_delta_def plus_delta_def Let_def split: Option.bind_splits)

text \<open>The deltas of published events: a new version always comes with the reset.\<close>

definition sound_delta :: "stats_delta \<Rightarrow> bool" where
  "sound_delta d \<longleftrightarrow> 0 \<le> sd_version d \<and> 0 \<le> sd_last d \<and> (sd_reset d \<longleftrightarrow> 0 < sd_version d)"

lemma sound_plus: "sound_delta a \<Longrightarrow> sound_delta b \<Longrightarrow> sound_delta (plus_delta a b)"
  by (auto simp: sound_delta_def plus_delta_def)

lemma plus_assoc: "sound_delta a \<Longrightarrow> sound_delta b \<Longrightarrow> sound_delta c \<Longrightarrow> plus_delta (plus_delta a b) c = plus_delta a (plus_delta b c)"
  by (auto simp: sound_delta_def plus_delta_def)

definition put_delta :: "stats_delta \<Rightarrow> pool_row option \<Rightarrow> pool_row" where
  "put_delta d r = (case r of None \<Rightarrow> insert_delta d | Some r \<Rightarrow> merge_delta d r)"

lemma dset_again: "dset (dset d k v) k v = dset d k v"
  by (simp add: dset_def update_triv map_of_eq_None_iff update_conv')

lemma greatest_max: "greatest (greatest x (Some a)) (Some b) = greatest x (Some (max a b))" "greatest (Some a) (Some b) = Some (max a b)"
  by (auto simp: greatest_def max.assoc split: option.splits)

lemma reset_once:
  assumes "sound_delta a" "sound_delta b"
  shows "(if v < max (sd_version a) (sd_version b) \<and> (if sd_version a < sd_version b then sd_reset b else sd_reset a) then dset e k z else e) =
    (if max v (sd_version a) < sd_version b \<and> sd_reset b
     then dset (if v < sd_version a \<and> sd_reset a then dset e k z else e) k z
     else if v < sd_version a \<and> sd_reset a then dset e k z else e)"
  using assms by (auto simp: sound_delta_def dset_again)

lemma merge_merge: "sound_delta a \<Longrightarrow> sound_delta b \<Longrightarrow> merge_delta (plus_delta a b) r = merge_delta b (merge_delta a r)"
  unfolding merge_delta_def plus_delta_def
  by (simp add: reset_once [simplified] greatest_max max.assoc add.assoc cong: if_cong)

lemma insert_merge: "sound_delta d \<Longrightarrow> insert_delta d = merge_delta d default_row"
  by (auto simp: sound_delta_def insert_delta_def merge_delta_def default_row_def greatest_def dset_def)

lemma put_plus: "sound_delta a \<Longrightarrow> sound_delta b \<Longrightarrow> put_delta (plus_delta a b) r = put_delta b (Some (put_delta a r))"
  by (cases r) (simp_all add: put_delta_def insert_merge sound_plus merge_merge)

lemma plus_no_delta: "sound_delta d \<Longrightarrow> plus_delta no_delta d = d"
  by (cases d) (auto simp: sound_delta_def plus_delta_def no_delta_def)

lemma map_of_upsert: "map_of (upsert_delta (a, d) rows) = (map_of rows)(a \<mapsto> put_delta d (map_of rows a))"
  by (auto simp: upsert_delta_def update_conv' put_delta_def split: option.splits)

lemma map_of_upserts:
  "distinct (map fst g) \<Longrightarrow> map_of (fold upsert_delta g rows) a =
     (case map_of g a of None \<Rightarrow> map_of rows a | Some d \<Rightarrow> Some (put_delta d (map_of rows a)))"
proof (induction g arbitrary: rows)
  case (Cons x g)
  obtain k d where x: "x = (k, d)" by fastforce
  have "map_of g k = None" using Cons.prems by (simp add: x map_of_eq_None_iff)
  with Cons show ?case by (auto simp: x map_of_upsert split: option.splits)
qed simp

text \<open>An event as the gateway publishes it: a success with a version asks for the reset.\<close>

definition resets :: "pydict \<Rightarrow> bool" where
  "resets e \<longleftrightarrow> (case int_or0 (dget (payload_of e) ''success'') of
     Some n \<Rightarrow> 0 < success_seq (payload_of e) n \<longrightarrow> truthy (dget (payload_of e) ''reset_consecutive_fails'')
   | None \<Rightarrow> True)"

lemma sound_event: "resets e \<Longrightarrow> delta_of now e = Some d \<Longrightarrow> sound_delta d"
  by (auto simp: resets_def delta_of_def add_delta_def no_delta_def sound_delta_def Let_def bind_eq_Some_conv split: if_splits)

lemma stats_payload_resets:
  "dget e ''payload'' = PDict (stats_payload a success seq used) \<Longrightarrow> resets e"
  by (auto simp: resets_def payload_of_def stats_payload_def success_seq_def dget_def)

fun one_by_one :: "rat \<Rightarrow> pydict list \<Rightarrow> pg_rows \<Rightarrow> pg_rows option" where
  "one_by_one now [] rows = Some rows"
| "one_by_one now (e # es) rows = Option.bind (apply_account_stats now [e] rows) (\<lambda>(n, rows'). one_by_one now es rows')"

definition put_event :: "rat \<Rightarrow> pydict \<Rightarrow> pg_rows \<Rightarrow> pg_rows option" where
  "put_event now e rows =
     (if stats_account e = [] then Some rows else map_option (\<lambda>d. upsert_delta (stats_account e, d) rows) (delta_of now e))"

lemma apply_one: "apply_account_stats now [e] rows = map_option (Pair (if stats_account e = [] then 0 else 1)) (put_event now e rows)"
  by (auto simp: apply_account_stats_def put_event_def delta_of_def split: option.splits Option.bind_splits)

lemma one_by_one_step: "one_by_one now (e # es) rows = Option.bind (put_event now e rows) (one_by_one now es)"
  by (cases "put_event now e rows") (simp_all add: apply_one)

lemma put_event_same:
  "map_of rows = map_of rows' \<Longrightarrow> map_option map_of (put_event now e rows) = map_option map_of (put_event now e rows')"
  by (auto simp: put_event_def map_of_upsert option.map_comp comp_def)

lemma one_by_one_same:
  "map_of rows = map_of rows' \<Longrightarrow> map_option map_of (one_by_one now es rows) = map_option map_of (one_by_one now es rows')"
proof (induction es arbitrary: rows rows')
  case (Cons e es)
  note same = put_event_same [OF Cons.prems, of now e]
  show ?case
  proof (cases "put_event now e rows")
    case None
    then have "put_event now e rows' = None" using same by simp
    with None show ?thesis by (simp add: one_by_one_step del: one_by_one.simps)
  next
    case (Some r)
    with same obtain r' where r': "put_event now e rows' = Some r'" "map_of r = map_of r'" by (cases "put_event now e rows'") auto
    from Cons.IH [OF r'(2)] Some r'(1) show ?thesis by (simp add: one_by_one_step del: one_by_one.simps)
  qed
qed simp

definition sound_groups :: "(string \<times> stats_delta) list \<Rightarrow> bool" where
  "sound_groups g \<longleftrightarrow> distinct (map fst g) \<and> (\<forall>a d. map_of g a = Some d \<longrightarrow> sound_delta d)"

lemma add_to_group:
  assumes "sound_groups g" "sound_delta d"
    and row: "row = plus_delta (case map_of g a of Some r \<Rightarrow> r | None \<Rightarrow> no_delta) d"
  shows "sound_groups (AList.update a row g)"
    "map_of (fold upsert_delta (AList.update a row g) rows) = map_of (upsert_delta (a, d) (fold upsert_delta g rows))"
proof -
  have r: "sound_delta row" using assms by (auto simp: sound_groups_def plus_no_delta sound_plus split: option.splits)
  have dist: "distinct (map fst (AList.update a row g))" using assms(1) by (simp add: sound_groups_def distinct_update)
  with r assms(1) show "sound_groups (AList.update a row g)" by (auto simp: sound_groups_def update_conv')
  have g: "distinct (map fst g)" using assms(1) by (simp add: sound_groups_def)
  show "map_of (fold upsert_delta (AList.update a row g) rows) = map_of (upsert_delta (a, d) (fold upsert_delta g rows))"
  proof
    fix x
    show "map_of (fold upsert_delta (AList.update a row g) rows) x = map_of (upsert_delta (a, d) (fold upsert_delta g rows)) x"
    proof (cases "x = a")
      case True
      show ?thesis
      proof (cases "map_of g a")
        case None
        then show ?thesis using True assms(2) unfolding map_of_upserts [OF dist] unfolding map_of_upsert row
          by (simp add: map_of_upserts [OF g] update_conv' plus_no_delta)
      next
        case (Some d0)
        then have "sound_delta d0" using assms(1) by (auto simp: sound_groups_def)
        with Some show ?thesis using True assms(2) unfolding map_of_upserts [OF dist] unfolding map_of_upsert row
          by (simp add: map_of_upserts [OF g] update_conv' put_plus)
      qed
    qed (simp add: map_of_upserts [OF dist] map_of_upsert map_of_upserts [OF g] update_conv')
  qed
qed

lemma group_stats_one_by_one:
  assumes "list_all resets es" "sound_groups g"
  shows "map_option (\<lambda>g'. map_of (fold upsert_delta g' rows)) (group_stats now es g) = map_option map_of (one_by_one now es (fold upsert_delta g rows))"
  using assms
proof (induction es arbitrary: g)
  case (Cons e es)
  let ?a = "stats_account e" and ?rows = "fold upsert_delta g rows"
  let ?r = "case map_of g ?a of Some r \<Rightarrow> r | None \<Rightarrow> no_delta"
  show ?case
  proof (cases "?a = []")
    case True
    then show ?thesis using Cons by (simp add: one_by_one_step put_event_def del: one_by_one.simps)
  next
    case False
    have "sound_delta no_delta" by (simp add: sound_delta_def no_delta_def)
    then have "0 \<le> sd_version ?r \<and> 0 \<le> sd_last ?r" using Cons.prems(2) by (auto simp: sound_groups_def sound_delta_def split: option.splits)
    then have add: "add_delta now e ?r = map_option (plus_delta ?r) (delta_of now e)" by (simp add: add_delta_plus)
    show ?thesis
    proof (cases "delta_of now e")
      case None
      then show ?thesis using False add by (simp add: one_by_one_step put_event_def del: one_by_one.simps)
    next
      case (Some d)
      have d: "sound_delta d" using sound_event [OF _ Some] Cons.prems(1) by simp
      note g' = add_to_group [OF Cons.prems(2) d refl, of ?a]
      have "map_option (\<lambda>g'. map_of (fold upsert_delta g' rows)) (group_stats now es (AList.update ?a (plus_delta ?r d) g)) =
          map_option map_of (one_by_one now es (fold upsert_delta (AList.update ?a (plus_delta ?r d) g) rows))"
        using Cons.IH [OF _ g'(1)] Cons.prems(1) by simp
      also have "\<dots> = map_option map_of (one_by_one now es (upsert_delta (?a, d) ?rows))" by (rule one_by_one_same [OF g'(2)])
      finally show ?thesis using False add Some by (simp add: one_by_one_step put_event_def Let_def del: one_by_one.simps)
    qed
  qed
qed simp

text \<open>
  C29: for published statistics a batch leaves the account rows that its events leave when each is applied in a
  transaction of its own, and it fails exactly when one of them fails.
\<close>

theorem stats_batch_irrelevant:
  assumes "list_all resets events"
  shows "map_option (map_of \<circ> snd) (apply_account_stats now events rows) = map_option map_of (one_by_one now events rows)"
  using group_stats_one_by_one [OF assms, of "[]" rows now] by (simp add: sound_groups_def apply_account_stats_def option.map_comp comp_def)

subsection \<open>The loop takes steps of the relation\<close>

text \<open>A reachable state in which the consumer \<open>c\<close> stands as given.\<close>

definition stands ::
  "'q stream_cmds \<Rightarrow> ('q \<Rightarrow> stream_view) \<Rightarrow> writer_env \<Rightarrow> writer_cfg \<Rightarrow> wdb \<Rightarrow> string \<Rightarrow> (string \<times> nat \<times> string option) set \<Rightarrow>
     rat \<Rightarrow> 'q \<Rightarrow> hand \<Rightarrow> wdb \<Rightarrow> rat \<Rightarrow> (rat \<times> pydict) list \<Rightarrow> bool" where
  "stands Q V env cfg db0 c S now q h db retention hist \<longleftrightarrow>
     (\<exists>p. plant_reachable Q V env cfg db0 p \<and> pl_now p = now \<and> pl_q p = q \<and> pl_hands p c = h \<and> pl_db p = db \<and> pl_retention p c = retention \<and>
        pl_log p = hist \<and> S \<subseteq> pl_seen p)"

lemma stands_step:
  assumes "stands (Q :: 'q stream_cmds) V env cfg db0 c S now q h db ret hist"
    "\<And>p. pl_now p = now \<Longrightarrow> pl_q p = q \<Longrightarrow> pl_hands p c = h \<Longrightarrow> pl_db p = db \<Longrightarrow> pl_retention p c = ret \<Longrightarrow> pl_log p = hist \<Longrightarrow>
      plant_step Q V env cfg p (f p) \<and> pl_now (f p) = now' \<and> pl_q (f p) = q' \<and> pl_hands (f p) c = h' \<and> pl_db (f p) = db' \<and>
      pl_retention (f p) c = ret' \<and> pl_log (f p) = hist' \<and> pl_seen p \<subseteq> pl_seen (f p)"
  shows "stands Q V env cfg db0 c S now' q' h' db' ret' hist'"
proof -
  from assms(1) obtain p where p: "plant_reachable Q V env cfg db0 p" "pl_now p = now" "pl_q p = q" "pl_hands p c = h" "pl_db p = db"
      "pl_retention p c = ret" "pl_log p = hist" "S \<subseteq> pl_seen p" by (auto simp: stands_def)
  note f = assms(2) [OF p(2-7)]
  have "S \<subseteq> pl_seen (f p)" using f p(8) by blast
  with plant_reachable.step [OF p(1) conjunct1 [OF f]] f show ?thesis unfolding stands_def by blast
qed

lemma grab_retention [simp]: "pl_retention (grab V c h q p) = pl_retention p"
  by (simp add: grab_def)

lemma stands_tick: "stands Q V env cfg db0 c S now q h db ret hist \<Longrightarrow> now \<le> t \<Longrightarrow> stands Q V env cfg db0 c S t q h db ret hist"
  by (erule stands_step [where f = "\<lambda>p. p\<lparr>pl_now := t\<rparr>"]) (auto intro: plant_step.tick)

lemma stands_reclaim:
  assumes "stands (Q :: 'q stream_cmds) V env cfg db0 c S now q (Collecting ms) db ret hist" "reclaim_stream Q cfg c now s (ms, q) = (out, q')"
  shows "stands Q V env cfg db0 c S now q' (Collecting out) db ret hist"
  using assms(2) by (intro stands_step [OF assms(1), where f = "\<lambda>p. grab V c (Collecting out) q' p"])
    (auto intro: plant_step.reclaim [where s = s and ms = ms])

lemma stands_reclaims:
  "stands Q V env cfg db0 c S now q (Collecting ms) db ret hist \<Longrightarrow> fold (reclaim_stream Q cfg c now) ss (ms, q) = (out, q') \<Longrightarrow>
     stands Q V env cfg db0 c S now q' (Collecting out) db ret hist"
proof (induction ss arbitrary: ms q)
  case (Cons s ss)
  obtain ms1 q1 where r: "reclaim_stream Q cfg c now s (ms, q) = (ms1, q1)" by fastforce
  from Cons.IH [OF stands_reclaim [OF Cons.prems(1) r]] Cons.prems(2) r show ?case by simp
qed simp

lemma stands_read:
  assumes "stands (Q :: 'q stream_cmds) V env cfg db0 c S now q (Collecting ms) db ret hist" "read_streams Q cfg c now asked q = (out, q')"
  shows "stands Q V env cfg db0 c S now q' (Collecting (case out of Some o1 \<Rightarrow> ms @ o1 | None \<Rightarrow> [])) db ret hist"
proof (cases out)
  case None
  then show ?thesis using assms(2) by (intro stands_step [OF assms(1), where f = "\<lambda>p. grab V c (Collecting []) q' p"])
    (auto intro: plant_step.read_raises [where ms = ms and asked = asked])
next
  case (Some o1)
  then show ?thesis using assms(2) by (intro stands_step [OF assms(1), where f = "\<lambda>p. grab V c (Collecting (ms @ o1)) q' p"])
    (auto intro: plant_step.read_some [where ms = ms and asked = asked])
qed

lemma stands_collect:
  "stands Q V env cfg db0 c S now q (Collecting batch) db ret hist \<Longrightarrow> sorted (now # ticks @ [later]) \<Longrightarrow>
     collect_loop Q cfg c ticks (batch, q) = (out, q') \<Longrightarrow>
     stands Q V env cfg db0 c S later q' (Collecting (case out of Some b \<Rightarrow> b | None \<Rightarrow> [])) db ret hist"
proof (induction ticks arbitrary: now batch q)
  case Nil
  then show ?case using stands_tick [OF Nil(1)] by auto
next
  case (Cons t ticks)
  have s: "stands Q V env cfg db0 c S t q (Collecting batch) db ret hist" using stands_tick [OF Cons.prems(1)] Cons.prems(2) by simp
  have t: "sorted (t # ticks @ [later])" "t \<le> later" using Cons.prems(2) by auto
  show ?case
  proof (cases "wc_batch cfg \<le> length batch")
    case True
    with Cons.prems(3) have "out = Some batch" "q' = q" by simp_all
    then show ?thesis using stands_tick [OF s t(2)] by simp
  next
    case False
    obtain r q1 where r: "read_streams Q cfg c t (Some (wc_batch cfg - length batch)) q = (r, q1)" by fastforce
    note s1 = stands_read [OF s r]
    consider "r = None" | "r = Some []" | m ms where "r = Some (m # ms)" by (metis list.exhaust option.exhaust)
    then show ?thesis
    proof cases
      case 3
      then have "collect_loop Q cfg c ticks (batch @ m # ms, q1) = (out, q')" using Cons.prems(3) False r by simp
      then show ?thesis using Cons.IH [OF _ t(1)] s1 3 by simp
    qed (use s1 stands_tick [OF s1 t(2)] Cons.prems(3) False r in auto)
  qed
qed

lemma stands_settle:
  assumes "stands (Q :: 'q stream_cmds) V env cfg db0 c S now q (Settling b ms) db ret hist"
  shows "stands Q V env cfg db0 c S now (settle Q cfg error b ms q) (Collecting []) db ret hist"
  by (intro stands_step [OF assms, where f = "\<lambda>p. grab V c (Collecting []) (settle Q cfg error b ms (pl_q p)) p"])
    (auto intro: plant_step.settle)

lemma stands_roll_back:
  assumes "stands (Q :: 'q stream_cmds) V env cfg db0 c S now q (Collecting ms) db ret hist"
  shows "stands Q V env cfg db0 c S now q (Settling False ms) db ret' hist"
  by (intro stands_step [OF assms, where f = "\<lambda>p. p\<lparr>pl_retention := (pl_retention p)(c := ret'), pl_hands := (pl_hands p)(c := Settling False ms)\<rparr>"])
    (auto intro: plant_step.roll_back)

lemma stands_commit:
  assumes "stands (Q :: 'q stream_cmds) V env cfg db0 c S now q (Collecting ms) db ret hist" "ms \<noteq> []"
    "transact env cfg now ret (map (snd \<circ> snd) ms) db = Some (acc, db', ret')"
  shows "stands Q V env cfg db0 c S now q (Settling b ms) db' ret' (hist @ map (Pair now) acc)"
  using assms(2,3) by (intro stands_step [OF assms(1), where f = "\<lambda>p. p\<lparr>pl_db := db', pl_retention := (pl_retention p)(c := ret'),
      pl_hands := (pl_hands p)(c := Settling b ms), pl_log := pl_log p @ map (Pair (pl_now p)) acc\<rparr>"])
    (auto intro!: plant_step.commit)

text \<open>What a processed batch, and a whole round, adds to the log.\<close>

definition applied_by :: "writer_env \<Rightarrow> writer_cfg \<Rightarrow> rat \<Rightarrow> pg_fate \<Rightarrow> msg list \<Rightarrow> rat \<Rightarrow> wdb \<Rightarrow> (rat \<times> pydict) list" where
  "applied_by env cfg now fate ms retention db =
     (if ms = [] \<or> fate \<in> {Off, Lost, Lost_Commit} then []
      else (case transact env cfg now retention (map (snd \<circ> snd) ms) db of Some (acc, _) \<Rightarrow> map (Pair now) acc | None \<Rightarrow> []))"

lemma stands_process:
  assumes "stands (Q :: 'q stream_cmds) V env cfg db0 c S now q (Collecting ms) db (ws_retention w) hist"
    "process Q env cfg now fate error ms (w, db, q) = (w', db', q')" "fate \<noteq> Off"
  shows "stands Q V env cfg db0 c S now q' (Collecting []) db' (ws_retention w') (hist @ applied_by env cfg now fate ms (ws_retention w) db)"
proof (cases "ms = []")
  case True
  with assms show ?thesis by (auto simp: process_def applied_by_def)
next
  case ms: False
  show ?thesis
  proof (cases "if fate = Lost then None else transact env cfg now (ws_retention w) (map (snd \<circ> snd) ms) db")
    case None
    then have "w' = w" "db' = db" "q' = settle Q cfg error False ms q" using assms(2,3) ms by (auto simp: process_def)
    then show ?thesis using stands_settle [OF stands_roll_back [OF assms(1)]] None by (simp add: applied_by_def split: if_splits)
  next
    case (Some x)
    obtain acc db1 ret' where x: "x = (acc, db1, ret')" by (metis prod_cases3)
    then have t: "transact env cfg now (ws_retention w) (map (snd \<circ> snd) ms) db = Some (acc, db1, ret')" and lost: "fate \<noteq> Lost"
      using Some by (auto split: if_splits)
    have w': "w' = w\<lparr>ws_retention := ret'\<rparr>" "db' = (if fate = Lost_Commit then db else db1)" "q' = settle Q cfg error (fate = Works) ms q"
      using Some x assms(2,3) ms by (auto simp: process_def)
    show ?thesis
    proof (cases "fate = Lost_Commit")
      case True
      then show ?thesis using stands_settle [OF stands_roll_back [OF assms(1)]] w' by (simp add: applied_by_def)
    next
      case False
      then show ?thesis using stands_settle [OF stands_commit [OF assms(1) ms t]] w' lost assms(3) ms t by (simp add: applied_by_def)
    qed
  qed
qed

lemma stands_round:
  assumes "stands (Q :: 'q stream_cmds) V env cfg db0 c S now q (Collecting []) db (ws_retention w) hist" "ws_alive w"
    "sorted (now # ticks @ [later])" "fate \<noteq> Off"
    "run_round Q env cfg c now ticks later fate error (w, db, q) = (w', db', q')"
  shows "stands Q V env cfg db0 c S later q' (Collecting []) db' (ws_retention w')
    (hist @ (case fst (collect_batch Q cfg c now ticks q) of Some ms \<Rightarrow> applied_by env cfg later fate ms (ws_retention w) db | None \<Rightarrow> []))"
proof -
  obtain b1 q1 where r: "fold (reclaim_stream Q cfg c now) STREAM_KINDS ([], q) = (b1, q1)" by fastforce
  obtain out q2 where o: "collect_loop Q cfg c ticks (b1, q1) = (out, q2)" by fastforce
  note s2 = stands_collect [OF stands_reclaims [OF assms(1) r] assms(3) o]
  have c: "collect_batch Q cfg c now ticks q = (out, q2)" using r o by (simp add: collect_batch_def reclaim_def)
  show ?thesis
  proof (cases out)
    case None
    then have "w' = w\<lparr>ws_alive := False\<rparr>" "db' = db" "q' = q2" using assms(2,5) c by (simp_all add: run_round_def)
    then show ?thesis using s2 None c by simp
  next
    case (Some batch)
    then have "process Q env cfg later fate error batch (w, db, q2) = (w', db', q')" using assms(2,5) c by (simp add: run_round_def)
    from stands_process [OF _ this assms(4)] s2 Some c show ?thesis by simp
  qed
qed

text \<open>
  C31: every round of a writer's loop, whatever fails in it, is a run of steps of the relation the safety properties are
  stated over: from a reachable state it leads to a reachable state with its streams and tables.
\<close>

theorem round_refines:
  assumes "plant_reachable Q V env cfg db0 p" "pl_hands p c = Collecting []" "pl_retention p c = ws_retention w" "ws_alive w"
    "sorted (pl_now p # ticks @ [later])" "fate \<noteq> Off"
    "run_round Q env cfg c (pl_now p) ticks later fate error (w, pl_db p, pl_q p) = (w', db', q')"
  shows "\<exists>p'. plant_reachable Q V env cfg db0 p' \<and> pl_db p' = db' \<and> pl_q p' = q' \<and> pl_hands p' c = Collecting [] \<and>
    pl_retention p' c = ws_retention w' \<and> pl_seen p \<subseteq> pl_seen p' \<and>
    pl_log p' = pl_log p @ (case fst (collect_batch Q cfg c (pl_now p) ticks (pl_q p)) of
      Some ms \<Rightarrow> applied_by env cfg later fate ms (ws_retention w) (pl_db p) | None \<Rightarrow> [])"
proof -
  have "stands Q V env cfg db0 c (pl_seen p) (pl_now p) (pl_q p) (Collecting []) (pl_db p) (ws_retention w) (pl_log p)"
    using assms(1-3) unfolding stands_def by blast
  from stands_round [OF this assms(4-7)] show ?thesis unfolding stands_def by blast
qed

end
