(* ===== verification/Writer_Examples.thy ===== *)
theory Writer_Examples
  imports Writer_Batches
begin

text \<open>
  A Redis that keeps the laws, runs of the writer over it as instances of the properties, and what one bad or badly timed
  event does to the others.
\<close>

subsection \<open>A Redis to try them on\<close>

text \<open>Its entries and last ids by stream, and for each command to come whether it raises.\<close>

record sample_redis =
  sr_entries :: "(string \<times> entry list) list"
  sr_last :: "(string \<times> nat) list"
  sr_dead :: "dead_letter list"
  sr_faults :: "bool list"

definition found :: "'v \<Rightarrow> (string \<times> 'v) list \<Rightarrow> string \<Rightarrow> 'v" where
  "found z xs s = (case map_of xs s of Some v \<Rightarrow> v | None \<Rightarrow> z)"

definition sr_view :: "sample_redis \<Rightarrow> stream_view" where
  "sr_view q = \<lparr>sv_entries = found [] (sr_entries q), sv_last = found 0 (sr_last q), sv_dead = sr_dead q\<rparr>"

definition sr_change :: "string \<Rightarrow> (entry list \<Rightarrow> entry list) \<Rightarrow> sample_redis \<Rightarrow> sample_redis" where
  "sr_change s f q = q\<lparr>sr_entries := AList.update s (f (found [] (sr_entries q) s)) (sr_entries q)\<rparr>"

definition sr_append :: "string \<Rightarrow> string option \<Rightarrow> sample_redis \<Rightarrow> sample_redis" where
  "sr_append s raw q =
     (let i = Suc (found 0 (sr_last q) s)
      in (sr_change s (\<lambda>es. es @ [\<lparr>se_id = i, se_raw = raw, se_state = Waiting\<rparr>]) q)\<lparr>sr_last := AList.update s i (sr_last q)\<rparr>)"

definition sr_deliver :: "string \<Rightarrow> rat \<Rightarrow> nat set \<Rightarrow> string \<Rightarrow> sample_redis \<Rightarrow> sample_redis" where
  "sr_deliver c now ids s = sr_change s (map (\<lambda>e. if se_id e \<in> ids \<and> se_state e \<noteq> Acked then delivered_to c now e else e))"

definition sr_do :: "(sample_redis \<Rightarrow> sample_redis) \<Rightarrow> sample_redis \<Rightarrow> bool \<times> sample_redis" where
  "sr_do f q = (case sr_faults q of
       True # fs \<Rightarrow> (False, q\<lparr>sr_faults := fs\<rparr>)
     | False # fs \<Rightarrow> (True, f (q\<lparr>sr_faults := fs\<rparr>))
     | [] \<Rightarrow> (True, f q))"

definition sample_cmds :: "sample_redis stream_cmds" where
  "sample_cmds =
     \<lparr>sc_add = (\<lambda>q s raw. sr_do (sr_append s raw) q),
      sc_read = (\<lambda>t q c n.
        let v = sr_view q; (ok, q') = sr_do (fold (\<lambda>s. sr_deliver c t (se_id ` set (take n (waiting v s))) s) STREAM_KINDS) q
        in (if ok then Some (new_rows v n) else None, q')),
      sc_claim = (\<lambda>t q s c idle n.
        let es = take n (filter (idle_for t idle) (sv_entries (sr_view q) s)); (ok, q') = sr_do (sr_deliver c t (se_id ` set es) s) q
        in (if ok then Some (map fields_of es) else None, q')),
      sc_ack = (\<lambda>q s ids. sr_do (sr_change s (map (\<lambda>e. if se_id e \<in> set ids \<and> se_state e \<noteq> Waiting then e\<lparr>se_state := Acked\<rparr> else e))) q),
      sc_del = (\<lambda>q s ids. sr_do (sr_change s (filter (\<lambda>e. se_id e \<notin> set ids))) q),
      sc_pending = (\<lambda>q s i. (case find (\<lambda>e. se_id e = i) (sv_entries (sr_view q) s) of
          Some e \<Rightarrow> (case se_state e of Pending _ n _ \<Rightarrow> Some n | _ \<Rightarrow> None) | None \<Rightarrow> None, q)),
      sc_dead = (\<lambda>q d. sr_do (\<lambda>q. q\<lparr>sr_dead := sr_dead q @ [d]\<rparr>) q)\<rparr>"

lemma found_update: "found z (AList.update s x xs) = (found z xs)(s := x)"
  by (auto simp: found_def update_conv')

lemma sr_views:
  "sr_view (sr_change s f q) = change s f (sr_view q)" "sr_view (q\<lparr>sr_faults := fs\<rparr>) = sr_view q"
  "sr_view (sr_deliver c now ids s q) = deliver c now ids s (sr_view q)"
  "sr_view (q\<lparr>sr_dead := ds\<rparr>) = (sr_view q)\<lparr>sv_dead := ds\<rparr>"
  "sr_view (sr_append s raw q) = append_entry s (Suc (sv_last (sr_view q) s)) raw (sr_view q)"
  by (simp_all add: sr_view_def sr_change_def change_def found_update sr_deliver_def deliver_def sr_append_def append_entry_def Let_def)

lemma sr_view_fold: "sr_view (fold (\<lambda>s. sr_deliver c t (ids s) s) ss q) = fold (\<lambda>s. deliver c t (ids s) s) ss (sr_view q)"
  by (induction ss arbitrary: q) (simp_all add: sr_views)

lemma sr_do_view: "(\<And>q. sr_view (f q) = g (sr_view q)) \<Longrightarrow> sr_do f q = (ok, q') \<Longrightarrow> sr_view q' = (if ok then g (sr_view q) else sr_view q)"
  by (auto simp: sr_do_def sr_views split: list.splits bool.splits)

lemma sr_do_executed:
  assumes "\<And>q. sr_view (f q) = g (sr_view q)"
  shows "executed (fst (sr_do f q)) (sr_view q) (g (sr_view q)) (sr_view (snd (sr_do f q)))"
proof -
  obtain ok q' where d: "sr_do f q = (ok, q')" by fastforce
  from sr_do_view [of f g, OF assms d] d show ?thesis by (simp add: executed_def)
qed

lemma sample_laws: "stream_laws sample_cmds sr_view"
  unfolding stream_laws_def
proof (intro conjI allI, goal_cases)
  case (1 q s raw)
  have "executed (fst (sr_do (sr_append s raw) q)) (sr_view q) (append_entry s (Suc (sv_last (sr_view q) s)) raw (sr_view q))
      (sr_view (snd (sr_do (sr_append s raw) q)))"
    by (rule sr_do_executed [where g = "\<lambda>v. append_entry s (Suc (sv_last v s)) raw v"]) (simp add: sr_views)
  then show ?case by (auto simp: sample_cmds_def)
next
  case (2 t q c n)
  let ?ids = "\<lambda>s. se_id ` set (take n (waiting (sr_view q) s))"
  obtain ok q' where d: "sr_do (fold (\<lambda>s. sr_deliver c t (?ids s) s) STREAM_KINDS) q = (ok, q')" by fastforce
  have "sr_view q' = (if ok then deliver_new c t n (sr_view q) else sr_view q)"
    using sr_do_view [where g = "\<lambda>v. fold (\<lambda>s. deliver c t (?ids s) s) STREAM_KINDS v", OF sr_view_fold d] by (simp add: deliver_new_def)
  moreover have "sc_read sample_cmds t q c n = (if ok then Some (new_rows (sr_view q) n) else None, q')"
    by (simp add: sample_cmds_def Let_def d)
  ultimately show ?case by simp
next
  case (3 t q s c idle n)
  let ?es = "take n (filter (idle_for t idle) (sv_entries (sr_view q) s))"
  obtain ok q' where d: "sr_do (sr_deliver c t (se_id ` set ?es) s) q = (ok, q')" by fastforce
  have "sr_view q' = (if ok then deliver c t (se_id ` set ?es) s (sr_view q) else sr_view q)"
    by (rule sr_do_view [where g = "deliver c t (se_id ` set ?es) s", OF sr_views(3) d])
  moreover have "sc_claim sample_cmds t q s c idle n = (if ok then Some (map fields_of ?es) else None, q')"
    by (simp add: sample_cmds_def Let_def d)
  moreover have "length ?es \<le> n" "set ?es \<subseteq> set (filter (idle_for t idle) (sv_entries (sr_view q) s))" by (auto dest: in_set_takeD)
  ultimately show ?case by (intro exI [of _ ?es]) simp
next
  case (4 q s ids)
  show ?case by (simp add: sample_cmds_def) (rule sr_do_executed, simp add: sr_views ack_ids_def)
next
  case (5 q s ids)
  show ?case by (simp add: sample_cmds_def) (rule sr_do_executed, simp add: sr_views del_ids_def)
next
  case (7 q d)
  show ?case by (simp add: sample_cmds_def) (rule sr_do_executed [where g = "\<lambda>v. v\<lparr>sv_dead := sv_dead v @ [d]\<rparr>"], simp add: sr_views, simp add: sr_view_def)
qed (simp add: sample_cmds_def)

definition sample_queue :: "(string \<times> pydict) list \<Rightarrow> bool list \<Rightarrow> sample_redis" where
  "sample_queue events faults =
     fold (\<lambda>(s, e). sr_append s (Some (json_dumps True (PDict e)))) events
       \<lparr>sr_entries = [], sr_last = [], sr_dead = [], sr_faults = []\<rparr>\<lparr>sr_faults := faults\<rparr>"

definition sample_we :: writer_env where
  "sample_we = \<lparr>we_pg = \<lparr>pe_iso = (\<lambda>s. None), pe_loads = (\<lambda>s. None)\<rparr>, we_day = (\<lambda>t. Some ''2026-01-01''), we_detail_ok = (\<lambda>d. True)\<rparr>"

definition sample_wc :: writer_cfg where
  "sample_wc = \<lparr>wc_batch = 4, wc_flush = 1, wc_retries = 1, wc_days = 1\<rparr>"

definition sample_db :: wdb where
  "sample_db = \<lparr>db_inbox = [], db_rows = [], db_tokens = [], db_keys = [], db_daily = [], db_details = []\<rparr>"

definition sample_event :: "string \<Rightarrow> string \<Rightarrow> pydict \<Rightarrow> pydict" where
  "sample_event i kind p = [(''event_id'', PStr i), (''kind'', PStr kind), (''occurred_at'', PInt 5), (''payload'', PDict p)]"

definition sample_stats :: "string \<Rightarrow> int \<Rightarrow> pydict" where
  "sample_stats i seq = sample_event i ''account_stats'' (stats_payload ''a'' True seq 5)"

definition sample_state :: "string \<Rightarrow> int \<Rightarrow> pydict" where
  "sample_state i seq = sample_event i ''account_state''
     [(''account_id'', PStr ''a''), (''state_seq'', PInt seq), (''patch'', PDict [(''cooldown_until'', PFloat 99), (''pool_status'', PStr ''cooldown'')])]"

definition small_stats :: "string \<Rightarrow> pyval \<Rightarrow> pydict" where
  "small_stats i n = [(''event_id'', PStr i), (''kind'', PStr ''account_stats''), (''account_id'', PStr ''a''), (''payload'', PDict [(''requests'', n)])]"

definition sample_usage :: "string \<Rightarrow> pydict" where
  "sample_usage i = sample_event i ''usage'' [(''ok'', PBool True), (''prompt_tokens'', PInt 3), (''model'', PStr ''m'')]"

text \<open>
  A failure is queued with version 1, the success after it with version 2. In one batch the statistics go first and
  raise the version of the row, so the patch of the failure is refused: the account is not cooling. Cut into two
  batches the patch is applied.
\<close>

definition cooling_of :: "wdb \<Rightarrow> rat option" where
  "cooling_of db = (case map_of (db_rows db) ''a'' of Some r \<Rightarrow> r_cooldown_until r | None \<Rightarrow> None)"

lemma late_success_drops_cooldown:
  "map_option (\<lambda>(acc, db, r). (length acc, cooling_of db)) (transact sample_we sample_wc 9 9 [sample_state ''f'' 1, sample_stats ''s'' 2] sample_db) =
     Some (2, None)"
  "map_option (\<lambda>(acc, db, r). (length acc, cooling_of db))
     (Option.bind (transact sample_we sample_wc 9 9 [sample_state ''f'' 1] sample_db)
        (\<lambda>(acc, db, r). transact sample_we sample_wc 9 9 [sample_stats ''s'' 2] db)) = Some (1, Some 99)"
  by code_simp+

text \<open>
  One event that cannot be applied takes the whole batch with it: after the last delivery all its messages, the sound
  ones too, are among the dead letters.
\<close>

definition sample_round :: "rat \<Rightarrow> writer_cfg \<Rightarrow> writer_state \<times> wdb \<times> sample_redis \<Rightarrow> writer_state \<times> wdb \<times> sample_redis" where
  "sample_round now cfg st = run_round sample_cmds sample_we cfg ''c'' now [now] now Works ''failed'' st"

definition sample_start :: "(string \<times> pydict) list \<Rightarrow> bool list \<Rightarrow> writer_state \<times> wdb \<times> sample_redis" where
  "sample_start events faults = (\<lparr>ws_retention = 0, ws_alive = True\<rparr>, sample_db, sample_queue events faults)"

lemma poison_buries_batch:
  "let (w, db, q) = sample_round 9 sample_wc
         (sample_start [(''account_stats'', small_stats ''s'' (PInt 1)), (''account_stats'', small_stats ''b'' (PStr ''x''))] [])
   in map dl_id (sr_dead q) = [1, 2] \<and> found [] (sr_entries q) ''account_stats'' = [] \<and> db_rows db = []"
  by code_simp

text \<open>When the acknowledgement after a commit raises, an applied event is written to the dead letters as well.\<close>

lemma applied_and_buried:
  "let (w, db, q) = sample_round 9 sample_wc
         (sample_start [(''account_stats'', small_stats ''s'' (PInt 1))] [False, False, False, False, True])
   in map dl_id (sr_dead q) = [1] \<and> map (r_request_count \<circ> snd) (db_rows db) = [1]"
  by code_simp

text \<open>Each stream gives up to the size asked for, so a batch of size 1 holds three messages.\<close>

lemma batch_over_size:
  "map_option length (fst (collect_batch sample_cmds (sample_wc\<lparr>wc_batch := 1\<rparr>) ''c'' 9 [9]
     (sample_queue [(''account_stats'', small_stats ''s'' (PInt 1)), (''account_state'', small_stats ''f'' (PInt 2)),
        (''usage'', small_stats ''u'' (PInt 2))] []))) = Some 3"
  by code_simp

subsection \<open>Instances\<close>

definition sample_applied :: "rat \<Rightarrow> writer_cfg \<Rightarrow> writer_state \<times> wdb \<times> sample_redis \<Rightarrow> (rat \<times> pydict) list" where
  "sample_applied now cfg st =
     (let (w, db, q) = st
      in (if \<not> ws_alive w then []
          else (case fst (collect_batch sample_cmds cfg ''c'' now [now] q) of
                  Some ms \<Rightarrow> applied_by sample_we cfg now Works ms (ws_retention w) db | None \<Rightarrow> [])))"

fun sample_runs ::
  "writer_cfg \<Rightarrow> rat list \<Rightarrow> writer_state \<times> wdb \<times> sample_redis \<Rightarrow> (rat \<times> pydict) list \<Rightarrow>
     (writer_state \<times> wdb \<times> sample_redis) \<times> (rat \<times> pydict) list" where
  "sample_runs cfg [] st hist = (st, hist)"
| "sample_runs cfg (t # ts) st hist = sample_runs cfg ts (sample_round t cfg st) (hist @ sample_applied t cfg st)"

lemma sample_runs_stand:
  "stands sample_cmds sr_view sample_we cfg db0 ''c'' S now q (Collecting []) db (ws_retention w) hist \<Longrightarrow> sorted (now # ts) \<Longrightarrow>
     sample_runs cfg ts (w, db, q) hist = ((w', db', q'), hist') \<Longrightarrow>
     \<exists>t. stands sample_cmds sr_view sample_we cfg db0 ''c'' S t q' (Collecting []) db' (ws_retention w') hist'"
proof (induction ts arbitrary: now w db q hist)
  case (Cons t ts)
  obtain w1 db1 q1 where r: "sample_round t cfg (w, db, q) = (w1, db1, q1)" by (metis prod_cases3)
  have s: "stands sample_cmds sr_view sample_we cfg db0 ''c'' S t q (Collecting []) db (ws_retention w) hist"
    using stands_tick [OF Cons.prems(1)] Cons.prems(2) by simp
  have "stands sample_cmds sr_view sample_we cfg db0 ''c'' S t q1 (Collecting []) db1 (ws_retention w1) (hist @ sample_applied t cfg (w, db, q))"
  proof (cases "ws_alive w")
    case True
    from stands_round [OF s True, of "[t]" t Works "''failed''"] r show ?thesis using True by (simp add: sample_round_def sample_applied_def)
  next
    case False
    then show ?thesis using s r by (simp add: sample_round_def run_round_def sample_applied_def)
  qed
  from Cons.IH [OF this] Cons.prems(2,3) r show ?case by simp
qed auto

lemma sound_append: "sound_view v \<Longrightarrow> sound_view (append_entry s (Suc (sv_last v s)) raw v)"
  unfolding sound_view_def append_entry_def change_def by (fastforce dest: leD)

lemma sound_sample: "sound_view (sr_view (sample_queue events faults))"
proof -
  have *: "sound_view (sr_view q) \<Longrightarrow> sound_view (sr_view (fold (\<lambda>(s, e). sr_append s (f e)) es q))" for f es q
  proof (induction es arbitrary: q)
    case (Cons x es)
    obtain s e where x: "x = (s, e)" by fastforce
    have "sound_view (sr_view (sr_append s (f e) q))" unfolding sr_views(5) by (rule sound_append [OF Cons.prems])
    from Cons.IH [OF this] show ?case by (simp add: x)
  qed simp
  have "sound_view (sr_view \<lparr>sr_entries = [], sr_last = [], sr_dead = [], sr_faults = []\<rparr>)"
    by (simp add: sr_view_def sound_view_def found_def)
  then show ?thesis unfolding sample_queue_def sr_views(2) by (rule *)
qed

lemma sample_reach:
  assumes "sample_runs cfg ts (sample_start events faults) [] = ((w, db, q), hist)" "sorted (0 # ts)"
  shows "\<exists>p. plant_reachable sample_cmds sr_view sample_we cfg sample_db p \<and> pl_log p = hist \<and> pl_db p = db \<and> pl_q p = q \<and>
    live_entries (sr_view (sample_queue events faults)) \<subseteq> pl_seen p"
proof -
  let ?q = "sample_queue events faults"
  have "stands sample_cmds sr_view sample_we cfg sample_db ''c'' (live_entries (sr_view ?q)) 0 ?q (Collecting []) sample_db 0 []"
    unfolding stands_def using plant_reachable.start [of sr_view ?q sample_cmds sample_we cfg sample_db 0, OF sound_sample]
    by (intro exI [of _ "plant_start sr_view ?q sample_db 0"]) (simp add: plant_start_def)
  from sample_runs_stand [of cfg sample_db _ 0 ?q sample_db "\<lparr>ws_retention = 0, ws_alive = True\<rparr>" "[]", OF _ assms(2)] this assms(1)
  show ?thesis unfolding stands_def sample_start_def by fastforce
qed

text \<open>The acknowledgement of the first and the second delivery raise; the second prunes the inbox.\<close>

definition sample_once :: writer_cfg where
  "sample_once = \<lparr>wc_batch = 1, wc_flush = 1, wc_retries = 9, wc_days = 1\<rparr>"

theorem applied_once_witness:
  "\<exists>p. plant_reachable sample_cmds sr_view sample_we sample_once sample_db p \<and>
     pl_log p = [(0, small_stats ''s'' (PInt 1)), (200010, small_stats ''s'' (PInt 1))] \<and> 2 * of_nat (wc_days sample_once) * 86400 < (200010 - 0 :: rat)"
proof -
  let ?e = "small_stats ''s'' (PInt 1)"
  let ?r = "sample_runs sample_once [0, 200000, 200010] (sample_start [(''account_stats'', ?e)] [False, False, False, False, True, False, True]) []"
  have l: "snd ?r = [(0, ?e), (200010, ?e)]" by code_simp
  obtain w db q where r: "?r = ((w, db, q), [(0, ?e), (200010, ?e)])" using l by (metis prod.collapse)
  from sample_reach [OF r] obtain p where p: "plant_reachable sample_cmds sr_view sample_we sample_once sample_db p"
      "pl_log p = [] @ (0, ?e) # [] @ (200010, ?e) # []" by auto
  have "pl_log p = [(0, ?e), (200010, ?e)]" using p(2) by simp
  with applied_once [OF p refl] p(1) show ?thesis by blast
qed

lemma sample_seen:
  assumes "sample_runs cfg ts (sample_start events faults) [] = ((w, db, q), hist)" "sorted (0 # ts)"
    "se \<in> set (found [] (sr_entries (sample_queue events faults)) s)" "se_state se = Waiting"
  shows "\<exists>p. plant_reachable sample_cmds sr_view sample_we cfg sample_db p \<and> pl_log p = hist \<and> pl_db p = db \<and> pl_q p = q \<and>
    (s, se_id se, se_raw se) \<in> pl_seen p"
proof -
  have "(s, se_id se, se_raw se) \<in> live_entries (sr_view (sample_queue events faults))"
    unfolding live_entries_def sr_view_def using assms(3,4) by auto
  with sample_reach [OF assms(1,2)] show ?thesis by blast
qed

theorem nothing_lost_witness:
  "\<exists>p raw. plant_reachable sample_cmds sr_view sample_we sample_wc sample_db p \<and> (''account_stats'', 1, raw) \<in> pl_seen p \<and>
     sr_dead (pl_q p) = [] \<and> found [] (sr_entries (pl_q p)) ''account_stats'' = [] \<and>
     (\<exists>e. decode_message raw = Some e \<and> (\<exists>(t, e') \<in> set (pl_log p). event_key e' = event_key e))"
proof -
  let ?e = "small_stats ''s'' (PInt 1)" and ?es = "[(''account_stats'', small_stats ''s'' (PInt 1))]"
  let ?r = "sample_runs sample_wc [9] (sample_start ?es []) []"
  obtain w db q hist where r: "?r = ((w, db, q), hist)" by (metis prod_cases3 surj_pair)
  have d: "(\<lambda>((w, db, q), h). (sr_dead q, found [] (sr_entries q) ''account_stats'')) ?r = ([], [])" by code_simp
  then have q: "sr_dead q = []" "found [] (sr_entries q) ''account_stats'' = []" by (simp_all only: r prod.case prod.inject)
  let ?en = "\<lparr>se_id = 1, se_raw = Some (json_dumps True (PDict ?e)), se_state = Waiting\<rparr>"
  have "found [] (sr_entries (sample_queue ?es [])) ''account_stats'' = [?en]" by code_simp
  then have "?en \<in> set (found [] (sr_entries (sample_queue ?es [])) ''account_stats'')" by simp
  from sample_seen [OF r _ this] obtain p where p: "plant_reachable sample_cmds sr_view sample_we sample_wc sample_db p" "pl_q p = q"
      "(''account_stats'', 1, se_raw ?en) \<in> pl_seen p" by auto
  have "(''account_stats'', 1, se_raw ?en) \<notin> live_entries (sr_view (pl_q p))" "sv_dead (sr_view (pl_q p)) = []"
    using q by (simp_all add: live_entries_def sr_view_def p(2))
  then have "\<exists>e. decode_message (se_raw ?en) = Some e \<and> (\<exists>(t, e') \<in> set (pl_log p). event_key e' = event_key e)"
    using nothing_lost [OF sample_laws p(1,3)] by (auto simp: sample_db_def)
  with p q show ?thesis by blast
qed

theorem usage_counted_witness:
  "\<exists>p. plant_reachable sample_cmds sr_view sample_we sample_wc sample_db p \<and> length (pl_log p) = 1 \<and>
     c_requests (daily_of (pl_db p) (''2026-01-01'', ''model'', ''m'')) = 1 \<and>
     daily_of (pl_db p) (''2026-01-01'', ''model'', ''m'') =
       add_counts (daily_of sample_db (''2026-01-01'', ''model'', ''m'')) (sum_counts (map (\<lambda>x. daily_counts sample_we x (''2026-01-01'', ''model'', ''m'')) (pl_log p)))"
proof -
  let ?k = "(''2026-01-01'', ''model'', ''m'')"
  let ?r = "sample_runs sample_wc [9] (sample_start [(''usage'', sample_usage ''u'')] []) []"
  obtain w db q hist where r: "?r = ((w, db, q), hist)" by (metis prod_cases3 surj_pair)
  have "(\<lambda>((w, db, q), h). (c_requests (daily_of db ?k), length h)) ?r = (1, 1)" by code_simp
  then have c: "c_requests (daily_of db ?k) = 1" "length hist = 1" by (simp_all only: r prod.case prod.inject)
  from sample_reach [OF r] obtain p where p: "plant_reachable sample_cmds sr_view sample_we sample_wc sample_db p" "pl_db p = db" "pl_log p = hist" by auto
  with usage_counted [OF p(1), of ?k] c show ?thesis by auto
qed

theorem round_refines_witness:
  "\<exists>p'. plant_reachable sample_cmds sr_view sample_we sample_wc sample_db p' \<and> map (r_request_count \<circ> snd) (db_rows (pl_db p')) = [1]"
proof -
  let ?q = "sample_queue [(''account_stats'', small_stats ''s'' (PInt 1))] []" and ?w = "\<lparr>ws_retention = 0, ws_alive = True\<rparr>"
  let ?p = "plant_start sr_view ?q sample_db 9"
  have p: "plant_reachable sample_cmds sr_view sample_we sample_wc sample_db ?p" by (rule plant_reachable.start) (rule sound_sample)
  obtain w db q where r: "run_round sample_cmds sample_we sample_wc ''c'' 9 [9] 9 Works ''failed'' (?w, sample_db, ?q) = (w, db, q)" by (metis prod_cases3)
  have "(\<lambda>(w, db, q). map (r_request_count \<circ> snd) (db_rows db))
      (run_round sample_cmds sample_we sample_wc ''c'' 9 [9] 9 Works ''failed'' (?w, sample_db, ?q)) = [1]" by code_simp
  then have d: "map (r_request_count \<circ> snd) (db_rows db) = [1]" by (simp only: r prod.case)
  have "\<exists>p'. plant_reachable sample_cmds sr_view sample_we sample_wc sample_db p' \<and> pl_db p' = db"
    using round_refines [OF p, of "''c''" ?w "[9]" 9 Works "''failed''" w db q] r by (auto simp: plant_start_def)
  with d show ?thesis by auto
qed

theorem collect_ends_witness:
  "fst (collect_batch sample_cmds (sample_wc\<lparr>wc_batch := 1\<rparr>) ''c'' 9 ([9] @ [9, 9]) (sample_queue [] [])) =
     fst (collect_batch sample_cmds (sample_wc\<lparr>wc_batch := 1\<rparr>) ''c'' 9 [9] (sample_queue [] []))"
  using collect_ends [OF sample_laws, of "sample_wc\<lparr>wc_batch := 1\<rparr>" "[9]" "''c''" 9 "[9, 9]" "sample_queue [] []"] by simp

theorem stats_batch_irrelevant_witness:
  "map_option (\<lambda>rows. map_option r_request_count (map_of (snd rows) ''a'')) (apply_account_stats 9 [sample_stats ''s'' 1, sample_stats ''t'' 2] []) = Some (Some 2) \<and>
   map_option (map_of \<circ> snd) (apply_account_stats 9 [sample_stats ''s'' 1, sample_stats ''t'' 2] []) =
     map_option map_of (one_by_one 9 [sample_stats ''s'' 1, sample_stats ''t'' 2] [])"
proof -
  have "list_all resets [sample_stats ''s'' 1, sample_stats ''t'' 2]"
    by (simp add: sample_stats_def sample_event_def resets_def payload_of_def dget_def stats_payload_def success_seq_def)
  note t = stats_batch_irrelevant [OF this]
  have "map_option (\<lambda>rows. map_option r_request_count (map_of (snd rows) ''a'')) (apply_account_stats 9 [sample_stats ''s'' 1, sample_stats ''t'' 2] []) = Some (Some 2)"
    by code_simp
  with t show ?thesis by blast
qed

end
