(* ===== verification/Spec2Isabelle.thy ===== *)
theory Spec2Isabelle
  imports Store_Theorems Select_Theorems Leader_Theorems Catalog_Theorems Index_Theorems Anthropic_Theorems Responses_Theorems
    Key_Theorems Writer_Examples
begin

text \<open>
  A verification library of grok2api, a gateway that offers the OpenAI and Anthropic interfaces on top of a pool
  of upstream accounts. It covers the part that decides: which account serves a request, what a failure does
  to an account and what brings it back, where the state of an account is stored, which provider and
  upstream model a model name means, which worker runs the background jobs; which API keys a request may show; and the translation between the
  Anthropic and Responses protocols and the one of the upstream.

  \<^bold>\<open>The program and the theories.\<close> A request names a model; the registry resolves it to a route
  (\<open>grok2api/providers/\<close>). A Build route is served by an account of the pool: \<open>acquire\<close> picks one, or
  \<open>try_acquire_sequence\<close> a chain to fail over along (\<open>grok2api/pool/account_pool.py\<close>). The outcome of the request,
  of a model probe, of a token renewal or of a billing check is reported back to the pool, which patches the
  record of the account in the account store: the settings file (\<open>grok2api/admin/settings_store.py\<close>) or a
  PostgreSQL row (\<open>grok2api/store/settings_pg.py\<close>), and the ready index in Redis that fast picks read
  (\<open>grok2api/store/ready_redis.py\<close>). A request of an Anthropic client is turned into a chat body, and the chunks
  of the answer into an event stream (\<open>grok2api/protocol/anthropic_compat.py\<close>); a Responses client is served the
  same way (\<open>grok2api/protocol/openai_responses.py\<close>, driven by its handler in \<open>app.py\<close>). The counters, states and usage of requests are queued as events in Redis
  streams (\<open>grok2api/store/events_redis.py\<close>) and applied by a writer process (\<open>grok2api/writer.py\<close>). Before
  any of this the gate \<open>require_api_key\<close> asks the key store (\<open>grok2api/admin/apikeys.py\<close>). Background jobs run on the worker that holds a lock in
  Redis (\<open>grok2api/store/leader.py\<close>).

  \<^item> \<open>Py_Values\<close>: the values of the language, dictionaries in insertion order, truth, \<open>int\<close>, \<open>float\<close>, the
    string methods. Prelude of every other theory, with the collections \<open>py_dict\<close> and \<open>py_conv\<close>.
  \<^item> \<open>Pool_Policy\<close>: constants, policy knobs and their cache, \<open>_parse_retry_after\<close>, \<open>compute_cooldown_seconds\<close>, the
    free-usage window. \<open>Pool_Status\<close>: \<open>is_in_cooldown\<close>, \<open>is_model_blocked\<close>, \<open>stack_status_entry\<close>, the derived
    label. \<open>Pool_View\<close>: \<open>_pool_meta\<close>, what selection and the handlers read of a record.
  \<^item> \<open>Pool_Store\<close>: the settings file as an account store (\<open>get_account_pool_meta\<close>, \<open>patch_account_pool_meta\<close>,
    \<open>touch_account_stats\<close>) and the interface \<open>store_ops\<close>. \<open>Pool_Row\<close>, \<open>Pool_Pg\<close>: the row codec, the upsert with its
    guards, locked and queued patches, \<open>apply_pool_state_event\<close>.
  \<^item> \<open>Pool_World\<close>: the store with the in-flight marks, soft-use marks, bindings and policy cache around it.
    \<open>Pool_Steps\<close>: sequences of patches that keep other accounts' records.
  \<^item> \<open>Pool_Classify\<close>: reading an upstream error. \<open>Pool_Failure\<close>: free usage, kicks, quota removal, error
    handlers, \<open>_report_failure_impl\<close>. \<open>Pool_Recovery\<close>: clearing, expiry, enabling, billing, renewal marks,
    \<open>record_model_probe_outcome\<close>, \<open>report_success\<close>.
  \<^item> \<open>Pool_Select\<close>: eligibility, the three modes, \<open>acquire\<close>. \<open>Pool_Sequence\<close>: \<open>try_acquire_sequence\<close>.
  \<^item> \<open>Providers\<close>: \<open>providers/types.py\<close> and \<open>registry.py\<close>. \<open>Adapters\<close>: the three adapters with their catalogs and
    status classification, \<open>factory.py\<close>, \<open>catalog.py\<close>, \<open>accounts.py\<close>. \<open>Model_Catalog\<close>: \<open>upstream/models.py\<close> over
    \<open>store/models_pg.py\<close>.
  \<^item> \<open>Leader\<close>: \<open>store/leader.py\<close> over the lock helpers of \<open>store/redis_client.py\<close>.
  \<^item> \<open>Ready_Index\<close>: \<open>store/ready_redis.py\<close> with its claim script, and the picks of \<open>account_pool.py\<close> over it:
    \<open>_acquire_indexed_one\<close>, the lazy chain, \<open>try_acquire_indexed_sequence\<close>.
  \<^item> \<open>Json_Text\<close>: \<open>json.loads\<close>, \<open>raw_decode\<close> and \<open>json.dumps\<close> of the standard library. \<open>Tool_Args\<close>: names and
    arguments of tool calls, their repair, completeness and merge. \<open>Anthropic_Stream\<close>:
    \<open>AnthropicStreamAssembler\<close>. \<open>Anthropic_Messages\<close>: requests, tools and whole replies.
    \<open>Anthropic_Protocol\<close>: the abstract protocol, an automaton over events, and the simulation of every method
    of the assembler; \<open>Anthropic_Texts\<close>: what a client reads.
  \<^item> \<open>Responses_Stream\<close>: usage, events and \<open>ResponsesLiveStreamer\<close>, with a whole live answer as the handler
    runs it (\<open>live_answer\<close>). \<open>Responses_Request\<close>: requests, response objects, the replay of a collected answer,
    failures. \<open>Responses_Protocol\<close>: the protocol as an automaton over numbered frames, and the simulation.
  \<^item> \<open>Api_Keys\<close>: \<open>admin/apikeys.py\<close> with its cache, over \<open>store/keys_pg.py\<close> (a table whose calls may fail) or
    \<open>keys.json\<close>, the wrapping of secrets (\<open>store/crypto.py\<close>) and the gate of \<open>app.py\<close>.
  \<^item> \<open>Event_Queue\<close>: \<open>store/events_redis.py\<close>, the events and the streams of Redis with their consumer group.
    \<open>Writer\<close>: the tables and the parts of the transaction of \<open>writer.py\<close>. \<open>Writer_Loop\<close>: reading, reclaiming,
    the transaction, acknowledgements, dead letters, and the step relation of writers and publishers.
  \<^item> \<open>Pool_Theorems\<close>, \<open>Store_Theorems\<close>, \<open>Select_Theorems\<close>, \<open>Provider_Theorems\<close>, \<open>Catalog_Theorems\<close>, \<open>Leader_Theorems\<close>,
    \<open>Index_Theorems\<close>, \<open>Anthropic_Protocol\<close>, \<open>Anthropic_Texts\<close>, \<open>Anthropic_Theorems\<close>,
    \<open>Responses_Theorems\<close>, \<open>Key_Theorems\<close>, \<open>Writer_Theorems\<close>,
    \<open>Writer_Batches\<close>, \<open>Writer_Examples\<close>: the properties, each with a concrete instance.

  Definitions keep the names of the code; a name that ends in \<open>_patch\<close>, \<open>_path\<close> or \<open>_ok\<close> is a part of the function
  its theory names.

  \<^bold>\<open>State and errors.\<close> A handler takes the world and returns its result with the world after it.
  \<open>Raises\<close> is a Python exception, \<open>None\<close> of a helper too. The world is shared by the sequence of handler
  calls; each handler is atomic, as it is under the lock of its store. In \<open>Leader\<close> a step is one Redis
  command, so the commands of several workers interleave. In \<open>Writer_Loop\<close> a step is one read, one transaction or the
  acknowledgement of one batch; any command may raise, executed or not, and any writer may crash between steps.

  \<^bold>\<open>Interfaces.\<close> \<open>account_store\<close> and \<open>pool_store\<close> state what the transitions need of a store (a patch merges,
  touches no other record, keeps the typing invariant and never ends a cooldown by itself); they are
  interpreted on the settings file (\<open>fs\<close>, \<open>fps\<close>) and on PostgreSQL (\<open>pg\<close>, \<open>pgs\<close>), so every lemma on transitions
  holds of both. \<open>route_table\<close> states what resolution needs of a registry, interpreted as \<open>reg\<close>.
  \<open>provider_adapter\<close> is the contract of an adapter, interpreted as \<open>build\<close>, \<open>web\<close> and \<open>console\<close>.

  \<^bold>\<open>What the lemmas show.\<close> A reported failure always returns, keeps the store's invariant, touches one
  record and sidelines it until a probe or a person readmits it; live successes do not. Selection returns an
  account in rotation whenever there is one, and only then; the modes are fair or minimal as they promise;
  marks balance. A chain is bounded, keeps its pinned account first and holds no cooling account when the
  states are loaded. Queued events apply once; a record survives its row. Resolution is sound, its errors are
  exact, and the built-in model always resolves to Build through catalog, adapter and registry. Adapters keep
  credentials over rate limits and server errors. In every reachable ready index leases keep their cap and no
  account is ready while it cools, though two patches can race. Every stream of the assembler is a well-formed
  Anthropic message whose tools are complete and whose texts arrive whole, and agrees with the whole reply; tool
  results and tools of a request are kept. Every live response refines its protocol, completes exactly when it sent
  something, and keeps its text; three theorems show where the completed object disagrees with the stream. A
  disabled or deleted key is refused from then on and a new one accepted; what a failed read of the key table does to the
  gate and to the other keys is shown too. A queued event is applied once within the retention of the inbox and never
  lost, usage totals are the sum of the applied events, and statistics do not depend on how events are batched; what one
  bad or badly timed event does to a batch is shown. Two leaders never hold the lock at once, though two flags
  can be set.

  \<^bold>\<open>Bounds and limits.\<close> Fuel bounds \<open>watch_until_idle\<close>, where four commands are shown to suffice, and the JSON decoder
  and the decoding of doubled JSON, which get the length of their text and consume a character per unit.
  Floats are exact rationals without infinities and NaN; text is Latin-1 and messages written in Chinese are
  rendered in English, so the two Chinese quota markers of the Build adapter match nothing; the clock is read
  once per call; text columns accept every value. \<open>acquire\<close> and \<open>try_acquire_sequence\<close> are modelled with
  Redis off; the indexed picks stand beside them. Random draws and ids, SHA-256, the cipher, HTTP dates, ISO dates, JSON
  decoding in the pool, and regular-expression searches are parameters. The ids a response draws are \<open>uuid kind n\<close>. 64-bit counters do not overflow. Draining the ready calls of a response needs no fuel: the calls not
  yet sent are its measure. Left out of modelled functions: the fall-backs for a failed import of
  \<open>anthropic_compat\<close>, the prune \<open>acquire\<close> draws with 2%, its branch no valid mode
  reaches, the result of \<open>set_account_enabled\<close>, the fall-backs taken when Redis refuses \<open>EVAL\<close>, process ids
  shared by two hosts.

  \<^bold>\<open>Not modelled.\<close> The HTTP application and administration pages (\<open>app.py\<close> but the streaming part named above,
  \<open>admin_routes.py\<close>), the compaction of histories, network clients (\<open>upstream/\<close> but the catalog, the transports
  under \<open>providers/\<close>), the probing and renewing requests themselves, the cipher and the hash of API keys (parameters), the audit log, media files, usage statistics,
  logs and scripts: input and output around the modelled decisions. Conversation affinity and the maintenance gate would
  come next.
\<close>

end
